(* ===== verification/Lab_Prelude.thy ===== *)
theory Lab_Prelude
  imports Complex_Main "HOL-Library.Log_Nat" "HOL-Library.Sublist"
begin

section \<open>Shared vocabulary of the Downshift model\<close>

text \<open>
  What every component of the development uses: the collections of hints, results that may
  be errors, JavaScript numbers (what \<open>Number.isSafeInteger\<close> accepts and how the addition of
  nonnegative integers rounds in IEEE double precision), the library calls on lists the
  TypeScript uses (\<open>new Set\<close>, \<open>findIndex\<close> with \<open>splice\<close>, \<open>sort\<close>) and the regular
  expressions that name hashes, revisions, profiles and run identities.
\<close>

named_theorems lab_defs \<open>definitions unfolded by the proofs of a component\<close>
named_theorems js_arith \<open>facts on the rounding of JavaScript sums\<close>

subsection \<open>Results\<close>

text \<open>A call that may throw has the type \<open>'e + 'a\<close>: \<open>Inl\<close> is the thrown error.\<close>

definition bind_result :: "'e + 'a \<Rightarrow> ('a \<Rightarrow> 'e + 'b) \<Rightarrow> 'e + 'b" where
  "bind_result m f = (case m of Inl e \<Rightarrow> Inl e | Inr x \<Rightarrow> f x)"

definition check :: "bool \<Rightarrow> 'e \<Rightarrow> 'e + unit" where
  "check ok e = (if ok then Inr () else Inl e)"

lemma bind_result_simps [simp]:
  "bind_result (Inl e) f = Inl e"
  "bind_result (Inr x) f = f x"
  by (simp_all add: bind_result_def)

lemma bind_result_Inr [simp]:
  "bind_result m f = Inr y \<longleftrightarrow> (\<exists>x. m = Inr x \<and> f x = Inr y)"
  by (cases m) simp_all

lemma check_Inr [simp]: "check ok e = Inr u \<longleftrightarrow> ok"
  by (simp add: check_def)

lemma check_True [simp]: "check True e = Inr ()"
  by (simp add: check_def)

lemma check_False [simp]: "check False e = Inl e"
  by (simp add: check_def)

lemma guard_Inr [simp]:
  "(if b then Inl e else m) = Inr x \<longleftrightarrow> \<not> b \<and> m = Inr x"
  "(if b then m else Inl e) = Inr x \<longleftrightarrow> b \<and> m = Inr x"
  by auto

text \<open>An error of a component as an error of its caller.\<close>

definition lift_error :: "('e \<Rightarrow> 'f) \<Rightarrow> 'e + 'a \<Rightarrow> 'f + 'a" where
  "lift_error f r = (case r of Inl e \<Rightarrow> Inl (f e) | Inr x \<Rightarrow> Inr x)"

lemma lift_error_simps [simp]: "lift_error f (Inl e) = Inl (f e)" "lift_error f (Inr x) = Inr x"
  by (simp_all add: lift_error_def)

lemma lift_error_Inr [simp]: "lift_error f r = Inr x \<longleftrightarrow> r = Inr x"
  by (cases r) simp_all

text \<open>Mapping a fallible function over a list stops at the first error, as \<open>for..of\<close> does.\<close>

fun map_result :: "('a \<Rightarrow> 'e + 'b) \<Rightarrow> 'a list \<Rightarrow> 'e + 'b list" where
  "map_result f [] = Inr []"
| "map_result f (x # xs) =
     (case f x of Inl e \<Rightarrow> Inl e
      | Inr y \<Rightarrow> (case map_result f xs of Inl e \<Rightarrow> Inl e | Inr ys \<Rightarrow> Inr (y # ys)))"

lemma map_result_Inr:
  "map_result f xs = Inr ys \<longleftrightarrow> list_all2 (\<lambda>x y. f x = Inr y) xs ys"
proof (induction xs arbitrary: ys)
  case (Cons x xs)
  show ?case
  proof (cases "map_result f xs")
    case (Inl e)
    then have "\<not> list_all2 (\<lambda>x y. f x = Inr y) xs zs" for zs using Cons by (metis sum.distinct(1))
    with Inl show ?thesis by (auto simp: list_all2_Cons1 split: sum.splits)
  next
    case (Inr zs)
    then have "list_all2 (\<lambda>x y. f x = Inr y) xs us \<longleftrightarrow> zs = us" for us using Cons by (metis sum.inject(2))
    with Inr show ?thesis by (auto simp: list_all2_Cons1 split: sum.splits)
  qed
qed auto

lemma map_result_cong: "(\<And>x. x \<in> set xs \<Longrightarrow> f x = g x) \<Longrightarrow> map_result f xs = map_result g xs"
  by (induction xs) (simp_all split: sum.split)

lemma map_result_length [dest]: "map_result f xs = Inr ys \<Longrightarrow> length ys = length xs"
  by (auto simp: map_result_Inr dest: list_all2_lengthD)

subsection \<open>JavaScript numbers\<close>

text \<open>
  A value of type \<open>number\<close> that comes from outside (a provider, a command line) may be any
  double. \<open>MAX_SAFE_INTEGER\<close> is \<open>2 ^ 53 - 1\<close>.
\<close>

datatype jsnum = NaN | PosInf | NegInf | Fin real

fun is_finite :: "jsnum \<Rightarrow> bool" where
  "is_finite (Fin r) = True"
| "is_finite _ = False"

fun is_integer :: "jsnum \<Rightarrow> bool" where
  "is_integer (Fin r) = (of_int \<lfloor>r\<rfloor> = r)"
| "is_integer _ = False"

fun is_safe_integer :: "jsnum \<Rightarrow> bool" where
  "is_safe_integer (Fin r) = (of_int \<lfloor>r\<rfloor> = r \<and> \<bar>r\<bar> \<le> 2 ^ 53 - 1)"
| "is_safe_integer _ = False"

fun js_less :: "jsnum \<Rightarrow> real \<Rightarrow> bool" where
  "js_less (Fin r) b = (r < b)"
| "js_less NegInf b = True"
| "js_less _ b = False"

fun js_greater :: "jsnum \<Rightarrow> real \<Rightarrow> bool" where
  "js_greater (Fin r) b = (b < r)"
| "js_greater PosInf b = True"
| "js_greater _ b = False"

fun js_nat :: "jsnum \<Rightarrow> nat" where
  "js_nat (Fin r) = nat \<lfloor>r\<rfloor>"
| "js_nat _ = 0"

text \<open>
  The sum of two nonnegative integers as a double: exact below \<open>2 ^ 53\<close>, above it rounded
  to the nearest multiple of the unit in the last place, ties to even.
\<close>

definition js_round :: "nat \<Rightarrow> nat" where
  "js_round n =
     (if n < 2 ^ 53 then n
      else let s = floorlog 2 n - 53; q = n div 2 ^ s; r = n mod 2 ^ s; h = 2 ^ (s - 1)
           in (if h < r \<or> (r = h \<and> odd q) then Suc q * 2 ^ s else q * 2 ^ s))"

definition js_add :: "nat \<Rightarrow> nat \<Rightarrow> nat" where
  "js_add a b = js_round (a + b)"

text \<open>\<open>reduce((total, x) => total + x, 0)\<close>.\<close>

definition js_sum :: "nat list \<Rightarrow> nat" where
  "js_sum xs = foldl js_add 0 xs"

lemma js_round_exact [js_arith]: "n < 2 ^ 53 \<Longrightarrow> js_round n = n"
  by (simp add: js_round_def)

lemma js_round_big [js_arith]:
  assumes "2 ^ 53 \<le> n"
  shows "2 ^ 53 \<le> js_round n"
proof -
  define s where "s = floorlog 2 n - 53"
  from assms have n0: "0 < n" by (simp add: order_less_le_trans)
  have bits: "54 \<le> floorlog 2 n"
  proof (rule ccontr)
    assume "\<not> 54 \<le> floorlog 2 n"
    then have "(2::nat) ^ floorlog 2 n \<le> 2 ^ 53" by (intro power_increasing) auto
    moreover have "n < 2 ^ floorlog 2 n"
      using n0 floorlog_bounds [of n 2] by simp
    ultimately show False using assms by simp
  qed
  have "2 ^ (floorlog 2 n - 1) \<le> n" using n0 floorlog_bounds [of n 2] by simp
  also have "floorlog 2 n - 1 = 52 + s" using bits by (simp add: s_def)
  finally have "2 ^ 52 * 2 ^ s \<le> n" by (simp add: power_add)
  then have q: "2 ^ 52 \<le> n div 2 ^ s"
    by (simp add: less_eq_div_iff_mult_less_eq)
  have "1 \<le> s" using bits by (simp add: s_def)
  then have "(2::nat) ^ 1 \<le> 2 ^ s" by (intro power_increasing) auto
  then have "2 ^ 53 \<le> n div 2 ^ s * 2 ^ s"
    using mult_le_mono [OF q, of 2 "2 ^ s"] by simp
  then show ?thesis using assms unfolding js_round_def Let_def s_def [symmetric]
    by (auto intro: order_trans)
qed

lemma js_add_exact [js_arith]: "a + b < 2 ^ 53 \<Longrightarrow> js_add a b = a + b"
  by (simp add: js_add_def js_arith)

lemma js_add_big [js_arith]: "2 ^ 53 \<le> a + b \<Longrightarrow> 2 ^ 53 \<le> js_add a b"
  by (simp only: js_add_def js_round_big)

lemma js_add_eq_iff:
  assumes "t < 2 ^ 53"
  shows "js_add a b = t \<longleftrightarrow> a + b = t"
proof (cases "a + b < 2 ^ 53")
  case True
  then show ?thesis by (simp add: js_add_exact)
next
  case False
  then have "2 ^ 53 \<le> js_add a b" by (intro js_add_big) simp
  with False assms show ?thesis by linarith
qed

lemma js_fold_eq_iff:
  "t < 2 ^ 53 \<Longrightarrow> foldl js_add a xs = t \<longleftrightarrow> a + sum_list xs = t"
proof (induction xs arbitrary: a)
  case Nil
  then show ?case by simp
next
  case (Cons x xs)
  have "foldl js_add a (x # xs) = t \<longleftrightarrow> js_add a x + sum_list xs = t"
    using Cons by simp
  also have "\<dots> \<longleftrightarrow> a + sum_list (x # xs) = t"
  proof (cases "a + x < 2 ^ 53")
    case True
    then show ?thesis by (simp add: js_add_exact add.assoc)
  next
    case False
    then have "2 ^ 53 \<le> js_add a x" by (intro js_add_big) simp
    with False Cons.prems show ?thesis by (simp only: sum_list.Cons) linarith
  qed
  finally show ?case .
qed

text \<open>Comparing a rounded sum with a safe integer decides the comparison of the exact sum.\<close>

lemma js_sum_eq_iff: "t < 2 ^ 53 \<Longrightarrow> js_sum xs = t \<longleftrightarrow> sum_list xs = t"
  by (simp add: js_sum_def js_fold_eq_iff)

lemma js_sum_exact [js_arith]: "sum_list xs < 2 ^ 53 \<Longrightarrow> js_sum xs = sum_list xs"
  by (simp add: js_sum_eq_iff)

subsection \<open>Lists\<close>

text \<open>\<open>[...new Set(xs)]\<close> keeps the first occurrence of each element, in order.\<close>

fun uniq_acc :: "'a list \<Rightarrow> 'a list \<Rightarrow> 'a list" where
  "uniq_acc seen [] = []"
| "uniq_acc seen (x # xs) =
     (if x \<in> set seen then uniq_acc seen xs else x # uniq_acc (x # seen) xs)"

definition new_set :: "'a list \<Rightarrow> 'a list" where
  "new_set xs = uniq_acc [] xs"

lemma uniq_acc_set: "set (uniq_acc seen xs) = set xs - set seen"
  by (induction seen xs rule: uniq_acc.induct) auto

lemma uniq_acc_distinct: "distinct (uniq_acc seen xs)"
  by (induction seen xs rule: uniq_acc.induct) (auto simp: uniq_acc_set)

lemma new_set_set [simp]: "set (new_set xs) = set xs"
  by (simp add: new_set_def uniq_acc_set)

lemma new_set_distinct [simp]: "distinct (new_set xs)"
  by (simp add: new_set_def uniq_acc_distinct)

text \<open>\<open>findIndex\<close> then \<open>splice(index, 1)\<close>: the first element satisfying a test, and the rest.\<close>

fun take_first :: "('a \<Rightarrow> bool) \<Rightarrow> 'a list \<Rightarrow> 'a option \<times> 'a list" where
  "take_first p [] = (None, [])"
| "take_first p (x # xs) =
     (if p x then (Some x, xs) else (let (r, ys) = take_first p xs in (r, x # ys)))"

lemma take_first_None: "fst (take_first p xs) = None \<longleftrightarrow> (\<forall>x \<in> set xs. \<not> p x)"
  by (induction xs) (auto simp: split_def Let_def)

lemma take_first_Some:
  "take_first p xs = (Some x, ys) \<Longrightarrow> p x \<and> x \<in> set xs \<and> length xs = Suc (length ys)"
  by (induction xs arbitrary: ys) (auto split: if_splits prod.splits)

text \<open>How many elements satisfy a test (\<open>filter(..).length\<close>).\<close>

definition count_if :: "('a \<Rightarrow> bool) \<Rightarrow> 'a list \<Rightarrow> nat" where
  "count_if p xs = length (filter p xs)"

lemma count_if_simps [simp]:
  "count_if p [] = 0"
  "count_if p (x # xs) = (if p x then Suc (count_if p xs) else count_if p xs)"
  "count_if p (xs @ ys) = count_if p xs + count_if p ys"
  by (simp_all add: count_if_def)

lemma count_if_split: "count_if p xs + count_if (\<lambda>x. \<not> p x) xs = length xs"
  by (induction xs) auto

lemma count_if_le: "count_if p xs \<le> length xs"
  by (simp add: count_if_def)

lemma count_if_disj:
  "(\<And>x. \<not> (p x \<and> q x)) \<Longrightarrow> count_if (\<lambda>x. p x \<or> q x) xs = count_if p xs + count_if q xs"
  by (induction xs) auto

subsection \<open>Regular expressions of the source\<close>

text \<open>The character classes and whole-string patterns the code tests strings against.\<close>

definition is_lower_hex :: "char \<Rightarrow> bool" where
  "is_lower_hex c \<longleftrightarrow> c \<in> set ''0123456789abcdef''"

definition is_digit :: "char \<Rightarrow> bool" where
  "is_digit c \<longleftrightarrow> c \<in> set ''0123456789''"

definition is_lower :: "char \<Rightarrow> bool" where
  "is_lower c \<longleftrightarrow> c \<in> set ''abcdefghijklmnopqrstuvwxyz''"

definition is_upper :: "char \<Rightarrow> bool" where
  "is_upper c \<longleftrightarrow> c \<in> set ''ABCDEFGHIJKLMNOPQRSTUVWXYZ''"

text \<open>\<open>^[0-9a-f]{64}$\<close> and \<open>^[0-9a-f]{40}$\<close>.\<close>

definition is_hash :: "string \<Rightarrow> bool" where
  "is_hash s \<longleftrightarrow> length s = 64 \<and> list_all is_lower_hex s"

definition is_revision :: "string \<Rightarrow> bool" where
  "is_revision s \<longleftrightarrow> length s = 40 \<and> list_all is_lower_hex s"

text \<open>\<open>^[a-z0-9][a-z0-9-]{0,31}$\<close> and \<open>^[a-z0-9][a-z0-9-]{0,63}$\<close>.\<close>

definition is_slug :: "nat \<Rightarrow> string \<Rightarrow> bool" where
  "is_slug n s \<longleftrightarrow> s \<noteq> [] \<and> length s \<le> Suc n \<and>
     (is_lower (hd s) \<or> is_digit (hd s)) \<and>
     list_all (\<lambda>c. is_lower c \<or> is_digit c \<or> c = CHR ''-'') (tl s)"

definition is_profile :: "string \<Rightarrow> bool" where
  "is_profile s = is_slug 31 s"

definition is_task_id :: "string \<Rightarrow> bool" where
  "is_task_id s = is_slug 63 s"

text \<open>\<open>^[A-Za-z0-9._-]+$\<close> and \<open>^[A-Za-z0-9][A-Za-z0-9._-]*$\<close>.\<close>

definition is_alnum :: "char \<Rightarrow> bool" where
  "is_alnum c \<longleftrightarrow> is_lower c \<or> is_upper c \<or> is_digit c"

definition is_path_char :: "char \<Rightarrow> bool" where
  "is_path_char c \<longleftrightarrow> is_alnum c \<or> c \<in> set ''._-''"

definition is_session_id :: "string \<Rightarrow> bool" where
  "is_session_id s \<longleftrightarrow> s \<noteq> [] \<and> list_all is_path_char s"

definition is_run_id :: "string \<Rightarrow> bool" where
  "is_run_id s \<longleftrightarrow> s \<noteq> [] \<and> is_alnum (hd s) \<and> list_all is_path_char (tl s)"

lemma is_run_id_session: "is_run_id s \<Longrightarrow> is_session_id s"
  by (cases s) (auto simp: is_run_id_def is_session_id_def is_path_char_def)

lemma is_path_char_no_slash: "is_path_char c \<Longrightarrow> c \<noteq> CHR ''/''"
  by (auto simp: is_path_char_def is_alnum_def is_lower_def is_upper_def is_digit_def)

text \<open>\<open>/\S/\<close> (some character that is not white space) and \<open>^\d{4}-\d{2}-\d{2}$\<close>.\<close>

definition is_space :: "char \<Rightarrow> bool" where
  "is_space c \<longleftrightarrow> (of_char c :: nat) \<in> {9, 10, 11, 12, 13, 32, 160}"

definition has_nonspace :: "string \<Rightarrow> bool" where
  "has_nonspace s \<longleftrightarrow> list_ex (\<lambda>c. \<not> is_space c) s"

definition is_date :: "string \<Rightarrow> bool" where
  "is_date s \<longleftrightarrow> length s = 10 \<and> s ! 4 = CHR ''-'' \<and> s ! 7 = CHR ''-'' \<and>
     list_all is_digit (take 4 s) \<and> list_all is_digit (take 2 (drop 5 s)) \<and>
     list_all is_digit (drop 8 s)"

text \<open>
  \<open>(?:^|[-_])(w1|..|wn)(?:$|[-_])\<close> with the flag \<open>i\<close>: one of the words occurs in the string,
  delimited on both sides by an end of the string, a hyphen or an underscore.
\<close>

definition to_lower :: "char \<Rightarrow> char" where
  "to_lower c = (if is_upper c then char_of (of_char c + 32 :: nat) else c)"

definition is_delimiter :: "char \<Rightarrow> bool" where
  "is_delimiter c \<longleftrightarrow> c = CHR ''-'' \<or> c = CHR ''_''"

definition delimited_at :: "string \<Rightarrow> string \<Rightarrow> nat \<Rightarrow> bool" where
  "delimited_at w s n \<longleftrightarrow>
     take (length w) (drop n s) = w \<and>
     (n = 0 \<or> is_delimiter (s ! (n - 1))) \<and>
     (n + length w = length s \<or> (n + length w < length s \<and> is_delimiter (s ! (n + length w))))"

definition delimited_match :: "string list \<Rightarrow> string \<Rightarrow> bool" where
  "delimited_match ws s \<longleftrightarrow>
     list_ex (\<lambda>w. list_ex (delimited_at w (map to_lower s)) [0..<Suc (length s)]) ws"

subsection \<open>Numbers in strings\<close>

text \<open>\<open>parts.join(separator)\<close>.\<close>

fun join_text :: "string \<Rightarrow> string list \<Rightarrow> string" where
  "join_text separator [] = []"
| "join_text separator [part] = part"
| "join_text separator (part # parts) = part @ separator @ join_text separator parts"

text \<open>A nonnegative integer in a template string: its decimal digits.\<close>

fun nat_string :: "nat \<Rightarrow> string" where
  "nat_string n = (if n < 10 then [char_of (48 + n)] else nat_string (n div 10) @ [char_of (48 + n mod 10)])"

declare nat_string.simps [simp del]

definition string_nat :: "string \<Rightarrow> nat" where
  "string_nat s = foldl (\<lambda>n c. 10 * n + (of_char c - 48)) 0 s"

lemma string_nat_snoc: "string_nat (s @ [c]) = 10 * string_nat s + (of_char c - 48)"
  by (simp add: string_nat_def)

lemma string_nat_string [simp]: "string_nat (nat_string n) = n"
proof (induction n rule: nat_string.induct)
  case (1 n)
  then show ?case
    by (subst nat_string.simps)
      (simp add: string_nat_snoc string_nat_def [of "[_]"] string_nat_def [of "[]"] of_char_of)
qed

lemma nat_string_inj: "nat_string m = nat_string n \<longleftrightarrow> m = n"
  by (metis string_nat_string)

lemma digit_char:
  assumes "n < (10 :: nat)"
  shows "is_digit (char_of (48 + n))"
proof -
  from assms have "n \<in> set [0..<10]" by simp
  moreover have "list_all (\<lambda>n. is_digit (char_of (48 + n))) [0..<10]" by code_simp
  ultimately show ?thesis by (simp add: list_all_iff)
qed

lemma nat_string_digits: "list_all is_digit (nat_string n)"
proof (induction n rule: nat_string.induct)
  case (1 n)
  then show ?case by (subst nat_string.simps) (simp add: digit_char)
qed

text \<open>A run of characters of one class before a character outside it can be read off.\<close>

lemma span_unique:
  assumes "list_all P as" "list_all P bs" "\<not> P x" "\<not> P y"
  shows "as @ x # s = bs @ y # t \<longleftrightarrow> as = bs \<and> x = y \<and> s = t"
  using assms(1,2)
proof (induction as arbitrary: bs)
  case Nil
  with assms(3) show ?case by (cases bs) auto
next
  case (Cons a as)
  with assms(4) show ?case by (cases bs) auto
qed

end
