(* ===== verification/Json_Schema.thy ===== *)
theory Json_Schema
  imports Lab_Prelude
begin

section \<open>JSON values and the schema language of the configuration files\<close>

text \<open>
  Parsed JSON (\<open>unknown\<close> in the TypeScript), with object members in insertion order, as
  \<open>JSON.parse\<close> and \<open>Object.entries\<close> give them, and the JSON-Schema keywords the source
  writes. The validator itself is the package Ajv, which is not part of the repository: every
  definition that validates takes it as the argument \<open>ajv\<close>, and the locale
  \<open>json_validator\<close> states what the code relies on, namely that Ajv accepts exactly the
  values the JSON-Schema standard says a schema describes (\<open>schema_valid\<close>).
\<close>

datatype json =
    JNull
  | JBool bool
  | JNum real
  | JStr string
  | JArr "json list"
  | JObj "(string \<times> json) list"

subsection \<open>Reading members\<close>

fun json_field :: "string \<Rightarrow> json \<Rightarrow> json option" where
  "json_field k (JObj kvs) = map_of kvs k"
| "json_field k _ = None"

text \<open>Casts of a value whose shape a schema has already established.\<close>

fun json_str :: "json \<Rightarrow> string" where
  "json_str (JStr s) = s"
| "json_str _ = []"

fun json_num :: "json \<Rightarrow> real" where
  "json_num (JNum r) = r"
| "json_num _ = 0"

fun json_nat :: "json \<Rightarrow> nat" where
  "json_nat (JNum r) = nat \<lfloor>r\<rfloor>"
| "json_nat _ = 0"

definition json_get :: "string \<Rightarrow> json \<Rightarrow> json" where
  "json_get k j = (case json_field k j of None \<Rightarrow> JNull | Some v \<Rightarrow> v)"

text \<open>The keys of an object are distinct, at every depth: what \<open>JSON.parse\<close> returns.\<close>

lemma size_member [termination_simp]: "(k, v) \<in> set kvs \<Longrightarrow> size v < Suc (size_list (size_prod (\<lambda>_. 0) size) kvs)"
  by (induction kvs) auto

lemma size_element [termination_simp]: "v \<in> set vs \<Longrightarrow> size v < Suc (size_list size vs)"
  for v :: json
  by (induction vs) auto

fun json_wf :: "json \<Rightarrow> bool" where
  "json_wf (JArr xs) = list_all json_wf xs"
| "json_wf (JObj kvs) = (distinct (map fst kvs) \<and> list_all (\<lambda>(k, v). json_wf v) kvs)"
| "json_wf _ = True"

subsection \<open>Schemas\<close>

datatype jtype = TNull | TBool | TNumber | TInteger | TString | TArray | TObject

text \<open>
  A schema is a conjunction of keywords. \<open>KClosed ps\<close> is \<open>properties: ps\<close> with
  \<open>additionalProperties: false\<close>; a pattern is the predicate its regular expression decides;
  \<open>KNever\<close> is the schema \<open>false\<close>.
\<close>

datatype schema = Schema "schema_keyword list"
and schema_keyword =
    KType "jtype list"
  | KConst json
  | KEnum "json list"
  | KMinimum real
  | KExclusiveMinimum real
  | KMaximum real
  | KMinLength nat
  | KMaxLength nat
  | KPattern "string \<Rightarrow> bool"
  | KRequired "string list"
  | KProperties "(string \<times> schema) list"
  | KClosed "(string \<times> schema) list"
  | KItems schema
  | KMinItems nat
  | KMaxItems nat
  | KUniqueItems
  | KAnyOf "schema list"
  | KIf schema schema schema
  | KNever

fun has_type :: "jtype \<Rightarrow> json \<Rightarrow> bool" where
  "has_type TNull j = (j = JNull)"
| "has_type TBool j = (case j of JBool _ \<Rightarrow> True | _ \<Rightarrow> False)"
| "has_type TNumber j = (case j of JNum _ \<Rightarrow> True | _ \<Rightarrow> False)"
| "has_type TInteger j = (case j of JNum r \<Rightarrow> of_int \<lfloor>r\<rfloor> = r | _ \<Rightarrow> False)"
| "has_type TString j = (case j of JStr _ \<Rightarrow> True | _ \<Rightarrow> False)"
| "has_type TArray j = (case j of JArr _ \<Rightarrow> True | _ \<Rightarrow> False)"
| "has_type TObject j = (case j of JObj _ \<Rightarrow> True | _ \<Rightarrow> False)"

text \<open>A keyword constrains only values of the type it speaks of.\<close>

fun schema_valid :: "schema \<Rightarrow> json \<Rightarrow> bool"
and keyword_valid :: "schema_keyword \<Rightarrow> json \<Rightarrow> bool"
and properties_valid :: "(string \<times> schema) list \<Rightarrow> (string \<times> json) list \<Rightarrow> bool" where
  "schema_valid (Schema ks) j = list_all (\<lambda>k. keyword_valid k j) ks"
| "keyword_valid (KType ts) j = list_ex (\<lambda>t. has_type t j) ts"
| "keyword_valid (KConst c) j = (j = c)"
| "keyword_valid (KEnum cs) j = (j \<in> set cs)"
| "keyword_valid (KMinimum b) j = (case j of JNum r \<Rightarrow> b \<le> r | _ \<Rightarrow> True)"
| "keyword_valid (KExclusiveMinimum b) j = (case j of JNum r \<Rightarrow> b < r | _ \<Rightarrow> True)"
| "keyword_valid (KMaximum b) j = (case j of JNum r \<Rightarrow> r \<le> b | _ \<Rightarrow> True)"
| "keyword_valid (KMinLength n) j = (case j of JStr s \<Rightarrow> n \<le> length s | _ \<Rightarrow> True)"
| "keyword_valid (KMaxLength n) j = (case j of JStr s \<Rightarrow> length s \<le> n | _ \<Rightarrow> True)"
| "keyword_valid (KPattern p) j = (case j of JStr s \<Rightarrow> p s | _ \<Rightarrow> True)"
| "keyword_valid (KRequired rs) j =
     (case j of JObj kvs \<Rightarrow> list_all (\<lambda>r. map_of kvs r \<noteq> None) rs | _ \<Rightarrow> True)"
| "keyword_valid (KProperties ps) j =
     (case j of JObj kvs \<Rightarrow> properties_valid ps kvs | _ \<Rightarrow> True)"
| "keyword_valid (KClosed ps) j =
     (case j of
        JObj kvs \<Rightarrow>
          properties_valid ps kvs \<and> list_all (\<lambda>kv. fst kv \<in> set (map fst ps)) kvs
      | _ \<Rightarrow> True)"
| "keyword_valid (KItems s) j =
     (case j of JArr xs \<Rightarrow> list_all (schema_valid s) xs | _ \<Rightarrow> True)"
| "keyword_valid (KMinItems n) j = (case j of JArr xs \<Rightarrow> n \<le> length xs | _ \<Rightarrow> True)"
| "keyword_valid (KMaxItems n) j = (case j of JArr xs \<Rightarrow> length xs \<le> n | _ \<Rightarrow> True)"
| "keyword_valid KUniqueItems j = (case j of JArr xs \<Rightarrow> distinct xs | _ \<Rightarrow> True)"
| "keyword_valid (KAnyOf ss) j = list_ex (\<lambda>s. schema_valid s j) ss"
| "keyword_valid (KIf c t e) j = (if schema_valid c j then schema_valid t j else schema_valid e j)"
| "keyword_valid KNever j = False"
| "properties_valid [] kvs = True"
| "properties_valid ((k, s) # ps) kvs =
     ((case map_of kvs k of None \<Rightarrow> True | Some v \<Rightarrow> schema_valid s v) \<and> properties_valid ps kvs)"

text \<open>The members of an object described by a closed schema.\<close>

lemma properties_valid_iff:
  "properties_valid ps kvs \<longleftrightarrow> (\<forall>(k, s) \<in> set ps. \<forall>v. map_of kvs k = Some v \<longrightarrow> schema_valid s v)"
  by (induction ps) (auto split: option.splits)

lemma closed_required:
  assumes "schema_valid (Schema (KType [TObject] # KRequired rs # KClosed ps # ks)) j"
    and "r \<in> set rs" and "(r, s) \<in> set ps"
  shows "json_field r j = Some (json_get r j) \<and> schema_valid s (json_get r j)"
  using assms
  by (cases j) (auto simp: properties_valid_iff list_all_iff json_get_def split: option.splits)

lemma closed_members:
  assumes "schema_valid (Schema (KType [TObject] # KRequired rs # KClosed ps # ks)) j"
  shows "list_all (\<lambda>(k, s). k \<in> set rs \<longrightarrow> schema_valid s (json_get k j)) ps"
  using closed_required [OF assms] by (auto simp: list_all_iff)

lemma closed_optional:
  assumes "schema_valid (Schema (KType [TObject] # KRequired rs # KClosed ps # ks)) j"
    and "(r, s) \<in> set ps" and "json_field r j = Some v"
  shows "schema_valid s v"
  using assms by (cases j) (auto simp: properties_valid_iff)

subsection \<open>What the code relies on of the validator\<close>

locale json_validator =
  fixes ajv :: "schema \<Rightarrow> json \<Rightarrow> bool"
  assumes ajv_standard: "ajv s j = schema_valid s j"

text \<open>The standard's own meaning is such a validator, so the interface can be provided.\<close>

interpretation standard: json_validator schema_valid
  by unfold_locales simp

subsection \<open>Object operations the source applies to JSON\<close>

text \<open>
  \<open>Object.entries(value).sort(([a], [b]) => a.localeCompare(b))\<close>: the collation is that of
  the host's locale, given as the argument \<open>le\<close>.
\<close>

fun insert_entry :: "(string \<Rightarrow> string \<Rightarrow> bool) \<Rightarrow> string \<times> 'v \<Rightarrow> (string \<times> 'v) list
    \<Rightarrow> (string \<times> 'v) list" where
  "insert_entry le kv [] = [kv]"
| "insert_entry le kv (x # xs) =
     (if le (fst kv) (fst x) then kv # x # xs else x # insert_entry le kv xs)"

fun sort_entries :: "(string \<Rightarrow> string \<Rightarrow> bool) \<Rightarrow> (string \<times> 'v) list \<Rightarrow> (string \<times> 'v) list" where
  "sort_entries le [] = []"
| "sort_entries le (x # xs) = insert_entry le x (sort_entries le xs)"

lemma set_insert_entry [simp]: "set (insert_entry le x xs) = insert x (set xs)"
  by (induction xs) auto

lemma set_sort_entries [simp]: "set (sort_entries le xs) = set xs"
  by (induction xs) auto

lemma map_insert_entry:
  "map (\<lambda>(k, v). (k, f v)) (insert_entry le x xs)
     = insert_entry le (fst x, f (snd x)) (map (\<lambda>(k, v). (k, f v)) xs)"
  by (induction xs) (auto split: prod.splits)

lemma map_sort_entries:
  "map (\<lambda>(k, v). (k, f v)) (sort_entries le xs) = sort_entries le (map (\<lambda>(k, v). (k, f v)) xs)"
  by (induction xs) (auto simp: map_insert_entry)

text \<open>
  What a collation promises: it compares all keys, consistently. It need not tell different keys apart:
  \<open>localeCompare\<close> may return 0 for two of them, which then keep their order.
\<close>

definition tied :: "(string \<Rightarrow> string \<Rightarrow> bool) \<Rightarrow> string \<Rightarrow> string \<Rightarrow> bool" where
  "tied le a b \<longleftrightarrow> a \<noteq> b \<and> le a b \<and> le b a"

locale collation =
  fixes le :: "string \<Rightarrow> string \<Rightarrow> bool"
  assumes le_total: "le a b \<or> le b a"
    and le_trans: "le a b \<Longrightarrow> le b c \<Longrightarrow> le a c"
begin

lemma insert_entry_commute:
  assumes "fst x \<noteq> fst y" "\<not> tied le (fst x) (fst y)"
  shows "insert_entry le x (insert_entry le y zs) = insert_entry le y (insert_entry le x zs)"
proof -
  consider (less) "le (fst x) (fst y)" "\<not> le (fst y) (fst x)" | (greater) "le (fst y) (fst x)" "\<not> le (fst x) (fst y)"
    using assms le_total by (auto simp: tied_def)
  note order = this
  show ?thesis
  proof (induction zs)
    case Nil
    show ?case using order by cases simp_all
  next
    case (Cons z zs)
    from order show ?case
    proof cases
      case less
      then have "le (fst y) (fst z) \<Longrightarrow> le (fst x) (fst z)" using le_trans by blast
      with less Cons show ?thesis by simp
    next
      case greater
      then have "le (fst x) (fst z) \<Longrightarrow> le (fst y) (fst z)" using le_trans by blast
      with greater Cons show ?thesis by simp
    qed
  qed
qed

lemma sort_entries_remove:
  "x \<in> set xs \<Longrightarrow> distinct (map fst xs) \<Longrightarrow> \<forall>y \<in> set xs. \<not> tied le (fst x) (fst y) \<Longrightarrow>
     sort_entries le xs = insert_entry le x (sort_entries le (remove1 x xs))"
proof (induction xs)
  case (Cons y ys)
  show ?case
  proof (cases "x = y")
    case False
    with Cons.prems have "x \<in> set ys" and "fst x \<noteq> fst y" and "distinct (map fst ys)"
      by (auto simp: image_iff)
    with Cons.IH Cons.prems(3) False insert_entry_commute [of x y] show ?thesis by simp
  qed simp
qed simp

text \<open>Entries none of whose keys tie have one order, whatever order they come in.\<close>

lemma sort_entries_unique:
  "distinct (map fst xs) \<Longrightarrow> distinct (map fst ys) \<Longrightarrow> set xs = set ys \<Longrightarrow>
     \<forall>x \<in> set xs. \<forall>y \<in> set xs. \<not> tied le (fst x) (fst y) \<Longrightarrow>
     sort_entries le xs = sort_entries le ys"
proof (induction xs arbitrary: ys)
  case (Cons x xs)
  have dy: "distinct ys" using Cons.prems(2) by (simp add: distinct_map)
  have x: "x \<in> set ys" using Cons.prems(3) by auto
  have "x \<notin> set xs" using Cons.prems(1) by (auto simp: image_iff)
  then have "set xs = set (remove1 x ys)" using Cons.prems(3) dy by auto
  moreover have "distinct (map fst (remove1 x ys))"
    using Cons.prems(2) by (induction ys) (auto dest!: notin_set_remove1 simp: image_iff)
  ultimately have "sort_entries le xs = sort_entries le (remove1 x ys)"
    using Cons.IH Cons.prems(1,4) by simp
  moreover have "\<forall>y \<in> set ys. \<not> tied le (fst x) (fst y)" using Cons.prems(3,4) by auto
  ultimately show ?case using sort_entries_remove [OF x Cons.prems(2)] by simp
qed simp

end

text \<open>A collation that tells all keys apart, as the comparison of code units does.\<close>

locale strict_collation = collation +
  assumes le_antisym: "le a b \<Longrightarrow> le b a \<Longrightarrow> a = b"
begin

lemma untied: "\<not> tied le a b"
  using le_antisym by (auto simp: tied_def)

end

subsection \<open>The default order of \<open>sort()\<close>\<close>

text \<open>Strings are compared by code units, as \<open>Array.prototype.sort\<close> does without a comparator.\<close>

fun code_unit_le :: "string \<Rightarrow> string \<Rightarrow> bool" where
  "code_unit_le [] bs = True"
| "code_unit_le (a # as) [] = False"
| "code_unit_le (a # as) (b # bs) =
     (if a = b then code_unit_le as bs else of_char a < (of_char b :: nat))"

lemma code_unit_le_total: "code_unit_le a b \<or> code_unit_le b a"
proof (induction a b rule: code_unit_le.induct)
  case (3 a as b bs)
  have "of_char a = (of_char b :: nat) \<Longrightarrow> a = b" by (metis char_of_char)
  with 3 show ?case by (auto simp: not_less le_less)
qed auto

lemma code_unit_le_antisym: "code_unit_le a b \<Longrightarrow> code_unit_le b a \<Longrightarrow> a = b"
proof (induction a b rule: code_unit_le.induct)
  case (1 bs)
  then show ?case by (cases bs) auto
qed (auto split: if_splits)

lemma code_unit_le_trans: "code_unit_le a b \<Longrightarrow> code_unit_le b c \<Longrightarrow> code_unit_le a c"
proof (induction a b arbitrary: c rule: code_unit_le.induct)
  case (3 a as b bs)
  then show ?case by (cases c) (auto split: if_splits)
qed auto

interpretation code_unit: strict_collation code_unit_le
  using code_unit_le_total code_unit_le_trans code_unit_le_antisym by unfold_locales blast+

definition sort_strings :: "string list \<Rightarrow> string list" where
  "sort_strings xs = map fst (sort_entries code_unit_le (map (\<lambda>x. (x, ())) xs))"

lemma set_sort_strings [simp]: "set (sort_strings xs) = set xs"
  by (auto simp: sort_strings_def image_iff)

lemma sort_strings_unique:
  assumes "distinct xs" "distinct ys" "set xs = set ys"
  shows "sort_strings xs = sort_strings ys"
proof -
  have "sort_entries code_unit_le (map (\<lambda>x. (x, ())) xs)
      = sort_entries code_unit_le (map (\<lambda>x. (x, ())) ys)"
    using assms by (intro code_unit.sort_entries_unique) (auto simp: comp_def code_unit.untied)
  then show ?thesis by (simp add: sort_strings_def)
qed

end
