(* ===== verification/Lab_Config.thy ===== *)
theory Lab_Config
  imports Json_Schema
begin

section \<open>The lab configuration (src/config/lab-config.ts)\<close>

text \<open>
  The configuration file as a typed record, the JSON schema the code compiles with Ajv, the
  validation that turns parsed JSON into a record, and the envelope of limits shared by the
  models of the three roles. A TypeScript field with one literal type (\<open>schemaVersion: 1\<close>,
  \<open>thinking: "off"\<close>, \<open>currency: "USD"\<close>) carries no information and is a field of the
  JSON only.
\<close>

subsection \<open>Data\<close>

datatype model_role = Classifier | Weak | Strong

definition model_roles :: "model_role list" where
  "model_roles = [Classifier, Weak, Strong]"

record pricing =
  p_input :: real
  p_output :: real
  p_cache_read :: "real option"
  p_cache_write :: "real option"
  p_as_of :: string

datatype billing = BUnknown | BSubscription | BPerToken

text \<open>\<open>PiModelIdentity & Partial<LabModelRole>\<close>, and the normalized \<open>LabModelRole\<close>.\<close>

record raw_role =
  rr_provider :: string
  rr_model :: string
  rr_billing :: "billing option"
  rr_pricing :: "pricing option"

record lab_role =
  lr_provider :: string
  lr_model :: string
  lr_billing :: billing
  lr_pricing :: "pricing option"

record routing_config =
  weak_threshold :: real
  weak_capability :: string

record execution_config =
  max_agent_turns :: nat
  timeout_seconds :: nat
  request_timeout_seconds :: nat
  validation_timeout_seconds :: nat
  context_token_cap :: nat
  max_output_tokens :: nat

record lab_config =
  auth_profile :: string
  models :: "model_role \<Rightarrow> lab_role"
  routing :: routing_config
  execution :: execution_config

datatype config_error =
    ConfigUnreadable
  | ConfigNotJson
  | ConfigSchemaInvalid
  | RequestTimeoutTooLong

subsection \<open>The schema\<close>

definition positive_integer :: schema where
  "positive_integer = Schema [KType [TInteger], KMinimum 1, KMaximum 2147483647]"

definition nonnegative_number :: schema where
  "nonnegative_number = Schema [KType [TNumber], KMinimum 0]"

definition pricing_schema :: schema where
  "pricing_schema = Schema
     [KType [TObject],
      KRequired [''inputPerMillion'', ''outputPerMillion'', ''currency'', ''asOf''],
      KClosed
        [(''inputPerMillion'', nonnegative_number),
         (''outputPerMillion'', nonnegative_number),
         (''cacheReadPerMillion'', nonnegative_number),
         (''cacheWritePerMillion'', nonnegative_number),
         (''currency'', Schema [KConst (JStr ''USD'')]),
         (''asOf'', Schema [KType [TString], KPattern is_date])]]"

definition nonblank_string :: schema where
  "nonblank_string = Schema [KType [TString], KMinLength 1, KPattern has_nonspace]"

definition model_role_schema :: schema where
  "model_role_schema = Schema
     [KType [TObject],
      KRequired [''provider'', ''model''],
      KClosed
        [(''provider'', nonblank_string),
         (''model'', nonblank_string),
         (''billing'', Schema [KEnum [JStr ''unknown'', JStr ''subscription'', JStr ''per-token'']]),
         (''pricing'', pricing_schema)],
      KIf (Schema [KType [TObject],
             KProperties [(''billing'', Schema [KConst (JStr ''per-token'')])],
             KRequired [''billing'']])
          (Schema [KProperties [(''pricing'', pricing_schema)], KRequired [''pricing'']])
          (Schema [KProperties [(''pricing'', Schema [KNever])]])]"

definition models_schema :: schema where
  "models_schema = Schema
     [KType [TObject],
      KRequired [''classifier'', ''weak'', ''strong''],
      KClosed [(''classifier'', model_role_schema), (''weak'', model_role_schema),
               (''strong'', model_role_schema)]]"

definition routing_schema :: schema where
  "routing_schema = Schema
     [KType [TObject],
      KRequired [''weakThreshold'', ''weakCapabilityDescription''],
      KClosed
        [(''weakThreshold'', Schema [KType [TNumber], KMinimum 0, KMaximum 1]),
         (''weakCapabilityDescription'', Schema
            [KType [TString], KMinLength 1, KMaxLength 4096, KPattern has_nonspace])]]"

definition execution_schema :: schema where
  "execution_schema = Schema
     [KType [TObject],
      KRequired [''maxAgentTurns'', ''timeoutSeconds'', ''requestTimeoutSeconds'',
        ''validationTimeoutSeconds'', ''contextTokenCap'', ''maxOutputTokens'', ''thinking''],
      KClosed
        [(''maxAgentTurns'', positive_integer),
         (''timeoutSeconds'', positive_integer),
         (''requestTimeoutSeconds'', positive_integer),
         (''validationTimeoutSeconds'', positive_integer),
         (''contextTokenCap'', positive_integer),
         (''maxOutputTokens'', positive_integer),
         (''thinking'', Schema [KConst (JStr ''off'')])]]"

definition lab_config_schema :: schema where
  "lab_config_schema = Schema
     [KType [TObject],
      KRequired [''schemaVersion'', ''authProfile'', ''models'', ''routing'', ''execution''],
      KClosed
        [(''schemaVersion'', Schema [KConst (JNum 1)]),
         (''authProfile'', Schema [KType [TString], KPattern is_profile]),
         (''models'', models_schema),
         (''routing'', routing_schema),
         (''execution'', execution_schema)]]"

subsection \<open>Validation\<close>

text \<open>The cast \<open>value as LabConfig\<close>: how the typed fields read the validated JSON.\<close>

definition decode_pricing :: "json \<Rightarrow> pricing" where
  "decode_pricing j =
     \<lparr>p_input = json_num (json_get ''inputPerMillion'' j),
      p_output = json_num (json_get ''outputPerMillion'' j),
      p_cache_read = map_option json_num (json_field ''cacheReadPerMillion'' j),
      p_cache_write = map_option json_num (json_field ''cacheWritePerMillion'' j),
      p_as_of = json_str (json_get ''asOf'' j)\<rparr>"

definition decode_billing :: "json \<Rightarrow> billing" where
  "decode_billing j =
     (if json_str j = ''per-token'' then BPerToken
      else if json_str j = ''subscription'' then BSubscription else BUnknown)"

definition decode_role :: "json \<Rightarrow> raw_role" where
  "decode_role j =
     \<lparr>rr_provider = json_str (json_get ''provider'' j),
      rr_model = json_str (json_get ''model'' j),
      rr_billing = map_option decode_billing (json_field ''billing'' j),
      rr_pricing = map_option decode_pricing (json_field ''pricing'' j)\<rparr>"

definition normalize_role :: "raw_role \<Rightarrow> lab_role" where
  "normalize_role r =
     \<lparr>lr_provider = rr_provider r,
      lr_model = rr_model r,
      lr_billing = (case rr_billing r of None \<Rightarrow> BUnknown | Some b \<Rightarrow> b),
      lr_pricing = rr_pricing r\<rparr>"

fun role_key :: "model_role \<Rightarrow> string" where
  "role_key Classifier = ''classifier''"
| "role_key Weak = ''weak''"
| "role_key Strong = ''strong''"

definition decode_routing :: "json \<Rightarrow> routing_config" where
  "decode_routing j =
     \<lparr>weak_threshold = json_num (json_get ''weakThreshold'' j),
      weak_capability = json_str (json_get ''weakCapabilityDescription'' j)\<rparr>"

definition decode_execution :: "json \<Rightarrow> execution_config" where
  "decode_execution j =
     \<lparr>max_agent_turns = json_nat (json_get ''maxAgentTurns'' j),
      timeout_seconds = json_nat (json_get ''timeoutSeconds'' j),
      request_timeout_seconds = json_nat (json_get ''requestTimeoutSeconds'' j),
      validation_timeout_seconds = json_nat (json_get ''validationTimeoutSeconds'' j),
      context_token_cap = json_nat (json_get ''contextTokenCap'' j),
      max_output_tokens = json_nat (json_get ''maxOutputTokens'' j)\<rparr>"

definition decode_config :: "json \<Rightarrow> lab_config" where
  "decode_config j =
     \<lparr>auth_profile = json_str (json_get ''authProfile'' j),
      models = (\<lambda>role. normalize_role (decode_role (json_get (role_key role) (json_get ''models'' j)))),
      routing = decode_routing (json_get ''routing'' j),
      execution = decode_execution (json_get ''execution'' j)\<rparr>"

text \<open>\<open>validateConfig\<close>: schema, defaults of the roles, then the relation between the timeouts.\<close>

definition validate_config :: "(schema \<Rightarrow> json \<Rightarrow> bool) \<Rightarrow> json \<Rightarrow> config_error + lab_config" where
  "validate_config ajv value =
     (if \<not> ajv lab_config_schema value then Inl ConfigSchemaInvalid
      else
        let config = decode_config value in
        if request_timeout_seconds (execution config) > timeout_seconds (execution config)
        then Inl RequestTimeoutTooLong
        else Inr config)"

text \<open>\<open>loadConfig\<close>: what the file system and \<open>JSON.parse\<close> give is an argument.\<close>

datatype file_read = Unreadable | BadJson | Parsed json

fun load_config :: "(schema \<Rightarrow> json \<Rightarrow> bool) \<Rightarrow> file_read \<Rightarrow> config_error + lab_config" where
  "load_config ajv Unreadable = Inl ConfigUnreadable"
| "load_config ajv BadJson = Inl ConfigNotJson"
| "load_config ajv (Parsed j) = validate_config ajv j"

text \<open>The JSON of a record: what \<open>JSON.stringify(config)\<close> writes.\<close>

definition opt_member :: "string \<Rightarrow> ('a \<Rightarrow> json) \<Rightarrow> 'a option \<Rightarrow> (string \<times> json) list" where
  "opt_member k f x = (case x of None \<Rightarrow> [] | Some v \<Rightarrow> [(k, f v)])"

definition pricing_json :: "pricing \<Rightarrow> json" where
  "pricing_json p = JObj
     ([(''inputPerMillion'', JNum (p_input p)), (''outputPerMillion'', JNum (p_output p))]
      @ opt_member ''cacheReadPerMillion'' JNum (p_cache_read p)
      @ opt_member ''cacheWritePerMillion'' JNum (p_cache_write p)
      @ [(''currency'', JStr ''USD''), (''asOf'', JStr (p_as_of p))])"

fun billing_json :: "billing \<Rightarrow> json" where
  "billing_json BUnknown = JStr ''unknown''"
| "billing_json BSubscription = JStr ''subscription''"
| "billing_json BPerToken = JStr ''per-token''"

definition role_json :: "lab_role \<Rightarrow> json" where
  "role_json r = JObj
     ([(''provider'', JStr (lr_provider r)), (''model'', JStr (lr_model r)),
       (''billing'', billing_json (lr_billing r))]
      @ opt_member ''pricing'' pricing_json (lr_pricing r))"

definition routing_json :: "routing_config \<Rightarrow> json" where
  "routing_json r = JObj
     [(''weakThreshold'', JNum (weak_threshold r)),
      (''weakCapabilityDescription'', JStr (weak_capability r))]"

definition execution_json :: "execution_config \<Rightarrow> json" where
  "execution_json e = JObj
     [(''maxAgentTurns'', JNum (real (max_agent_turns e))),
      (''timeoutSeconds'', JNum (real (timeout_seconds e))),
      (''requestTimeoutSeconds'', JNum (real (request_timeout_seconds e))),
      (''validationTimeoutSeconds'', JNum (real (validation_timeout_seconds e))),
      (''contextTokenCap'', JNum (real (context_token_cap e))),
      (''maxOutputTokens'', JNum (real (max_output_tokens e))),
      (''thinking'', JStr ''off'')]"

definition config_json :: "lab_config \<Rightarrow> json" where
  "config_json c = JObj
     [(''schemaVersion'', JNum 1),
      (''authProfile'', JStr (auth_profile c)),
      (''models'', JObj
         [(''classifier'', role_json (models c Classifier)),
          (''weak'', role_json (models c Weak)),
          (''strong'', role_json (models c Strong))]),
      (''routing'', routing_json (routing c)),
      (''execution'', execution_json (execution c))]"

subsection \<open>Well-formed configurations\<close>

text \<open>What the rest of the program may assume of an accepted configuration.\<close>

definition pricing_wf :: "pricing \<Rightarrow> bool" where
  "pricing_wf p \<longleftrightarrow> 0 \<le> p_input p \<and> 0 \<le> p_output p \<and>
     pred_option (\<lambda>r. 0 \<le> r) (p_cache_read p) \<and> pred_option (\<lambda>r. 0 \<le> r) (p_cache_write p) \<and>
     is_date (p_as_of p)"

definition role_wf :: "lab_role \<Rightarrow> bool" where
  "role_wf r \<longleftrightarrow> has_nonspace (lr_provider r) \<and> has_nonspace (lr_model r) \<and>
     (lr_billing r = BPerToken \<longleftrightarrow> lr_pricing r \<noteq> None) \<and> pred_option pricing_wf (lr_pricing r)"

definition int32_positive :: "nat \<Rightarrow> bool" where
  "int32_positive n \<longleftrightarrow> 1 \<le> n \<and> n \<le> 2147483647"

definition routing_wf :: "routing_config \<Rightarrow> bool" where
  "routing_wf r \<longleftrightarrow> 0 \<le> weak_threshold r \<and> weak_threshold r \<le> 1 \<and>
     length (weak_capability r) \<le> 4096 \<and> has_nonspace (weak_capability r)"

definition execution_wf :: "execution_config \<Rightarrow> bool" where
  "execution_wf e \<longleftrightarrow> int32_positive (max_agent_turns e) \<and> int32_positive (timeout_seconds e) \<and>
     int32_positive (request_timeout_seconds e) \<and> int32_positive (validation_timeout_seconds e) \<and>
     int32_positive (context_token_cap e) \<and> int32_positive (max_output_tokens e) \<and>
     request_timeout_seconds e \<le> timeout_seconds e"

definition config_wf :: "lab_config \<Rightarrow> bool" where
  "config_wf c \<longleftrightarrow> is_profile (auth_profile c) \<and> (\<forall>r \<in> set model_roles. role_wf (models c r)) \<and>
     routing_wf (routing c) \<and> execution_wf (execution c)"

subsection \<open>Acceptance gives a well-formed configuration\<close>

lemma positive_integer_valid: "schema_valid positive_integer j \<Longrightarrow> int32_positive (json_nat j)"
proof (cases j)
  case (JNum r)
  moreover assume "schema_valid positive_integer j"
  ultimately have r: "of_int \<lfloor>r\<rfloor> = r" "1 \<le> r" "r \<le> 2147483647"
    by (auto simp: positive_integer_def)
  then have "1 \<le> nat \<lfloor>r\<rfloor>" "nat \<lfloor>r\<rfloor> \<le> 2147483647" by linarith+
  then show ?thesis unfolding int32_positive_def JNum json_nat.simps by blast
qed (auto simp: positive_integer_def)

lemma nonnegative_number_valid: "schema_valid nonnegative_number j \<Longrightarrow> 0 \<le> json_num j"
  by (cases j) (auto simp: nonnegative_number_def)

lemma nonblank_string_valid: "schema_valid nonblank_string j \<Longrightarrow> has_nonspace (json_str j)"
  by (cases j) (auto simp: nonblank_string_def)

lemma pricing_valid:
  assumes "schema_valid pricing_schema j"
  shows "pricing_wf (decode_pricing j)"
proof -
  note req = closed_required [OF assms [unfolded pricing_schema_def]]
  note opt = closed_optional [OF assms [unfolded pricing_schema_def]]
  have "0 \<le> json_num (json_get ''inputPerMillion'' j)" "0 \<le> json_num (json_get ''outputPerMillion'' j)"
    using req by (auto intro!: nonnegative_number_valid)
  moreover have "pred_option (\<lambda>r. 0 \<le> r) (map_option json_num (json_field k j))"
    if "k = ''cacheReadPerMillion'' \<or> k = ''cacheWritePerMillion''" for k
    using that by (cases "json_field k j") (auto intro!: nonnegative_number_valid intro: opt [rotated])
  moreover have "schema_valid (Schema [KType [TString], KPattern is_date]) (json_get ''asOf'' j)"
    using req [of "''asOf''"] by force
  then have "is_date (json_str (json_get ''asOf'' j))" by (cases "json_get ''asOf'' j") auto
  ultimately show ?thesis by (simp add: pricing_wf_def decode_pricing_def)
qed

lemma role_valid:
  assumes "schema_valid model_role_schema j"
  shows "role_wf (normalize_role (decode_role j))"
proof -
  note req = closed_required [OF assms [unfolded model_role_schema_def]]
  note opt = closed_optional [OF assms [unfolded model_role_schema_def]]
  have "has_nonspace (json_str (json_get ''provider'' j))" "has_nonspace (json_str (json_get ''model'' j))"
    using req by (auto intro!: nonblank_string_valid)
  moreover have "pred_option pricing_wf (map_option decode_pricing (json_field ''pricing'' j))"
    by (cases "json_field ''pricing'' j") (auto intro!: pricing_valid intro: opt [rotated])
  moreover obtain kvs where j: "j = JObj kvs"
    using assms by (cases j) (auto simp: model_role_schema_def)
  have "json_field ''billing'' j = Some (JStr ''per-token'') \<longleftrightarrow> json_field ''pricing'' j \<noteq> None"
    using assms by (auto simp: model_role_schema_def j split: option.splits if_splits)
  moreover have "\<exists>s. b = JStr s" if "json_field ''billing'' j = Some b" for b
    using opt [OF _ that] by auto
  ultimately show ?thesis
    by (auto simp: role_wf_def normalize_role_def decode_role_def decode_billing_def
        split: option.splits if_splits)
qed

lemma routing_valid:
  assumes "schema_valid routing_schema j"
  shows "routing_wf (decode_routing j)"
proof -
  note req = closed_required [OF assms [unfolded routing_schema_def]]
  have "schema_valid (Schema [KType [TNumber], KMinimum 0, KMaximum 1]) (json_get ''weakThreshold'' j)"
    using req [of "''weakThreshold''"] by force
  moreover have "schema_valid (Schema [KType [TString], KMinLength 1, KMaxLength 4096, KPattern has_nonspace])
      (json_get ''weakCapabilityDescription'' j)"
    using req [of "''weakCapabilityDescription''"] by force
  ultimately show ?thesis
    by (auto simp: routing_wf_def decode_routing_def split: json.splits)
qed

text \<open>The six limits of \<open>execution\<close> have one schema, so one argument covers them.\<close>

definition execution_limits :: "string list" where
  "execution_limits = [''maxAgentTurns'', ''timeoutSeconds'', ''requestTimeoutSeconds'',
     ''validationTimeoutSeconds'', ''contextTokenCap'', ''maxOutputTokens'']"

lemma execution_schema_limits:
  "execution_schema = Schema
     [KType [TObject], KRequired (execution_limits @ [''thinking'']),
      KClosed (map (\<lambda>k. (k, positive_integer)) execution_limits
        @ [(''thinking'', Schema [KConst (JStr ''off'')])])]"
  by (simp add: execution_schema_def execution_limits_def)

lemma execution_valid:
  assumes "schema_valid execution_schema j"
    and "request_timeout_seconds (decode_execution j) \<le> timeout_seconds (decode_execution j)"
  shows "execution_wf (decode_execution j)"
proof -
  note req = closed_required [OF assms(1) [unfolded execution_schema_limits]]
  have "int32_positive (json_nat (json_get k j))" if "k \<in> set execution_limits" for k
    using req [of k positive_integer] that by (intro positive_integer_valid) simp
  with assms(2) show ?thesis
    by (simp add: execution_wf_def decode_execution_def execution_limits_def)
qed

lemma models_valid:
  assumes "schema_valid models_schema j"
  shows "role_wf (normalize_role (decode_role (json_get (role_key r) j)))"
  using closed_required [OF assms [unfolded models_schema_def], of "role_key r"]
  by (intro role_valid) (cases r; simp)

lemma config_valid:
  assumes "schema_valid lab_config_schema j"
    and "request_timeout_seconds (execution (decode_config j)) \<le> timeout_seconds (execution (decode_config j))"
  shows "config_wf (decode_config j)"
proof -
  note req = closed_required [OF assms(1) [unfolded lab_config_schema_def]]
  have "schema_valid (Schema [KType [TString], KPattern is_profile]) (json_get ''authProfile'' j)"
    using req [of "''authProfile''"] by force
  then have "is_profile (json_str (json_get ''authProfile'' j))"
    by (cases "json_get ''authProfile'' j") auto
  moreover have "schema_valid models_schema (json_get ''models'' j)"
    "schema_valid routing_schema (json_get ''routing'' j)"
    "schema_valid execution_schema (json_get ''execution'' j)"
    using req [of "''models''"] req [of "''routing''"] req [of "''execution''"] by force+
  ultimately show ?thesis
    using assms(2) by (simp add: config_wf_def decode_config_def models_valid routing_valid execution_valid)
qed

subsection \<open>The JSON of a well-formed configuration is accepted and read back\<close>

lemma json_get_JObj [simp]:
  "json_get k (JObj kvs) = (case map_of kvs k of None \<Rightarrow> JNull | Some v \<Rightarrow> v)"
  by (simp add: json_get_def)

lemma has_nonspace_length: "has_nonspace s \<Longrightarrow> Suc 0 \<le> length s"
  by (cases s) (auto simp: has_nonspace_def)

lemma pricing_roundtrip [simp]: "decode_pricing (pricing_json p) = p"
  by (cases "p_cache_read p"; cases "p_cache_write p")
    (simp_all add: decode_pricing_def pricing_json_def opt_member_def)

lemma pricing_accepted: "pricing_wf p \<Longrightarrow> schema_valid pricing_schema (pricing_json p)"
  by (cases "p_cache_read p"; cases "p_cache_write p")
    (simp_all add: pricing_schema_def pricing_json_def opt_member_def pricing_wf_def nonnegative_number_def)

lemma billing_roundtrip [simp]: "decode_billing (billing_json b) = b"
  by (cases b) (simp_all add: decode_billing_def)

lemma role_roundtrip [simp]: "normalize_role (decode_role (role_json r)) = r"
  by (cases "lr_pricing r") (simp_all add: normalize_role_def decode_role_def role_json_def opt_member_def)

lemma role_accepted: "role_wf r \<Longrightarrow> schema_valid model_role_schema (role_json r)"
  by (cases "lr_pricing r"; cases "lr_billing r")
    (simp_all add: model_role_schema_def role_json_def opt_member_def role_wf_def nonblank_string_def
      pricing_accepted has_nonspace_length)

lemma routing_roundtrip [simp]: "decode_routing (routing_json r) = r"
  by (simp add: decode_routing_def routing_json_def)

lemma routing_accepted: "routing_wf r \<Longrightarrow> schema_valid routing_schema (routing_json r)"
  by (simp add: routing_schema_def routing_json_def routing_wf_def has_nonspace_length)

lemma execution_roundtrip [simp]: "decode_execution (execution_json e) = e"
  by (simp add: decode_execution_def execution_json_def)

lemma execution_accepted: "execution_wf e \<Longrightarrow> schema_valid execution_schema (execution_json e)"
  by (simp add: execution_schema_def execution_json_def execution_wf_def positive_integer_def
      int32_positive_def)

lemma config_roundtrip [simp]: "decode_config (config_json c) = c"
proof -
  have "(\<lambda>role. normalize_role (decode_role (json_get (role_key role) (JObj
      [(''classifier'', role_json (models c Classifier)), (''weak'', role_json (models c Weak)),
       (''strong'', role_json (models c Strong))])))) = models c"
    by (rule ext) (case_tac role; simp)
  then show ?thesis by (simp add: decode_config_def config_json_def)
qed

lemma config_accepted: "config_wf c \<Longrightarrow> schema_valid lab_config_schema (config_json c)"
  by (simp add: lab_config_schema_def config_json_def config_wf_def models_schema_def model_roles_def
      role_accepted routing_accepted execution_accepted)

lemma validate_config_iff:
  assumes "json_validator ajv"
  shows "validate_config ajv j = Inr c \<longleftrightarrow>
    schema_valid lab_config_schema j \<and> c = decode_config j \<and> config_wf c"
proof -
  note ajv_standard = json_validator.ajv_standard [OF assms]
  show ?thesis
    by (auto simp: validate_config_def ajv_standard Let_def config_valid not_less
        dest: config_valid) (simp add: config_wf_def execution_wf_def)
qed

subsection \<open>The envelope of the models\<close>

text \<open>The fields of Pi's \<open>Model<Api>\<close> the code reads.\<close>

record pi_model =
  pm_provider :: string
  pm_id :: string
  pm_api :: string
  pm_name :: string
  pm_base_url :: string
  pm_reasoning :: bool
  pm_input :: "string list"
  pm_context_window :: int
  pm_max_tokens :: int
  pm_thinking_level_map :: "json option"
  pm_compat :: "json option"

type_synonym role_models = "model_role \<Rightarrow> pi_model"

record envelope =
  env_context_cap :: int
  env_max_output :: int
  env_classifier_max_output :: int

datatype envelope_error = NoPositiveLimits | NativeLimitsDiffer

definition common_context_cap :: "lab_config \<Rightarrow> role_models \<Rightarrow> int" where
  "common_context_cap config roles =
     min (int (context_token_cap (execution config)))
       (min (pm_context_window (roles Weak)) (pm_context_window (roles Strong)))"

definition common_max_output :: "lab_config \<Rightarrow> role_models \<Rightarrow> int" where
  "common_max_output config roles =
     min (int (max_output_tokens (execution config)))
       (min (pm_max_tokens (roles Weak))
         (min (pm_max_tokens (roles Strong)) (common_context_cap config roles)))"

definition classifier_max_output :: "lab_config \<Rightarrow> role_models \<Rightarrow> int" where
  "classifier_max_output config roles =
     min (int (max_output_tokens (execution config)))
       (min (pm_max_tokens (roles Classifier)) (pm_context_window (roles Classifier)))"

definition resolve_common_model_envelope :: "lab_config \<Rightarrow> role_models \<Rightarrow> envelope_error + envelope" where
  "resolve_common_model_envelope config roles =
     (if common_context_cap config roles < 1 \<or> common_max_output config roles < 1 \<or>
         classifier_max_output config roles < 1
      then Inl NoPositiveLimits
      else Inr \<lparr>env_context_cap = common_context_cap config roles,
                env_max_output = common_max_output config roles,
                env_classifier_max_output = classifier_max_output config roles\<rparr>)"

record library_policy =
  lp_weak_threshold :: real
  lp_weak_capability :: string
  lp_max_output :: int

definition create_library_policy :: "lab_config \<Rightarrow> role_models \<Rightarrow> envelope_error + library_policy" where
  "create_library_policy config roles =
     bind_result (resolve_common_model_envelope config roles) (\<lambda>envelope.
       Inr \<lparr>lp_weak_threshold = weak_threshold (routing config),
            lp_weak_capability = weak_capability (routing config),
            lp_max_output = env_classifier_max_output envelope\<rparr>)"

definition validate_coding_compatibility :: "lab_config \<Rightarrow> role_models \<Rightarrow> envelope_error + envelope" where
  "validate_coding_compatibility config roles =
     bind_result (resolve_common_model_envelope config roles) (\<lambda>envelope.
       if list_ex (\<lambda>model. pm_context_window model \<noteq> env_context_cap envelope \<or>
                          pm_max_tokens model \<noteq> env_max_output envelope) [roles Weak, roles Strong]
       then Inl NativeLimitsDiffer
       else Inr envelope)"

lemma envelope_Inr:
  "resolve_common_model_envelope config roles = Inr e \<longleftrightarrow>
     1 \<le> env_context_cap e \<and> 1 \<le> env_max_output e \<and> 1 \<le> env_classifier_max_output e \<and>
     env_context_cap e = common_context_cap config roles \<and>
     env_max_output e = common_max_output config roles \<and>
     env_classifier_max_output e = classifier_max_output config roles"
  by (cases e) (auto simp: resolve_common_model_envelope_def)

lemma common_context_cap_native:
  "c = common_context_cap config roles \<and> pm_context_window (roles Weak) = c \<and>
     pm_context_window (roles Strong) = c \<longleftrightarrow>
   pm_context_window (roles Weak) = c \<and> pm_context_window (roles Strong) = c \<and>
     c \<le> int (context_token_cap (execution config))"
  by (auto simp: common_context_cap_def)

lemma common_max_output_native:
  "m = common_max_output config roles \<and> pm_max_tokens (roles Weak) = m \<and>
     pm_max_tokens (roles Strong) = m \<longleftrightarrow>
   pm_max_tokens (roles Weak) = m \<and> pm_max_tokens (roles Strong) = m \<and>
     m \<le> int (max_output_tokens (execution config)) \<and> m \<le> common_context_cap config roles"
  by (auto simp: common_max_output_def)

subsection \<open>A concrete configuration\<close>

definition example_pricing :: pricing where
  "example_pricing = \<lparr>p_input = 3, p_output = 15, p_cache_read = Some (3 / 10), p_cache_write = None,
     p_as_of = ''2026-01-31''\<rparr>"

definition example_role :: lab_role where
  "example_role = \<lparr>lr_provider = ''acme'', lr_model = ''m1'', lr_billing = BPerToken,
     lr_pricing = Some example_pricing\<rparr>"

definition example_config :: lab_config where
  "example_config =
     \<lparr>auth_profile = ''default'',
      models = (\<lambda>_. example_role),
      routing = \<lparr>weak_threshold = 3 / 5, weak_capability = ''small edits''\<rparr>,
      execution = \<lparr>max_agent_turns = 20, timeout_seconds = 600, request_timeout_seconds = 120,
        validation_timeout_seconds = 300, context_token_cap = 200000, max_output_tokens = 8192\<rparr>\<rparr>"

definition example_model :: pi_model where
  "example_model = \<lparr>pm_provider = ''acme'', pm_id = ''m1'', pm_api = ''chat'', pm_name = ''M'',
     pm_base_url = ''u'', pm_reasoning = False, pm_input = [''text''], pm_context_window = 200000,
     pm_max_tokens = 8192, pm_thinking_level_map = None, pm_compat = None\<rparr>"

lemma example_config_wf: "config_wf example_config"
  by (simp add: config_wf_def example_config_def example_role_def example_pricing_def is_profile_def
      is_slug_def is_lower_def is_digit_def role_wf_def pricing_wf_def routing_wf_def execution_wf_def
      int32_positive_def has_nonspace_def is_space_def is_date_def)

subsection \<open>Properties\<close>

text \<open>\<open>validateConfig\<close> accepts exactly the JSON its schema describes whose request timeout does
  not exceed the timeout; every accepted configuration is well-formed (a threshold in [0, 1], all
  limits positive 32-bit integers, prices nonnegative and present exactly for the roles billed per
  token), and validating its JSON again gives the same configuration.\<close>

theorem config_acceptance:
  assumes "json_validator ajv" and "validate_config ajv j = Inr c"
  shows "config_wf c \<and> c = decode_config j \<and> validate_config ajv (config_json c) = Inr c"
  using assms by (auto simp: validate_config_iff config_accepted)

theorem config_acceptance_witness:
  "config_wf example_config \<and> example_config = decode_config (config_json example_config) \<and>
     validate_config schema_valid (config_json example_config) = Inr example_config"
  by (rule config_acceptance [OF standard.json_validator_axioms])
    (simp add: validate_config_iff standard.json_validator_axioms example_config_wf config_accepted)

text \<open>Writing a well-formed configuration as JSON and loading that file gives it back, so no
  field of the record is lost, defaulted or rejected by the schema.\<close>

theorem config_load_roundtrip:
  assumes "json_validator ajv" and "config_wf c"
  shows "load_config ajv (Parsed (config_json c)) = Inr c"
  using assms by (simp add: validate_config_iff config_accepted)

theorem config_load_roundtrip_witness:
  "load_config schema_valid (Parsed (config_json example_config)) = Inr example_config"
  by (rule config_load_roundtrip [OF standard.json_validator_axioms example_config_wf])

text \<open>The coding models are compatible with a configuration exactly when the weak and the strong
  model have the same native limits, these do not exceed the configured caps, the output limit fits
  the context window, and every limit (the classifier's too) is positive; the envelope then is those
  native limits.\<close>

theorem coding_compatibility_iff:
  "validate_coding_compatibility config roles = Inr e \<longleftrightarrow>
     pm_context_window (roles Weak) = env_context_cap e \<and>
     pm_context_window (roles Strong) = env_context_cap e \<and>
     pm_max_tokens (roles Weak) = env_max_output e \<and>
     pm_max_tokens (roles Strong) = env_max_output e \<and>
     1 \<le> env_max_output e \<and> env_max_output e \<le> env_context_cap e \<and>
     env_context_cap e \<le> int (context_token_cap (execution config)) \<and>
     env_max_output e \<le> int (max_output_tokens (execution config)) \<and>
     1 \<le> env_classifier_max_output e \<and>
     env_classifier_max_output e = min (int (max_output_tokens (execution config)))
       (min (pm_max_tokens (roles Classifier)) (pm_context_window (roles Classifier)))"
proof -
  have "validate_coding_compatibility config roles = Inr e \<longleftrightarrow>
      resolve_common_model_envelope config roles = Inr e \<and>
      pm_context_window (roles Weak) = env_context_cap e \<and>
      pm_context_window (roles Strong) = env_context_cap e \<and>
      pm_max_tokens (roles Weak) = env_max_output e \<and>
      pm_max_tokens (roles Strong) = env_max_output e"
    by (auto simp: validate_coding_compatibility_def)
  moreover have "resolve_common_model_envelope config roles = Inr e \<longleftrightarrow>
      1 \<le> env_max_output e \<and> env_max_output e \<le> env_context_cap e \<and>
      env_context_cap e \<le> int (context_token_cap (execution config)) \<and>
      env_max_output e \<le> int (max_output_tokens (execution config)) \<and>
      1 \<le> env_classifier_max_output e \<and>
      env_classifier_max_output e = classifier_max_output config roles"
    if "pm_context_window (roles Weak) = env_context_cap e"
      "pm_context_window (roles Strong) = env_context_cap e"
      "pm_max_tokens (roles Weak) = env_max_output e" "pm_max_tokens (roles Strong) = env_max_output e"
  proof -
    have c: "env_context_cap e = common_context_cap config roles \<longleftrightarrow>
        env_context_cap e \<le> int (context_token_cap (execution config))"
      using common_context_cap_native [of "env_context_cap e" config roles] that by blast
    have m: "env_max_output e = common_max_output config roles \<longleftrightarrow>
        env_max_output e \<le> int (max_output_tokens (execution config)) \<and>
        env_max_output e \<le> common_context_cap config roles"
      using common_max_output_native [of "env_max_output e" config roles] that by blast
    have "1 \<le> env_max_output e \<Longrightarrow> env_max_output e \<le> env_context_cap e \<Longrightarrow> 1 \<le> env_context_cap e"
      by linarith
    with c m show ?thesis unfolding envelope_Inr by metis
  qed
  ultimately show ?thesis unfolding classifier_max_output_def by blast
qed

end
