(* ===== verification/Fingerprint.thy ===== *)
theory Fingerprint
  imports Lab_Config
begin

section \<open>Configuration fingerprints (src/config/lab-config.ts)\<close>

text \<open>
  \<open>canonicalize\<close>, \<open>nonSecretProviderConfig\<close> and \<open>configFingerprint\<close>. The collation of
  \<open>localeCompare\<close> is the argument \<open>le\<close> (locale \<open>collation\<close>: it compares all keys, but different keys
  may tie) and SHA-256 of the JSON text the argument \<open>digest\<close>.
\<close>

subsection \<open>Canonical JSON\<close>

text \<open>
  \<open>Object.fromEntries\<close> of entries with distinct keys: an object lists the keys that are array
  indices first, in numeric order, and then the others in the order they were added.
\<close>

definition digits_value :: "string \<Rightarrow> nat" where
  "digits_value s = foldl (\<lambda>n c. 10 * n + (of_char c - 48)) 0 s"

definition is_array_index :: "string \<Rightarrow> bool" where
  "is_array_index s \<longleftrightarrow> s \<noteq> [] \<and> list_all is_digit s \<and>
     (s = ''0'' \<or> hd s \<noteq> CHR ''0'') \<and> digits_value s < 2 ^ 32 - 1"

definition from_entries :: "(string \<times> json) list \<Rightarrow> json" where
  "from_entries kvs = JObj
     (sort_key (\<lambda>(k, _). digits_value k) (filter (\<lambda>(k, _). is_array_index k) kvs)
      @ filter (\<lambda>(k, _). \<not> is_array_index k) kvs)"

fun canonicalize :: "(string \<Rightarrow> string \<Rightarrow> bool) \<Rightarrow> json \<Rightarrow> json" where
  "canonicalize le (JArr xs) = JArr (map (canonicalize le) xs)"
| "canonicalize le (JObj kvs) =
     from_entries (map (\<lambda>(k, child). (k, canonicalize le child)) (sort_entries le kvs))"
| "canonicalize le j = j"

text \<open>JSON values that differ only in the order of members, at any depth.\<close>

inductive json_equiv :: "json \<Rightarrow> json \<Rightarrow> bool" where
  equiv_refl: "json_equiv j j"
| equiv_arr: "list_all2 json_equiv xs ys \<Longrightarrow> json_equiv (JArr xs) (JArr ys)"
| equiv_obj: "(\<And>k. rel_option json_equiv (map_of xs k) (map_of ys k)) \<Longrightarrow>
    json_equiv (JObj xs) (JObj ys)"
monos option.rel_mono

inductive_cases json_equiv_objE: "json_equiv (JObj xs) j"

lemma from_entries_members:
  "from_entries xs = from_entries ys \<Longrightarrow> set xs = set ys"
proof -
  assume "from_entries xs = from_entries ys"
  moreover have "set (sort_key (\<lambda>(k, _). digits_value k) (filter (\<lambda>(k, _). is_array_index k) zs)
      @ filter (\<lambda>(k, _). \<not> is_array_index k) zs) = set zs" for zs :: "(string \<times> json) list"
    by auto
  ultimately show ?thesis unfolding from_entries_def by (metis json.inject(5))
qed

lemma map_members_fst: "map fst (map (\<lambda>(k, v). (k, f v)) kvs) = map fst kvs"
  by (induction kvs) auto

lemma canonicalize_same_members:
  assumes "canonicalize le (JObj xs) = canonicalize le (JObj ys)"
    and "distinct (map fst xs)" "distinct (map fst ys)"
  shows "map_option (canonicalize le) (map_of xs k) = map_option (canonicalize le) (map_of ys k)"
proof -
  let ?f = "map (\<lambda>(k, child). (k, canonicalize le child))"
  have "set (?f xs) = set (?f ys)"
    using from_entries_members [OF assms(1) [unfolded canonicalize.simps]] by simp
  then have "map_of (?f xs) = map_of (?f ys)"
    using assms(2,3) map_of_inject_set [of "?f xs" "?f ys"] unfolding map_members_fst by blast
  then show ?thesis by (metis map_of_map comp_apply)
qed

lemma canonicalize_arr:
  "canonicalize le (JArr xs) = canonicalize le b \<longleftrightarrow>
     (\<exists>ys. b = JArr ys \<and> map (canonicalize le) xs = map (canonicalize le) ys)"
  by (cases b) (auto simp: from_entries_def)

lemma canonicalize_obj: "canonicalize le (JObj xs) = canonicalize le b \<Longrightarrow> \<exists>ys. b = JObj ys"
  by (cases b) (auto simp: from_entries_def)

lemma canonicalize_equiv:
  "canonicalize le a = canonicalize le b \<Longrightarrow> json_wf a \<Longrightarrow> json_wf b \<Longrightarrow> json_equiv a b"
proof (induction le a arbitrary: b rule: canonicalize.induct)
  case (1 le xs)
  obtain ys where b: "b = JArr ys" and eq: "map (canonicalize le) xs = map (canonicalize le) ys"
    using "1.prems"(1) unfolding canonicalize_arr by blast
  then have "list_all2 (\<lambda>x y. canonicalize le x = canonicalize le y) xs ys"
    by (auto simp: list_all2_conv_all_nth list_eq_iff_nth_eq)
  then have "list_all2 json_equiv xs ys"
  proof (rule list.rel_mono_strong)
    fix x y assume "x \<in> set xs" "y \<in> set ys" "canonicalize le x = canonicalize le y"
    then show "json_equiv x y" using "1.IH" "1.prems"(2,3) b by (simp add: list_all_iff)
  qed
  then show ?case by (simp add: b equiv_arr)
next
  case (2 le xs)
  obtain ys where b: "b = JObj ys" using canonicalize_obj [OF "2.prems"(1)] by blast
  have wf: "distinct (map fst xs)" "distinct (map fst ys)" using "2.prems"(2,3) b by simp_all
  have "json_equiv v w"
    if "map_of xs k = Some v" "map_of ys k = Some w" "canonicalize le v = canonicalize le w" for k v w
  proof -
    from that(1,2) have "(k, v) \<in> set xs" "(k, w) \<in> set ys" using map_of_SomeD by metis+
    then have "json_wf v" "json_wf w" using "2.prems"(2,3) b by (auto simp: list_all_iff)
    moreover have "(k, v) \<in> set (sort_entries le xs)" using \<open>(k, v) \<in> set xs\<close> by simp
    ultimately show ?thesis using "2.IH" [OF _ refl] that(3) by simp
  qed
  note member = this
  have same: "map_option (canonicalize le) (map_of xs k) = map_option (canonicalize le) (map_of ys k)" for k
    using "2.prems"(1) wf unfolding b by (intro canonicalize_same_members)
  have "rel_option json_equiv (map_of xs k) (map_of ys k)" for k
    using same [of k] member [of k]
    by (cases "map_of xs k"; cases "map_of ys k") simp_all
  then show ?case by (simp add: b equiv_obj)
qed (case_tac b; simp add: from_entries_def equiv_refl)+

text \<open>No object has, at any depth, two different keys that the collation does not tell apart.\<close>

fun untied_keys :: "(string \<Rightarrow> string \<Rightarrow> bool) \<Rightarrow> json \<Rightarrow> bool" where
  "untied_keys le (JArr xs) = list_all (untied_keys le) xs"
| "untied_keys le (JObj kvs) \<longleftrightarrow> list_all (\<lambda>(k, _). list_all (\<lambda>(k', _). \<not> tied le k k') kvs) kvs \<and>
     list_all (\<lambda>(k, child). untied_keys le child) kvs"
| "untied_keys le _ = True"

context collation
begin

lemma canonicalize_unique:
  "json_equiv a b \<Longrightarrow> json_wf a \<Longrightarrow> json_wf b \<Longrightarrow> untied_keys le a \<Longrightarrow> canonicalize le a = canonicalize le b"
proof (induction rule: json_equiv.induct)
  case (equiv_arr xs ys)
  then have "list_all2 (\<lambda>x y. canonicalize le x = canonicalize le y) xs ys"
    by (auto intro: list.rel_mono_strong simp: list_all_iff)
  then have "map (canonicalize le) xs = map (canonicalize le) ys"
    by (simp add: list_all2_conv_all_nth list_eq_iff_nth_eq)
  then show ?case by simp
next
  case (equiv_obj xs ys)
  let ?f = "map (\<lambda>(k, child). (k, canonicalize le child))"
  have dx: "distinct (map fst (?f xs))" and dy: "distinct (map fst (?f ys))"
    unfolding map_members_fst using equiv_obj.prems by simp_all
  have step: "map_option (canonicalize le) (map_of xs k) = map_option (canonicalize le) (map_of ys k)" for k
  proof (cases "map_of xs k"; cases "map_of ys k")
    fix v w assume vw: "map_of xs k = Some v" "map_of ys k = Some w"
    then have "(k, v) \<in> set xs" "(k, w) \<in> set ys" using map_of_SomeD by metis+
    then have "json_wf v" "json_wf w" "untied_keys le v" using equiv_obj.prems by (auto simp: list_all_iff)
    with vw equiv_obj.IH [of k] show ?thesis by simp
  qed (use equiv_obj.IH [of k] in auto)
  then have "map_of (?f xs) = map_of (?f ys)" by (intro ext) (simp add: map_of_map)
  then have "set (?f xs) = set (?f ys)" using map_of_inject_set [OF dx dy] by simp
  moreover have "\<forall>x \<in> set (?f xs). \<forall>y \<in> set (?f xs). \<not> tied le (fst x) (fst y)"
    using equiv_obj.prems(3) by (fastforce simp: list_all_iff)
  ultimately have "sort_entries le (?f xs) = sort_entries le (?f ys)"
    by (rule sort_entries_unique [OF dx dy])
  then show ?case by (simp add: map_sort_entries)
qed simp

end

subsection \<open>Secrets\<close>

text \<open>\<open>SECRET_KEY\<close>; the alternative \<open>api[-_]?key\<close> stands for three words.\<close>

definition secret_key :: "string \<Rightarrow> bool" where
  "secret_key = delimited_match
     [''auth'', ''authorization'', ''credential'', ''secret'', ''token'', ''apikey'', ''api-key'',
      ''api_key'', ''account'', ''expiry'', ''expires'']"

fun non_secret :: "json \<Rightarrow> json" where
  "non_secret (JArr xs) = JArr (map non_secret xs)"
| "non_secret (JObj kvs) =
     from_entries (map (\<lambda>(k, child). (k, non_secret child)) (filter (\<lambda>(k, _). \<not> secret_key k) kvs))"
| "non_secret j = j"

fun secret_free :: "json \<Rightarrow> bool" where
  "secret_free (JArr xs) = list_all secret_free xs"
| "secret_free (JObj kvs) = list_all (\<lambda>(k, child). \<not> secret_key k \<and> secret_free child) kvs"
| "secret_free _ = True"

lemma set_from_entries: "(\<exists>es. from_entries kvs = JObj es \<and> set es = set kvs \<and>
    (distinct (map fst kvs) \<longrightarrow> distinct (map fst es)))"
proof -
  let ?s = "sort_key (\<lambda>(k, _). digits_value k) (filter (\<lambda>(k, _). is_array_index k) kvs)"
  let ?r = "filter (\<lambda>(k, _). \<not> is_array_index k) kvs"
  have "set (?s @ ?r) = set kvs" by auto
  moreover have "distinct (map fst (?s @ ?r))" if d: "distinct (map fst kvs)"
  proof -
    have "distinct (map fst ?s)"
      using d by (simp add: distinct_map distinct_map_filter inj_on_def)
    then show ?thesis
      using d by (auto simp: distinct_map_filter dest: eq_key_imp_eq_value)
  qed
  ultimately show ?thesis unfolding from_entries_def by blast
qed

lemma non_secret_free: "secret_free (non_secret j)"
proof (induction j rule: non_secret.induct)
  case (2 kvs)
  let ?kvs = "map (\<lambda>(k, child). (k, non_secret child)) (filter (\<lambda>(k, _). \<not> secret_key k) kvs)"
  obtain es where es: "from_entries ?kvs = JObj es" "set es = set ?kvs"
    using set_from_entries [of ?kvs] by blast
  have "\<forall>kv \<in> set ?kvs. \<not> secret_key (fst kv) \<and> secret_free (snd kv)" using 2 by auto
  then show ?case unfolding non_secret.simps es(1) by (auto simp: list_all_iff es(2))
qed (auto simp: list_all_iff)

text \<open>Nothing else is lost: an object without secrets keeps its members.\<close>

lemma non_secret_wf: "json_wf j \<Longrightarrow> json_wf (non_secret j)"
proof (induction j rule: non_secret.induct)
  case (2 kvs)
  let ?kvs = "map (\<lambda>(k, child). (k, non_secret child)) (filter (\<lambda>(k, _). \<not> secret_key k) kvs)"
  have "distinct (map fst ?kvs)"
    unfolding map_members_fst using 2 by (simp add: distinct_map_filter)
  then obtain es where es: "from_entries ?kvs = JObj es" "set es = set ?kvs" "distinct (map fst es)"
    using set_from_entries [of ?kvs] by blast
  have "\<forall>kv \<in> set ?kvs. json_wf (snd kv)" using 2 by (auto simp: list_all_iff)
  then show ?case unfolding non_secret.simps es(1) using es(3) by (auto simp: list_all_iff es(2))
qed (auto simp: list_all_iff)

subsection \<open>The fingerprint\<close>

definition option_json :: "json option \<Rightarrow> json" where
  "option_json x = (case x of None \<Rightarrow> JNull | Some j \<Rightarrow> j)"

definition public_model_metadata :: "pi_model \<Rightarrow> json" where
  "public_model_metadata model = JObj
     [(''provider'', JStr (pm_provider model)),
      (''model'', JStr (pm_id model)),
      (''api'', JStr (pm_api model)),
      (''name'', JStr (pm_name model)),
      (''baseUrl'', JStr (pm_base_url model)),
      (''reasoning'', JBool (pm_reasoning model)),
      (''input'', JArr (map JStr (sort_strings (pm_input model)))),
      (''contextWindow'', JNum (of_int (pm_context_window model))),
      (''maxTokens'', JNum (of_int (pm_max_tokens model))),
      (''thinkingLevelMap'', option_json (pm_thinking_level_map model)),
      (''compat'', option_json (pm_compat model))]"

record fingerprint =
  fp_value :: string
  fp_config :: string
  fp_models :: string
  fp_providers :: string
  fp_capability :: string

text \<open>The documents \<open>configFingerprint\<close> hashes: configuration, model metadata and provider settings.\<close>

definition fingerprint_config :: "lab_config \<Rightarrow> string \<Rightarrow> json" where
  "fingerprint_config config profile = config_json (config\<lparr>auth_profile := profile\<rparr>)"

definition fingerprint_models :: "role_models \<Rightarrow> json" where
  "fingerprint_models roles =
     from_entries (map (\<lambda>role. (role_key role, public_model_metadata (roles role))) model_roles)"

definition fingerprint_providers :: "role_models \<Rightarrow> (string \<Rightarrow> json option) \<Rightarrow> json" where
  "fingerprint_providers roles registered = from_entries
     (map (\<lambda>provider. (provider, non_secret (option_json (registered provider))))
       (sort_strings (new_set (map (\<lambda>role. pm_provider (roles role)) model_roles))))"

definition fingerprint_summary :: "string \<Rightarrow> string \<Rightarrow> string \<Rightarrow> string \<Rightarrow> string \<Rightarrow> json" where
  "fingerprint_summary config_hash models_hash providers_hash capability_hash profile = JObj
     [(''configHash'', JStr config_hash),
      (''modelMetadataHash'', JStr models_hash),
      (''providerConfigHash'', JStr providers_hash),
      (''capabilityCardHash'', JStr capability_hash),
      (''authProfile'', JStr profile)]"

definition hash_json :: "(json \<Rightarrow> string) \<Rightarrow> (string \<Rightarrow> string \<Rightarrow> bool) \<Rightarrow> json \<Rightarrow> string" where
  "hash_json digest le value = digest (canonicalize le value)"

definition config_fingerprint :: "(json \<Rightarrow> string) \<Rightarrow> (string \<Rightarrow> string \<Rightarrow> bool) \<Rightarrow> lab_config
    \<Rightarrow> role_models \<Rightarrow> (string \<Rightarrow> json option) \<Rightarrow> string \<Rightarrow> fingerprint" where
  "config_fingerprint digest le config roles registered profile =
     (let config_hash = hash_json digest le (fingerprint_config config profile);
          models_hash = hash_json digest le (fingerprint_models roles);
          providers_hash = hash_json digest le (fingerprint_providers roles registered);
          capability_hash = hash_json digest le (JStr (weak_capability (routing config)))
      in \<lparr>fp_value = hash_json digest le
             (fingerprint_summary config_hash models_hash providers_hash capability_hash profile),
          fp_config = config_hash,
          fp_models = models_hash,
          fp_providers = providers_hash,
          fp_capability = capability_hash\<rparr>)"

text \<open>Keys that tie keep the order they came in, so the canonical form depends on it.\<close>

lemma tied_keys_reordered:
  assumes "tied le k k'" "\<not> is_array_index k" "\<not> is_array_index k'"
  shows "json_equiv (JObj [(k, v), (k', w)]) (JObj [(k', w), (k, v)]) \<and>
    canonicalize le (JObj [(k, v), (k', w)]) \<noteq> canonicalize le (JObj [(k', w), (k, v)])"
proof
  have "rel_option json_equiv (map_of [(k, v), (k', w)] i) (map_of [(k', w), (k, v)] i)" for i
    using assms(1) by (auto simp: tied_def equiv_refl)
  then show "json_equiv (JObj [(k, v), (k', w)]) (JObj [(k', w), (k, v)])" by (rule equiv_obj)
  show "canonicalize le (JObj [(k, v), (k', w)]) \<noteq> canonicalize le (JObj [(k', w), (k, v)])"
    using assms by (auto simp: tied_def from_entries_def)
qed

text \<open>The JSON of the records has distinct keys.\<close>

lemma role_json_wf: "json_wf (role_json r)"
  by (cases "lr_pricing r"; cases "lr_billing r")
    (auto simp: role_json_def opt_member_def pricing_json_def split: option.splits)

lemma config_json_wf: "json_wf (config_json c)"
  by (simp add: config_json_def role_json_wf routing_json_def execution_json_def)

text \<open>Two JSON texts of configurations agree up to member order only when the records agree on the roles.\<close>

lemma config_json_inj: "config_json c = config_json d \<Longrightarrow> c = d"
  by (metis config_roundtrip)

lemma json_equiv_sym: "json_equiv a b \<Longrightarrow> json_equiv b a"
proof (induction rule: json_equiv.induct)
  case (equiv_arr xs ys)
  then show ?case by (intro json_equiv.equiv_arr) (auto simp: list_all2_conv_all_nth)
next
  case (equiv_obj xs ys)
  have "rel_option json_equiv (map_of ys k) (map_of xs k)" for k
    using equiv_obj.IH [of k] by (cases "map_of xs k"; cases "map_of ys k") auto
  then show ?case by (rule json_equiv.equiv_obj)
qed (rule equiv_refl)

lemma json_equiv_str [simp]: "json_equiv a (JStr s) \<longleftrightarrow> a = JStr s" "json_equiv (JStr s) a \<longleftrightarrow> a = JStr s"
  by (auto elim: json_equiv.cases intro: equiv_refl)

lemma json_equiv_num [simp]: "json_equiv a (JNum s) \<longleftrightarrow> a = JNum s" "json_equiv (JNum s) a \<longleftrightarrow> a = JNum s"
  by (auto elim: json_equiv.cases intro: equiv_refl)

lemma json_equiv_obj:
  "json_equiv (JObj xs) (JObj ys) \<longleftrightarrow> (\<forall>k. rel_option json_equiv (map_of xs k) (map_of ys k))"
  by (auto elim!: json_equiv_objE intro: equiv_obj equiv_refl option.rel_refl)

text \<open>Reading a configuration does not depend on the order of members.\<close>

lemma json_equiv_field: "json_equiv a b \<Longrightarrow> rel_option json_equiv (json_field k a) (json_field k b)"
  by (cases rule: json_equiv.cases) (auto intro: option.rel_refl equiv_refl)

lemma json_equiv_get: "json_equiv a b \<Longrightarrow> json_equiv (json_get k a) (json_get k b)"
  using json_equiv_field [of a b k]
  by (auto simp: json_get_def equiv_refl split: option.splits)

lemma json_equiv_read:
  "json_equiv a b \<Longrightarrow> json_str a = json_str b"
  "json_equiv a b \<Longrightarrow> json_num a = json_num b"
  "json_equiv a b \<Longrightarrow> json_nat a = json_nat b"
  by (auto elim!: json_equiv.cases)

lemma rel_option_map: "rel_option r x y \<Longrightarrow> (\<And>a b. r a b \<Longrightarrow> f a = f b) \<Longrightarrow> map_option f x = map_option f y"
  by (cases x; cases y) auto

lemmas json_equiv_reads = json_equiv_read json_equiv_get json_equiv_field

lemma decode_pricing_equiv: "json_equiv a b \<Longrightarrow> decode_pricing a = decode_pricing b"
  by (simp add: decode_pricing_def json_equiv_get [THEN json_equiv_read(1)]
      json_equiv_get [THEN json_equiv_read(2)]
      json_equiv_field [THEN rel_option_map, of a b json_num, OF _ json_equiv_read(2)])

lemma decode_role_equiv: "json_equiv a b \<Longrightarrow> decode_role a = decode_role b"
  by (simp add: decode_role_def json_equiv_get [THEN json_equiv_read(1)]
      json_equiv_field [THEN rel_option_map, of a b decode_pricing, OF _ decode_pricing_equiv]
      json_equiv_field [THEN rel_option_map, of a b decode_billing]
      decode_billing_def json_equiv_read(1))

lemma decode_config_equiv:
  assumes "json_equiv a b"
  shows "decode_config a = decode_config b"
proof -
  note get = json_equiv_get [OF assms]
  have "decode_routing (json_get ''routing'' a) = decode_routing (json_get ''routing'' b)"
    using get by (auto simp: decode_routing_def intro: json_equiv_reads)
  moreover have "decode_execution (json_get ''execution'' a) = decode_execution (json_get ''execution'' b)"
    using get by (auto simp: decode_execution_def intro: json_equiv_reads)
  moreover have "decode_role (json_get k (json_get ''models'' a)) = decode_role (json_get k (json_get ''models'' b))" for k
    by (intro decode_role_equiv json_equiv_get get)
  moreover have "json_str (json_get ''authProfile'' a) = json_str (json_get ''authProfile'' b)"
    by (intro json_equiv_read get)
  ultimately show ?thesis by (simp add: decode_config_def)
qed

definition fingerprint_summary_of :: "(json \<Rightarrow> string) \<Rightarrow> (string \<Rightarrow> string \<Rightarrow> bool) \<Rightarrow> lab_config
    \<Rightarrow> role_models \<Rightarrow> (string \<Rightarrow> json option) \<Rightarrow> string \<Rightarrow> json" where
  "fingerprint_summary_of digest le config roles registered profile =
     fingerprint_summary (hash_json digest le (fingerprint_config config profile))
       (hash_json digest le (fingerprint_models roles))
       (hash_json digest le (fingerprint_providers roles registered))
       (hash_json digest le (JStr (weak_capability (routing config)))) profile"

lemma fp_value_summary:
  "fp_value (config_fingerprint digest le config roles registered profile) =
     digest (canonicalize le (fingerprint_summary_of digest le config roles registered profile))"
  by (simp add: config_fingerprint_def Let_def hash_json_def fingerprint_summary_of_def)

text \<open>The canonical documents whose SHA-256 a fingerprint takes.\<close>

definition fingerprint_documents :: "(json \<Rightarrow> string) \<Rightarrow> (string \<Rightarrow> string \<Rightarrow> bool) \<Rightarrow> lab_config
    \<Rightarrow> role_models \<Rightarrow> (string \<Rightarrow> json option) \<Rightarrow> string \<Rightarrow> json list" where
  "fingerprint_documents digest le config roles registered profile = map (canonicalize le)
     [fingerprint_summary_of digest le config roles registered profile,
      fingerprint_config config profile, fingerprint_models roles,
      fingerprint_providers roles registered, JStr (weak_capability (routing config))]"

lemma fingerprint_summary_inj:
  assumes "canonicalize le (fingerprint_summary a b c d e) = canonicalize le (fingerprint_summary a' b' c' d' e')"
  shows "a = a' \<and> b = b' \<and> c = c' \<and> d = d' \<and> e = e'"
proof -
  have "json_equiv (fingerprint_summary a b c d e) (fingerprint_summary a' b' c' d' e')"
    using assms by (intro canonicalize_equiv) (simp_all add: fingerprint_summary_def)
  then have "json_str (json_get k (fingerprint_summary a b c d e)) =
      json_str (json_get k (fingerprint_summary a' b' c' d' e'))" for k
    by (intro json_equiv_reads)
  from this [of "''configHash''"] this [of "''modelMetadataHash''"] this [of "''providerConfigHash''"]
    this [of "''capabilityCardHash''"] this [of "''authProfile''"]
  show ?thesis by (simp add: fingerprint_summary_def)
qed

text \<open>A provider whose registration holds a key, and a stand-in for the digest.\<close>

definition example_registered :: "string \<Rightarrow> string \<Rightarrow> json option" where
  "example_registered key provider =
     Some (JObj [(''api_key'', JStr key), (''baseUrl'', JStr ''u'')])"

definition example_digest :: "json \<Rightarrow> string" where
  "example_digest j = replicate (size j) (CHR ''x'')"

lemma example_registered_non_secret:
  "non_secret (option_json (example_registered key provider)) = JObj [(''baseUrl'', JStr ''u'')]"
proof -
  have "secret_key ''api_key''" "\<not> secret_key ''baseUrl''" "\<not> is_array_index ''baseUrl''"
    by code_simp+
  then show ?thesis by (simp add: example_registered_def option_json_def from_entries_def)
qed

text \<open>What is hashed of a provider is free of secrets.\<close>

lemma canonicalize_secret_free: "secret_free j \<Longrightarrow> secret_free (canonicalize le j)"
proof (induction le j rule: canonicalize.induct)
  case (2 le kvs)
  let ?kvs = "map (\<lambda>(k, child). (k, canonicalize le child)) (sort_entries le kvs)"
  obtain es where es: "from_entries ?kvs = JObj es" "set es = set ?kvs"
    using set_from_entries [of ?kvs] by blast
  have "\<forall>kv \<in> set ?kvs. \<not> secret_key (fst kv) \<and> secret_free (snd kv)"
    using 2 by (auto simp: list_all_iff)
  then show ?case unfolding canonicalize.simps es(1) by (auto simp: list_all_iff es(2))
qed (auto simp: list_all_iff)

lemma providers_secret_free:
  assumes "json_field provider (canonicalize le (fingerprint_providers roles registered)) = Some settings"
  shows "secret_free settings"
proof -
  let ?kvs = "map (\<lambda>provider. (provider, non_secret (option_json (registered provider))))
    (sort_strings (new_set (map (\<lambda>role. pm_provider (roles role)) model_roles)))"
  obtain es where es: "fingerprint_providers roles registered = JObj es" "set es = set ?kvs"
    using set_from_entries [of ?kvs] by (auto simp: fingerprint_providers_def)
  let ?cs = "map (\<lambda>(k, child). (k, canonicalize le child)) (sort_entries le es)"
  obtain cs where cs: "from_entries ?cs = JObj cs" "set cs = set ?cs"
    using set_from_entries [of ?cs] by blast
  have "map_of cs provider = Some settings" using assms by (simp add: es(1) cs(1))
  then have "(provider, settings) \<in> set cs" by (rule map_of_SomeD)
  then obtain child where "(provider, child) \<in> set es" "settings = canonicalize le child" by (auto simp: cs(2))
  moreover from this(1) have "child = non_secret (option_json (registered provider))" by (auto simp: es(2))
  ultimately show ?thesis by (simp add: canonicalize_secret_free non_secret_free)
qed

subsection \<open>Properties\<close>

text \<open>C33: Canonical JSON decides equality up to member order: two values with distinct keys
  canonicalize to the same text exactly when they differ only in the order of object members, at
  any depth, provided no object has two different keys that the collation does not tell apart
  (\<open>localeCompare\<close> returns 0 for some). So hashing the canonical form never merges different documents,
  and does not separate reordered ones.\<close>

theorem canonicalize_iff_equiv:
  assumes "collation le" and "json_wf a" and "json_wf b" and "untied_keys le a"
  shows "canonicalize le a = canonicalize le b \<longleftrightarrow> json_equiv a b"
  using assms canonicalize_equiv collation.canonicalize_unique by blast

theorem canonicalize_iff_equiv_witness:
  "canonicalize code_unit_le (JObj [(''b'', JNull), (''a'', JArr [JBool True])]) =
   canonicalize code_unit_le (JObj [(''a'', JArr [JBool True]), (''b'', JNull)]) \<longleftrightarrow>
   json_equiv (JObj [(''b'', JNull), (''a'', JArr [JBool True])])
     (JObj [(''a'', JArr [JBool True]), (''b'', JNull)])"
  by (rule canonicalize_iff_equiv [OF code_unit.collation_axioms]) (simp_all add: code_unit.untied)

text \<open>C34: No secret of a provider reaches the fingerprint, and nothing else escapes it: in the document of the
  providers, as it is hashed, the settings of every provider have no secret key at any depth; and when
  two fingerprints have the same value, the configurations (with the profile used) are equal and the
  canonical model and provider documents are equal, unless two of the documents hashed collide under
  SHA-256.\<close>

theorem fingerprint_sound:
  assumes "fp_value (config_fingerprint digest le c roles reg p) =
         fp_value (config_fingerprint digest le c' roles' reg' p')"
  shows "(\<exists>hashed. fp_providers (config_fingerprint digest le c roles reg p) = digest hashed \<and>
      hashed = canonicalize le (fingerprint_providers roles reg) \<and>
      (\<forall>provider settings. json_field provider hashed = Some settings \<longrightarrow> secret_free settings)) \<and>
    ((p = p' \<and> c\<lparr>auth_profile := p\<rparr> = c'\<lparr>auth_profile := p'\<rparr> \<and>
      canonicalize le (fingerprint_models roles) = canonicalize le (fingerprint_models roles') \<and>
      canonicalize le (fingerprint_providers roles reg) =
        canonicalize le (fingerprint_providers roles' reg')) \<or>
     (\<exists>a \<in> set (fingerprint_documents digest le c roles reg p).
        \<exists>b \<in> set (fingerprint_documents digest le c' roles' reg' p'). a \<noteq> b \<and> digest a = digest b))"
proof
  have "fp_providers (config_fingerprint digest le c roles reg p) = digest (canonicalize le (fingerprint_providers roles reg))"
    by (simp add: config_fingerprint_def Let_def hash_json_def)
  then show "\<exists>hashed. fp_providers (config_fingerprint digest le c roles reg p) = digest hashed \<and>
      hashed = canonicalize le (fingerprint_providers roles reg) \<and>
      (\<forall>provider settings. json_field provider hashed = Some settings \<longrightarrow> secret_free settings)"
    using providers_secret_free by blast
  show "(p = p' \<and> c\<lparr>auth_profile := p\<rparr> = c'\<lparr>auth_profile := p'\<rparr> \<and>
      canonicalize le (fingerprint_models roles) = canonicalize le (fingerprint_models roles') \<and>
      canonicalize le (fingerprint_providers roles reg) = canonicalize le (fingerprint_providers roles' reg')) \<or>
     (\<exists>a \<in> set (fingerprint_documents digest le c roles reg p).
        \<exists>b \<in> set (fingerprint_documents digest le c' roles' reg' p'). a \<noteq> b \<and> digest a = digest b)"
  proof (cases "\<exists>a \<in> set (fingerprint_documents digest le c roles reg p).
        \<exists>b \<in> set (fingerprint_documents digest le c' roles' reg' p'). a \<noteq> b \<and> digest a = digest b")
    case False
    then have inj: "canonicalize le x = canonicalize le y"
      if "digest (canonicalize le x) = digest (canonicalize le y)"
        "canonicalize le x \<in> set (fingerprint_documents digest le c roles reg p)"
        "canonicalize le y \<in> set (fingerprint_documents digest le c' roles' reg' p')" for x y
      using that by blast
    have "canonicalize le (fingerprint_summary_of digest le c roles reg p) =
        canonicalize le (fingerprint_summary_of digest le c' roles' reg' p')"
      by (rule inj) (use assms in \<open>simp_all add: fp_value_summary fingerprint_documents_def\<close>)
    note same = fingerprint_summary_inj [OF this [unfolded fingerprint_summary_of_def], unfolded hash_json_def]
    have "canonicalize le (fingerprint_config c p) = canonicalize le (fingerprint_config c' p')"
      by (rule inj) (use same in \<open>auto simp: fingerprint_documents_def\<close>)
    then have "json_equiv (fingerprint_config c p) (fingerprint_config c' p')"
      by (rule canonicalize_equiv) (simp_all add: fingerprint_config_def config_json_wf)
    then have "c\<lparr>auth_profile := p\<rparr> = c'\<lparr>auth_profile := p'\<rparr>"
      using decode_config_equiv by (fastforce simp: fingerprint_config_def)
    moreover have "canonicalize le (fingerprint_models roles) = canonicalize le (fingerprint_models roles')"
      by (rule inj) (use same in \<open>simp_all add: fingerprint_documents_def\<close>)
    moreover have "canonicalize le (fingerprint_providers roles reg) =
        canonicalize le (fingerprint_providers roles' reg')"
      by (rule inj) (use same in \<open>simp_all add: fingerprint_documents_def\<close>)
    ultimately show ?thesis using same by simp
  qed simp
qed

theorem fingerprint_sound_witness:
  "\<exists>hashed. fp_providers (config_fingerprint example_digest code_unit_le example_config (\<lambda>_. example_model)
      (example_registered ''k'') ''p'') = example_digest hashed \<and>
    hashed = canonicalize code_unit_le (fingerprint_providers (\<lambda>_. example_model) (example_registered ''k'')) \<and>
    (\<forall>provider settings. json_field provider hashed = Some settings \<longrightarrow> secret_free settings)"
proof -
  have "fp_value (config_fingerprint example_digest code_unit_le example_config (\<lambda>_. example_model) (example_registered ''k'') ''p'') =
    fp_value (config_fingerprint example_digest code_unit_le example_config (\<lambda>_. example_model) (example_registered ''z'') ''p'')"
    by (simp add: config_fingerprint_def fingerprint_providers_def example_registered_non_secret)
  from fingerprint_sound [OF this] show ?thesis by (rule conjunct1)
qed

end
