(* ===== verification/Bridge.thy ===== *)
theory Bridge
  imports Json_Schema
begin

section \<open>The bridge protocol (src/bridge/protocol.ts, src/bridge/client.ts)\<close>

text \<open>
  The client side of the line protocol with the routing bridge: the frames, \<open>parseFrame\<close> on the
  parsed JSON of a line (the length of the line in bytes and the outcome of \<open>JSON.parse\<close> are
  arguments), and \<open>resolveDecision\<close> as a function of the lines the bridge writes. The transport
  (which frames are too long, which meet back pressure) and the classifier are arguments; a cancellation that arrives
  while a decision is being resolved only makes the bridge write other lines. The process itself,
  its standard error and the ready timeout are not modelled.
\<close>

subsection \<open>Frames\<close>

datatype tier = TierWeak | TierStrong

datatype evidence =
    ValidatedVerdict real
  | FallbackInvalidVerdict

record bridge_decision =
  bd_id :: string
  bd_alias :: tier
  bd_evidence :: evidence

record bridge_policy =
  bp_weak_threshold :: real
  bp_weak_capability :: string
  bp_max_output :: int

record bridge_usage =
  bu_input :: "nat option"
  bu_output :: "nat option"
  bu_cache_read :: "nat option"
  bu_cache_write :: "nat option"
  bu_reasoning :: "nat option"
  bu_total :: "nat option"

datatype model_error_kind = EAuth | EProvider | EQuota | ERateLimit | ETransport | ECancelled

record classifier_response =
  cr_text :: string
  cr_usage :: "bridge_usage option"
  cr_provider :: "string option"
  cr_model :: "string option"
  cr_reported :: "string option"

text \<open>What the callback resolves to, or that it rejects.\<close>

datatype classifier_result =
    ClassifierResponse classifier_response
  | ClassifierError model_error_kind string
  | ClassifierThrows string

text \<open>Frames the bridge writes, and frames the client writes. \<open>parseFrame\<close> returns the parsed object with
  all its members, so a ready frame may carry a \<open>decisionId\<close>, of any JSON value.\<close>

datatype output_frame =
    ReadyFrame "json option"
  | CallModelFrame string string json
  | DecisionFrame bridge_decision
  | ErrorFrame string string string

datatype input_frame =
    StartFrame string string bridge_policy
  | ModelResultFrame string string string "(nat option \<times> nat option) option"
  | ModelErrorFrame string string model_error_kind string

datatype bridge_error =
    FrameTooLarge
  | InvalidJson
  | NoStringType
  | InvalidFrame string
  | BridgeClosed
  | AlreadyActive
  | Aborted
  | MismatchedDecision
  | DuplicateInference
  | DecisionBeforeInference
  | BridgeReported string string
  | UnexpectedFrame
  | BridgeExited
  | BackpressureExceeded
  | ClassifierRejected string

definition max_bridge_frame_bytes :: nat where
  "max_bridge_frame_bytes = 1024 * 1024"

subsection \<open>Parsing a frame\<close>

fun is_object :: "json option \<Rightarrow> bool" where
  "is_object (Some (JObj _)) = True"
| "is_object _ = False"

fun is_id :: "json option \<Rightarrow> bool" where
  "is_id (Some (JStr s)) = (s \<noteq> [])"
| "is_id _ = False"

fun is_string :: "json option \<Rightarrow> bool" where
  "is_string (Some (JStr _)) = True"
| "is_string _ = False"

definition valid_block :: "json \<Rightarrow> bool" where
  "valid_block block \<longleftrightarrow> is_object (Some block) \<and> is_string (json_field ''type'' block) \<and>
     (json_field ''text'' block = None \<or> is_string (json_field ''text'' block))"

definition valid_message :: "json \<Rightarrow> bool" where
  "valid_message message \<longleftrightarrow> is_object (Some message) \<and> is_string (json_field ''role'' message) \<and>
     (case json_field ''content'' message of Some (JArr blocks) \<Rightarrow> list_all valid_block blocks | _ \<Rightarrow> False)"

fun valid_messages :: "json option \<Rightarrow> bool" where
  "valid_messages (Some (JArr ms)) = list_all valid_message ms"
| "valid_messages _ = False"

definition absent :: "json option \<Rightarrow> bool" where
  "absent v \<longleftrightarrow> v = None \<or> v = Some JNull"

definition positive_safe_integer :: "json option \<Rightarrow> bool" where
  "positive_safe_integer v =
     (case v of Some (JNum r) \<Rightarrow> is_safe_integer (Fin r) \<and> 0 < r | _ \<Rightarrow> False)"

definition valid_call_model :: "json \<Rightarrow> bool" where
  "valid_call_model frame \<longleftrightarrow>
     is_id (json_field ''decisionId'' frame) \<and> is_id (json_field ''callId'' frame) \<and>
     json_field ''targetAlias'' frame = Some (JStr ''classifier'') \<and>
     (case json_field ''request'' frame of
        Some request \<Rightarrow>
          is_object (Some request) \<and> valid_messages (json_field ''messages'' request) \<and>
          (absent (json_field ''instructions'' request) \<or>
           valid_messages (json_field ''instructions'' request)) \<and>
          (absent (json_field ''output'' request) \<or>
           (is_object (json_field ''output'' request) \<and>
            (absent (json_field ''max_output_tokens'' (json_get ''output'' request)) \<or>
             positive_safe_integer (json_field ''max_output_tokens'' (json_get ''output'' request)))))
      | None \<Rightarrow> False)"

definition valid_decision :: "json \<Rightarrow> bool" where
  "valid_decision frame \<longleftrightarrow>
     (let evidence = json_get ''evidence'' frame in
      is_object (json_field ''evidence'' frame) \<and>
      is_id (json_field ''decisionId'' frame) \<and>
      (json_field ''selectedAlias'' frame = Some (JStr ''weak'') \<or>
       json_field ''selectedAlias'' frame = Some (JStr ''strong'')) \<and>
      ((json_field ''kind'' evidence = Some (JStr ''fallback'') \<and>
        json_field ''reason'' evidence = Some (JStr ''invalid_verdict'') \<and>
        json_field ''selectedAlias'' frame = Some (JStr ''strong'')) \<or>
       (json_field ''kind'' evidence = Some (JStr ''validated_verdict'') \<and>
        (case json_field ''weakSolveProbability'' evidence of
           Some (JNum p) \<Rightarrow> 0 \<le> p \<and> p \<le> 1 | _ \<Rightarrow> False))))"

definition valid_error :: "json \<Rightarrow> bool" where
  "valid_error frame \<longleftrightarrow> is_id (json_field ''decisionId'' frame) \<and>
     is_id (json_field ''kind'' frame) \<and> is_string (json_field ''message'' frame)"

text \<open>The cast of a validated frame.\<close>

definition decode_decision :: "json \<Rightarrow> bridge_decision" where
  "decode_decision frame =
     \<lparr>bd_id = json_str (json_get ''decisionId'' frame),
      bd_alias = (if json_str (json_get ''selectedAlias'' frame) = ''weak'' then TierWeak else TierStrong),
      bd_evidence =
        (let evidence = json_get ''evidence'' frame in
         if json_str (json_get ''kind'' evidence) = ''fallback'' then FallbackInvalidVerdict
         else ValidatedVerdict (json_num (json_get ''weakSolveProbability'' evidence)))\<rparr>"

definition parse_frame :: "nat \<Rightarrow> json option \<Rightarrow> bridge_error + output_frame" where
  "parse_frame byte_length parsed =
     (if byte_length > max_bridge_frame_bytes then Inl FrameTooLarge
      else case parsed of
        None \<Rightarrow> Inl InvalidJson
      | Some frame \<Rightarrow>
          (case json_field ''type'' frame of
             Some (JStr type) \<Rightarrow>
               if type = ''ready'' then
                 (if json_field ''protocolVersion'' frame = Some (JNum 1) then Inr (ReadyFrame (json_field ''decisionId'' frame))
                  else Inl (InvalidFrame type))
               else if type = ''error'' then
                 (if valid_error frame
                  then Inr (ErrorFrame (json_str (json_get ''decisionId'' frame))
                         (json_str (json_get ''kind'' frame)) (json_str (json_get ''message'' frame)))
                  else Inl (InvalidFrame type))
               else if type = ''call_model'' then
                 (if valid_call_model frame
                  then Inr (CallModelFrame (json_str (json_get ''decisionId'' frame))
                         (json_str (json_get ''callId'' frame)) (json_get ''request'' frame))
                  else Inl (InvalidFrame type))
               else if type = ''decision'' then
                 (if valid_decision frame then Inr (DecisionFrame (decode_decision frame))
                  else Inl (InvalidFrame type))
               else Inl (InvalidFrame type)
           | _ \<Rightarrow> Inl NoStringType))"

subsection \<open>Resolving a decision\<close>

type_synonym raw_line = "nat \<times> json option"

fun frame_decision_id :: "output_frame \<Rightarrow> json option" where
  "frame_decision_id (ReadyFrame v) = v"
| "frame_decision_id (CallModelFrame d _ _) = Some (JStr d)"
| "frame_decision_id (DecisionFrame d) = Some (JStr (bd_id d))"
| "frame_decision_id (ErrorFrame d _ _) = Some (JStr d)"

text \<open>The reply to an inference call: only the input and output tokens are passed on.\<close>

definition classifier_reply :: "string \<Rightarrow> string \<Rightarrow> classifier_result \<Rightarrow> bridge_error + input_frame" where
  "classifier_reply decision_id call_id result =
     (case result of
        ClassifierThrows message \<Rightarrow> Inl (ClassifierRejected message)
      | ClassifierError kind message \<Rightarrow> Inr (ModelErrorFrame decision_id call_id kind message)
      | ClassifierResponse response \<Rightarrow>
          Inr (ModelResultFrame decision_id call_id (cr_text response)
            (map_option (\<lambda>u. (bu_input u, bu_output u)) (cr_usage response))))"

text \<open>What the transport does with a frame. One that meets back pressure has been queued all the same:
  \<open>write\<close> returned false.\<close>

datatype transport_result = Written | Backpressure | FrameOversized

definition write_frame :: "(input_frame \<Rightarrow> transport_result) \<Rightarrow> input_frame list \<Rightarrow> input_frame
    \<Rightarrow> bridge_error option \<times> input_frame list" where
  "write_frame transport sent frame =
     (case transport frame of
        Written \<Rightarrow> (None, sent @ [frame])
      | Backpressure \<Rightarrow> (Some BackpressureExceeded, sent @ [frame])
      | FrameOversized \<Rightarrow> (Some FrameTooLarge, sent))"

text \<open>The loop of \<open>resolveDecision\<close>: the frames written so far are accumulated.\<close>

fun resolve_loop :: "(input_frame \<Rightarrow> transport_result) \<Rightarrow> (json \<Rightarrow> classifier_result) \<Rightarrow> string \<Rightarrow> bool
    \<Rightarrow> input_frame list \<Rightarrow> raw_line list \<Rightarrow> (bridge_error + bridge_decision) \<times> input_frame list" where
  "resolve_loop transport classify decision_id called sent [] = (Inl BridgeExited, sent)"
| "resolve_loop transport classify decision_id called sent ((byte_length, parsed) # rest) =
     (case parse_frame byte_length parsed of
        Inl e \<Rightarrow> (Inl e, sent)
      | Inr frame \<Rightarrow>
          if frame_decision_id frame \<noteq> None \<and> frame_decision_id frame \<noteq> Some (JStr decision_id)
          then (Inl MismatchedDecision, sent)
          else
            (case frame of
               CallModelFrame frame_decision call_id request \<Rightarrow>
                 if called then (Inl DuplicateInference, sent)
                 else
                   (case classifier_reply frame_decision call_id (classify request) of
                      Inl e \<Rightarrow> (Inl e, sent)
                    | Inr reply \<Rightarrow>
                        (case write_frame transport sent reply of
                           (Some e, sent') \<Rightarrow> (Inl e, sent')
                         | (None, sent') \<Rightarrow> resolve_loop transport classify decision_id True sent' rest))
             | DecisionFrame decision \<Rightarrow>
                 if \<not> called then (Inl DecisionBeforeInference, sent) else (Inr decision, sent)
             | ErrorFrame _ kind message \<Rightarrow> (Inl (BridgeReported kind message), sent)
             | ReadyFrame _ \<Rightarrow> (Inl UnexpectedFrame, sent)))"

record bridge_client =
  bc_closed :: bool
  bc_active :: bool

definition default_capability :: string where
  "default_capability = ''Use Switchyard's packaged efficient-agent capability card.''"

definition resolve_decision :: "(input_frame \<Rightarrow> transport_result) \<Rightarrow> (json \<Rightarrow> classifier_result) \<Rightarrow> bool
    \<Rightarrow> bridge_client \<Rightarrow> string \<Rightarrow> string \<Rightarrow> real \<Rightarrow> string option \<Rightarrow> int \<Rightarrow> raw_line list
    \<Rightarrow> (bridge_error + bridge_decision) \<times> input_frame list \<times> bridge_client" where
  "resolve_decision transport classify aborted client decision_id task threshold capability max_output lines =
     (if bc_closed client then (Inl BridgeClosed, [], client)
      else if bc_active client then (Inl AlreadyActive, [], client)
      else if aborted then (Inl Aborted, [], client)
      else
        let start = StartFrame decision_id task
              \<lparr>bp_weak_threshold = threshold,
               bp_weak_capability = (case capability of None \<Rightarrow> default_capability | Some c \<Rightarrow> c),
               bp_max_output = max_output\<rparr>
        in (case write_frame transport [] start of
              (Some e, sent) \<Rightarrow> (Inl e, sent, client\<lparr>bc_active := False\<rparr>)
            | (None, sent) \<Rightarrow>
                (case resolve_loop transport classify decision_id False sent lines of
                   (outcome, sent') \<Rightarrow> (outcome, sent', client\<lparr>bc_active := False\<rparr>))))"

lemma write_frame_cases:
  "write_frame transport sent frame = (None, sent') \<longleftrightarrow> transport frame = Written \<and> sent' = sent @ [frame]"
  "write_frame transport sent frame = (e, sent') \<Longrightarrow> sent' = sent \<or> sent' = sent @ [frame]"
  by (auto simp: write_frame_def split: transport_result.splits)

subsection \<open>What a decision satisfies\<close>

definition evidence_wf :: "bridge_decision \<Rightarrow> bool" where
  "evidence_wf d \<longleftrightarrow> bd_id d \<noteq> [] \<and>
     (case bd_evidence d of
        FallbackInvalidVerdict \<Rightarrow> bd_alias d = TierStrong
      | ValidatedVerdict p \<Rightarrow> 0 \<le> p \<and> p \<le> 1)"

lemma is_id_str: "is_id (json_field k j) \<Longrightarrow> json_str (json_get k j) \<noteq> []"
  by (auto simp: json_get_def elim!: is_id.elims)

lemma json_get_Some [simp]: "json_field k j = Some v \<Longrightarrow> json_get k j = v"
  by (simp add: json_get_def)

lemma valid_decision_wf:
  assumes "valid_decision frame"
  shows "evidence_wf (decode_decision frame)"
proof -
  let ?e = "json_get ''evidence'' frame"
  have id: "json_str (json_get ''decisionId'' frame) \<noteq> []"
    using assms by (intro is_id_str) (simp add: valid_decision_def Let_def)
  from assms consider
    (fallback) "json_field ''kind'' ?e = Some (JStr ''fallback'')"
      "json_field ''selectedAlias'' frame = Some (JStr ''strong'')"
  | (verdict) p where "json_field ''kind'' ?e = Some (JStr ''validated_verdict'')"
      "json_field ''weakSolveProbability'' ?e = Some (JNum p)" "0 \<le> p" "p \<le> 1"
    unfolding valid_decision_def Let_def by (force split: option.splits json.splits)
  then show ?thesis
    by cases (simp_all add: evidence_wf_def decode_decision_def id Let_def)
qed

lemma parse_decision:
  assumes "parse_frame n parsed = Inr (DecisionFrame d)"
  shows "evidence_wf d \<and> n \<le> max_bridge_frame_bytes"
proof -
  from assms obtain frame where "parsed = Some frame" "valid_decision frame" "d = decode_decision frame"
    "n \<le> max_bridge_frame_bytes"
    by (auto simp: parse_frame_def not_less split: if_splits option.splits json.splits)
  then show ?thesis using valid_decision_wf by simp
qed

lemma resolve_called:
  "resolve_loop transport classify decision_id True sent lines = (Inr d, sent') \<longleftrightarrow>
     (\<exists>n parsed rest. lines = (n, parsed) # rest \<and> parse_frame n parsed = Inr (DecisionFrame d) \<and>
        bd_id d = decision_id \<and> sent' = sent)"
proof (cases lines)
  case (Cons l rest)
  obtain n parsed where l: "l = (n, parsed)" by (cases l)
  show ?thesis
  proof (cases "parse_frame n parsed")
    case (Inr frame)
    then show ?thesis unfolding Cons l by (cases frame) auto
  qed (simp add: Cons l)
qed simp

lemma resolve_uncalled:
  "resolve_loop transport classify decision_id False sent lines = (Inr d, sent') \<longleftrightarrow>
     (\<exists>n parsed rest call_id request reply.
        lines = (n, parsed) # rest \<and>
        parse_frame n parsed = Inr (CallModelFrame decision_id call_id request) \<and>
        classifier_reply decision_id call_id (classify request) = Inr reply \<and> transport reply = Written \<and>
        resolve_loop transport classify decision_id True (sent @ [reply]) rest = (Inr d, sent'))"
proof (cases lines)
  case (Cons l rest)
  obtain n parsed where l: "l = (n, parsed)" by (cases l)
  show ?thesis
  proof (cases "parse_frame n parsed")
    case (Inr frame)
    then show ?thesis
      unfolding Cons l by (cases frame)
        (auto simp: write_frame_def split: sum.splits transport_result.splits)
  qed (simp add: Cons l)
qed simp

text \<open>One pass of the loop, once a classifier call may still come: what was written grows by one reply at most.\<close>

lemma resolve_called_sent:
  "resolve_loop transport classify decision_id True sent lines = (r, sent') \<Longrightarrow> sent' = sent"
  by (cases "(transport, classify, decision_id, True, sent, lines)" rule: resolve_loop.cases)
    (auto split: sum.splits if_splits output_frame.splits)

lemma resolve_loop_prefix:
  assumes "resolve_loop transport classify decision_id False sent lines = (r, sent')"
  shows "sent' = sent \<or> (\<exists>reply. sent' = sent @ [reply])"
proof (cases lines)
  case (Cons l rest)
  obtain n parsed where l: "l = (n, parsed)" by (cases l)
  show ?thesis
    using assms unfolding Cons l
    by (auto split: sum.splits if_splits output_frame.splits prod.splits option.splits
        dest!: resolve_called_sent dest: write_frame_cases(2))
qed (use assms in simp)

lemma resolve_decision_evidence:
  assumes "resolve_decision transport classify aborted client decision_id task threshold capability max_output lines =
     (Inr d, sent, client')"
  shows "bd_id d = decision_id \<and> evidence_wf d"
proof -
  have "resolve_loop transport classify decision_id False [StartFrame decision_id task
      \<lparr>bp_weak_threshold = threshold,
       bp_weak_capability = (case capability of None \<Rightarrow> default_capability | Some c \<Rightarrow> c),
       bp_max_output = max_output\<rparr>] lines = (Inr d, sent)"
    using assms by (auto simp: resolve_decision_def Let_def write_frame_cases(1) split: if_splits prod.splits option.splits)
  then show ?thesis by (auto simp: resolve_uncalled resolve_called dest: parse_decision)
qed

subsection \<open>Properties\<close>

text \<open>A line-by-line example: one inference, then a fallback decision.\<close>

definition example_call :: json where
  "example_call = JObj
     [(''type'', JStr ''call_model''), (''decisionId'', JStr ''d''), (''callId'', JStr ''c''),
      (''targetAlias'', JStr ''classifier''), (''request'', JObj [(''messages'', JArr [])])]"

definition example_decision :: json where
  "example_decision = JObj
     [(''type'', JStr ''decision''), (''decisionId'', JStr ''d''), (''selectedAlias'', JStr ''strong''),
      (''evidence'', JObj [(''kind'', JStr ''fallback''), (''reason'', JStr ''invalid_verdict'')])]"

definition example_fallback :: bridge_decision where
  "example_fallback = \<lparr>bd_id = ''d'', bd_alias = TierStrong, bd_evidence = FallbackInvalidVerdict\<rparr>"

lemma example_frames:
  "parse_frame 200 (Some example_call) =
     Inr (CallModelFrame ''d'' ''c'' (JObj [(''messages'', JArr [])]))"
  "parse_frame 200 (Some example_decision) = Inr (DecisionFrame example_fallback)"
  by (simp_all add: example_call_def example_decision_def parse_frame_def
      max_bridge_frame_bytes_def valid_call_model_def json_get_def absent_def valid_decision_def
      decode_decision_def example_fallback_def)

text \<open>\<open>resolveDecision\<close> returns a decision exactly when the bridge's first line is an inference
  request for this decision, the classifier's reply could be written, and the second line is a
  decision for it. So the classifier is called exactly once, before any decision, a decision of
  another request is never returned, and the only frames written are the start and one reply.\<close>

theorem resolve_decision_protocol:
  "resolve_decision transport classify aborted client decision_id task threshold capability max_output lines =
     (Inr d, sent, client') \<longleftrightarrow>
   \<not> bc_closed client \<and> \<not> bc_active client \<and> \<not> aborted \<and> client' = client \<and>
   (\<exists>start reply n parsed m parsed' rest call_id request.
      start = StartFrame decision_id task \<lparr>bp_weak_threshold = threshold,
        bp_weak_capability = (case capability of None \<Rightarrow> default_capability | Some c \<Rightarrow> c),
        bp_max_output = max_output\<rparr> \<and>
      lines = (n, parsed) # (m, parsed') # rest \<and>
      parse_frame n parsed = Inr (CallModelFrame decision_id call_id request) \<and>
      classifier_reply decision_id call_id (classify request) = Inr reply \<and>
      parse_frame m parsed' = Inr (DecisionFrame d) \<and> bd_id d = decision_id \<and>
      transport start = Written \<and> transport reply = Written \<and> sent = [start, reply])"
proof -
  have "client\<lparr>bc_active := False\<rparr> = client" if "\<not> bc_active client" using that by (cases client) simp
  then show ?thesis
    by (auto simp: resolve_decision_def Let_def resolve_uncalled resolve_called write_frame_def
        split: prod.splits transport_result.splits)
qed

text \<open>C15: Every decision the client returns is well-formed evidence: it names the request, a fallback
  (an invalid verdict) always selects the strong model, and a validated verdict carries a
  probability in [0, 1]; and however the exchange ends, at most one reply is sent and the client is
  left inactive when it was inactive.\<close>

theorem resolve_decision_safe:
  assumes "resolve_decision transport classify aborted client decision_id task threshold capability max_output lines =
     (outcome, sent, client')"
  shows "length sent \<le> 2 \<and> (\<not> bc_active client \<longrightarrow> \<not> bc_active client') \<and>
    (\<forall>d. outcome = Inr d \<longrightarrow> bd_id d = decision_id \<and> evidence_wf d)"
proof -
  have "length sent \<le> 2"
    using assms by (auto simp: resolve_decision_def Let_def write_frame_def dest!: resolve_loop_prefix
        split: if_splits prod.splits transport_result.splits)
  moreover have "\<not> bc_active client \<longrightarrow> \<not> bc_active client'"
    using assms by (auto simp: resolve_decision_def Let_def split: if_splits prod.splits option.splits)
  moreover have "bd_id d = decision_id \<and> evidence_wf d" if "outcome = Inr d" for d
    using assms unfolding that by (rule resolve_decision_evidence)
  ultimately show ?thesis by blast
qed

theorem resolve_decision_safe_witness:
  "length [StartFrame ''d'' ''t'' \<lparr>bp_weak_threshold = 1 / 2, bp_weak_capability = ''x'', bp_max_output = 100\<rparr>,
       ModelErrorFrame ''d'' ''c'' EQuota ''q''] \<le> 2 \<and>
   \<not> bc_active \<lparr>bc_closed = False, bc_active = False\<rparr> \<and>
   bd_id example_fallback = ''d'' \<and> evidence_wf example_fallback"
proof -
  have "resolve_decision (\<lambda>_. Written) (\<lambda>_. ClassifierError EQuota ''q'') False
      \<lparr>bc_closed = False, bc_active = False\<rparr> ''d'' ''t'' (1 / 2) (Some ''x'') 100
      [(200, Some example_call), (200, Some example_decision)] =
    (Inr example_fallback,
     [StartFrame ''d'' ''t'' \<lparr>bp_weak_threshold = 1 / 2, bp_weak_capability = ''x'', bp_max_output = 100\<rparr>,
      ModelErrorFrame ''d'' ''c'' EQuota ''q''], \<lparr>bc_closed = False, bc_active = False\<rparr>)"
    by (simp add: resolve_decision_def example_frames classifier_reply_def write_frame_def example_fallback_def)
  from resolve_decision_safe [OF this] show ?thesis by simp
qed

text \<open>C40: An error the bridge reports without a decision identity, which the frame type allows and the
  bridge sends for a line it cannot read, never reaches the caller as the bridge's own message: it is
  rejected as an invalid frame.\<close>

theorem unattributed_error_rejected:
  assumes "json_field ''type'' frame = Some (JStr ''error'')"
    and "json_field ''decisionId'' frame = None" and "n \<le> max_bridge_frame_bytes"
  shows "parse_frame n (Some frame) = Inl (InvalidFrame ''error'')"
  using assms by (simp add: parse_frame_def valid_error_def)

theorem unattributed_error_rejected_witness:
  "parse_frame 60 (Some (JObj [(''type'', JStr ''error''), (''kind'', JStr ''protocol''),
     (''message'', JStr ''expected a start frame'')])) = Inl (InvalidFrame ''error'')"
  by (rule unattributed_error_rejected) (simp_all add: max_bridge_frame_bytes_def)

end
