(* ===== verification/Keyed_Store.thy ===== *)
theory Keyed_Store
  imports Lab_Prelude
begin

section \<open>Stores that record every key once\<close>

text \<open>
  The usage ledger and the event log of an attempt share a contract: an entry is recorded under
  an identity; recording the same entry again changes nothing and is reported as a duplicate;
  recording another entry under the same identity is an error. The contract is the locale
  \<open>once_store\<close>; its consequences for whole sequences of operations (a replayed log changes
  nothing, the contents are those of the operations) are proved once here.
\<close>

text \<open>Running a sequence of operations, stopping at the first error.\<close>

fun fold_result :: "('s \<Rightarrow> 'a \<Rightarrow> 'e + 's) \<Rightarrow> 's \<Rightarrow> 'a list \<Rightarrow> 'e + 's" where
  "fold_result f s [] = Inr s"
| "fold_result f s (x # xs) = (case f s x of Inl e \<Rightarrow> Inl e | Inr s' \<Rightarrow> fold_result f s' xs)"

lemma fold_result_append:
  "fold_result f s (xs @ ys) = bind_result (fold_result f s xs) (\<lambda>s'. fold_result f s' ys)"
  by (induction xs arbitrary: s) (auto split: sum.splits)

lemma fold_result_invariant:
  assumes "fold_result f s xs = Inr s'" and "P s"
    and "\<And>s x s'. P s \<Longrightarrow> x \<in> set xs \<Longrightarrow> f s x = Inr s' \<Longrightarrow> P s'"
  shows "P s'"
  using assms
proof (induction xs arbitrary: s)
  case Nil
  from Nil.prems(1,2) show ?case by simp
next
  case (Cons x xs)
  from Cons.prems(1) obtain t where t: "f s x = Inr t" "fold_result f t xs = Inr s'"
    by (auto split: sum.splits)
  have "P t" by (rule Cons.prems(3) [OF Cons.prems(2) _ t(1)]) simp
  show ?case
  proof (rule Cons.IH [OF t(2) \<open>P t\<close>])
    fix s x s' assume "P s" "x \<in> set xs" "f s x = Inr s'"
    then show "P s'" using Cons.prems(3) [of s x s'] by simp
  qed
qed

locale once_store =
  fixes lookup :: "'s \<Rightarrow> 'k \<Rightarrow> 'v option"
    and put :: "'s \<Rightarrow> 'k \<times> 'v \<Rightarrow> 'e + 's"
    and acceptable :: "'k \<times> 'v \<Rightarrow> bool"
  assumes put_new: "acceptable (k, v) \<Longrightarrow> lookup s k = None \<Longrightarrow>
      \<exists>s'. put s (k, v) = Inr s' \<and> (\<forall>k'. lookup s' k' = (if k' = k then Some v else lookup s k'))"
    and put_same: "acceptable (k, v) \<Longrightarrow> lookup s k = Some v \<Longrightarrow> put s (k, v) = Inr s"
    and put_conflict: "lookup s k = Some w \<Longrightarrow> w \<noteq> v \<Longrightarrow> \<exists>e. put s (k, v) = Inl e"
    and put_rejected: "\<not> acceptable (k, v) \<Longrightarrow> \<exists>e. put s (k, v) = Inl e"
begin

lemma put_Inr:
  assumes "put s (k, v) = Inr s'"
  shows "acceptable (k, v) \<and> lookup s' k = Some v \<and> (lookup s k = None \<or> lookup s k = Some v) \<and>
    (\<forall>k'. k' \<noteq> k \<longrightarrow> lookup s' k' = lookup s k')"
proof (cases "acceptable (k, v)")
  case True
  show ?thesis
  proof (cases "lookup s k")
    case None
    with True put_new [of k v s] assms show ?thesis by auto
  next
    case (Some w)
    with True put_same [of k v s] put_conflict [of s k w v] assms show ?thesis by auto
  qed
next
  case False
  then show ?thesis using put_rejected [of k v s] assms by auto
qed

lemma put_keeps: "put s kv = Inr s' \<Longrightarrow> lookup s k = Some v \<Longrightarrow> lookup s' k = Some v"
  using put_Inr [of s "fst kv" "snd kv" s'] by (cases "k = fst kv") auto

lemma puts_keep: "fold_result put s ops = Inr s' \<Longrightarrow> lookup s k = Some v \<Longrightarrow> lookup s' k = Some v"
  by (induction ops arbitrary: s) (auto split: sum.splits dest: put_keeps)

lemma puts_recorded:
  "fold_result put s ops = Inr s' \<Longrightarrow> (k, v) \<in> set ops \<Longrightarrow> acceptable (k, v) \<and> lookup s' k = Some v"
proof (induction ops arbitrary: s)
  case (Cons op ops)
  then obtain t where t: "put s op = Inr t" "fold_result put t ops = Inr s'"
    by (auto split: sum.splits)
  show ?case
  proof (cases "op = (k, v)")
    case True
    with t(1) put_Inr have "acceptable (k, v)" "lookup t k = Some v" by auto
    with t(2) puts_keep show ?thesis by blast
  next
    case False
    with Cons t show ?thesis by auto
  qed
qed simp

lemma puts_noop:
  "(\<And>k v. (k, v) \<in> set ops \<Longrightarrow> acceptable (k, v) \<and> lookup s k = Some v) \<Longrightarrow> fold_result put s ops = Inr s"
  by (induction ops) (auto simp: put_same)

text \<open>Replaying operations that succeeded changes nothing.\<close>

lemma puts_replay: "fold_result put s ops = Inr s' \<Longrightarrow> set again \<subseteq> set ops \<Longrightarrow> fold_result put s' again = Inr s'"
  by (rule puts_noop) (auto dest: puts_recorded)

lemma puts_lookup:
  "fold_result put s ops = Inr s' \<Longrightarrow>
     lookup s' k = (case lookup s k of Some v \<Rightarrow> Some v | None \<Rightarrow> map_of ops k)"
proof (induction ops arbitrary: s)
  case (Cons op ops)
  then obtain t where t: "put s op = Inr t" "fold_result put t ops = Inr s'"
    by (auto split: sum.splits)
  show ?case
    using Cons.IH [OF t(2)] put_Inr [of s "fst op" "snd op" t] t(1)
    by (cases "k = fst op") (auto split: option.splits)
qed (auto split: option.splits)

end

end
