(* ===== verification/Routing_Decision.thy ===== *)
theory Routing_Decision
  imports Fingerprint Bridge Keyed_Store
begin

section \<open>Routing decisions and their durable store (src/pi/session-routing.ts)\<close>

text \<open>
  The decision record, its JSON schema and its validation, and \<open>RoutingDecisionStore\<close>: one file
  per Pi session. The directory is a map from session identities to what reading the file gives;
  whether \<open>Date.parse\<close> accepts a timestamp is the argument \<open>date_ok\<close>.
\<close>

subsection \<open>Data\<close>

datatype session_mode = WeakOnly | StrongOnly | Routed

datatype decision_source = FromClassifier | FromFallback | FixedBaseline

record model_identity =
  mi_provider :: string
  mi_model :: string
  mi_reported :: "string option"

record classifier_measure =
  cm_duration :: int
  cm_input :: "nat option"
  cm_output :: "nat option"

record routing_decision =
  rd_project :: string
  rd_session :: string
  rd_run :: string
  rd_id :: string
  rd_mode :: session_mode
  rd_tier :: tier
  rd_model :: model_identity
  rd_probability :: "real option"
  rd_threshold :: real
  rd_source :: decision_source
  rd_fallback :: bool
  rd_classifier :: "classifier_measure option"
  rd_fingerprint :: fingerprint
  rd_auth_profile :: string
  rd_timestamp :: string
  rd_reasons :: "string list"

subsection \<open>The schema\<close>

definition nonempty_string :: schema where
  "nonempty_string = Schema [KType [TString], KMinLength 1]"

definition hash_string :: schema where
  "hash_string = Schema [KType [TString], KPattern is_hash]"

definition nullable_count :: schema where
  "nullable_count = Schema [KType [TInteger, TNull], KMinimum 0]"

definition selected_model_schema :: schema where
  "selected_model_schema = Schema
     [KType [TObject],
      KRequired [''provider'', ''model'', ''providerReportedModelId''],
      KClosed
        [(''provider'', nonempty_string),
         (''model'', nonempty_string),
         (''providerReportedModelId'', Schema [KType [TString, TNull]])]]"

definition classifier_schema :: schema where
  "classifier_schema = Schema [KAnyOf
     [Schema [KType [TNull]],
      Schema
        [KType [TObject],
         KRequired [''durationMs'', ''inputTokens'', ''outputTokens''],
         KClosed
           [(''durationMs'', Schema [KType [TInteger], KMinimum 0]),
            (''inputTokens'', nullable_count),
            (''outputTokens'', nullable_count)]]]]"

definition fingerprint_schema :: schema where
  "fingerprint_schema = Schema
     [KType [TObject],
      KRequired [''value'', ''configHash'', ''modelMetadataHash'', ''providerConfigHash'', ''capabilityCardHash''],
      KClosed
        [(''value'', hash_string), (''configHash'', hash_string), (''modelMetadataHash'', hash_string),
         (''providerConfigHash'', hash_string), (''capabilityCardHash'', hash_string)]]"

definition routing_decision_schema :: "(string \<Rightarrow> bool) \<Rightarrow> schema" where
  "routing_decision_schema date_ok = Schema
     [KType [TObject],
      KRequired [''schemaVersion'', ''projectId'', ''piSessionId'', ''runId'', ''decisionId'', ''mode'',
        ''selectedTier'', ''selectedModel'', ''weakSolveProbability'', ''threshold'', ''source'',
        ''fallbackReason'', ''classifier'', ''fingerprint'', ''authProfile'', ''timestamp'', ''missingReasons''],
      KClosed
        [(''schemaVersion'', Schema [KConst (JNum 1)]),
         (''projectId'', nonempty_string),
         (''piSessionId'', nonempty_string),
         (''runId'', nonempty_string),
         (''decisionId'', nonempty_string),
         (''mode'', Schema [KEnum [JStr ''weak-only'', JStr ''strong-only'', JStr ''routed'']]),
         (''selectedTier'', Schema [KEnum [JStr ''weak'', JStr ''strong'']]),
         (''selectedModel'', selected_model_schema),
         (''weakSolveProbability'', Schema [KType [TNumber, TNull], KMinimum 0, KMaximum 1]),
         (''threshold'', Schema [KType [TNumber], KMinimum 0, KMaximum 1]),
         (''source'', Schema [KEnum [JStr ''classifier'', JStr ''classifier-fallback'', JStr ''fixed-baseline'']]),
         (''fallbackReason'', Schema [KEnum [JStr ''invalid_verdict'', JNull]]),
         (''classifier'', classifier_schema),
         (''fingerprint'', fingerprint_schema),
         (''authProfile'', Schema [KType [TString], KPattern is_profile]),
         (''timestamp'', Schema [KType [TString], KPattern date_ok]),
         (''missingReasons'', Schema [KType [TArray], KUniqueItems, KItems nonempty_string])]]"

subsection \<open>JSON of a decision\<close>

definition nullable :: "('a \<Rightarrow> json) \<Rightarrow> 'a option \<Rightarrow> json" where
  "nullable f x = (case x of None \<Rightarrow> JNull | Some v \<Rightarrow> f v)"

definition read_nullable :: "(json \<Rightarrow> 'a) \<Rightarrow> json \<Rightarrow> 'a option" where
  "read_nullable f j = (if j = JNull then None else Some (f j))"

fun mode_string :: "session_mode \<Rightarrow> string" where
  "mode_string WeakOnly = ''weak-only''"
| "mode_string StrongOnly = ''strong-only''"
| "mode_string Routed = ''routed''"

fun tier_string :: "tier \<Rightarrow> string" where
  "tier_string TierWeak = ''weak''"
| "tier_string TierStrong = ''strong''"

fun source_string :: "decision_source \<Rightarrow> string" where
  "source_string FromClassifier = ''classifier''"
| "source_string FromFallback = ''classifier-fallback''"
| "source_string FixedBaseline = ''fixed-baseline''"

definition model_identity_json :: "model_identity \<Rightarrow> json" where
  "model_identity_json m = JObj
     [(''provider'', JStr (mi_provider m)), (''model'', JStr (mi_model m)),
      (''providerReportedModelId'', nullable JStr (mi_reported m))]"

definition classifier_json :: "classifier_measure \<Rightarrow> json" where
  "classifier_json c = JObj
     [(''durationMs'', JNum (of_int (cm_duration c))),
      (''inputTokens'', nullable (\<lambda>n. JNum (real n)) (cm_input c)),
      (''outputTokens'', nullable (\<lambda>n. JNum (real n)) (cm_output c))]"

definition fingerprint_json :: "fingerprint \<Rightarrow> json" where
  "fingerprint_json f = JObj
     [(''value'', JStr (fp_value f)), (''configHash'', JStr (fp_config f)),
      (''modelMetadataHash'', JStr (fp_models f)), (''providerConfigHash'', JStr (fp_providers f)),
      (''capabilityCardHash'', JStr (fp_capability f))]"

definition decision_json :: "routing_decision \<Rightarrow> json" where
  "decision_json d = JObj
     [(''schemaVersion'', JNum 1),
      (''projectId'', JStr (rd_project d)),
      (''piSessionId'', JStr (rd_session d)),
      (''runId'', JStr (rd_run d)),
      (''decisionId'', JStr (rd_id d)),
      (''mode'', JStr (mode_string (rd_mode d))),
      (''selectedTier'', JStr (tier_string (rd_tier d))),
      (''selectedModel'', model_identity_json (rd_model d)),
      (''weakSolveProbability'', nullable JNum (rd_probability d)),
      (''threshold'', JNum (rd_threshold d)),
      (''source'', JStr (source_string (rd_source d))),
      (''fallbackReason'', if rd_fallback d then JStr ''invalid_verdict'' else JNull),
      (''classifier'', nullable classifier_json (rd_classifier d)),
      (''fingerprint'', fingerprint_json (rd_fingerprint d)),
      (''authProfile'', JStr (rd_auth_profile d)),
      (''timestamp'', JStr (rd_timestamp d)),
      (''missingReasons'', JArr (map JStr (rd_reasons d)))]"

text \<open>The cast of validated JSON.\<close>

definition read_mode :: "json \<Rightarrow> session_mode" where
  "read_mode j = (if json_str j = ''weak-only'' then WeakOnly
     else if json_str j = ''strong-only'' then StrongOnly else Routed)"

definition read_tier :: "json \<Rightarrow> tier" where
  "read_tier j = (if json_str j = ''weak'' then TierWeak else TierStrong)"

definition read_source :: "json \<Rightarrow> decision_source" where
  "read_source j = (if json_str j = ''classifier'' then FromClassifier
     else if json_str j = ''classifier-fallback'' then FromFallback else FixedBaseline)"

definition read_model_identity :: "json \<Rightarrow> model_identity" where
  "read_model_identity j =
     \<lparr>mi_provider = json_str (json_get ''provider'' j), mi_model = json_str (json_get ''model'' j),
      mi_reported = read_nullable json_str (json_get ''providerReportedModelId'' j)\<rparr>"

definition read_classifier :: "json \<Rightarrow> classifier_measure" where
  "read_classifier j =
     \<lparr>cm_duration = \<lfloor>json_num (json_get ''durationMs'' j)\<rfloor>,
      cm_input = read_nullable json_nat (json_get ''inputTokens'' j),
      cm_output = read_nullable json_nat (json_get ''outputTokens'' j)\<rparr>"

definition read_fingerprint :: "json \<Rightarrow> fingerprint" where
  "read_fingerprint j =
     \<lparr>fp_value = json_str (json_get ''value'' j), fp_config = json_str (json_get ''configHash'' j),
      fp_models = json_str (json_get ''modelMetadataHash'' j),
      fp_providers = json_str (json_get ''providerConfigHash'' j),
      fp_capability = json_str (json_get ''capabilityCardHash'' j)\<rparr>"

fun json_strings :: "json \<Rightarrow> string list" where
  "json_strings (JArr xs) = map json_str xs"
| "json_strings _ = []"

definition read_decision :: "json \<Rightarrow> routing_decision" where
  "read_decision j =
     \<lparr>rd_project = json_str (json_get ''projectId'' j),
      rd_session = json_str (json_get ''piSessionId'' j),
      rd_run = json_str (json_get ''runId'' j),
      rd_id = json_str (json_get ''decisionId'' j),
      rd_mode = read_mode (json_get ''mode'' j),
      rd_tier = read_tier (json_get ''selectedTier'' j),
      rd_model = read_model_identity (json_get ''selectedModel'' j),
      rd_probability = read_nullable json_num (json_get ''weakSolveProbability'' j),
      rd_threshold = json_num (json_get ''threshold'' j),
      rd_source = read_source (json_get ''source'' j),
      rd_fallback = (json_get ''fallbackReason'' j \<noteq> JNull),
      rd_classifier = read_nullable read_classifier (json_get ''classifier'' j),
      rd_fingerprint = read_fingerprint (json_get ''fingerprint'' j),
      rd_auth_profile = json_str (json_get ''authProfile'' j),
      rd_timestamp = json_str (json_get ''timestamp'' j),
      rd_reasons = json_strings (json_get ''missingReasons'' j)\<rparr>"

subsection \<open>Validation\<close>

datatype routing_error =
    InvalidDecision
  | UnsupportedSessionId
  | DecisionUnreadable
  | DecisionCorrupt
  | AuthRequired string
  | RoleMismatch
  | ConflictingDecisions
  | FreshSessionHasDecision
  | DecisionMissing
  | ForeignDecision
  | ConfigurationMismatch
  | ModeMismatch
  | CustomEntryMissing
  | CustomEntryConflicts
  | BridgeFailed bridge_error
  | LimitReached
  | DecisionUnavailable
  | SetModelRefused
  | OutsideModelLock

definition validate_routing_decision :: "(schema \<Rightarrow> json \<Rightarrow> bool) \<Rightarrow> (string \<Rightarrow> bool) \<Rightarrow> json
    \<Rightarrow> routing_error + routing_decision" where
  "validate_routing_decision ajv date_ok value =
     (if \<not> ajv (routing_decision_schema date_ok) value then Inl InvalidDecision
      else Inr (read_decision value))"

subsection \<open>The store\<close>

text \<open>
  The contents of the directory \<open>routing-decisions\<close>: \<open>None\<close> is a file that does not exist
  (\<open>ENOENT\<close>). A write goes to a fresh temporary file that is renamed over the old one, so a reader
  sees the old or the new contents.
\<close>

type_synonym decision_files = "string \<Rightarrow> file_read option"

definition decision_path :: "string \<Rightarrow> routing_error + string" where
  "decision_path session_id =
     (if \<not> is_session_id session_id then Inl UnsupportedSessionId else Inr session_id)"

definition store_read :: "(schema \<Rightarrow> json \<Rightarrow> bool) \<Rightarrow> (string \<Rightarrow> bool) \<Rightarrow> decision_files \<Rightarrow> string
    \<Rightarrow> routing_error + routing_decision option" where
  "store_read ajv date_ok files session_id =
     bind_result (decision_path session_id) (\<lambda>path.
       case files path of
         None \<Rightarrow> Inr None
       | Some Unreadable \<Rightarrow> Inl DecisionUnreadable
       | Some BadJson \<Rightarrow> Inl DecisionCorrupt
       | Some (Parsed parsed) \<Rightarrow>
           bind_result (validate_routing_decision ajv date_ok parsed) (\<lambda>d. Inr (Some d)))"

definition store_write :: "(schema \<Rightarrow> json \<Rightarrow> bool) \<Rightarrow> (string \<Rightarrow> bool) \<Rightarrow> decision_files
    \<Rightarrow> routing_decision \<Rightarrow> routing_error + decision_files" where
  "store_write ajv date_ok files decision =
     bind_result (validate_routing_decision ajv date_ok (decision_json decision)) (\<lambda>_.
     bind_result (decision_path (rd_session decision)) (\<lambda>path.
       Inr (files(path := Some (Parsed (decision_json decision))))))"

subsection \<open>Round trip\<close>

definition decision_wf :: "(string \<Rightarrow> bool) \<Rightarrow> routing_decision \<Rightarrow> bool" where
  "decision_wf date_ok d \<longleftrightarrow>
     rd_project d \<noteq> [] \<and> rd_session d \<noteq> [] \<and> rd_run d \<noteq> [] \<and> rd_id d \<noteq> [] \<and>
     mi_provider (rd_model d) \<noteq> [] \<and> mi_model (rd_model d) \<noteq> [] \<and>
     pred_option (\<lambda>p. 0 \<le> p \<and> p \<le> 1) (rd_probability d) \<and>
     0 \<le> rd_threshold d \<and> rd_threshold d \<le> 1 \<and>
     pred_option (\<lambda>c. 0 \<le> cm_duration c) (rd_classifier d) \<and>
     list_all is_hash [fp_value (rd_fingerprint d), fp_config (rd_fingerprint d),
       fp_models (rd_fingerprint d), fp_providers (rd_fingerprint d), fp_capability (rd_fingerprint d)] \<and>
     is_profile (rd_auth_profile d) \<and> date_ok (rd_timestamp d) \<and>
     distinct (rd_reasons d) \<and> list_all (\<lambda>r. r \<noteq> []) (rd_reasons d)"

lemma read_nullable_roundtrip [simp]:
  "(\<And>v. f v \<noteq> JNull \<and> g (f v) = v) \<Longrightarrow> read_nullable g (nullable f x) = x"
  by (cases x) (simp_all add: read_nullable_def nullable_def)

lemma read_mode_roundtrip [simp]: "read_mode (JStr (mode_string m)) = m"
  by (cases m) (simp_all add: read_mode_def)

lemma read_tier_roundtrip [simp]: "read_tier (JStr (tier_string t)) = t"
  by (cases t) (simp_all add: read_tier_def)

lemma read_source_roundtrip [simp]: "read_source (JStr (source_string s)) = s"
  by (cases s) (simp_all add: read_source_def)

lemma read_model_identity_roundtrip [simp]: "read_model_identity (model_identity_json m) = m"
  by (simp add: read_model_identity_def model_identity_json_def)

lemma read_classifier_roundtrip [simp]: "read_classifier (classifier_json c) = c"
  by (simp add: read_classifier_def classifier_json_def)

lemma classifier_json_nonnull [simp]: "classifier_json c \<noteq> JNull"
  by (simp add: classifier_json_def)

lemma read_fingerprint_roundtrip [simp]: "read_fingerprint (fingerprint_json f) = f"
  by (simp add: read_fingerprint_def fingerprint_json_def)

lemma json_str_JStr [simp]: "map (json_str \<circ> JStr) xs = xs"
  by (simp add: comp_def)

lemma read_decision_roundtrip [simp]: "read_decision (decision_json d) = d"
proof -
  have "json_str (JStr s) = s" for s by simp
  then show ?thesis
    unfolding read_decision_def decision_json_def
    by (simp add: read_nullable_roundtrip [of JNum json_num] read_nullable_roundtrip [of classifier_json])
qed

lemma nonempty_string_valid [simp]: "schema_valid nonempty_string j \<longleftrightarrow> (\<exists>s. j = JStr s \<and> s \<noteq> [])"
  by (cases j) (auto simp: nonempty_string_def Suc_le_eq)

lemma hash_string_valid [simp]: "schema_valid hash_string j \<longleftrightarrow> (\<exists>s. j = JStr s \<and> is_hash s)"
  by (cases j) (auto simp: hash_string_def)

lemma nullable_count_json [simp]: "schema_valid nullable_count (nullable (\<lambda>n. JNum (real n)) x)"
  by (cases x) (simp_all add: nullable_count_def nullable_def)

lemma mode_string_enum: "mode_string m \<in> {''weak-only'', ''strong-only'', ''routed''}"
  by (cases m) simp_all

lemma tier_string_enum: "tier_string t \<in> {''weak'', ''strong''}"
  by (cases t) simp_all

lemma source_string_enum: "source_string s \<in> {''classifier'', ''classifier-fallback'', ''fixed-baseline''}"
  by (cases s) simp_all

lemma decision_accepted:
  assumes "decision_wf date_ok d"
  shows "schema_valid (routing_decision_schema date_ok) (decision_json d)"
proof -
  have "schema_valid selected_model_schema (model_identity_json (rd_model d))"
    using assms by (cases "mi_reported (rd_model d)")
      (simp_all add: decision_wf_def selected_model_schema_def model_identity_json_def nullable_def)
  moreover have "schema_valid classifier_schema (nullable classifier_json (rd_classifier d))"
    using assms by (cases "rd_classifier d")
      (simp_all add: decision_wf_def classifier_schema_def classifier_json_def nullable_def [of classifier_json])
  moreover have "schema_valid fingerprint_schema (fingerprint_json (rd_fingerprint d))"
    using assms by (simp add: decision_wf_def fingerprint_schema_def fingerprint_json_def)
  moreover have "schema_valid (Schema [KType [TNumber, TNull], KMinimum 0, KMaximum 1])
      (nullable JNum (rd_probability d))"
    using assms by (cases "rd_probability d") (simp_all add: decision_wf_def nullable_def)
  moreover have "schema_valid (Schema [KType [TArray], KUniqueItems, KItems nonempty_string])
      (JArr (map JStr (rd_reasons d)))"
    using assms by (simp add: decision_wf_def distinct_map inj_on_def list_all_iff)
  ultimately show ?thesis
    using assms mode_string_enum [of "rd_mode d"] tier_string_enum [of "rd_tier d"]
      source_string_enum [of "rd_source d"]
    by (simp add: decision_wf_def routing_decision_schema_def decision_json_def)
qed

lemma read_nullable_pred:
  "pred_option P (read_nullable f j) \<longleftrightarrow> j = JNull \<or> P (f j)"
  by (simp add: read_nullable_def)

lemma strings_valid:
  assumes "schema_valid (Schema [KType [TArray], KUniqueItems, KItems nonempty_string]) j"
  shows "distinct (json_strings j) \<and> list_all (\<lambda>r. r \<noteq> []) (json_strings j)"
proof -
  obtain xs where j: "j = JArr xs" and d: "distinct xs" and s: "list_all (schema_valid nonempty_string) xs"
    using assms by (cases j) auto
  have xs: "xs = map JStr (map json_str xs)"
    using s by (induction xs) auto
  with d have "distinct (map json_str xs)" by (metis distinct_map)
  moreover have "list_all (\<lambda>r. r \<noteq> []) (map json_str xs)" using s by (induction xs) auto
  ultimately show ?thesis by (simp add: j)
qed

text \<open>What validation establishes of the record.\<close>

lemma decision_valid:
  assumes "schema_valid (routing_decision_schema date_ok) j"
  shows "decision_wf date_ok (read_decision j)"
proof -
  note members = closed_members [OF assms [unfolded routing_decision_schema_def],
      unfolded list.pred_inject prod.case]
  have model: "schema_valid selected_model_schema (json_get ''selectedModel'' j)"
    and cls: "schema_valid classifier_schema (json_get ''classifier'' j)"
    and fp: "schema_valid fingerprint_schema (json_get ''fingerprint'' j)"
    and reasons: "schema_valid (Schema [KType [TArray], KUniqueItems, KItems nonempty_string])
      (json_get ''missingReasons'' j)"
    and prob: "schema_valid (Schema [KType [TNumber, TNull], KMinimum 0, KMaximum 1])
      (json_get ''weakSolveProbability'' j)"
    and threshold: "schema_valid (Schema [KType [TNumber], KMinimum 0, KMaximum 1]) (json_get ''threshold'' j)"
    and profile: "schema_valid (Schema [KType [TString], KPattern is_profile]) (json_get ''authProfile'' j)"
    and time: "schema_valid (Schema [KType [TString], KPattern date_ok]) (json_get ''timestamp'' j)"
    and ids: "schema_valid nonempty_string (json_get ''projectId'' j)"
      "schema_valid nonempty_string (json_get ''piSessionId'' j)"
      "schema_valid nonempty_string (json_get ''runId'' j)"
      "schema_valid nonempty_string (json_get ''decisionId'' j)"
    using members by (simp_all only: list.set insert_iff simp_thms)
  have "mi_provider (rd_model (read_decision j)) \<noteq> [] \<and> mi_model (rd_model (read_decision j)) \<noteq> []"
    using closed_members [OF model [unfolded selected_model_schema_def]]
    by (auto simp: read_decision_def read_model_identity_def)
  moreover have "pred_option (\<lambda>c. 0 \<le> cm_duration c) (rd_classifier (read_decision j))"
  proof -
    have "json_get ''classifier'' j = JNull \<or> 0 \<le> json_num (json_get ''durationMs'' (json_get ''classifier'' j))"
    proof -
      consider "json_get ''classifier'' j = JNull"
        | "schema_valid (Schema [KType [TObject],
             KRequired [''durationMs'', ''inputTokens'', ''outputTokens''],
             KClosed [(''durationMs'', Schema [KType [TInteger], KMinimum 0]),
               (''inputTokens'', nullable_count), (''outputTokens'', nullable_count)]])
             (json_get ''classifier'' j)"
        using cls unfolding classifier_schema_def by (auto simp del: keyword_valid.simps(11))
      then show ?thesis
      proof cases
        case 2
        from closed_members [OF this] show ?thesis
          by (cases "json_get ''durationMs'' (json_get ''classifier'' j)") auto
      qed simp
    qed
    then show ?thesis by (auto simp: read_decision_def read_nullable_pred read_classifier_def)
  qed
  moreover have "list_all is_hash [fp_value (rd_fingerprint (read_decision j)),
      fp_config (rd_fingerprint (read_decision j)), fp_models (rd_fingerprint (read_decision j)),
      fp_providers (rd_fingerprint (read_decision j)), fp_capability (rd_fingerprint (read_decision j))]"
    using closed_members [OF fp [unfolded fingerprint_schema_def]]
    by (auto simp: read_decision_def read_fingerprint_def)
  moreover have "pred_option (\<lambda>p. 0 \<le> p \<and> p \<le> 1) (rd_probability (read_decision j))"
    using prob by (cases "json_get ''weakSolveProbability'' j") (auto simp: read_decision_def read_nullable_pred)
  moreover have "0 \<le> rd_threshold (read_decision j) \<and> rd_threshold (read_decision j) \<le> 1"
    using threshold by (cases "json_get ''threshold'' j") (auto simp: read_decision_def)
  moreover have "is_profile (rd_auth_profile (read_decision j))"
    using profile by (cases "json_get ''authProfile'' j") (auto simp: read_decision_def)
  moreover have "date_ok (rd_timestamp (read_decision j))"
    using time by (cases "json_get ''timestamp'' j") (auto simp: read_decision_def)
  moreover have "distinct (rd_reasons (read_decision j)) \<and> list_all (\<lambda>r. r \<noteq> []) (rd_reasons (read_decision j))"
    using strings_valid [OF reasons] by (simp add: read_decision_def)
  moreover have "rd_project (read_decision j) \<noteq> [] \<and> rd_session (read_decision j) \<noteq> [] \<and>
      rd_run (read_decision j) \<noteq> [] \<and> rd_id (read_decision j) \<noteq> []"
    using ids by (auto simp: read_decision_def)
  ultimately show ?thesis by (simp add: decision_wf_def)
qed

lemma validate_decision_Inr:
  assumes "json_validator ajv"
  shows "validate_routing_decision ajv date_ok j = Inr d \<longleftrightarrow>
    schema_valid (routing_decision_schema date_ok) j \<and> d = read_decision j"
  by (auto simp: validate_routing_decision_def json_validator.ajv_standard [OF assms])

text \<open>A validator that meets the standard is the standard's.\<close>

lemma json_validator_eq: "json_validator ajv \<Longrightarrow> ajv = schema_valid"
  by (intro ext) (simp add: json_validator.ajv_standard)

lemma decision_json_valid:
  "schema_valid (routing_decision_schema date_ok) (decision_json d) \<longleftrightarrow> decision_wf date_ok d"
  using decision_accepted decision_valid [of date_ok "decision_json d"] by auto

lemma store_write_Inr:
  "store_write schema_valid date_ok files d = Inr files' \<longleftrightarrow>
     decision_wf date_ok d \<and> is_session_id (rd_session d) \<and>
     files' = files(rd_session d := Some (Parsed (decision_json d)))"
  by (auto simp: store_write_def decision_path_def validate_routing_decision_def decision_json_valid)

subsection \<open>The interface of the store\<close>

text \<open>What the session controller relies on: a written record is read back under its key, and a write
  leaves the other keys alone.\<close>

locale durable_store =
  fixes read_entry :: "'f \<Rightarrow> 'k \<Rightarrow> 'e + 'd option"
    and write_entry :: "'f \<Rightarrow> 'd \<Rightarrow> 'e + 'f"
    and entry_key :: "'d \<Rightarrow> 'k"
  assumes read_written: "write_entry f d = Inr f' \<Longrightarrow> read_entry f' (entry_key d) = Inr (Some d)"
    and read_other: "write_entry f d = Inr f' \<Longrightarrow> k \<noteq> entry_key d \<Longrightarrow> read_entry f' k = read_entry f k"
begin

text \<open>After any sequence of successful writes a key reads as its last record.\<close>

lemma reads_last:
  "fold_result write_entry f ds = Inr f' \<Longrightarrow>
     read_entry f' k = (case filter (\<lambda>d. entry_key d = k) (rev ds) of
       [] \<Rightarrow> read_entry f k | d # _ \<Rightarrow> Inr (Some d))"
proof (induction ds arbitrary: f)
  case (Cons d ds)
  then obtain g where g: "write_entry f d = Inr g" "fold_result write_entry g ds = Inr f'"
    by (auto split: sum.splits)
  show ?case
    using Cons.IH [OF g(2)] read_written [OF g(1)] read_other [OF g(1), of k]
    by (auto split: list.splits)
qed simp

end

interpretation decision_store: durable_store "store_read schema_valid date_ok"
  "store_write schema_valid date_ok" rd_session for date_ok
proof
  fix f d f' assume "store_write schema_valid date_ok f d = Inr f'"
  then show "store_read schema_valid date_ok f' (rd_session d) = Inr (Some d)"
    by (auto simp: store_write_Inr store_read_def decision_path_def validate_routing_decision_def
        decision_json_valid)
next
  fix f d f' and k :: string
  assume "store_write schema_valid date_ok f d = Inr f'" "k \<noteq> rd_session d"
  then show "store_read schema_valid date_ok f' k = store_read schema_valid date_ok f k"
    by (auto simp: store_write_Inr store_read_def decision_path_def)
qed

subsection \<open>Properties\<close>

definition example_hash :: string where
  "example_hash = replicate 64 (CHR ''a'')"

lemma example_hash_ok [simp]: "is_hash example_hash"
  by (simp add: is_hash_def example_hash_def list_all_iff is_lower_hex_def)

definition example_fingerprint :: fingerprint where
  "example_fingerprint = \<lparr>fp_value = example_hash, fp_config = example_hash, fp_models = example_hash,
     fp_providers = example_hash, fp_capability = example_hash\<rparr>"

definition example_routing :: routing_decision where
  "example_routing =
     \<lparr>rd_project = ''project'', rd_session = ''s1'', rd_run = ''r1'', rd_id = ''d1'', rd_mode = Routed,
      rd_tier = TierStrong,
      rd_model = \<lparr>mi_provider = ''acme'', mi_model = ''m1'', mi_reported = None\<rparr>,
      rd_probability = Some (2 / 5), rd_threshold = 3 / 5, rd_source = FromClassifier,
      rd_fallback = False,
      rd_classifier = Some \<lparr>cm_duration = 12, cm_input = Some 100, cm_output = None\<rparr>,
      rd_fingerprint = example_fingerprint, rd_auth_profile = ''default'', rd_timestamp = ''t'',
      rd_reasons = [''a'', ''b'']\<rparr>"

lemma example_routing_wf: "decision_wf (\<lambda>_. True) example_routing"
  by (simp add: decision_wf_def example_routing_def example_fingerprint_def is_profile_def is_slug_def
      is_lower_def is_digit_def)

text \<open>C35: The decision schema describes exactly the well-formed decisions: the JSON of a record
  validates when, and only when, the record is well-formed, and validating any JSON gives a
  well-formed record; validation reads back every field of a decision.\<close>

theorem decision_schema_exact:
  assumes "json_validator ajv"
  shows "(validate_routing_decision ajv date_ok (decision_json d) = Inr e \<longleftrightarrow> decision_wf date_ok d \<and> e = d) \<and>
    (\<forall>j. validate_routing_decision ajv date_ok j = Inr e \<longrightarrow> decision_wf date_ok e)"
  using decision_valid by (auto simp: validate_decision_Inr [OF assms] decision_json_valid)

theorem decision_schema_exact_witness:
  "validate_routing_decision schema_valid (\<lambda>_. True) (decision_json example_routing) = Inr example_routing \<and>
    decision_wf (\<lambda>_. True) example_routing"
  using decision_schema_exact [OF standard.json_validator_axioms, of "\<lambda>_. True" example_routing example_routing]
    example_routing_wf by simp

text \<open>The durable store keeps the last decision of each session: after any sequence of writes that
  all succeed, reading a session gives the last decision written for it, with every field intact,
  and sessions that were not written read as before.\<close>

theorem decision_store_last_write:
  assumes "json_validator ajv"
    and "fold_result (store_write ajv date_ok) files ds = Inr files'"
  shows "store_read ajv date_ok files' session =
    (case filter (\<lambda>d. rd_session d = session) (rev ds) of
       [] \<Rightarrow> store_read ajv date_ok files session | d # _ \<Rightarrow> Inr (Some d))"
  using assms(2) unfolding json_validator_eq [OF assms(1)] by (rule decision_store.reads_last)

theorem decision_store_last_write_witness:
  "store_read schema_valid (\<lambda>_. True) (Map.empty(''s1'' \<mapsto> Parsed (decision_json example_routing))) ''s1'' =
    (case filter (\<lambda>d. rd_session d = ''s1'') (rev [example_routing]) of
       [] \<Rightarrow> store_read schema_valid (\<lambda>_. True) Map.empty ''s1'' | d # _ \<Rightarrow> Inr (Some d))"
proof (rule decision_store_last_write [OF standard.json_validator_axioms])
  have "store_write schema_valid (\<lambda>_. True) Map.empty example_routing =
      Inr (Map.empty(''s1'' \<mapsto> Parsed (decision_json example_routing)))"
    unfolding store_write_Inr using example_routing_wf
    by (simp add: example_routing_def is_session_id_def is_path_char_def is_alnum_def is_lower_def
        is_digit_def)
  then show "fold_result (store_write schema_valid (\<lambda>_. True)) Map.empty [example_routing] =
      Inr (Map.empty(''s1'' \<mapsto> Parsed (decision_json example_routing)))"
    by simp
qed

end
