(* ===== verification/Session_Routing.thy ===== *)
theory Session_Routing
  imports Routing_Decision
begin

section \<open>The session routing controller (src/pi/session-routing.ts)\<close>

text \<open>
  \<open>SessionRoutingController\<close> without its extension: authentication of the configured providers,
  the model a decision selects, loading the decision of a Pi session and creating one. What the Pi
  runtime answers (authentication, clock, identities) and what the bridge resolves are arguments;
  the events reported to \<open>onEvent\<close> are returned in order.
\<close>

subsection \<open>The controller\<close>

record controller =
  ct_config :: lab_config
  ct_auth_profile :: string
  ct_project :: string
  ct_run :: string
  ct_run_for_session :: "(string \<Rightarrow> string) option"
  ct_mode :: session_mode
  ct_roles :: role_models
  ct_fingerprint :: fingerprint
  ct_policy :: library_policy

text \<open>The constructor: the roles are those Pi resolves for the configured identities.\<close>

definition make_controller :: "(json \<Rightarrow> string) \<Rightarrow> (string \<Rightarrow> string \<Rightarrow> bool) \<Rightarrow> (string \<Rightarrow> json option)
    \<Rightarrow> lab_config \<Rightarrow> role_models \<Rightarrow> string \<Rightarrow> string \<Rightarrow> string \<Rightarrow> (string \<Rightarrow> string) option
    \<Rightarrow> session_mode \<Rightarrow> envelope_error + controller" where
  "make_controller digest le registered config roles profile project run run_for_session mode =
     bind_result (validate_coding_compatibility config roles) (\<lambda>_.
     bind_result (create_library_policy config roles) (\<lambda>policy.
       Inr \<lparr>ct_config = config, ct_auth_profile = profile, ct_project = project, ct_run = run,
            ct_run_for_session = run_for_session, ct_mode = mode, ct_roles = roles,
            ct_fingerprint = config_fingerprint digest le config roles registered profile,
            ct_policy = policy\<rparr>))"

datatype decision_action = DPending | DPersisted | DRestored

datatype lock_action = LSelected | LRestored | LRejected

datatype limit_status = LimitTimeout | LimitBudget

datatype start_reason = ReasonNew | ReasonFork | ReasonOther string

datatype session_event =
    ExecutionStart string
  | SessionStarted string start_reason
  | DecisionEvent decision_action string "routing_decision option"
  | ClassifierStart string
  | ClassifierSucceeded string "bridge_usage option" "(string \<times> string \<times> string option) option"
  | ClassifierFailed string
  | AuthStatus string bool
  | ModelLock lock_action string string
  | RoutingErrorEvent string routing_error "limit_status option"

subsection \<open>Authentication and models\<close>

fun preflight_loop :: "(string \<Rightarrow> bool) \<Rightarrow> string list \<Rightarrow> session_event list \<times> (routing_error + unit)" where
  "preflight_loop auth [] = ([], Inr ())"
| "preflight_loop auth (provider # rest) =
     (if auth provider then
        (let (events, result) = preflight_loop auth rest in (AuthStatus provider True # events, result))
      else ([AuthStatus provider False], Inl (AuthRequired provider)))"

definition preflight_auth :: "(string \<Rightarrow> bool) \<Rightarrow> controller \<Rightarrow> session_event list \<times> (routing_error + unit)" where
  "preflight_auth auth c = preflight_loop auth
     (new_set [pm_provider (ct_roles c Classifier), pm_provider (ct_roles c Weak), pm_provider (ct_roles c Strong)])"

definition tier_model :: "controller \<Rightarrow> tier \<Rightarrow> pi_model" where
  "tier_model c t = (case t of TierWeak \<Rightarrow> ct_roles c Weak | TierStrong \<Rightarrow> ct_roles c Strong)"

definition selected_model :: "controller \<Rightarrow> routing_decision \<Rightarrow> routing_error + pi_model" where
  "selected_model c d =
     (let model = tier_model c (rd_tier d)
      in if mi_provider (rd_model d) \<noteq> pm_provider model \<or> mi_model (rd_model d) \<noteq> pm_id model
         then Inl RoleMismatch else Inr model)"

subsection \<open>Loading a decision\<close>

datatype message_role = MUser | MAssistant | MOther

text \<open>The entries of a Pi session: custom entries carry JSON.\<close>

datatype session_entry = CustomEntry string json | MessageEntry message_role | OtherEntry

definition routing_decision_entry :: string where
  "routing_decision_entry = ''routing-lab-decision''"

definition has_coding_history :: "session_entry list \<Rightarrow> bool" where
  "has_coding_history entries \<longleftrightarrow>
     list_ex (\<lambda>e. e = MessageEntry MUser \<or> e = MessageEntry MAssistant) entries"

definition decision_entries :: "session_entry list \<Rightarrow> json list" where
  "decision_entries entries =
     concat (map (\<lambda>e. case e of
       CustomEntry kind data \<Rightarrow> if kind = routing_decision_entry then [data] else []
     | _ \<Rightarrow> []) entries)"

text \<open>
  Decisions are compared by \<open>JSON.stringify\<close>, that is, as JSON with its member order, so a decision
  of the session is kept with the JSON it was read from.
\<close>

definition custom_decisions :: "(schema \<Rightarrow> json \<Rightarrow> bool) \<Rightarrow> (string \<Rightarrow> bool) \<Rightarrow> session_entry list
    \<Rightarrow> routing_error + (json \<times> routing_decision) list" where
  "custom_decisions ajv date_ok entries =
     map_result (\<lambda>j. bind_result (validate_routing_decision ajv date_ok j) (\<lambda>d. Inr (j, d)))
       (decision_entries entries)"

definition stored_json :: "decision_files \<Rightarrow> string \<Rightarrow> json" where
  "stored_json files session_id = (case files session_id of Some (Parsed j) \<Rightarrow> j | _ \<Rightarrow> JNull)"

definition load_decision :: "(schema \<Rightarrow> json \<Rightarrow> bool) \<Rightarrow> (string \<Rightarrow> bool) \<Rightarrow> controller \<Rightarrow> decision_files
    \<Rightarrow> string \<Rightarrow> session_entry list \<Rightarrow> start_reason \<Rightarrow> routing_error + routing_decision option" where
  "load_decision ajv date_ok c files session_id entries reason =
     bind_result (custom_decisions ajv date_ok entries) (\<lambda>customs.
       let own = filter (\<lambda>(_, d). rd_session d = session_id) customs in
       if length own > 1 \<or>
          (length own = 1 \<and>
           list_ex (\<lambda>(_, d). rd_session d = session_id \<and> rd_id d \<noteq> rd_id (snd (hd own))) customs)
       then Inl ConflictingDecisions
       else
         bind_result (store_read ajv date_ok files session_id) (\<lambda>stored.
           if reason = ReasonNew \<or> reason = ReasonFork then
             (if stored \<noteq> None then Inl FreshSessionHasDecision else Inr None)
           else
             (case stored of
                None \<Rightarrow>
                  if own \<noteq> [] \<or> has_coding_history entries then Inl DecisionMissing else Inr None
              | Some d \<Rightarrow>
                  if rd_project d \<noteq> ct_project c \<or> rd_session d \<noteq> session_id then Inl ForeignDecision
                  else if rd_auth_profile d \<noteq> ct_auth_profile c \<or>
                    fp_value (rd_fingerprint d) \<noteq> fp_value (ct_fingerprint c)
                  then Inl ConfigurationMismatch
                  else if rd_mode d \<noteq> ct_mode c then Inl ModeMismatch
                  else if own = [] \<and> has_coding_history entries then Inl CustomEntryMissing
                  else if own \<noteq> [] \<and> fst (hd own) \<noteq> stored_json files session_id
                  then Inl CustomEntryConflicts
                  else Inr (Some d))))"

subsection \<open>Creating a decision\<close>

text \<open>What one call of \<open>create\<close> observes outside the program.\<close>

record create_inputs =
  ci_auth :: "string \<Rightarrow> bool"
  ci_resolve :: "string \<Rightarrow> string \<Rightarrow> real \<Rightarrow> string \<Rightarrow> int
    \<Rightarrow> (bridge_error + bridge_decision) \<times> classifier_response option"
  ci_call_id :: string
  ci_bridge_id :: string
  ci_fresh_id :: string
  ci_started :: int
  ci_ended :: int
  ci_timestamp :: string

definition reason_no_reported_model :: string where
  "reason_no_reported_model =
     ''selectedModel.providerReportedModelId is unavailable from the Pi 0.85.0 generic response''"

definition reason_no_probability :: string where
  "reason_no_probability = ''weakSolveProbability is unavailable without a validated classifier verdict''"

definition reason_no_usage :: string where
  "reason_no_usage = ''classifier token usage was not reported''"

definition response_identity :: "classifier_response \<Rightarrow> (string \<times> string \<times> string option) option" where
  "response_identity r =
     (case (cr_provider r, cr_model r) of
        (Some p, Some m) \<Rightarrow> if p \<noteq> [] \<and> m \<noteq> [] then Some (p, m, cr_reported r) else None
      | _ \<Rightarrow> None)"

definition build_decision :: "controller \<Rightarrow> create_inputs \<Rightarrow> string \<Rightarrow> bridge_decision option
    \<Rightarrow> bridge_usage option \<Rightarrow> routing_decision" where
  "build_decision c inputs session_id bridge usage =
     (let tier = (case ct_mode c of WeakOnly \<Rightarrow> TierWeak | StrongOnly \<Rightarrow> TierStrong
            | Routed \<Rightarrow> (case bridge of Some b \<Rightarrow> bd_alias b | None \<Rightarrow> TierStrong));
          selected = tier_model c tier;
          validated = (case bridge of Some b \<Rightarrow>
              (case bd_evidence b of ValidatedVerdict p \<Rightarrow> Some p | FallbackInvalidVerdict \<Rightarrow> None)
            | None \<Rightarrow> None);
          fallback = (case bridge of Some b \<Rightarrow> bd_evidence b = FallbackInvalidVerdict | None \<Rightarrow> False)
      in \<lparr>rd_project = ct_project c,
          rd_session = session_id,
          rd_run = (case ct_run_for_session c of Some f \<Rightarrow> f session_id | None \<Rightarrow> ct_run c),
          rd_id = (case bridge of Some b \<Rightarrow> bd_id b | None \<Rightarrow> ci_fresh_id inputs),
          rd_mode = ct_mode c,
          rd_tier = tier,
          rd_model = \<lparr>mi_provider = pm_provider selected, mi_model = pm_id selected, mi_reported = None\<rparr>,
          rd_probability = validated,
          rd_threshold = weak_threshold (routing (ct_config c)),
          rd_source = (if ct_mode c \<noteq> Routed then FixedBaseline
            else if fallback then FromFallback else FromClassifier),
          rd_fallback = fallback,
          rd_classifier = (if ct_mode c = Routed
            then Some \<lparr>cm_duration = ci_ended inputs - ci_started inputs,
              cm_input = Option.bind usage bu_input, cm_output = Option.bind usage bu_output\<rparr>
            else None),
          rd_fingerprint = ct_fingerprint c,
          rd_auth_profile = ct_auth_profile c,
          rd_timestamp = ci_timestamp inputs,
          rd_reasons = [reason_no_reported_model]
            @ (if validated = None then [reason_no_probability] else [])
            @ (if ct_mode c = Routed \<and> usage = None then [reason_no_usage] else [])\<rparr>)"

definition create_decision :: "(schema \<Rightarrow> json \<Rightarrow> bool) \<Rightarrow> (string \<Rightarrow> bool) \<Rightarrow> controller \<Rightarrow> create_inputs
    \<Rightarrow> string \<Rightarrow> string \<Rightarrow> decision_files
    \<Rightarrow> session_event list \<times> decision_files \<times> (routing_error + routing_decision)" where
  "create_decision ajv date_ok c inputs task session_id files =
     (case preflight_auth (ci_auth inputs) c of
        (auth_events, Inl e) \<Rightarrow> (auth_events, files, Inl e)
      | (auth_events, Inr _) \<Rightarrow>
          let write = (\<lambda>events decision.
            (case store_write ajv date_ok files decision of
               Inl e \<Rightarrow> (events, files, Inl e)
             | Inr files' \<Rightarrow> (events, files', Inr decision)))
          in if ct_mode c = Routed then
               (case ci_resolve inputs (ci_bridge_id inputs) task (lp_weak_threshold (ct_policy c))
                   (lp_weak_capability (ct_policy c)) (lp_max_output (ct_policy c)) of
                  (Inl e, response) \<Rightarrow>
                    (auth_events @ [ClassifierStart (ci_call_id inputs), ClassifierFailed (ci_call_id inputs)],
                     files, Inl (BridgeFailed e))
                | (Inr bridge, response) \<Rightarrow>
                    let usage = Option.bind response cr_usage;
                        identity = (if usage = None then None else Option.bind response response_identity)
                    in write
                         (auth_events @ [ClassifierStart (ci_call_id inputs),
                            ClassifierSucceeded (ci_call_id inputs) usage identity])
                         (build_decision c inputs session_id (Some bridge) usage))
             else write auth_events (build_decision c inputs session_id None None))"

subsection \<open>Every decision made is sound\<close>

lemma preflight_Inr: "preflight_loop auth ps = (events, Inr u) \<Longrightarrow>
    (\<forall>p \<in> set ps. auth p) \<and> events = map (\<lambda>p. AuthStatus p True) ps"
  by (induction ps arbitrary: events) (auto split: if_splits prod.splits)

lemma preflight_Inl: "preflight_loop auth ps = (events, Inl e) \<Longrightarrow>
    (\<exists>p \<in> set ps. \<not> auth p \<and> e = AuthRequired p) \<and> (\<forall>call. ClassifierStart call \<notin> set events)"
  by (induction ps arbitrary: events) (auto split: if_splits prod.splits)

text \<open>What the constructor and the command line guarantee of a controller.\<close>

definition controller_wf :: "controller \<Rightarrow> bool" where
  "controller_wf c \<longleftrightarrow> config_wf (ct_config c) \<and> is_profile (ct_auth_profile c) \<and>
     ct_project c \<noteq> [] \<and>
     (\<forall>r. pm_provider (ct_roles c r) \<noteq> [] \<and> pm_id (ct_roles c r) \<noteq> []) \<and>
     list_all is_hash [fp_value (ct_fingerprint c), fp_config (ct_fingerprint c),
       fp_models (ct_fingerprint c), fp_providers (ct_fingerprint c), fp_capability (ct_fingerprint c)]"

definition session_run :: "controller \<Rightarrow> string \<Rightarrow> string" where
  "session_run c session_id = (case ct_run_for_session c of Some f \<Rightarrow> f session_id | None \<Rightarrow> ct_run c)"

text \<open>The relations between the fields of a decision a controller makes.\<close>

definition decision_sound :: "controller \<Rightarrow> string \<Rightarrow> routing_decision \<Rightarrow> bool" where
  "decision_sound c session_id d \<longleftrightarrow>
     rd_project d = ct_project c \<and> rd_session d = session_id \<and> rd_run d = session_run c session_id \<and>
     rd_mode d = ct_mode c \<and> rd_auth_profile d = ct_auth_profile c \<and> rd_fingerprint d = ct_fingerprint c \<and>
     rd_threshold d = weak_threshold (routing (ct_config c)) \<and>
     selected_model c d = Inr (tier_model c (rd_tier d)) \<and>
     (ct_mode c = WeakOnly \<longrightarrow> rd_tier d = TierWeak) \<and> (ct_mode c = StrongOnly \<longrightarrow> rd_tier d = TierStrong) \<and>
     (rd_source d = FixedBaseline \<longleftrightarrow> ct_mode c \<noteq> Routed) \<and>
     (rd_source d = FromFallback \<longleftrightarrow> rd_fallback d) \<and>
     (rd_fallback d \<longrightarrow> rd_tier d = TierStrong \<and> rd_probability d = None) \<and>
     (rd_source d = FromClassifier \<longleftrightarrow> rd_probability d \<noteq> None) \<and>
     (rd_classifier d = None \<longleftrightarrow> ct_mode c \<noteq> Routed)"

text \<open>A bridge whose decisions carry sound evidence, as those of \<open>resolve_decision\<close> do.\<close>

definition resolve_sound :: "create_inputs \<Rightarrow> bool" where
  "resolve_sound inputs \<longleftrightarrow> (\<forall>id task threshold capability max_output b.
     fst (ci_resolve inputs id task threshold capability max_output) = Inr b \<longrightarrow> bd_id b = id \<and> evidence_wf b)"

lemma build_decision_sound:
  assumes "ct_mode c = Routed \<longleftrightarrow> bridge \<noteq> None" and "pred_option evidence_wf bridge"
  shows "decision_sound c session_id (build_decision c inputs session_id bridge usage)"
proof (cases bridge)
  case None
  with assms show ?thesis
    by (cases "ct_mode c") (simp_all add: decision_sound_def build_decision_def selected_model_def
        session_run_def Let_def)
next
  case (Some b)
  with assms show ?thesis
    by (cases "bd_evidence b") (simp_all add: decision_sound_def build_decision_def selected_model_def
        session_run_def evidence_wf_def Let_def)
qed

lemma reasons_distinct:
  "distinct [reason_no_reported_model, reason_no_probability, reason_no_usage]"
  "reason_no_reported_model \<noteq> []" "reason_no_probability \<noteq> []" "reason_no_usage \<noteq> []"
  by (simp_all add: reason_no_reported_model_def reason_no_probability_def reason_no_usage_def)

lemma build_decision_wf:
  assumes "controller_wf c" and "session_id \<noteq> []" and "session_run c session_id \<noteq> []"
    and "date_ok (ci_timestamp inputs)" and "ci_started inputs \<le> ci_ended inputs"
    and "ci_fresh_id inputs \<noteq> []" and "pred_option evidence_wf bridge"
  shows "decision_wf date_ok (build_decision c inputs session_id bridge usage)"
proof -
  have t: "0 \<le> weak_threshold (routing (ct_config c))" "weak_threshold (routing (ct_config c)) \<le> 1"
    using assms(1) by (simp_all add: controller_wf_def config_wf_def routing_wf_def)
  have m: "pm_provider (tier_model c x) \<noteq> [] \<and> pm_id (tier_model c x) \<noteq> []" for x
    using assms(1) by (cases x) (simp_all add: controller_wf_def tier_model_def)
  have e: "bd_id b \<noteq> []" "bd_evidence b = ValidatedVerdict p \<Longrightarrow> 0 \<le> p \<and> p \<le> 1" if "bridge = Some b" for b p
    using assms(7) that by (auto simp: evidence_wf_def)
  show ?thesis
    using assms(1-6) t m e reasons_distinct
    by (auto simp: decision_wf_def build_decision_def Let_def controller_wf_def session_run_def
        split: option.splits evidence.splits)
qed

lemma create_Inr:
  assumes "create_decision ajv date_ok c inputs task session_id files = (events, files', Inr d)"
    and "resolve_sound inputs"
  shows "store_write ajv date_ok files d = Inr files' \<and> decision_sound c session_id d \<and>
    (\<forall>r. ci_auth inputs (pm_provider (ct_roles c r)))"
proof -
  obtain auth_events u where pre: "preflight_auth (ci_auth inputs) c = (auth_events, Inr u)"
    using assms(1) by (auto simp: create_decision_def split: prod.splits sum.splits)
  have auth: "ci_auth inputs (pm_provider (ct_roles c r))" for r
    using preflight_Inr [OF pre [unfolded preflight_auth_def]] by (cases r) auto
  show ?thesis
  proof (cases "ct_mode c = Routed")
    case True
    then obtain b usage where "fst (ci_resolve inputs (ci_bridge_id inputs) task (lp_weak_threshold (ct_policy c))
          (lp_weak_capability (ct_policy c)) (lp_max_output (ct_policy c))) = Inr b"
      and d: "d = build_decision c inputs session_id (Some b) usage"
      and w: "store_write ajv date_ok files d = Inr files'"
      using assms(1) pre by (auto simp: create_decision_def Let_def split: prod.splits sum.splits)
    then have "evidence_wf b" using assms(2) unfolding resolve_sound_def by blast
    with True d w auth show ?thesis by (simp add: build_decision_sound)
  next
    case False
    then have "d = build_decision c inputs session_id None None" "store_write ajv date_ok files d = Inr files'"
      using assms(1) pre by (auto simp: create_decision_def Let_def split: prod.splits sum.splits)
    with False auth show ?thesis by (simp add: build_decision_sound)
  qed
qed

lemma create_Inl:
  "create_decision ajv date_ok c inputs task session_id files = (events, files', Inl e) \<Longrightarrow> files' = files"
  by (auto simp: create_decision_def Let_def split: prod.splits sum.splits if_splits)

subsection \<open>What loading establishes\<close>

definition decision_matches :: "controller \<Rightarrow> string \<Rightarrow> routing_decision \<Rightarrow> bool" where
  "decision_matches c session_id d \<longleftrightarrow>
     rd_project d = ct_project c \<and> rd_session d = session_id \<and>
     rd_auth_profile d = ct_auth_profile c \<and> fp_value (rd_fingerprint d) = fp_value (ct_fingerprint c) \<and>
     rd_mode d = ct_mode c"

lemma load_Some:
  assumes "load_decision ajv date_ok c files session_id entries reason = Inr (Some d)"
  shows "store_read ajv date_ok files session_id = Inr (Some d) \<and> decision_matches c session_id d \<and>
    reason \<noteq> ReasonNew \<and> reason \<noteq> ReasonFork"
  using assms
  by (auto simp: load_decision_def Let_def decision_matches_def split: if_splits option.splits)

lemma decision_sound_matches: "decision_sound c s d \<Longrightarrow> decision_matches c s d"
  by (simp add: decision_sound_def decision_matches_def)

text \<open>A session whose only decision entry is the JSON of a decision.\<close>

lemma custom_decisions_single:
  assumes "decision_wf date_ok d" and "decision_entries entries = [decision_json d]"
  shows "custom_decisions schema_valid date_ok entries = Inr [(decision_json d, d)]"
  using assms by (simp add: custom_decisions_def validate_routing_decision_def decision_json_valid)

lemma store_write_read:
  "store_write schema_valid date_ok files d = Inr files' \<Longrightarrow>
     store_read schema_valid date_ok files' (rd_session d) = Inr (Some d) \<and>
     stored_json files' (rd_session d) = decision_json d"
  using decision_store.read_written [of date_ok files d files']
  by (auto simp: store_write_Inr stored_json_def)

lemma load_written:
  assumes "store_write schema_valid date_ok files d = Inr files'" and "decision_matches c session_id d"
    and "decision_entries entries = [decision_json d]" and "reason \<noteq> ReasonNew" "reason \<noteq> ReasonFork"
  shows "load_decision schema_valid date_ok c files' session_id entries reason = Inr (Some d)"
proof -
  have wf: "decision_wf date_ok d" using assms(1) by (simp add: store_write_Inr)
  have s: "rd_session d = session_id" using assms(2) by (simp add: decision_matches_def)
  show ?thesis
    using store_write_read [OF assms(1)] assms(2,4,5)
    by (simp add: load_decision_def custom_decisions_single [OF wf assms(3)] Let_def s decision_matches_def)
qed

subsection \<open>Properties\<close>

definition example_controller :: controller where
  "example_controller =
     \<lparr>ct_config = example_config, ct_auth_profile = ''default'', ct_project = ''project'', ct_run = ''r1'',
      ct_run_for_session = None, ct_mode = Routed, ct_roles = (\<lambda>_. example_model),
      ct_fingerprint = example_fingerprint,
      ct_policy = \<lparr>lp_weak_threshold = 3 / 5, lp_weak_capability = ''x'', lp_max_output = 8192\<rparr>\<rparr>"

lemma example_controller_wf: "controller_wf example_controller"
  using example_config_wf
  by (simp add: controller_wf_def example_controller_def example_fingerprint_def example_model_def
      is_profile_def is_slug_def is_lower_def is_digit_def)

text \<open>The bridge of the program is such a bridge.\<close>

definition bridge_resolve :: "(input_frame \<Rightarrow> transport_result) \<Rightarrow> (json \<Rightarrow> classifier_result) \<Rightarrow> bridge_client
    \<Rightarrow> raw_line list \<Rightarrow> classifier_response option \<Rightarrow> string \<Rightarrow> string \<Rightarrow> real \<Rightarrow> string \<Rightarrow> int
    \<Rightarrow> (bridge_error + bridge_decision) \<times> classifier_response option" where
  "bridge_resolve transport classify client lines response decision_id task threshold capability max_output =
     (fst (resolve_decision transport classify False client decision_id task threshold (Some capability) max_output lines),
      response)"

lemma bridge_resolve_sound:
  "resolve_sound (inputs\<lparr>ci_resolve := bridge_resolve transport classify client lines response\<rparr>)"
proof -
  have "bd_id b = decision_id \<and> evidence_wf b"
    if "fst (resolve_decision transport classify False client decision_id task threshold (Some capability)
      max_output lines) = Inr b" for decision_id task threshold capability max_output b
    using that resolve_decision_evidence [of transport classify False client decision_id task threshold
        "Some capability" max_output lines b]
    by (metis prod.collapse)
  then show ?thesis by (simp add: resolve_sound_def bridge_resolve_def)
qed

definition example_inputs :: create_inputs where
  "example_inputs =
     \<lparr>ci_auth = (\<lambda>_. True),
      ci_resolve = bridge_resolve (\<lambda>_. Written) (\<lambda>_. ClassifierError EQuota ''q'')
        \<lparr>bc_closed = False, bc_active = False\<rparr> [(200, Some example_call), (200, Some example_decision)] None,
      ci_call_id = ''c'', ci_bridge_id = ''d'', ci_fresh_id = ''f'', ci_started = 5, ci_ended = 9,
      ci_timestamp = ''t''\<rparr>"

lemma example_inputs_sound: "resolve_sound example_inputs"
proof -
  have "example_inputs = example_inputs\<lparr>ci_resolve := ci_resolve example_inputs\<rparr>" by simp
  also have "ci_resolve example_inputs = bridge_resolve (\<lambda>_. Written) (\<lambda>_. ClassifierError EQuota ''q'')
      \<lparr>bc_closed = False, bc_active = False\<rparr> [(200, Some example_call), (200, Some example_decision)] None"
    by (simp add: example_inputs_def)
  finally show ?thesis by (metis bridge_resolve_sound)
qed

lemma example_resolve:
  "ci_resolve example_inputs ''d'' task threshold capability max_output = (Inr example_fallback, None)"
  by (simp add: example_inputs_def bridge_resolve_def resolve_decision_def example_frames
      classifier_reply_def write_frame_def example_fallback_def)

definition example_created :: routing_decision where
  "example_created = build_decision example_controller example_inputs ''s1'' (Some example_fallback) None"

lemma example_created_wf: "decision_wf (\<lambda>_. True) example_created"
  unfolding example_created_def
  by (rule build_decision_wf)
    (simp_all add: example_controller_wf example_inputs_def example_fallback_def evidence_wf_def,
     simp add: session_run_def example_controller_def)

lemma example_created_fields [simp]: "rd_session example_created = ''s1''"
  by (simp add: example_created_def build_decision_def Let_def)

lemma example_create:
  "create_decision schema_valid (\<lambda>_. True) example_controller example_inputs ''task'' ''s1'' Map.empty =
     ([AuthStatus ''acme'' True, ClassifierStart ''c'', ClassifierSucceeded ''c'' None None],
      Map.empty(''s1'' \<mapsto> Parsed (decision_json example_created)), Inr example_created)"
proof -
  have w: "store_write schema_valid (\<lambda>_. True) Map.empty example_created =
      Inr (Map.empty(''s1'' \<mapsto> Parsed (decision_json example_created)))"
    unfolding store_write_Inr using example_created_wf
    by (simp add: is_session_id_def is_path_char_def is_alnum_def is_lower_def is_digit_def)
  have "preflight_auth (ci_auth example_inputs) example_controller = ([AuthStatus ''acme'' True], Inr ())"
    by (simp add: preflight_auth_def example_inputs_def example_controller_def example_model_def new_set_def)
  moreover have "ci_bridge_id example_inputs = ''d''" "ci_call_id example_inputs = ''c''"
    "ct_mode example_controller = Routed"
    by (simp_all add: example_inputs_def example_controller_def)
  ultimately show ?thesis
    using w by (simp add: create_decision_def example_resolve example_created_def [symmetric])
qed

text \<open>A decision is created only after every configured provider is authenticated, and it is
  consistent: it names the project, session, profile and fingerprint of the controller, a fixed mode
  selects its own tier without a classifier, a fallback selects the strong model and has no
  probability, a classifier decision has one, and its model is the model of its tier. It is durable
  before it is returned: the store reads it back for the session and other sessions are untouched;
  when creation fails the store is unchanged.\<close>

theorem created_decision_sound:
  assumes "json_validator ajv" and "resolve_sound inputs"
    and "create_decision ajv date_ok c inputs task session_id files = (events, files', outcome)"
  shows "case outcome of
      Inl e \<Rightarrow> files' = files
    | Inr d \<Rightarrow>
        (\<forall>r. ci_auth inputs (pm_provider (ct_roles c r))) \<and> decision_sound c session_id d \<and>
        decision_wf date_ok d \<and> store_read ajv date_ok files' session_id = Inr (Some d) \<and>
        (\<forall>s. s \<noteq> session_id \<longrightarrow> files' s = files s)"
proof (cases outcome)
  case (Inl e)
  with assms(3) show ?thesis by (simp add: create_Inl)
next
  case (Inr d)
  note made = create_Inr [OF assms(3) [unfolded Inr] assms(2), unfolded json_validator_eq [OF assms(1)]]
  have "rd_session d = session_id" using made by (simp add: decision_sound_def)
  then show ?thesis
    using made store_write_read [of date_ok files d files'] unfolding Inr json_validator_eq [OF assms(1)]
    by (simp add: store_write_Inr)
qed

theorem created_decision_sound_witness:
  "case (Inr example_created :: routing_error + routing_decision) of
      Inl e \<Rightarrow> Map.empty(''s1'' \<mapsto> Parsed (decision_json example_created)) = Map.empty
    | Inr d \<Rightarrow>
        (\<forall>r. ci_auth example_inputs (pm_provider (ct_roles example_controller r))) \<and>
        decision_sound example_controller ''s1'' d \<and> decision_wf (\<lambda>_. True) d \<and>
        store_read schema_valid (\<lambda>_. True) (Map.empty(''s1'' \<mapsto> Parsed (decision_json example_created))) ''s1'' =
          Inr (Some d) \<and>
        (\<forall>s. s \<noteq> ''s1'' \<longrightarrow>
          (Map.empty(''s1'' \<mapsto> Parsed (decision_json example_created))) s = Map.empty s)"
  by (rule created_decision_sound [OF standard.json_validator_axioms example_inputs_sound example_create])

text \<open>A session resumes the decision made for it: loading a resumed session whose decision entry is
  the one appended when the decision was created gives back that decision, whatever other messages
  the session holds; and a decision is loaded only when it is stored for this session and agrees with
  the project, profile, fingerprint and mode of the controller, never for a new or forked session.\<close>

theorem decision_resumes:
  assumes "json_validator ajv" and "resolve_sound inputs"
    and "create_decision ajv date_ok c inputs task session_id files = (events, files', Inr d)"
    and "decision_entries entries = [decision_json d]"
  shows "load_decision ajv date_ok c files' session_id entries (ReasonOther reason) = Inr (Some d) \<and>
    (\<forall>c' entries' reason' d'. load_decision ajv date_ok c' files' session_id entries' reason' = Inr (Some d') \<longrightarrow>
       d' = d \<and> decision_matches c' session_id d \<and> reason' \<notin> {ReasonNew, ReasonFork})"
proof -
  note made = create_Inr [OF assms(3,2), unfolded json_validator_eq [OF assms(1)]]
  have s: "rd_session d = session_id" using made by (simp add: decision_sound_def)
  have "load_decision schema_valid date_ok c files' session_id entries (ReasonOther reason) = Inr (Some d)"
    using made assms(4) by (intro load_written) (auto intro: decision_sound_matches)
  moreover have "d' = d \<and> decision_matches c' session_id d \<and> reason' \<notin> {ReasonNew, ReasonFork}"
    if "load_decision schema_valid date_ok c' files' session_id entries' reason' = Inr (Some d')"
    for c' entries' reason' d'
    using load_Some [OF that] store_write_read [of date_ok files d files'] made s by auto
  ultimately show ?thesis unfolding json_validator_eq [OF assms(1)] by blast
qed

theorem decision_resumes_witness:
  "load_decision schema_valid (\<lambda>_. True) example_controller
     (Map.empty(''s1'' \<mapsto> Parsed (decision_json example_created))) ''s1''
     [MessageEntry MUser, CustomEntry routing_decision_entry (decision_json example_created)]
     (ReasonOther ''resume'') = Inr (Some example_created)"
  by (rule decision_resumes [OF standard.json_validator_axioms example_inputs_sound example_create,
        THEN conjunct1])
    (simp add: decision_entries_def routing_decision_entry_def)

end
