(* ===== verification/Session_Guard.thy ===== *)
theory Session_Guard
  imports Session_Routing
begin

section \<open>The session guard (src/pi/session-routing.ts, the extension)\<close>

text \<open>
  The extension the controller installs in a Pi session, as a state machine: one step per handler
  of a Pi event. The state is the closure of the extension, the two error fields of the controller,
  the decision files and the session as the guard sees it (its model, its entries). Each handler
  runs to its end before the next event; a timer that fires is an event of its own. Status lines
  and notifications of the user interface are not modelled.
\<close>

subsection \<open>State and events\<close>

datatype request_kind = RequestCoding | RequestCompaction

record guard_state =
  gs_current :: "routing_decision option"
  gs_startup_error :: "routing_error option"
  gs_last_error :: "routing_error option"
  gs_limit :: "limit_status option"
  gs_turns :: nat
  gs_running :: bool
  gs_request :: "request_kind option"
  gs_model :: "(string \<times> string) option"
  gs_entries :: "session_entry list"
  gs_files :: decision_files
  gs_reported :: "session_event list"

text \<open>What does not change during a session.\<close>

record guard_env =
  ge_ajv :: "schema \<Rightarrow> json \<Rightarrow> bool"
  ge_date_ok :: "string \<Rightarrow> bool"
  ge_controller :: controller
  ge_session :: string

datatype guard_event =
    EvSessionStart start_reason "string \<Rightarrow> bool" "pi_model \<Rightarrow> bool"
  | EvInput string create_inputs int "pi_model \<Rightarrow> bool"
  | EvRunTimer
  | EvBeforeAgentStart
  | EvTurnStart
  | EvRequestTimer
  | EvMessageEnd message_role
  | EvTurnEnd
  | EvAgentSettled
  | EvBeforeCompact "string \<Rightarrow> bool" "pi_model \<Rightarrow> bool"
  | EvCompactDone
  | EvBeforeProviderRequest
  | EvModelSelect string string "pi_model \<Rightarrow> bool"
  | EvOtherEntry message_role
  | EvShutdown

text \<open>What the handler tells Pi.\<close>

datatype guard_outcome =
    GDone
  | GContinue
  | GHandled
  | GAbort
  | GCancel
  | GThrow routing_error

subsection \<open>Handlers\<close>

definition report :: "session_event list \<Rightarrow> guard_state \<Rightarrow> guard_state" where
  "report events st = st\<lparr>gs_reported := gs_reported st @ events\<rparr>"

definition stop_for_limit :: "guard_env \<Rightarrow> limit_status \<Rightarrow> guard_state \<Rightarrow> guard_state" where
  "stop_for_limit env status st =
     (let limit = (case gs_limit st of Some l \<Rightarrow> l | None \<Rightarrow> status)
      in report [RoutingErrorEvent (ge_session env) LimitReached (Some limit)]
           (st\<lparr>gs_limit := Some limit, gs_last_error := Some LimitReached\<rparr>))"

text \<open>\<open>setModel\<close> changes Pi's model only when it answers that it was applied.\<close>

definition apply_selected_model :: "guard_env \<Rightarrow> (pi_model \<Rightarrow> bool) \<Rightarrow> lock_action \<Rightarrow> guard_state
    \<Rightarrow> guard_state \<times> (routing_error + unit)" where
  "apply_selected_model env set_model action st =
     (case gs_current st of
        None \<Rightarrow> (st, Inl DecisionUnavailable)
      | Some d \<Rightarrow>
          (case selected_model (ge_controller env) d of
             Inl e \<Rightarrow> (st, Inl e)
           | Inr selected \<Rightarrow>
               let identity = (pm_provider selected, pm_id selected) in
               if gs_model st \<noteq> Some identity \<and> \<not> set_model selected then (st, Inl SetModelRefused)
               else
                 (report [ModelLock action (pm_provider selected) (pm_id selected)]
                    (st\<lparr>gs_model := Some identity\<rparr>), Inr ())))"

text \<open>\<open>preflightAuth\<close> followed by \<open>applySelectedModel(context, "restored")\<close>.\<close>

definition restore_model :: "guard_env \<Rightarrow> (string \<Rightarrow> bool) \<Rightarrow> (pi_model \<Rightarrow> bool) \<Rightarrow> guard_state
    \<Rightarrow> guard_state \<times> (routing_error + unit)" where
  "restore_model env auth set_model st =
     (case preflight_auth auth (ge_controller env) of
        (events, Inl e) \<Rightarrow> (report events st, Inl e)
      | (events, Inr _) \<Rightarrow> apply_selected_model env set_model LRestored (report events st))"

definition routing_failed :: "guard_env \<Rightarrow> routing_error \<Rightarrow> guard_state \<Rightarrow> guard_state" where
  "routing_failed env e st =
     report [RoutingErrorEvent (ge_session env) e None] (st\<lparr>gs_last_error := Some e\<rparr>)"

definition on_session_start :: "guard_env \<Rightarrow> start_reason \<Rightarrow> (string \<Rightarrow> bool) \<Rightarrow> (pi_model \<Rightarrow> bool)
    \<Rightarrow> guard_state \<Rightarrow> guard_state \<times> guard_outcome" where
  "on_session_start env reason auth set_model st0 =
     (let st = report [SessionStarted (ge_session env) reason] st0 in
      case load_decision (ge_ajv env) (ge_date_ok env) (ge_controller env) (gs_files st)
          (ge_session env) (gs_entries st) reason of
        Inl e \<Rightarrow> (routing_failed env e (st\<lparr>gs_startup_error := Some e\<rparr>), GDone)
      | Inr None \<Rightarrow>
          (report [DecisionEvent DPending (ge_session env) None] (st\<lparr>gs_current := None\<rparr>), GDone)
      | Inr (Some d) \<Rightarrow>
          (case restore_model env auth set_model (st\<lparr>gs_current := Some d\<rparr>) of
             (st', Inl e) \<Rightarrow> (routing_failed env e st', GDone)
           | (st', Inr _) \<Rightarrow> (report [DecisionEvent DRestored (rd_session d) (Some d)] st', GDone)))"

text \<open>The body of the \<open>try\<close> of the \<open>input\<close> handler, up to the check of the elapsed time.\<close>

definition route_input :: "guard_env \<Rightarrow> string \<Rightarrow> create_inputs \<Rightarrow> (pi_model \<Rightarrow> bool) \<Rightarrow> guard_state
    \<Rightarrow> guard_state \<times> (routing_error + unit)" where
  "route_input env task inputs set_model st =
     (case gs_current st of
        Some d \<Rightarrow> restore_model env (ci_auth inputs) set_model st
      | None \<Rightarrow>
          (case create_decision (ge_ajv env) (ge_date_ok env) (ge_controller env) inputs task
              (ge_session env) (gs_files st) of
             (events, files, Inl e) \<Rightarrow> (report events (st\<lparr>gs_files := files\<rparr>), Inl e)
           | (events, files, Inr d) \<Rightarrow>
               let st1 = report events (st\<lparr>gs_files := files, gs_current := Some d,
                     gs_entries := gs_entries st @ [CustomEntry routing_decision_entry (decision_json d)]\<rparr>)
               in (case apply_selected_model env set_model LSelected st1 of
                     (st2, Inl e) \<Rightarrow> (st2, Inl e)
                   | (st2, Inr _) \<Rightarrow>
                       (report [DecisionEvent DPersisted (rd_session d) (Some d)] st2, Inr ()))))"

definition on_input :: "guard_env \<Rightarrow> string \<Rightarrow> create_inputs \<Rightarrow> int \<Rightarrow> (pi_model \<Rightarrow> bool)
    \<Rightarrow> guard_state \<Rightarrow> guard_state \<times> guard_outcome" where
  "on_input env task inputs elapsed_ms set_model st0 =
     (if gs_startup_error st0 \<noteq> None then (st0, GHandled)
      else
        let st = report [ExecutionStart (ge_session env)]
              (st0\<lparr>gs_last_error := None, gs_limit := None, gs_running := True\<rparr>);
            timeout_ms = int (timeout_seconds (execution (ct_config (ge_controller env)))) * 1000
        in case route_input env task inputs set_model st of
             (st', Inl e) \<Rightarrow>
               ((routing_failed env e st')\<lparr>gs_running := False\<rparr>, GHandled)
           | (st', Inr _) \<Rightarrow>
               if elapsed_ms \<ge> timeout_ms
               then
                 ((routing_failed env LimitReached
                     (stop_for_limit env LimitTimeout (stop_for_limit env LimitTimeout st')))
                    \<lparr>gs_running := False\<rparr>, GHandled)
               else (st'\<lparr>gs_turns := 0\<rparr>, GContinue))"

definition on_turn_start :: "guard_env \<Rightarrow> guard_state \<Rightarrow> guard_state \<times> guard_outcome" where
  "on_turn_start env st =
     (let st' = st\<lparr>gs_turns := Suc (gs_turns st)\<rparr>
      in if gs_turns st' > max_agent_turns (execution (ct_config (ge_controller env)))
         then (stop_for_limit env LimitBudget st', GThrow LimitReached)
         else (st'\<lparr>gs_request := Some RequestCoding\<rparr>, GDone))"

definition on_before_compact :: "guard_env \<Rightarrow> (string \<Rightarrow> bool) \<Rightarrow> (pi_model \<Rightarrow> bool) \<Rightarrow> guard_state
    \<Rightarrow> guard_state \<times> guard_outcome" where
  "on_before_compact env auth set_model st =
     (if gs_startup_error st \<noteq> None \<or> gs_current st = None then (st, GCancel)
      else
        (case restore_model env auth set_model st of
           (st', Inl e) \<Rightarrow> (st'\<lparr>gs_last_error := Some e\<rparr>, GCancel)
         | (st', Inr _) \<Rightarrow> (st'\<lparr>gs_request := Some RequestCompaction\<rparr>, GDone)))"

definition on_before_provider_request :: "guard_env \<Rightarrow> guard_state \<Rightarrow> guard_state \<times> guard_outcome" where
  "on_before_provider_request env st =
     (if gs_limit st \<noteq> None then (st, GThrow LimitReached)
      else
        (case gs_current st of
           None \<Rightarrow> (st, GThrow DecisionUnavailable)
         | Some d \<Rightarrow>
             (case selected_model (ge_controller env) d of
                Inl e \<Rightarrow> (st, GThrow e)
              | Inr selected \<Rightarrow>
                  if gs_model st \<noteq> Some (pm_provider selected, pm_id selected)
                  then (st, GThrow OutsideModelLock) else (st, GDone))))"

text \<open>Pi has selected another model; the guard puts the locked one back.\<close>

definition on_model_select :: "guard_env \<Rightarrow> string \<Rightarrow> string \<Rightarrow> (pi_model \<Rightarrow> bool) \<Rightarrow> guard_state
    \<Rightarrow> guard_state \<times> guard_outcome" where
  "on_model_select env provider model set_model st0 =
     (let st = st0\<lparr>gs_model := Some (provider, model)\<rparr> in
      case gs_current st of
        None \<Rightarrow> (st, GDone)
      | Some d \<Rightarrow>
          (case selected_model (ge_controller env) d of
             Inl e \<Rightarrow> (st, GThrow e)
           | Inr selected \<Rightarrow>
               if (provider, model) = (pm_provider selected, pm_id selected) then (st, GDone)
               else
                 let st' = report [ModelLock LRejected provider model] st
                 in if set_model selected
                    then (st'\<lparr>gs_model := Some (pm_provider selected, pm_id selected)\<rparr>, GDone)
                    else (st', GThrow SetModelRefused)))"

fun guard_step :: "guard_env \<Rightarrow> guard_event \<Rightarrow> guard_state \<Rightarrow> guard_state \<times> guard_outcome" where
  "guard_step env (EvSessionStart reason auth set_model) st = on_session_start env reason auth set_model st"
| "guard_step env (EvInput task inputs elapsed set_model) st = on_input env task inputs elapsed set_model st"
| "guard_step env EvRunTimer st =
     (if gs_running st then (stop_for_limit env LimitTimeout st, GAbort) else (st, GDone))"
| "guard_step env EvBeforeAgentStart st =
     (if gs_current st = None then (st\<lparr>gs_last_error := Some DecisionUnavailable\<rparr>, GAbort) else (st, GDone))"
| "guard_step env EvTurnStart st = on_turn_start env st"
| "guard_step env EvRequestTimer st =
     (if gs_request st = None then (st, GDone)
      else (stop_for_limit env LimitTimeout (st\<lparr>gs_request := None\<rparr>), GAbort))"
| "guard_step env (EvMessageEnd role) st =
     (if role = MAssistant then (st\<lparr>gs_request := None\<rparr>, GDone) else (st, GDone))"
| "guard_step env EvTurnEnd st = (st\<lparr>gs_request := None\<rparr>, GDone)"
| "guard_step env EvAgentSettled st = (st\<lparr>gs_request := None, gs_running := False\<rparr>, GDone)"
| "guard_step env (EvBeforeCompact auth set_model) st = on_before_compact env auth set_model st"
| "guard_step env EvCompactDone st = (st\<lparr>gs_request := None\<rparr>, GDone)"
| "guard_step env EvBeforeProviderRequest st = on_before_provider_request env st"
| "guard_step env (EvModelSelect provider model set_model) st = on_model_select env provider model set_model st"
| "guard_step env (EvOtherEntry role) st =
     (st\<lparr>gs_entries := gs_entries st @ [MessageEntry role]\<rparr>, GDone)"
| "guard_step env EvShutdown st = (st\<lparr>gs_running := False\<rparr>, GDone)"

subsection \<open>Reachable states\<close>

definition event_ok :: "guard_event \<Rightarrow> bool" where
  "event_ok ev = (case ev of EvInput _ inputs _ _ \<Rightarrow> resolve_sound inputs | _ \<Rightarrow> True)"

inductive guard_reach :: "guard_env \<Rightarrow> guard_state \<Rightarrow> bool" for env where
  reach_start: "gs_current st = None \<Longrightarrow> guard_reach env st"
| reach_step: "guard_reach env st \<Longrightarrow> event_ok ev \<Longrightarrow> guard_step env ev st = (st', outcome) \<Longrightarrow>
    guard_reach env st'"

text \<open>The active decision is the durable decision of this session, and it is the controller's.\<close>

definition guard_inv :: "guard_env \<Rightarrow> guard_state \<Rightarrow> bool" where
  "guard_inv env st \<longleftrightarrow> (\<forall>d. gs_current st = Some d \<longrightarrow>
     store_read (ge_ajv env) (ge_date_ok env) (gs_files st) (ge_session env) = Inr (Some d) \<and>
     decision_matches (ge_controller env) (ge_session env) d)"

lemma report_fields [simp]:
  "gs_current (report es st) = gs_current st" "gs_files (report es st) = gs_files st"
  "gs_turns (report es st) = gs_turns st" "gs_limit (report es st) = gs_limit st"
  "gs_model (report es st) = gs_model st" "gs_entries (report es st) = gs_entries st"
  "gs_startup_error (report es st) = gs_startup_error st"
  by (simp_all add: report_def)

lemma stop_fields [simp]:
  "gs_current (stop_for_limit env s st) = gs_current st" "gs_files (stop_for_limit env s st) = gs_files st"
  "gs_turns (stop_for_limit env s st) = gs_turns st" "gs_limit (stop_for_limit env s st) \<noteq> None"
  "gs_model (stop_for_limit env s st) = gs_model st"
  by (simp_all add: stop_for_limit_def Let_def)

lemma failed_fields [simp]:
  "gs_current (routing_failed env e st) = gs_current st" "gs_files (routing_failed env e st) = gs_files st"
  "gs_turns (routing_failed env e st) = gs_turns st" "gs_limit (routing_failed env e st) = gs_limit st"
  by (simp_all add: routing_failed_def)

lemma apply_fields:
  "apply_selected_model env f a st = (st', r) \<Longrightarrow>
     gs_current st' = gs_current st \<and> gs_files st' = gs_files st \<and> gs_turns st' = gs_turns st \<and>
     gs_limit st' = gs_limit st"
  by (auto simp: apply_selected_model_def Let_def split: option.splits sum.splits if_splits)

lemma restore_fields:
  "restore_model env auth f st = (st', r) \<Longrightarrow>
     gs_current st' = gs_current st \<and> gs_files st' = gs_files st \<and> gs_turns st' = gs_turns st \<and>
     gs_limit st' = gs_limit st"
  by (auto simp: restore_model_def dest!: apply_fields split: prod.splits sum.splits)

text \<open>Only two handlers touch the decision: starting a session and taking an input.\<close>

lemma session_start_current:
  assumes "on_session_start env reason auth f st = (st', r)"
  shows "gs_files st' = gs_files st \<and> gs_turns st' = gs_turns st \<and> gs_limit st' = gs_limit st \<and>
    (case load_decision (ge_ajv env) (ge_date_ok env) (ge_controller env) (gs_files st) (ge_session env)
        (gs_entries st) reason of
       Inl e \<Rightarrow> gs_current st' = gs_current st | Inr d \<Rightarrow> gs_current st' = d)"
  using assms
  by (auto simp: on_session_start_def Let_def dest!: restore_fields
      split: sum.splits option.splits prod.splits)

lemma input_current:
  assumes "on_input env task inputs elapsed f st = (st', r)"
  shows "(gs_current st' = gs_current st \<and> gs_files st' = gs_files st) \<or>
    (gs_current st = None \<and> (\<exists>events d. gs_current st' = Some d \<and>
       create_decision (ge_ajv env) (ge_date_ok env) (ge_controller env) inputs task (ge_session env)
         (gs_files st) = (events, gs_files st', Inr d)))"
proof -
  define st0 where "st0 = report [ExecutionStart (ge_session env)]
    (st\<lparr>gs_last_error := None, gs_limit := None, gs_running := True\<rparr>)"
  have st0: "gs_current st0 = gs_current st" "gs_files st0 = gs_files st" by (simp_all add: st0_def)
  have route: "(gs_current u = gs_current st \<and> gs_files u = gs_files st) \<or>
    (gs_current st = None \<and> (\<exists>events d. gs_current u = Some d \<and>
       create_decision (ge_ajv env) (ge_date_ok env) (ge_controller env) inputs task (ge_session env)
         (gs_files st) = (events, gs_files u, Inr d)))"
    if "route_input env task inputs f st0 = (u, x)" for u x
    using that st0
    by (auto simp: route_input_def Let_def dest!: restore_fields apply_fields create_Inl
        split: option.splits prod.splits sum.splits)
  obtain u x where u: "route_input env task inputs f st0 = (u, x)" by (cases "route_input env task inputs f st0")
  have "gs_current st' = gs_current st \<and> gs_files st' = gs_files st \<or>
      gs_current st' = gs_current u \<and> gs_files st' = gs_files u"
    using assms u unfolding on_input_def st0_def [symmetric] Let_def
    by (auto split: if_splits sum.splits)
  with route [OF u] show ?thesis by auto
qed

lemma step_current:
  assumes "guard_step env ev st = (st', r)" "\<forall>t i e f. ev \<noteq> EvInput t i e f" "\<forall>r a f. ev \<noteq> EvSessionStart r a f"
  shows "gs_current st' = gs_current st \<and> gs_files st' = gs_files st"
  using assms
  by (cases ev)
    (auto simp: on_turn_start_def on_before_compact_def on_before_provider_request_def on_model_select_def
      Let_def dest!: restore_fields split: if_splits option.splits sum.splits prod.splits)

lemma guard_inv_step:
  assumes "json_validator (ge_ajv env)" and "guard_inv env st" and "event_ok ev"
    and "guard_step env ev st = (st', r)"
  shows "guard_inv env st' \<and> (\<forall>d. gs_current st = Some d \<longrightarrow> gs_current st' = Some d)"
proof -
  consider (start) reason auth f where "ev = EvSessionStart reason auth f"
    | (inp) task inputs elapsed f where "ev = EvInput task inputs elapsed f"
    | (other) "\<forall>t i e f. ev \<noteq> EvInput t i e f" "\<forall>r a f. ev \<noteq> EvSessionStart r a f"
    by blast
  then show ?thesis
  proof cases
    case start
    let ?load = "load_decision (ge_ajv env) (ge_date_ok env) (ge_controller env) (gs_files st)
      (ge_session env) (gs_entries st) reason"
    note cur = session_start_current [OF assms(4) [unfolded start guard_step.simps]]
    show ?thesis
    proof (cases ?load)
      case (Inl e)
      with cur assms(2) show ?thesis by (simp add: guard_inv_def)
    next
      case (Inr loaded)
      have stored: "store_read (ge_ajv env) (ge_date_ok env) (gs_files st) (ge_session env) = Inr loaded"
        using Inr by (auto simp: load_decision_def Let_def split: if_splits option.splits)
      have "decision_matches (ge_controller env) (ge_session env) d" if "loaded = Some d" for d
        using load_Some Inr that by blast
      with cur stored assms(2) Inr show ?thesis by (auto simp: guard_inv_def)
    qed
  next
    case inp
    have sound: "resolve_sound inputs" using assms(3) inp by (simp add: event_ok_def)
    from input_current [OF assms(4) [unfolded inp guard_step.simps]] show ?thesis
    proof
      assume "gs_current st' = gs_current st \<and> gs_files st' = gs_files st"
      with assms(2) show ?thesis by (simp add: guard_inv_def)
    next
      assume "gs_current st = None \<and> (\<exists>events d. gs_current st' = Some d \<and>
        create_decision (ge_ajv env) (ge_date_ok env) (ge_controller env) inputs task (ge_session env)
          (gs_files st) = (events, gs_files st', Inr d))"
      then obtain events d where none: "gs_current st = None" and d: "gs_current st' = Some d"
        and made: "create_decision (ge_ajv env) (ge_date_ok env) (ge_controller env) inputs task
          (ge_session env) (gs_files st) = (events, gs_files st', Inr d)"
        by blast
      note c = create_Inr [OF made sound, unfolded json_validator_eq [OF assms(1)]]
      have "rd_session d = ge_session env" using c by (simp add: decision_sound_def)
      then show ?thesis
        using c d none store_write_read [of "ge_date_ok env" "gs_files st" d "gs_files st'"]
        by (auto simp: guard_inv_def json_validator_eq [OF assms(1)] dest: decision_sound_matches)
    qed
  next
    case other
    with step_current [OF assms(4)] assms(2) show ?thesis by (simp add: guard_inv_def)
  qed
qed

lemma guard_reach_inv: "guard_reach env st \<Longrightarrow> json_validator (ge_ajv env) \<Longrightarrow> guard_inv env st"
  by (induction rule: guard_reach.induct) (simp add: guard_inv_def, use guard_inv_step in blast)

text \<open>Running a sequence of events.\<close>

fun guard_run :: "guard_env \<Rightarrow> guard_event list \<Rightarrow> guard_state \<Rightarrow> guard_state" where
  "guard_run env [] st = st"
| "guard_run env (ev # evs) st = guard_run env evs (fst (guard_step env ev st))"

definition is_input :: "guard_event \<Rightarrow> bool" where
  "is_input ev = (case ev of EvInput _ _ _ _ \<Rightarrow> True | _ \<Rightarrow> False)"

definition turn_starts :: "guard_event list \<Rightarrow> nat" where
  "turn_starts evs = count_if (\<lambda>ev. ev = EvTurnStart) evs"

lemma step_limits:
  assumes "guard_step env ev st = (st', r)" and "\<not> is_input ev"
  shows "(gs_limit st \<noteq> None \<longrightarrow> gs_limit st' \<noteq> None) \<and>
    gs_turns st' = (if ev = EvTurnStart then Suc (gs_turns st) else gs_turns st) \<and>
    (ev = EvTurnStart \<and> gs_turns st' > max_agent_turns (execution (ct_config (ge_controller env))) \<longrightarrow>
      gs_limit st' \<noteq> None)"
proof (cases ev)
  case (EvSessionStart reason auth f)
  with session_start_current [of env reason auth f st st' r] assms(1) show ?thesis by simp
next
  case (EvInput t i e f)
  with assms(2) show ?thesis by (simp add: is_input_def)
next
  case EvTurnStart
  have "gs_limit (stop_for_limit env s u) \<noteq> None" "gs_turns (stop_for_limit env s u) = gs_turns u" for s u
    by (simp_all add: stop_fields)
  with EvTurnStart assms(1) show ?thesis
    by (auto simp: on_turn_start_def Let_def stop_for_limit_def split: if_splits)
next
  case (EvBeforeCompact auth f)
  with assms(1) show ?thesis
    by (auto simp: on_before_compact_def dest!: restore_fields split: if_splits prod.splits sum.splits)
next
  case (EvModelSelect p m f)
  with assms(1) show ?thesis
    by (auto simp: on_model_select_def Let_def split: if_splits option.splits sum.splits)
next
  case EvBeforeProviderRequest
  with assms(1) show ?thesis
    by (auto simp: on_before_provider_request_def split: if_splits option.splits sum.splits)
qed (use assms(1) in \<open>auto simp: stop_for_limit_def Let_def split: if_splits\<close>)

lemma run_limits:
  assumes "\<forall>ev \<in> set evs. \<not> is_input ev"
  shows "(gs_limit st \<noteq> None \<longrightarrow> gs_limit (guard_run env evs st) \<noteq> None) \<and>
    (turn_starts evs > 0 \<and>
      gs_turns st + turn_starts evs > max_agent_turns (execution (ct_config (ge_controller env))) \<longrightarrow>
      gs_limit (guard_run env evs st) \<noteq> None)"
  using assms
proof (induction evs arbitrary: st)
  case (Cons ev evs)
  obtain st1 r where s: "guard_step env ev st = (st1, r)" by (cases "guard_step env ev st")
  have "\<not> is_input ev" using Cons.prems by simp
  note lim = step_limits [OF s this]
  have ih: "(gs_limit st1 \<noteq> None \<longrightarrow> gs_limit (guard_run env evs st1) \<noteq> None) \<and>
    (turn_starts evs > 0 \<and>
      gs_turns st1 + turn_starts evs > max_agent_turns (execution (ct_config (ge_controller env))) \<longrightarrow>
      gs_limit (guard_run env evs st1) \<noteq> None)"
    using Cons.IH [of st1] Cons.prems by simp
  show ?case
  proof (cases "ev = EvTurnStart")
    case True
    then show ?thesis using lim ih s by (cases "turn_starts evs") (auto simp: turn_starts_def)
  next
    case False
    then show ?thesis using lim ih s by (auto simp: turn_starts_def)
  qed
qed (simp add: turn_starts_def)

lemma run_reach:
  "guard_reach env st \<Longrightarrow> \<forall>ev \<in> set evs. event_ok ev \<Longrightarrow> guard_reach env (guard_run env evs st)"
proof (induction evs arbitrary: st)
  case (Cons ev evs)
  obtain st1 r where s: "guard_step env ev st = (st1, r)" by (cases "guard_step env ev st")
  have "guard_reach env st1" using reach_step [OF Cons.prems(1) _ s] Cons.prems(2) by simp
  then show ?case using Cons.IH Cons.prems(2) s by simp
qed simp

lemma run_current:
  assumes "json_validator (ge_ajv env)"
  shows "guard_inv env st \<Longrightarrow> gs_current st = Some d \<Longrightarrow> \<forall>ev \<in> set evs. event_ok ev \<Longrightarrow>
    gs_current (guard_run env evs st) = Some d"
proof (induction evs arbitrary: st)
  case (Cons ev evs)
  obtain st1 r where s: "guard_step env ev st = (st1, r)" by (cases "guard_step env ev st")
  have "event_ok ev" using Cons.prems(3) by simp
  from guard_inv_step [OF assms Cons.prems(1) this s] Cons.prems(2)
  have "guard_inv env st1" "gs_current st1 = Some d" by simp_all
  then show ?case using Cons.IH Cons.prems(3) s by simp
qed simp

subsection \<open>Properties\<close>

definition example_env :: guard_env where
  "example_env = \<lparr>ge_ajv = schema_valid, ge_date_ok = (\<lambda>_. True), ge_controller = example_controller,
     ge_session = ''s1''\<rparr>"

definition example_start :: guard_state where
  "example_start = \<lparr>gs_current = None, gs_startup_error = None, gs_last_error = None, gs_limit = None,
     gs_turns = 0, gs_running = False, gs_request = None, gs_model = None, gs_entries = [],
     gs_files = Map.empty, gs_reported = []\<rparr>"

definition example_input :: guard_event where
  "example_input = EvInput ''task'' example_inputs 40 (\<lambda>_. True)"

definition example_routed :: guard_state where
  "example_routed = fst (guard_step example_env example_input example_start)"

lemma example_selected: "selected_model example_controller example_created = Inr example_model"
  by (simp add: selected_model_def example_created_def build_decision_def Let_def tier_model_def
      example_controller_def example_fallback_def)

lemma example_input_step:
  "gs_current example_routed = Some example_created \<and> gs_limit example_routed = None \<and>
   gs_model example_routed = Some (''acme'', ''m1'') \<and> gs_turns example_routed = 0 \<and>
   gs_files example_routed = Map.empty(''s1'' \<mapsto> Parsed (decision_json example_created)) \<and>
   snd (guard_step example_env example_input example_start) = GContinue"
proof -
  have "timeout_seconds (execution (ct_config example_controller)) = 600"
    by (simp add: example_controller_def example_config_def)
  then show ?thesis
    by (simp add: example_routed_def example_input_def example_env_def example_start_def on_input_def
        route_input_def example_create apply_selected_model_def example_selected example_model_def
        report_def Let_def)
qed

lemma example_routed_reach: "guard_reach example_env example_routed"
proof (rule reach_step)
  show "guard_reach example_env example_start" by (rule reach_start) (simp add: example_start_def)
  show "event_ok example_input" by (simp add: event_ok_def example_input_def example_inputs_sound)
  show "guard_step example_env example_input example_start =
      (example_routed, snd (guard_step example_env example_input example_start))"
    by (simp add: example_routed_def)
qed

lemma example_validator: "json_validator (ge_ajv example_env)"
  using standard.json_validator_axioms by (simp add: example_env_def)

text \<open>C1: In every reachable state of a session a provider request goes through only under a durable
  routing decision: when the guard lets it pass, no limit has been hit, a decision is active, the store
  holds exactly that decision for this session, it agrees with the project, profile, fingerprint and
  mode, and Pi's model is the model of the tier it selected.\<close>

theorem provider_request_locked:
  assumes "json_validator (ge_ajv env)" and "guard_reach env st"
    and "snd (guard_step env EvBeforeProviderRequest st) = GDone"
  shows "gs_limit st = None \<and> (\<exists>d. gs_current st = Some d \<and>
    store_read (ge_ajv env) (ge_date_ok env) (gs_files st) (ge_session env) = Inr (Some d) \<and>
    decision_matches (ge_controller env) (ge_session env) d \<and>
    gs_model st = Some (pm_provider (tier_model (ge_controller env) (rd_tier d)),
      pm_id (tier_model (ge_controller env) (rd_tier d))))"
  using assms(3) guard_reach_inv [OF assms(2,1)]
  by (auto simp: on_before_provider_request_def selected_model_def guard_inv_def Let_def
      split: if_splits option.splits sum.splits)

theorem provider_request_locked_witness:
  "gs_limit example_routed = None \<and> (\<exists>d. gs_current example_routed = Some d \<and>
    store_read (ge_ajv example_env) (ge_date_ok example_env) (gs_files example_routed) (ge_session example_env) =
      Inr (Some d) \<and>
    decision_matches (ge_controller example_env) (ge_session example_env) d \<and>
    gs_model example_routed = Some (pm_provider (tier_model (ge_controller example_env) (rd_tier d)),
      pm_id (tier_model (ge_controller example_env) (rd_tier d))))"
  by (rule provider_request_locked [OF example_validator example_routed_reach])
    (use example_input_step in \<open>simp add: on_before_provider_request_def example_env_def example_selected
      example_model_def\<close>)

text \<open>C2: A session has one routing decision: once a decision is active it stays active, unchanged,
  through any further events, whatever restarts, inputs, failures, limits or model selections occur.\<close>

theorem one_decision_per_session:
  assumes "json_validator (ge_ajv env)" and "guard_reach env st" and "gs_current st = Some d"
    and "\<forall>ev \<in> set evs. event_ok ev"
  shows "gs_current (guard_run env evs st) = Some d \<and>
    store_read (ge_ajv env) (ge_date_ok env) (gs_files (guard_run env evs st)) (ge_session env) = Inr (Some d)"
proof -
  have "gs_current (guard_run env evs st) = Some d"
    using run_current [OF assms(1) guard_reach_inv [OF assms(2,1)] assms(3,4)] .
  moreover have "guard_inv env (guard_run env evs st)"
    by (intro guard_reach_inv run_reach assms)
  ultimately show ?thesis by (simp add: guard_inv_def)
qed

theorem one_decision_per_session_witness:
  "gs_current (guard_run example_env [EvShutdown, EvSessionStart ReasonFork (\<lambda>_. False) (\<lambda>_. False), example_input]
     example_routed) = Some example_created"
  by (rule one_decision_per_session [OF example_validator example_routed_reach, THEN conjunct1])
    (use example_input_step in \<open>auto simp: event_ok_def example_input_def example_inputs_sound\<close>)

text \<open>C3: The turn budget is enforced: however the events of a run are ordered, once more turns than
  \<open>maxAgentTurns\<close> have started since the last input that was routed, a limit is recorded and every
  provider request is refused until the next input.\<close>

theorem turn_budget_enforced:
  assumes "\<forall>ev \<in> set evs. \<not> is_input ev" and "turn_starts evs > 0"
    and "gs_turns st + turn_starts evs > max_agent_turns (execution (ct_config (ge_controller env)))"
  shows "gs_limit (guard_run env evs st) \<noteq> None \<and>
    guard_step env EvBeforeProviderRequest (guard_run env evs st) = (guard_run env evs st, GThrow LimitReached)"
  using run_limits [OF assms(1), of st env] assms(2,3) by (simp add: on_before_provider_request_def)

theorem turn_budget_enforced_witness:
  "gs_limit (guard_run example_env (replicate 21 EvTurnStart) example_routed) \<noteq> None"
proof -
  have "count_if (\<lambda>ev. ev = EvTurnStart) (replicate n EvTurnStart) = n" for n by (induction n) simp_all
  then have "turn_starts (replicate 21 EvTurnStart) = 21" by (simp add: turn_starts_def)
  moreover have "max_agent_turns (execution (ct_config (ge_controller example_env))) = 20"
    by (simp add: example_env_def example_controller_def example_config_def)
  ultimately show ?thesis
    by (intro turn_budget_enforced [THEN conjunct1]) (auto simp: is_input_def)
qed

end
