(* ===== verification/Schedule.thy ===== *)
theory Schedule
  imports Routing_Decision "HOL-Library.Word" "HOL-Library.Multiset"
begin

unbundle bit_operations_syntax

section \<open>The corpus and the schedule of an experiment\<close>

text \<open>
  The registered tasks (src/evaluation/corpus.ts) and the seeded schedule of an experiment
  (src/evaluation/smoke.ts): the 32-bit generator \<open>mulberry32\<close>, the shuffle that draws from it,
  and the order in which every task, repetition and mode is tried. A generator is a function on
  its state; \<open>Math.floor(random() * (index + 1))\<close> is exact for the lists of the program, which
  are far shorter than \<open>2 ^ 21\<close>, so a draw is a real number.
\<close>

subsection \<open>The corpus\<close>

definition core_dev :: "string list" where
  "core_dev = [''01-null-summary'', ''02-create-validation'', ''03-stable-filter'',
     ''04-page-boundaries'', ''05-safe-result-types'', ''06-money-total'']"

definition core_heldout :: "string list" where
  "core_heldout = [''07-tenant-authorization'', ''08-deduplicate-submit'', ''09-latest-search'',
     ''10-singleflight-cache'', ''11-retry-policy'', ''12-atomic-transfer'',
     ''13-import-diagnostics'', ''14-idempotent-events'', ''15-cancel-batch'',
     ''16-config-precedence'', ''17-subscription-lifecycle'', ''18-service-pagination'']"

definition harness_dev :: "string list" where
  "harness_dev = [''19-cli-precedence'', ''20-contract-upgrade'', ''21-project-membership'',
     ''22-cache-invalidation'', ''23-worker-drain'', ''24-checkout-rollback'',
     ''25-stream-disposal'', ''26-import-pipeline'']"

definition harness_heldout :: "string list" where
  "harness_heldout = [''27-profile-migration'', ''28-release-arguments'', ''29-cursor-contract'',
     ''30-error-contract'', ''31-shared-link-access'', ''32-bulk-authorization'',
     ''33-negative-cache'', ''34-cache-refresh-race'', ''35-retry-worker'', ''36-bounded-dispatch'',
     ''37-inventory-reservation'', ''38-event-outbox'', ''39-abort-listeners'',
     ''40-resource-stack'', ''41-archive-import'', ''42-export-pagination'']"

definition all_task_ids :: "string list" where
  "all_task_ids = core_dev @ core_heldout @ harness_dev @ harness_heldout"

datatype corpus_split = SplitDev | SplitHeldout

datatype task_home = HomeCore | HomeHarness

record corpus_task =
  cp_id :: string
  cp_split :: corpus_split
  cp_cluster :: string
  cp_home :: task_home

record corpus_def =
  cd_id :: string
  cd_tasks :: "corpus_task list"

datatype evaluation_suite = SuiteSmoke | SuiteDev | SuiteHeldout | SuiteFull

datatype schedule_error = UnknownCorpus | BadRepetitions

definition corpus_task_of :: "string \<Rightarrow> corpus_task" where
  "corpus_task_of task =
     \<lparr>cp_id = task,
      cp_split = (if task \<in> set (core_dev @ harness_dev) then SplitDev else SplitHeldout),
      cp_cluster = task,
      cp_home = (if task \<in> set (core_dev @ core_heldout) then HomeCore else HomeHarness)\<rparr>"

definition corpus_definition :: "string \<Rightarrow> schedule_error + corpus_def" where
  "corpus_definition name =
     (if name \<notin> {''core'', ''harness'', ''combined''} then Inl UnknownCorpus
      else Inr \<lparr>cd_id = name,
        cd_tasks = map corpus_task_of (filter (\<lambda>task. name = ''combined'' \<or>
          (name = ''core'' \<longleftrightarrow> task \<in> set (core_dev @ core_heldout))) all_task_ids)\<rparr>)"

definition corpus_tasks :: "string \<Rightarrow> evaluation_suite \<Rightarrow> schedule_error + string list" where
  "corpus_tasks name suite = bind_result (corpus_definition name) (\<lambda>c.
     let tasks = cd_tasks c;
         selected = filter (\<lambda>t. cp_split t = (if suite = SuiteHeldout then SplitHeldout else SplitDev)) tasks
     in if suite = SuiteFull then Inr (map cp_id tasks)
        else Inr (map cp_id (if suite = SuiteSmoke then take 3 selected else selected)))"

text \<open>The three wordings a probe routes the same task with; the newline is character 10.\<close>

definition routing_wordings :: "string \<Rightarrow> string list" where
  "routing_wordings prompt =
     [prompt,
      ''Requested code change:'' @ [CHR 0x0A] @ prompt @ [CHR 0x0A] @
        ''Deliver the implementation of these requirements.'',
      ''The following describes the required behavior after this change:'' @ [CHR 0x0A, CHR 0x0A] @
        prompt @ [CHR 0x0A, CHR 0x0A] @ ''Update the project to provide that behavior.'']"

subsection \<open>The generator and the shuffle\<close>

text \<open>
  \<open>value ^= e\<close> reads the old value on both sides; \<open>Math.imul\<close>, \<open>|\<close>, \<open>^\<close> and \<open>>>>\<close> act on
  the 32 bits of their arguments, so signed and unsigned readings agree.
\<close>

definition mulberry32 :: "32 word \<Rightarrow> real \<times> 32 word" where
  "mulberry32 s =
     (let state = s + 0x6d2b79f5;
          v1 = (state XOR drop_bit 15 state) * (state OR 1);
          v2 = v1 XOR (v1 + (v1 XOR drop_bit 7 v1) * (v1 OR 61))
      in (real (unat (v2 XOR drop_bit 14 v2)) / 4294967296, state))"

definition mulberry_seed :: "nat \<Rightarrow> 32 word" where
  "mulberry_seed seed = of_nat seed"

definition swap_at :: "nat \<Rightarrow> nat \<Rightarrow> 'a list \<Rightarrow> 'a list" where
  "swap_at i j xs = xs[i := xs ! j, j := xs ! i]"

text \<open>The loop counts down from the last index to 1; the second argument is the index.\<close>

fun shuffle_from :: "('s \<Rightarrow> real \<times> 's) \<Rightarrow> nat \<Rightarrow> 'a list \<Rightarrow> 's \<Rightarrow> 'a list \<times> 's" where
  "shuffle_from random 0 xs s = (xs, s)"
| "shuffle_from random (Suc i) xs s =
     (let (r, s') = random s; other = nat \<lfloor>r * real (Suc i + 1)\<rfloor>
      in shuffle_from random i (swap_at (Suc i) other xs) s')"

definition shuffle :: "('s \<Rightarrow> real \<times> 's) \<Rightarrow> 'a list \<Rightarrow> 's \<Rightarrow> 'a list \<times> 's" where
  "shuffle random xs s = shuffle_from random (length xs - 1) xs s"

subsection \<open>The schedule\<close>

definition evaluation_modes :: "session_mode list" where
  "evaluation_modes = [WeakOnly, StrongOnly, Routed]"

definition max_attempts_per_trial :: nat where
  "max_attempts_per_trial = 16"

record scheduled_trial =
  se_order :: nat
  se_trial :: string
  se_attempt :: string
  se_attempts :: "string list"
  se_task :: string
  se_repetition :: nat
  se_mode :: session_mode
  se_seed :: nat

definition trial_id :: "string \<Rightarrow> nat \<Rightarrow> session_mode \<Rightarrow> string" where
  "trial_id task repetition mode =
     task @ ''-r'' @ nat_string (repetition + 1) @ ''-'' @ mode_string mode"

definition attempt_ids :: "string \<Rightarrow> string list" where
  "attempt_ids trial = map (\<lambda>i. trial @ ''-a'' @ nat_string (i + 1)) [0..<max_attempts_per_trial]"

definition schedule_entry :: "nat \<Rightarrow> nat \<Rightarrow> string \<Rightarrow> nat \<Rightarrow> session_mode \<Rightarrow> scheduled_trial" where
  "schedule_entry seed order task repetition mode =
     (let trial = trial_id task repetition mode; ids = attempt_ids trial
      in \<lparr>se_order = order, se_trial = trial, se_attempt = hd ids, se_attempts = ids, se_task = task,
          se_repetition = repetition, se_mode = mode, se_seed = seed\<rparr>)"

fun schedule_triplets :: "('s \<Rightarrow> real \<times> 's) \<Rightarrow> nat \<Rightarrow> nat \<Rightarrow> (string \<times> nat) list \<Rightarrow> 's
    \<Rightarrow> scheduled_trial list" where
  "schedule_triplets random seed order [] s = []"
| "schedule_triplets random seed order ((task, repetition) # rest) s =
     (let (modes, s') = shuffle random evaluation_modes s
      in map (\<lambda>(n, mode). schedule_entry seed n task repetition mode)
           (zip [order..<order + length modes] modes)
         @ schedule_triplets random seed (order + length modes) rest s')"

definition repetitions_ok :: "jsnum \<Rightarrow> bool" where
  "repetitions_ok n \<longleftrightarrow> is_safe_integer n \<and> \<not> js_less n 1 \<and> \<not> js_greater n 100"

definition task_repetitions :: "string list \<Rightarrow> nat \<Rightarrow> (string \<times> nat) list" where
  "task_repetitions tasks n = concat (map (\<lambda>task. map (Pair task) [0..<n]) (sort_strings tasks))"

definition evaluation_schedule :: "string list \<Rightarrow> nat \<Rightarrow> jsnum
    \<Rightarrow> schedule_error + scheduled_trial list" where
  "evaluation_schedule tasks seed repetitions =
     (if \<not> repetitions_ok repetitions then Inl BadRepetitions
      else let (triplets, s) = shuffle mulberry32 (task_repetitions tasks (js_nat repetitions)) (mulberry_seed seed)
           in Inr (schedule_triplets mulberry32 seed 0 triplets s))"

definition smoke_schedule :: "nat \<Rightarrow> jsnum \<Rightarrow> schedule_error + scheduled_trial list" where
  "smoke_schedule seed repetitions =
     evaluation_schedule [''01-null-summary'', ''02-create-validation'', ''03-stable-filter''] seed repetitions"

subsection \<open>A source of randomness\<close>

lemma mset_swap_at: "i < length xs \<Longrightarrow> j < length xs \<Longrightarrow> mset (swap_at i j xs) = mset xs"
  unfolding swap_at_def by (rule mset_swap)

lemma length_swap_at [simp]: "length (swap_at i j xs) = length xs"
  by (simp add: swap_at_def)

text \<open>What \<open>shuffle\<close> relies on: every draw lies in \<open>[0, 1)\<close>.\<close>

locale random_source =
  fixes random :: "'s \<Rightarrow> real \<times> 's"
  assumes draw_unit: "0 \<le> fst (random s) \<and> fst (random s) < 1"
begin

lemma draw_index: "random s = (r, s') \<Longrightarrow> nat \<lfloor>r * real (Suc i)\<rfloor> \<le> i"
proof -
  assume "random s = (r, s')"
  with draw_unit [of s] have r: "0 \<le> r" "r < 1" by simp_all
  then have "r * real (Suc i) < real (Suc i)" by simp
  then have "\<lfloor>r * real (Suc i)\<rfloor> < int (Suc i)" by (simp add: floor_less_iff)
  then show ?thesis by linarith
qed

lemma shuffle_from_mset:
  "i < length xs \<or> xs = [] \<and> i = 0 \<Longrightarrow> mset (fst (shuffle_from random i xs s)) = mset xs"
proof (induction i arbitrary: xs s)
  case (Suc i)
  obtain r s' where draw: "random s = (r, s')" by fastforce
  have j: "nat \<lfloor>r * real (Suc i + 1)\<rfloor> \<le> Suc i" using draw_index [OF draw, of "Suc i"] by simp
  let ?j = "nat \<lfloor>r * real (Suc i + 1)\<rfloor>"
  have len: "Suc i < length xs" using Suc.prems by simp
  have "mset (fst (shuffle_from random i (swap_at (Suc i) ?j xs) s')) = mset (swap_at (Suc i) ?j xs)"
    using Suc.IH len by simp
  also have "\<dots> = mset xs" using j len by (intro mset_swap_at) linarith+
  finally show ?case by (simp only: shuffle_from.simps draw Let_def prod.case)
qed simp

text \<open>The step at an index leaves everything above it alone.\<close>

lemma shuffle_from_keeps:
  "i < k \<Longrightarrow> k < length xs \<Longrightarrow> fst (shuffle_from random i xs s) ! k = xs ! k"
proof (induction i arbitrary: xs s)
  case (Suc i)
  obtain r s' where draw: "random s = (r, s')" by fastforce
  have "nat \<lfloor>r * real (Suc i + 1)\<rfloor> \<le> Suc i" using draw_index [OF draw, of "Suc i"] by simp
  with Suc show ?case by (simp add: draw Let_def swap_at_def nth_list_update del: of_nat_Suc)
qed simp

lemma shuffle_mset: "mset (fst (shuffle random xs s)) = mset xs"
  unfolding shuffle_def by (rule shuffle_from_mset) (cases xs; simp)

lemma shuffle_length [simp]: "length (fst (shuffle random xs s)) = length xs"
  using arg_cong [OF shuffle_mset, of size] by simp

lemma shuffle_set [simp]: "set (fst (shuffle random xs s)) = set xs"
  using arg_cong [OF shuffle_mset, of set_mset] by simp

end

interpretation mulberry: random_source mulberry32
proof
  fix s :: "32 word"
  obtain w :: "32 word" where w: "fst (mulberry32 s) = real (unat w) / 4294967296"
    unfolding mulberry32_def Let_def by simp
  have "unat w < 4294967296" using unsigned_less [of w, where ?'a = nat] by simp
  then have "real (unat w) < real 4294967296" by (simp only: of_nat_less_iff)
  then show "0 \<le> fst (mulberry32 s) \<and> fst (mulberry32 s) < 1"
    unfolding w by (simp del: of_nat_unat)
qed

text \<open>
  A source that replays given indices: the element \<open>c\<close> before \<open>n\<close> more is the draw that makes
  the step at index \<open>n + 1\<close> swap with \<open>c\<close>.
\<close>

definition replay_draw :: "nat list \<Rightarrow> real \<times> nat list" where
  "replay_draw cs = (case cs of [] \<Rightarrow> (0, [])
     | c # rest \<Rightarrow> ((real (min c (Suc (length rest))) + 1 / 2) / real (length rest + 2), rest))"

fun valid_draws :: "nat list \<Rightarrow> bool" where
  "valid_draws [] = True"
| "valid_draws (c # cs) = (c \<le> Suc (length cs) \<and> valid_draws cs)"

interpretation replay: random_source replay_draw
proof
  fix cs :: "nat list"
  show "0 \<le> fst (replay_draw cs) \<and> fst (replay_draw cs) < 1"
    by (cases cs) (auto simp: replay_draw_def field_simps min_def)
qed

lemma shuffle_from_replay:
  assumes "c \<le> Suc (length cs)"
  shows "shuffle_from replay_draw (Suc (length cs)) xs (c # cs) =
    shuffle_from replay_draw (length cs) (swap_at (Suc (length cs)) c xs) cs"
proof -
  have "(real c + 1 / 2) / real (length cs + 2) * real (Suc (length cs) + 1) = real c + 1 / 2"
    by (simp add: field_simps)
  moreover have "\<lfloor>real c + 1 / 2\<rfloor> = int c" by (simp add: floor_eq_iff)
  ultimately show ?thesis using assms
    by (simp only: shuffle_from.simps replay_draw_def list.case prod.case Let_def min_absorb1) simp
qed

subsection \<open>Every permutation is drawn in one way\<close>

text \<open>
  If two lists agree above an index and have the same elements, their parts up to the index have
  the same elements.
\<close>

lemma mset_take_eq:
  assumes "mset ys = mset xs" "\<And>k. n \<le> k \<Longrightarrow> k < length xs \<Longrightarrow> ys ! k = xs ! k"
  shows "mset (take n ys) = mset (take n xs)"
proof -
  have len: "length ys = length xs" using assms(1) by (rule mset_eq_length)
  have "drop n ys = drop n xs" by (rule nth_equalityI) (simp_all add: len assms(2))
  moreover have "mset (take n ys) + mset (drop n ys) = mset (take n xs) + mset (drop n xs)"
    using assms(1) by (metis append_take_drop_id mset_append)
  ultimately show ?thesis by simp
qed

lemma unique_draws:
  assumes "distinct xs" "i < length xs" "mset ys = mset xs"
    "\<And>k. i < k \<Longrightarrow> k < length xs \<Longrightarrow> ys ! k = xs ! k"
  shows "\<exists>!cs. length cs = i \<and> valid_draws cs \<and> fst (shuffle_from replay_draw i xs cs) = ys"
  using assms
proof (induction i arbitrary: xs)
  case 0
  have "mset (take (Suc 0) ys) = mset (take (Suc 0) xs)"
    using 0 by (intro mset_take_eq) auto
  then have "ys ! 0 = xs ! 0"
    using 0(2) mset_eq_length [OF 0(3)] by (simp add: take_Suc_conv_app_nth)
  then have "ys ! k = xs ! k" if "k < length xs" for k
    using 0(4) [of k] that by (cases k) simp_all
  then have "ys = xs"
    using mset_eq_length [OF 0(3)] by (intro nth_equalityI) simp_all
  then show ?case by (intro ex1I [of _ "[]"]) auto
next
  case (Suc i)
  let ?n = "Suc (Suc i)"
  have len: "length ys = length xs" using Suc.prems(3) by (rule mset_eq_length)
  have "mset (take ?n ys) = mset (take ?n xs)"
    using Suc.prems by (intro mset_take_eq) auto
  then have "set (take ?n ys) = set (take ?n xs)" by (rule mset_eq_setD)
  moreover have "ys ! Suc i \<in> set (take ?n ys)"
    using Suc.prems(2) len by (auto simp: in_set_conv_nth intro!: exI [of _ "Suc i"])
  ultimately have "ys ! Suc i \<in> set (take ?n xs)" by simp
  then obtain c where "c < length (take ?n xs)" "take ?n xs ! c = ys ! Suc i"
    unfolding in_set_conv_nth by blast
  then have c: "c \<le> Suc i" "xs ! c = ys ! Suc i" by simp_all
  have c_only: "d = c" if "d \<le> Suc i" "xs ! d = ys ! Suc i" for d
    using that c Suc.prems(1,2) nth_eq_iff_index_eq [of xs d c] by simp
  let ?xs = "swap_at (Suc i) c xs"
  have mset: "mset ?xs = mset xs" using c(1) Suc.prems(2) by (intro mset_swap_at) linarith+
  have "distinct ?xs" using Suc.prems(1) mset by (metis mset_eq_imp_distinct_iff)
  moreover have "ys ! k = ?xs ! k" if "i < k" "k < length ?xs" for k
    using that c Suc.prems(2,4) by (cases "k = Suc i") (auto simp: swap_at_def nth_list_update)
  ultimately have "\<exists>!cs. length cs = i \<and> valid_draws cs \<and> fst (shuffle_from replay_draw i ?xs cs) = ys"
    using Suc.prems(2,3) mset by (intro Suc.IH) simp_all
  then obtain cs where cs: "length cs = i \<and> valid_draws cs \<and> fst (shuffle_from replay_draw i ?xs cs) = ys"
    and only: "\<forall>ds. length ds = i \<and> valid_draws ds \<and> fst (shuffle_from replay_draw i ?xs ds) = ys \<longrightarrow> ds = cs"
    unfolding Ex1_def by blast
  show ?case
  proof (rule ex1I [of _ "c # cs"])
    show "length (c # cs) = Suc i \<and> valid_draws (c # cs) \<and>
        fst (shuffle_from replay_draw (Suc i) xs (c # cs)) = ys"
      using c(1) cs shuffle_from_replay [of c cs xs] by (simp del: shuffle_from.simps)
  next
    fix es assume es: "length es = Suc i \<and> valid_draws es \<and> fst (shuffle_from replay_draw (Suc i) xs es) = ys"
    then obtain d ds where ds: "es = d # ds" "length ds = i" "d \<le> Suc i" "valid_draws ds"
      by (cases es) auto
    have eq: "fst (shuffle_from replay_draw i (swap_at (Suc i) d xs) ds) = ys"
      using es ds shuffle_from_replay [of d ds xs] by (simp del: shuffle_from.simps)
    then have "ys ! Suc i = swap_at (Suc i) d xs ! Suc i"
      using Suc.prems(2) replay.shuffle_from_keeps [of i "Suc i" "swap_at (Suc i) d xs" ds] by simp
    also have "\<dots> = xs ! d" using Suc.prems(2) ds(3) by (auto simp: swap_at_def nth_list_update)
    finally have "d = c" using c_only ds(3) by simp
    with only ds(2,4) eq have "ds = cs" by blast
    with \<open>d = c\<close> ds(1) show "es = c # cs" by simp
  qed
qed

subsection \<open>The trials of a schedule\<close>

definition trial_key :: "scheduled_trial \<Rightarrow> (string \<times> nat) \<times> session_mode" where
  "trial_key e = ((se_task e, se_repetition e), se_mode e)"

definition entry_wf :: "nat \<Rightarrow> scheduled_trial \<Rightarrow> bool" where
  "entry_wf seed e \<longleftrightarrow> e = schedule_entry seed (se_order e) (se_task e) (se_repetition e) (se_mode e)"

lemma schedule_entry_fields [simp]:
  "se_order (schedule_entry seed n task r m) = n" "se_task (schedule_entry seed n task r m) = task"
  "se_repetition (schedule_entry seed n task r m) = r" "se_mode (schedule_entry seed n task r m) = m"
  "se_trial (schedule_entry seed n task r m) = trial_id task r m"
  "se_attempts (schedule_entry seed n task r m) = attempt_ids (trial_id task r m)"
  "se_attempt (schedule_entry seed n task r m) = hd (attempt_ids (trial_id task r m))"
  "se_seed (schedule_entry seed n task r m) = seed"
  by (simp_all add: schedule_entry_def Let_def)

lemma schedule_triplets_Cons:
  "schedule_triplets random seed order ((task, r) # rest) s =
     map (\<lambda>(n, mode). schedule_entry seed n task r mode)
       (zip [order..<order + length (fst (shuffle random evaluation_modes s))]
         (fst (shuffle random evaluation_modes s)))
     @ schedule_triplets random seed (order + length (fst (shuffle random evaluation_modes s))) rest
         (snd (shuffle random evaluation_modes s))"
  by (simp add: split_def Let_def)

lemma map_zip_fst: "length xs = length ys \<Longrightarrow> map (\<lambda>p. f (fst p)) (zip xs ys) = map f xs"
  by (induction xs ys rule: list_induct2) auto

lemma map_zip_snd: "length xs = length ys \<Longrightarrow> map (\<lambda>p. f (snd p)) (zip xs ys) = map f ys"
  by (induction xs ys rule: list_induct2) auto

context random_source
begin

lemma triplets_order:
  "map se_order (schedule_triplets random seed order ts s) = [order..<order + 3 * length ts]"
proof (induction ts arbitrary: order s)
  case (Cons t ts)
  obtain task r where t: "t = (task, r)" by fastforce
  have three: "length evaluation_modes = 3" by (simp add: evaluation_modes_def)
  have "[order..<order + 3 * length (t # ts)] = [order..<order + 3] @ [order + 3..<order + 3 + 3 * length ts]"
    using upt_add_eq_append [of order "order + 3" "3 * length ts"] by (simp add: add.assoc)
  moreover have "map se_order (schedule_triplets random seed order (t # ts) s) =
      [order..<order + 3] @ [order + 3..<order + 3 + 3 * length ts]"
    unfolding t schedule_triplets_Cons map_append shuffle_length three Cons
    by (simp add: split_def comp_def map_zip_fst [where f = "\<lambda>x. x"] three del: upt_Suc)
  ultimately show ?case by simp
qed simp

lemma triplets_keys:
  "mset (map trial_key (schedule_triplets random seed order ts s)) =
     mset (concat (map (\<lambda>t. map (Pair t) evaluation_modes) ts))"
proof (induction ts arbitrary: order s)
  case (Cons t ts)
  obtain task r where t: "t = (task, r)" by fastforce
  let ?modes = "fst (shuffle random evaluation_modes s)"
  have "map trial_key (map (\<lambda>(n, mode). schedule_entry seed n task r mode)
      (zip [order..<order + length ?modes] ?modes)) = map (Pair t) ?modes"
    using map_zip_snd [of "[order..<order + length ?modes]" ?modes "Pair t"]
    by (simp add: t trial_key_def split_def comp_def)
  then have "mset (map trial_key (schedule_triplets random seed order (t # ts) s)) =
      image_mset (Pair t) (mset ?modes) + mset (concat (map (\<lambda>t. map (Pair t) evaluation_modes) ts))"
    by (simp add: t schedule_triplets_Cons Cons [unfolded mset_map] del: schedule_triplets.simps map_map)
  then show ?case by (simp add: shuffle_mset)
qed simp

lemma triplets_entry_wf:
  "e \<in> set (schedule_triplets random seed order ts s) \<Longrightarrow> entry_wf seed e"
proof (induction ts arbitrary: order s)
  case (Cons t ts)
  then show ?case
    by (cases t) (auto simp: schedule_triplets_Cons entry_wf_def simp del: schedule_triplets.simps)
qed simp

end

lemma mset_insert_entry: "mset (insert_entry le x xs) = add_mset x (mset xs)"
  by (induction xs) auto

lemma mset_sort_entries: "mset (sort_entries le xs) = mset xs"
  by (induction xs) (simp_all add: mset_insert_entry)

lemma mset_sort_strings: "mset (sort_strings xs) = mset xs"
proof -
  have "mset (sort_strings xs) = image_mset fst (mset (sort_entries code_unit_le (map (\<lambda>x. (x, ())) xs)))"
    by (simp add: sort_strings_def)
  also have "\<dots> = mset xs" by (simp add: mset_sort_entries multiset.map_comp comp_def)
  finally show ?thesis .
qed

lemma mset_concat_map: "mset xs = mset ys \<Longrightarrow> mset (concat (map f xs)) = mset (concat (map f ys))"
proof -
  have "mset (concat (map f zs)) = (\<Sum>z\<in>#mset zs. mset (f z))" for zs
    by (induction zs) auto
  then show "mset xs = mset ys \<Longrightarrow> ?thesis" by simp
qed

lemma mset_task_repetitions: "mset (task_repetitions tasks n) = mset (List.product tasks [0..<n])"
  unfolding task_repetitions_def product_concat_map by (intro mset_concat_map mset_sort_strings)

lemma schedule_keys:
  assumes "evaluation_schedule tasks seed reps = Inr sched"
  shows "mset (map trial_key sched) =
    mset (List.product (List.product tasks [0..<js_nat reps]) evaluation_modes)"
proof -
  obtain ts s where ts: "shuffle mulberry32 (task_repetitions tasks (js_nat reps)) (mulberry_seed seed) = (ts, s)"
    by fastforce
  with assms have sched: "sched = schedule_triplets mulberry32 seed 0 ts s"
    by (auto simp: evaluation_schedule_def)
  have "mset ts = mset (List.product tasks [0..<js_nat reps])"
    using mulberry.shuffle_mset [of "task_repetitions tasks (js_nat reps)" "mulberry_seed seed"]
    by (simp add: ts mset_task_repetitions)
  then show ?thesis
    unfolding sched mulberry.triplets_keys product_concat_map by (rule mset_concat_map)
qed

lemma schedule_entries:
  assumes "evaluation_schedule tasks seed reps = Inr sched"
  shows "map se_order sched = [0..<length sched]" "e \<in> set sched \<Longrightarrow> entry_wf seed e" "repetitions_ok reps"
proof -
  obtain ts s where "shuffle mulberry32 (task_repetitions tasks (js_nat reps)) (mulberry_seed seed) = (ts, s)"
    by fastforce
  with assms have sched: "sched = schedule_triplets mulberry32 seed 0 ts s"
    by (auto simp: evaluation_schedule_def)
  have "map se_order sched = [0..<3 * length ts]"
    using mulberry.triplets_order [of seed 0 ts s] by (simp add: sched)
  moreover from this have "length sched = 3 * length ts" by (metis length_map length_upt minus_nat.diff_0)
  ultimately show "map se_order sched = [0..<length sched]" by simp
  show "e \<in> set sched \<Longrightarrow> entry_wf seed e" unfolding sched by (rule mulberry.triplets_entry_wf)
  show "repetitions_ok reps" using assms by (auto simp: evaluation_schedule_def)
qed

lemma schedule_length:
  assumes "evaluation_schedule tasks seed reps = Inr sched"
  shows "length sched = length tasks * js_nat reps * 3"
  using arg_cong [OF schedule_keys [OF assms], of size]
  by (simp add: length_product evaluation_modes_def del: mset_map)

lemma schedule_keys_distinct:
  assumes "evaluation_schedule tasks seed reps = Inr sched" "distinct tasks"
  shows "distinct (map trial_key sched)"
proof -
  have "distinct (List.product (List.product tasks [0..<js_nat reps]) evaluation_modes)"
    using assms(2) by (intro distinct_product) (simp_all add: evaluation_modes_def)
  with schedule_keys [OF assms(1)] show ?thesis by (metis mset_eq_imp_distinct_iff)
qed

subsection \<open>Identities\<close>

lemma mode_suffix_inj:
  "a @ ''-'' @ mode_string m = b @ ''-'' @ mode_string n \<longleftrightarrow> a = b \<and> m = n"
proof -
  have "a @ ''-'' @ mode_string m = b @ ''-'' @ mode_string n \<longleftrightarrow>
      rev (a @ ''-'' @ mode_string m) = rev (b @ ''-'' @ mode_string n)"
    by (simp only: rev_is_rev_conv)
  then show ?thesis by (cases m; cases n) simp_all
qed

lemma numbered_inj:
  assumes "\<not> is_digit c"
  shows "a @ [c] @ nat_string m = b @ [c] @ nat_string n \<longleftrightarrow> a = b \<and> m = n"
proof -
  have digits: "list_all is_digit (rev (nat_string k))" for k using nat_string_digits by simp
  have "a @ [c] @ nat_string m = b @ [c] @ nat_string n \<longleftrightarrow>
      rev (a @ [c] @ nat_string m) = rev (b @ [c] @ nat_string n)"
    by (simp only: rev_is_rev_conv)
  also have "\<dots> \<longleftrightarrow> rev (nat_string m) @ c # rev a = rev (nat_string n) @ c # rev b"
    by (simp only: rev_append rev.simps append_Nil append_assoc append_Cons)
  also have "\<dots> \<longleftrightarrow> rev (nat_string m) = rev (nat_string n) \<and> c = c \<and> rev a = rev b"
    by (rule span_unique [OF digits digits assms assms])
  also have "\<dots> \<longleftrightarrow> a = b \<and> m = n" by (simp add: nat_string_inj conj_commute)
  finally show ?thesis .
qed

lemma trial_id_inj: "trial_id t r m = trial_id t' r' m' \<longleftrightarrow> t = t' \<and> r = r' \<and> m = m'"
proof -
  have "(t @ ''-'') @ [CHR ''r''] @ nat_string (r + 1) = (t' @ ''-'') @ [CHR ''r''] @ nat_string (r' + 1) \<longleftrightarrow>
      t @ ''-'' = t' @ ''-'' \<and> r + 1 = r' + 1"
    by (rule numbered_inj) (simp add: is_digit_def)
  moreover have "trial_id t r m = trial_id t' r' m' \<longleftrightarrow>
      (t @ ''-'') @ [CHR ''r''] @ nat_string (r + 1) = (t' @ ''-'') @ [CHR ''r''] @ nat_string (r' + 1) \<and> m = m'"
    unfolding trial_id_def using mode_suffix_inj [of "t @ ''-r'' @ nat_string (r + 1)" m
      "t' @ ''-r'' @ nat_string (r' + 1)" m'] by simp
  ultimately show ?thesis by simp
qed

lemma attempt_id_inj:
  "a @ ''-a'' @ nat_string (Suc i) = b @ ''-a'' @ nat_string (Suc j) \<longleftrightarrow> a = b \<and> i = j"
proof -
  have "\<not> is_digit CHR ''a''" by (simp add: is_digit_def)
  from numbered_inj [OF this, of "a @ ''-''" "Suc i" "b @ ''-''" "Suc j"] show ?thesis by simp
qed

lemma attempt_ids_distinct: "distinct (attempt_ids t)"
  unfolding attempt_ids_def using attempt_id_inj [of t _ t] by (auto simp: distinct_map inj_on_def)

lemma attempt_ids_disjoint: "x \<in> set (attempt_ids t) \<Longrightarrow> x \<in> set (attempt_ids u) \<Longrightarrow> t = u"
  unfolding attempt_ids_def using attempt_id_inj by auto

lemma attempt_ids_length [simp]: "length (attempt_ids t) = max_attempts_per_trial"
  by (simp add: attempt_ids_def)

lemma distinct_attempts:
  "distinct ts \<Longrightarrow> distinct (concat (map attempt_ids ts))"
  by (induction ts) (auto simp: attempt_ids_distinct dest: attempt_ids_disjoint)

lemma schedule_trials_distinct:
  assumes "evaluation_schedule tasks seed reps = Inr sched" "distinct tasks"
  shows "distinct (map se_trial sched)"
proof -
  have "map se_trial sched = map (\<lambda>((t, r), m). trial_id t r m) (map trial_key sched)"
    using schedule_entries(2) [OF assms(1)] unfolding entry_wf_def trial_key_def
    by (auto simp: split_def) (metis schedule_entry_fields(5))
  moreover have "inj (\<lambda>((t, r), m). trial_id t r m)"
    by (auto simp: inj_def trial_id_inj)
  moreover have "distinct (map f (map trial_key sched))" if "inj f" for f :: "_ \<Rightarrow> string"
    using schedule_keys_distinct [OF assms] that by (subst distinct_map) (blast intro: inj_on_subset)
  ultimately show ?thesis by (simp only:)
qed

lemma schedule_attempts:
  assumes "evaluation_schedule tasks seed reps = Inr sched"
  shows "map se_attempts sched = map attempt_ids (map se_trial sched)"
  using schedule_entries(2) [OF assms] unfolding entry_wf_def
  by (auto intro!: map_cong) (metis schedule_entry_fields(5,6))

subsection \<open>Properties\<close>

lemma all_task_ids_distinct: "distinct all_task_ids"
  unfolding all_task_ids_def core_dev_def core_heldout_def harness_dev_def harness_heldout_def by simp

lemma corpus_task_ids [simp]: "cp_id (corpus_task_of t) = t"
  by (simp add: corpus_task_of_def)

lemma corpus_dev_size:
  "name \<in> {''core'', ''harness'', ''combined''} \<Longrightarrow> corpus_tasks name SuiteDev = Inr dev \<Longrightarrow> 3 \<le> length dev"
proof -
  have "case corpus_tasks n SuiteDev of Inl _ \<Rightarrow> False | Inr dev \<Rightarrow> 3 \<le> length dev"
    if "n \<in> set [''core'', ''harness'', ''combined'']" for n
    using that by simp (elim disjE; hypsubst; code_simp)
  from this [of name] show "name \<in> {''core'', ''harness'', ''combined''} \<Longrightarrow>
      corpus_tasks name SuiteDev = Inr dev \<Longrightarrow> ?thesis" by simp
qed

text \<open>In every corpus the tasks of development and the held-out tasks are disjoint and together are
  all tasks of the corpus, each once; the smoke suite is the first three development tasks, and
  there are at least three.\<close>

theorem corpus_partition:
  assumes "corpus_tasks name SuiteFull = Inr full"
  shows "\<exists>dev held. corpus_tasks name SuiteDev = Inr dev \<and> corpus_tasks name SuiteHeldout = Inr held \<and>
    corpus_tasks name SuiteSmoke = Inr (take 3 dev) \<and> 3 \<le> length dev \<and> distinct full \<and>
    set dev \<inter> set held = {} \<and> mset full = mset dev + mset held"
proof -
  obtain c where c: "corpus_definition name = Inr c" and full: "full = map cp_id (cd_tasks c)"
    using assms by (auto simp: corpus_tasks_def Let_def)
  let ?dev = "filter (\<lambda>t. cp_split t = SplitDev) (cd_tasks c)"
  let ?held = "filter (\<lambda>t. cp_split t = SplitHeldout) (cd_tasks c)"
  have dev: "corpus_tasks name SuiteDev = Inr (map cp_id ?dev)"
    and held: "corpus_tasks name SuiteHeldout = Inr (map cp_id ?held)"
    and smoke: "corpus_tasks name SuiteSmoke = Inr (take 3 (map cp_id ?dev))"
    by (simp_all add: corpus_tasks_def c Let_def take_map)
  have name: "name \<in> {''core'', ''harness'', ''combined''}"
    using c unfolding corpus_definition_def guard_Inr by blast
  have "distinct full"
    using c all_task_ids_distinct unfolding full corpus_definition_def guard_Inr
    by (auto simp: comp_def)
  moreover have part: "mset full = mset (map cp_id ?dev) + mset (map cp_id ?held)"
  proof -
    have "?held = filter (\<lambda>t. cp_split t \<noteq> SplitDev) (cd_tasks c)"
      by (rule filter_cong) (auto intro: corpus_split.exhaust)
    then show ?thesis
      unfolding full by (simp flip: image_mset_union multiset_partition)
  qed
  ultimately have "set (map cp_id ?dev) \<inter> set (map cp_id ?held) = {}"
    by (metis distinct_append mset_append mset_eq_imp_distinct_iff)
  with \<open>distinct full\<close> part dev held smoke corpus_dev_size [OF name dev] show ?thesis by blast
qed

theorem corpus_partition_witness:
  "\<exists>full dev held. corpus_tasks ''harness'' SuiteFull = Inr full \<and>
    corpus_tasks ''harness'' SuiteDev = Inr dev \<and> corpus_tasks ''harness'' SuiteHeldout = Inr held \<and>
    set dev \<inter> set held = {} \<and> mset full = mset dev + mset held"
proof -
  obtain full where full: "corpus_tasks ''harness'' SuiteFull = Inr full"
    by (simp add: corpus_tasks_def corpus_definition_def Let_def)
  from corpus_partition [OF this] show ?thesis using full by blast
qed

text \<open>The schedule tries every task in every mode in every repetition exactly once, numbers the trials
  in order from 0, and gives every trial and every one of the sixteen attempts of every trial an
  identity of its own, the first being the attempt of the trial.\<close>

theorem schedule_complete:
  assumes "evaluation_schedule tasks seed reps = Inr sched" and "distinct tasks"
  shows "length sched = length tasks * js_nat reps * 3 \<and>
    map se_order sched = [0..<length sched] \<and>
    mset (map trial_key sched) = mset (List.product (List.product tasks [0..<js_nat reps]) evaluation_modes) \<and>
    distinct (map se_trial sched) \<and> distinct (concat (map se_attempts sched)) \<and>
    (\<forall>e \<in> set sched. length (se_attempts e) = 16 \<and> se_attempt e = hd (se_attempts e) \<and> se_seed e = seed)"
proof -
  have "se_attempts e = attempt_ids (se_trial e) \<and> se_attempt e = hd (se_attempts e) \<and> se_seed e = seed"
    if "e \<in> set sched" for e
    using schedule_entries(2) [OF assms(1) that] unfolding entry_wf_def by (metis schedule_entry_fields(5,6,7,8))
  moreover have "distinct (concat (map se_attempts sched))"
    using distinct_attempts [OF schedule_trials_distinct [OF assms]] by (simp only: schedule_attempts [OF assms(1)])
  ultimately show ?thesis
    using schedule_length [OF assms(1)] schedule_entries(1) [OF assms(1)] schedule_keys [OF assms(1)]
      schedule_trials_distinct [OF assms] by (simp add: max_attempts_per_trial_def)
qed

lemma example_schedule: "\<exists>sched. evaluation_schedule [''b'', ''a''] 7 (Fin 2) = Inr sched"
  by (simp add: evaluation_schedule_def repetitions_ok_def split_def Let_def)

theorem schedule_complete_witness:
  "\<exists>sched. evaluation_schedule [''b'', ''a''] 7 (Fin 2) = Inr sched \<and> length sched = 12 \<and>
    distinct (concat (map se_attempts sched))"
proof -
  obtain sched where sched: "evaluation_schedule [''b'', ''a''] 7 (Fin 2) = Inr sched"
    using example_schedule by blast
  have "length sched = length [''b'', ''a''] * js_nat (Fin 2) * 3 \<and> distinct (concat (map se_attempts sched))"
    using schedule_complete [OF sched] by simp
  with sched show ?thesis by auto
qed

text \<open>The schedule is reproducible: it depends on the seed and the set of tasks only, not on the order
  in which the tasks are given, and it is refused exactly when the number of repetitions is not an
  integer from 1 to 100.\<close>

theorem schedule_reproducible:
  assumes "distinct tasks" "distinct tasks'" "set tasks = set tasks'"
  shows "evaluation_schedule tasks seed reps = evaluation_schedule tasks' seed reps \<and>
    (evaluation_schedule tasks seed reps = Inl e \<longleftrightarrow> e = BadRepetitions \<and>
      \<not> (\<exists>n :: nat. reps = Fin (real n) \<and> 1 \<le> n \<and> n \<le> 100))"
proof -
  have "repetitions_ok reps \<longleftrightarrow> (\<exists>n :: nat. reps = Fin (real n) \<and> 1 \<le> n \<and> n \<le> 100)"
  proof (cases reps)
    case (Fin r)
    have "r = real (nat \<lfloor>r\<rfloor>)" if "of_int \<lfloor>r\<rfloor> = r" "1 \<le> r" using that by linarith
    with Fin show ?thesis by (fastforce simp: repetitions_ok_def not_less)
  qed (simp_all add: repetitions_ok_def)
  moreover have "task_repetitions tasks n = task_repetitions tasks' n" for n
    unfolding task_repetitions_def using sort_strings_unique [OF assms] by simp
  ultimately show ?thesis by (auto simp: evaluation_schedule_def split_def Let_def)
qed

theorem schedule_reproducible_witness:
  "evaluation_schedule [''b'', ''a''] 7 (Fin 2) = evaluation_schedule [''a'', ''b''] 7 (Fin 2)"
  using schedule_reproducible [of "[''b'', ''a'']" "[''a'', ''b'']"] by auto

text \<open>C36: The shuffle is unbiased: it only permutes, for any source of draws in \<open>[0, 1)\<close>, and for a list
  without repetitions every permutation comes from exactly one sequence of drawn indices.\<close>

theorem shuffle_unbiased:
  assumes "distinct xs" "mset ys = mset xs"
  shows "mset (fst (shuffle mulberry32 xs s)) = mset xs \<and>
    (\<exists>!cs. length cs = length xs - 1 \<and> valid_draws cs \<and> fst (shuffle replay_draw xs cs) = ys)"
proof (cases "xs = []")
  case True
  with assms(2) show ?thesis by (auto simp: shuffle_def intro!: ex1I [of _ "[]"])
next
  case False
  then have "\<exists>!cs. length cs = length xs - 1 \<and> valid_draws cs \<and>
      fst (shuffle_from replay_draw (length xs - 1) xs cs) = ys"
    using assms by (intro unique_draws) simp_all
  then show ?thesis by (simp only: shuffle_def mulberry.shuffle_mset simp_thms)
      (simp only: mulberry.shuffle_mset [unfolded shuffle_def] simp_thms)
qed

theorem shuffle_unbiased_witness:
  "\<exists>!cs. length cs = 2 \<and> valid_draws cs \<and> fst (shuffle replay_draw [1, 2, 3 :: nat] cs) = [3, 1, 2]"
  using shuffle_unbiased [of "[1, 2, 3 :: nat]" "[3, 1, 2]"] by (simp add: numeral_2_eq_2)

end
