(* ===== verification/Task_Definition.thy ===== *)
theory Task_Definition
  imports Json_Schema
begin

section \<open>Task definitions (src/evaluation/task.ts)\<close>

text \<open>
  The definition of an evaluation task, its schema and its checks, relative paths that cannot leave
  their root, and the hash of a directory. A directory is a tree whose entries are in the order
  \<open>readdir\<close> gives them; SHA-256 is a parameter, a string stands for the bytes of a file. A strict
  comparison of names with \<open><\<close> is the order of code units.
\<close>

subsection \<open>Paths\<close>

fun split_on :: "char \<Rightarrow> string \<Rightarrow> string list" where
  "split_on c [] = [[]]"
| "split_on c (x # xs) =
     (if x = c then [] # split_on c xs
      else (case split_on c xs of [] \<Rightarrow> [[x]] | seg # segs \<Rightarrow> (x # seg) # segs))"

definition path_segments :: "string \<Rightarrow> string list" where
  "path_segments = split_on CHR ''/''"

text \<open>The characters that are refused: the backslash, NUL, line feed and carriage return.\<close>

definition unsafe_char :: "char \<Rightarrow> bool" where
  "unsafe_char c \<longleftrightarrow> (of_char c :: nat) \<in> {92, 0, 10, 13}"

definition unsafe_segment :: "string \<Rightarrow> bool" where
  "unsafe_segment s \<longleftrightarrow> s = [] \<or> s = ''.'' \<or> s = ''..''"

definition safe_relative_path :: "string \<Rightarrow> bool" where
  "safe_relative_path path \<longleftrightarrow>
     \<not> (path = [] \<or> hd path = CHR ''/'' \<or> list_ex unsafe_char path \<or> list_ex unsafe_segment (path_segments path))"

text \<open>
  The pattern of the schema, \<open>^(?!/)(?!.*(?:^|/)\.\.(?:/|$))(?!.*\\)[^\u0000]+$\<close>: the two lookaheads
  stop at the end of the first line, since a dot does not match a line terminator.
\<close>

definition first_line :: "string \<Rightarrow> string" where
  "first_line s = takeWhile (\<lambda>c. (of_char c :: nat) \<notin> {10, 13}) s"

definition relative_path_pattern :: "string \<Rightarrow> bool" where
  "relative_path_pattern s \<longleftrightarrow>
     s \<noteq> [] \<and> hd s \<noteq> CHR ''/'' \<and> \<not> list_ex (\<lambda>c. (of_char c :: nat) = 0) s \<and>
     \<not> list_ex (\<lambda>c. (of_char c :: nat) = 92) (first_line s) \<and>
     ''..'' \<notin> set (butlast (path_segments (first_line s))) \<and>
     (first_line s = s \<longrightarrow> last (path_segments s) \<noteq> ''..'')"

subsection \<open>The definition of a task\<close>

record task_file =
  tf_path :: string
  tf_sha :: string

record task_check =
  tk_name :: string
  tk_argv :: "string list"

datatype task_split = TaskDev | TaskHeldout

record task_definition =
  td_id :: string
  td_split :: task_split
  td_prompt :: string
  td_directory :: string
  td_fixture_hash :: string
  td_files :: "task_file list"
  td_setup :: "string list"
  td_checks :: "task_check list"
  td_reference :: string
  td_validator_hash :: string
  td_editable :: "string list"
  td_extensions :: "string list"
  td_protected :: "string list"
  td_validation_timeout :: nat
  td_max_file_bytes :: nat

datatype task_error =
    TaskSchemaInvalid
  | UnsafePath
  | DuplicateFixturePath
  | FixtureHashMismatch
  | InvalidTaskId
  | TaskUnreadable
  | TaskIdMismatch
  | FixtureChanged
  | ValidatorChanged
  | SymlinkForbidden string
  | NonRegularContent string

definition task_hash_string :: schema where
  "task_hash_string = Schema [KType [TString], KPattern is_hash]"

definition slug_string :: schema where
  "slug_string = Schema [KType [TString], KPattern is_task_id]"

definition path_string :: schema where
  "path_string = Schema [KType [TString], KPattern relative_path_pattern]"

definition task_text :: schema where
  "task_text = Schema [KType [TString], KMinLength 1]"

definition argv_schema :: schema where
  "argv_schema = Schema [KType [TArray], KMinItems 1, KItems task_text]"

text \<open>\<open>^\.[a-z0-9]+$\<close>.\<close>

definition is_extension :: "string \<Rightarrow> bool" where
  "is_extension s \<longleftrightarrow> (case s of c # d # rest \<Rightarrow> c = CHR ''.'' \<and>
     list_all (\<lambda>x. is_lower x \<or> is_digit x) (d # rest) | _ \<Rightarrow> False)"

definition task_files_schema :: schema where
  "task_files_schema = Schema
     [KType [TArray], KMinItems 1,
      KItems (Schema
        [KType [TObject], KRequired [''path'', ''sha256''],
         KClosed [(''path'', path_string), (''sha256'', task_hash_string)]])]"

definition fixture_schema :: schema where
  "fixture_schema = Schema
     [KType [TObject], KRequired [''directory'', ''hash'', ''files''],
      KClosed [(''directory'', path_string), (''hash'', task_hash_string), (''files'', task_files_schema)]]"

definition public_checks_schema :: schema where
  "public_checks_schema = Schema
     [KType [TArray], KMinItems 1,
      KItems (Schema
        [KType [TObject], KRequired [''name'', ''argv''],
         KClosed [(''name'', slug_string), (''argv'', argv_schema)]])]"

definition unique_strings :: "schema \<Rightarrow> schema" where
  "unique_strings s = Schema [KType [TArray], KMinItems 1, KUniqueItems, KItems s]"

definition task_limits_schema :: schema where
  "task_limits_schema = Schema
     [KType [TObject], KRequired [''validationTimeoutSeconds'', ''maxFileBytes''],
      KClosed
        [(''validationTimeoutSeconds'', Schema [KType [TInteger], KMinimum 1, KMaximum 300]),
         (''maxFileBytes'', Schema [KType [TInteger], KMinimum 1, KMaximum 1048576])]]"

definition task_definition_schema :: schema where
  "task_definition_schema = Schema
     [KType [TObject],
      KRequired [''schemaVersion'', ''id'', ''split'', ''publicPrompt'', ''fixture'', ''setupArgv'',
        ''publicChecks'', ''evaluatorReferenceId'', ''validatorHash'', ''editableDirectories'',
        ''allowedNewFileExtensions'', ''protectedPaths'', ''limits''],
      KClosed
        [(''schemaVersion'', Schema [KConst (JNum 1)]),
         (''id'', slug_string),
         (''split'', Schema [KEnum [JStr ''dev'', JStr ''heldout'']]),
         (''publicPrompt'', task_text),
         (''fixture'', fixture_schema),
         (''setupArgv'', argv_schema),
         (''publicChecks'', public_checks_schema),
         (''evaluatorReferenceId'', slug_string),
         (''validatorHash'', task_hash_string),
         (''editableDirectories'', unique_strings path_string),
         (''allowedNewFileExtensions'', unique_strings (Schema [KType [TString], KPattern is_extension])),
         (''protectedPaths'', unique_strings path_string),
         (''limits'', task_limits_schema)]]"

subsection \<open>Reading the JSON of a task\<close>

fun json_items :: "json \<Rightarrow> json list" where
  "json_items (JArr xs) = xs"
| "json_items _ = []"

definition json_strs :: "json \<Rightarrow> string list" where
  "json_strs j = map json_str (json_items j)"

definition decode_task_file :: "json \<Rightarrow> task_file" where
  "decode_task_file j = \<lparr>tf_path = json_str (json_get ''path'' j), tf_sha = json_str (json_get ''sha256'' j)\<rparr>"

definition decode_task_check :: "json \<Rightarrow> task_check" where
  "decode_task_check j = \<lparr>tk_name = json_str (json_get ''name'' j), tk_argv = json_strs (json_get ''argv'' j)\<rparr>"

definition decode_task :: "json \<Rightarrow> task_definition" where
  "decode_task j =
     (let fixture = json_get ''fixture'' j; limits = json_get ''limits'' j
      in \<lparr>td_id = json_str (json_get ''id'' j),
          td_split = (if json_get ''split'' j = JStr ''dev'' then TaskDev else TaskHeldout),
          td_prompt = json_str (json_get ''publicPrompt'' j),
          td_directory = json_str (json_get ''directory'' fixture),
          td_fixture_hash = json_str (json_get ''hash'' fixture),
          td_files = map decode_task_file (json_items (json_get ''files'' fixture)),
          td_setup = json_strs (json_get ''setupArgv'' j),
          td_checks = map decode_task_check (json_items (json_get ''publicChecks'' j)),
          td_reference = json_str (json_get ''evaluatorReferenceId'' j),
          td_validator_hash = json_str (json_get ''validatorHash'' j),
          td_editable = json_strs (json_get ''editableDirectories'' j),
          td_extensions = json_strs (json_get ''allowedNewFileExtensions'' j),
          td_protected = json_strs (json_get ''protectedPaths'' j),
          td_validation_timeout = json_nat (json_get ''validationTimeoutSeconds'' limits),
          td_max_file_bytes = json_nat (json_get ''maxFileBytes'' limits)\<rparr>)"

definition assert_safe_relative_path :: "string \<Rightarrow> task_error + string" where
  "assert_safe_relative_path path = (if safe_relative_path path then Inr path else Inl UnsafePath)"

subsection \<open>Hashes\<close>

text \<open>The files in the order of their paths, each as its path, NUL, its hash, NUL.\<close>

definition nul :: char where
  "nul = CHR 0x00"

definition file_lines :: "(string \<times> string) list \<Rightarrow> string" where
  "file_lines fs = concat (map (\<lambda>(path, h). path @ [nul] @ h @ [nul]) fs)"

definition file_entries :: "task_file list \<Rightarrow> (string \<times> string) list" where
  "file_entries files = sort_entries code_unit_le (map (\<lambda>f. (tf_path f, tf_sha f)) files)"

definition fixture_manifest_hash :: "(string \<Rightarrow> string) \<Rightarrow> task_file list \<Rightarrow> string" where
  "fixture_manifest_hash sha files = sha (file_lines (file_entries files))"

datatype fs_entry =
    FsFile string
  | FsDir "(string \<times> fs_entry) list"
  | FsLink
  | FsOther

text \<open>The results of the entries, visited in the order of their names, stop at the first error.\<close>

fun first_error :: "(string \<times> ('e + 'a list)) list \<Rightarrow> 'e + 'a list" where
  "first_error [] = Inr []"
| "first_error ((_, r) # rest) =
     bind_result r (\<lambda>files. bind_result (first_error rest) (\<lambda>more. Inr (files @ more)))"

fun walk_entry :: "(string \<Rightarrow> string) \<Rightarrow> string \<Rightarrow> fs_entry \<Rightarrow> task_error + task_file list"
and walk_entries :: "(string \<Rightarrow> string) \<Rightarrow> string \<Rightarrow> (string \<times> fs_entry) list
    \<Rightarrow> (string \<times> (task_error + task_file list)) list" where
  "walk_entry sha path (FsFile content) = Inr [\<lparr>tf_path = path, tf_sha = sha content\<rparr>]"
| "walk_entry sha path (FsDir entries) =
     first_error (sort_entries code_unit_le (walk_entries sha path entries))"
| "walk_entry sha path FsLink = Inl (SymlinkForbidden path)"
| "walk_entry sha path FsOther = Inl (NonRegularContent path)"
| "walk_entries sha dir [] = []"
| "walk_entries sha dir ((name, entry) # rest) =
     (let path = (if dir = [] then name else dir @ ''/'' @ name)
      in (name, bind_result (assert_safe_relative_path path) (\<lambda>p. walk_entry sha p entry)))
     # walk_entries sha dir rest"

text \<open>\<open>hashDirectory\<close> of a root that is a directory with the given entries.\<close>

definition hash_directory :: "(string \<Rightarrow> string) \<Rightarrow> (string \<times> fs_entry) list
    \<Rightarrow> task_error + string \<times> task_file list" where
  "hash_directory sha entries =
     bind_result (walk_entry sha [] (FsDir entries)) (\<lambda>files. Inr (fixture_manifest_hash sha files, files))"

subsection \<open>Validation and loading\<close>

definition validate_task_definition :: "(schema \<Rightarrow> json \<Rightarrow> bool) \<Rightarrow> (string \<Rightarrow> string) \<Rightarrow> json
    \<Rightarrow> task_error + task_definition" where
  "validate_task_definition ajv sha value =
     (if \<not> ajv task_definition_schema value then Inl TaskSchemaInvalid
      else
        let task = decode_task value
        in bind_result (map_result assert_safe_relative_path (map tf_path (td_files task))) (\<lambda>paths.
             if length (new_set paths) \<noteq> length paths then Inl DuplicateFixturePath
             else
               bind_result (map_result assert_safe_relative_path (td_editable task)) (\<lambda>_.
               bind_result (map_result assert_safe_relative_path (td_protected task)) (\<lambda>_.
                 if td_fixture_hash task \<noteq> fixture_manifest_hash sha (td_files task)
                 then Inl FixtureHashMismatch else Inr task))))"

record loaded_task =
  lt_definition :: task_definition
  lt_hash :: string
  lt_fixture_root :: string
  lt_evaluator :: string

text \<open>
  What is read from the three roots: the text of the task and what parsing it gives, and the directory
  behind a path below a root, \<open>None\<close> where there is none.
\<close>

record evaluation_roots =
  er_task :: "string \<Rightarrow> (string \<times> json) option"
  er_fixture :: "string \<Rightarrow> (string \<times> fs_entry) list option"
  er_evaluator :: "string \<Rightarrow> (string \<times> fs_entry) list option"

definition load_task_definition :: "(schema \<Rightarrow> json \<Rightarrow> bool) \<Rightarrow> (string \<Rightarrow> string) \<Rightarrow> string
    \<Rightarrow> evaluation_roots \<Rightarrow> task_error + loaded_task" where
  "load_task_definition ajv sha task roots =
     (if \<not> is_task_id task then Inl InvalidTaskId
      else case er_task roots task of
        None \<Rightarrow> Inl TaskUnreadable
      | Some (source, parsed) \<Rightarrow>
          bind_result (validate_task_definition ajv sha parsed) (\<lambda>definition.
          if td_id definition \<noteq> task then Inl TaskIdMismatch
          else
            bind_result (assert_safe_relative_path (td_directory definition)) (\<lambda>directory.
            case er_fixture roots directory of
              None \<Rightarrow> Inl TaskUnreadable
            | Some fixture \<Rightarrow>
                bind_result (hash_directory sha fixture) (\<lambda>(fixture_hash, files).
                if fixture_hash \<noteq> td_fixture_hash definition \<or> files \<noteq> td_files definition
                then Inl FixtureChanged
                else
                  bind_result (assert_safe_relative_path (td_reference definition)) (\<lambda>reference.
                  case er_evaluator roots reference of
                    None \<Rightarrow> Inl TaskUnreadable
                  | Some evaluator \<Rightarrow>
                      bind_result (hash_directory sha evaluator) (\<lambda>(validator_hash, _).
                      if validator_hash \<noteq> td_validator_hash definition then Inl ValidatorChanged
                      else Inr \<lparr>lt_definition = definition, lt_hash = sha source,
                             lt_fixture_root = directory, lt_evaluator = reference\<rparr>))))))"

subsection \<open>Paths stay below their root\<close>

text \<open>
  \<open>path.join\<close> of an absolute root and a relative path, on segments: empty segments and \<open>.\<close> vanish,
  \<open>..\<close> removes the segment before it.
\<close>

definition resolve_segment :: "string list \<Rightarrow> string \<Rightarrow> string list" where
  "resolve_segment acc seg =
     (if seg = [] \<or> seg = ''.'' then acc else if seg = ''..'' then butlast acc else acc @ [seg])"

definition join_path :: "string list \<Rightarrow> string \<Rightarrow> string list" where
  "join_path base path = foldl resolve_segment base (path_segments path)"

lemma split_on_nonempty [simp]: "split_on c s \<noteq> []"
  by (induction s) (auto split: list.splits)

fun join_segments :: "string list \<Rightarrow> string" where
  "join_segments [] = []"
| "join_segments [seg] = seg"
| "join_segments (seg # segs) = seg @ ''/'' @ join_segments segs"

lemma join_split: "join_segments (path_segments s) = s"
  unfolding path_segments_def
proof (induction s)
  case (Cons x xs)
  show ?case
  proof (cases "split_on CHR ''/'' xs")
    case (Cons a list)
    with \<open>join_segments (split_on CHR ''/'' xs) = xs\<close> show ?thesis by (cases list) auto
  qed simp
qed simp

lemma resolve_safe:
  "\<not> list_ex unsafe_segment segs \<Longrightarrow> foldl resolve_segment base segs = base @ segs"
  by (induction segs arbitrary: base) (auto simp: resolve_segment_def unsafe_segment_def)

lemma safe_path_join: "safe_relative_path p \<Longrightarrow> join_path base p = base @ path_segments p"
  by (simp add: join_path_def resolve_safe safe_relative_path_def)

lemma assert_safe_Inr [simp]: "assert_safe_relative_path p = Inr q \<longleftrightarrow> safe_relative_path p \<and> q = p"
  by (auto simp: assert_safe_relative_path_def)

lemma map_assert_safe:
  "map_result assert_safe_relative_path ps = Inr qs \<longleftrightarrow> qs = ps \<and> (\<forall>p \<in> set ps. safe_relative_path p)"
  by (induction ps arbitrary: qs) (auto simp: assert_safe_relative_path_def split: sum.splits)

subsection \<open>The manifest of a fixture determines its files\<close>

definition nul_free :: "string \<Rightarrow> bool" where
  "nul_free s \<longleftrightarrow> list_all (\<lambda>c. c \<noteq> nul) s"

lemma file_lines_inj:
  assumes "\<forall>f \<in> set fs \<union> set gs. nul_free (fst f) \<and> nul_free (snd f)"
  shows "file_lines fs = file_lines gs \<Longrightarrow> fs = gs"
  using assms
proof (induction fs arbitrary: gs)
  case Nil
  then show ?case by (cases gs) (auto simp: file_lines_def)
next
  case (Cons f fs)
  then obtain g gs' where gs: "gs = g # gs'" by (cases gs) (auto simp: file_lines_def split: prod.splits)
  have "fst f @ nul # (snd f @ nul # file_lines fs) = fst g @ nul # (snd g @ nul # file_lines gs')"
    using Cons.prems(1) by (simp add: gs file_lines_def split_def)
  then have head: "fst f = fst g" and rest: "snd f @ nul # file_lines fs = snd g @ nul # file_lines gs'"
    using Cons.prems(2) span_unique [of "\<lambda>c. c \<noteq> nul" "fst f" "fst g" nul nul] by (simp_all add: gs nul_free_def)
  from rest have "snd f = snd g" "file_lines fs = file_lines gs'"
    using Cons.prems(2) span_unique [of "\<lambda>c. c \<noteq> nul" "snd f" "snd g" nul nul] by (simp_all add: gs nul_free_def)
  with head Cons.IH [of gs'] Cons.prems(2) show ?case by (simp add: gs prod_eq_iff)
qed

lemma nul_code: "of_char nul = (0 :: nat)"
  by (simp add: nul_def)

lemma safe_nul_free: "safe_relative_path p \<Longrightarrow> nul_free p"
  unfolding safe_relative_path_def nul_free_def list_all_iff list_ex_iff
  by (metis insertCI nul_code unsafe_char_def)

lemma hash_nul_free: "is_hash h \<Longrightarrow> nul_free h"
proof -
  have "\<not> is_lower_hex nul" by (simp add: is_lower_hex_def nul_def)
  then show "is_hash h \<Longrightarrow> nul_free h"
    unfolding is_hash_def nul_free_def by (auto simp: list_all_iff)
qed

lemma set_file_entries: "set (file_entries files) = (\<lambda>f. (tf_path f, tf_sha f)) ` set files"
proof -
  have "set (sort_entries le xs) = set xs" for le and xs :: "(string \<times> string) list"
    by (induction xs) auto
  then show ?thesis by (simp add: file_entries_def)
qed

lemma manifest_hash_sound:
  assumes "\<forall>f \<in> set fs \<union> set gs. safe_relative_path (tf_path f) \<and> is_hash (tf_sha f)"
    and "fixture_manifest_hash sha fs = fixture_manifest_hash sha gs"
    and "sha (file_lines (file_entries fs)) = sha (file_lines (file_entries gs)) \<Longrightarrow>
      file_lines (file_entries fs) = file_lines (file_entries gs)"
  shows "set fs = set gs"
proof -
  have lines: "file_lines (file_entries fs) = file_lines (file_entries gs)"
    using assms(2,3) by (simp add: fixture_manifest_hash_def)
  have "\<forall>f \<in> set (file_entries fs) \<union> set (file_entries gs). nul_free (fst f) \<and> nul_free (snd f)"
    using assms(1) by (auto simp: set_file_entries safe_nul_free hash_nul_free)
  from file_lines_inj [OF this lines] have "file_entries fs = file_entries gs" .
  then have "(\<lambda>f. (tf_path f, tf_sha f)) ` set fs = (\<lambda>f. (tf_path f, tf_sha f)) ` set gs"
    using set_file_entries by metis
  moreover have "inj (\<lambda>f :: task_file. (tf_path f, tf_sha f))" by (rule injI, rule task_file.equality) simp_all
  ultimately show ?thesis by (simp add: inj_image_eq_iff)
qed

subsection \<open>What hashing a directory sees\<close>

text \<open>The files below an entry with their paths, and that every name is safe and nothing else is there.\<close>

definition child_path :: "string \<Rightarrow> string \<Rightarrow> string" where
  "child_path dir name = (if dir = [] then name else dir @ ''/'' @ name)"

fun tree_files :: "string \<Rightarrow> fs_entry \<Rightarrow> (string \<times> string) list"
and dir_files :: "string \<Rightarrow> (string \<times> fs_entry) list \<Rightarrow> (string \<times> string) list" where
  "tree_files path (FsFile content) = [(path, content)]"
| "tree_files path (FsDir entries) = dir_files path entries"
| "tree_files path FsLink = []"
| "tree_files path FsOther = []"
| "dir_files dir [] = []"
| "dir_files dir ((name, entry) # rest) = tree_files (child_path dir name) entry @ dir_files dir rest"

fun tree_plain :: "string \<Rightarrow> fs_entry \<Rightarrow> bool"
and dir_plain :: "string \<Rightarrow> (string \<times> fs_entry) list \<Rightarrow> bool" where
  "tree_plain path (FsFile content) = True"
| "tree_plain path (FsDir entries) = dir_plain path entries"
| "tree_plain path FsLink = False"
| "tree_plain path FsOther = False"
| "dir_plain dir [] = True"
| "dir_plain dir ((name, entry) # rest) =
     (safe_relative_path (child_path dir name) \<and> tree_plain (child_path dir name) entry \<and> dir_plain dir rest)"

definition hashed :: "(string \<Rightarrow> string) \<Rightarrow> string \<times> string \<Rightarrow> task_file" where
  "hashed sha pc = \<lparr>tf_path = fst pc, tf_sha = sha (snd pc)\<rparr>"

lemma first_error_Inr:
  "(\<exists>files. first_error rs = Inr files \<and> set files = S) \<longleftrightarrow>
     (\<forall>x \<in> set rs. \<exists>fs. snd x = Inr fs) \<and> S = (\<Union>x \<in> set rs. set (projr (snd x)))"
proof (induction rs arbitrary: S)
  case (Cons r rs)
  obtain n v where r: "r = (n, v)" by fastforce
  show ?case
  proof (cases v)
    case (Inr fs)
    have "(\<exists>files. first_error (r # rs) = Inr files \<and> set files = S) \<longleftrightarrow>
        (\<exists>T. (\<exists>more. first_error rs = Inr more \<and> set more = T) \<and> S = set fs \<union> T)"
      by (auto simp: r Inr)
    also have "\<dots> \<longleftrightarrow> (\<forall>x \<in> set (r # rs). \<exists>fs. snd x = Inr fs) \<and> S = (\<Union>x \<in> set (r # rs). set (projr (snd x)))"
      unfolding Cons.IH by (auto simp: r Inr)
    finally show ?thesis .
  qed (simp add: r)
qed auto

lemma set_sort_entries_any: "set (sort_entries le xs) = set xs"
  by (induction xs) auto

lemma walk_sound:
  "(\<exists>files. walk_entry sha path e = Inr files \<and> set files = S) \<longleftrightarrow>
     tree_plain path e \<and> S = hashed sha ` set (tree_files path e)"
  "(\<forall>x \<in> set (walk_entries sha dir es). \<exists>fs. snd x = Inr fs) \<and>
     T = (\<Union>x \<in> set (walk_entries sha dir es). set (projr (snd x))) \<longleftrightarrow>
   dir_plain dir es \<and> T = hashed sha ` set (dir_files dir es)"
proof (induction sha path e and sha dir es arbitrary: S and T rule: walk_entry_walk_entries.induct)
  case (2 sha path entries)
  show ?case unfolding walk_entry.simps first_error_Inr set_sort_entries_any 2 by simp
next
  case (6 sha dir name entry rest)
  let ?p = "child_path dir name"
  have p: "(if dir = [] then name else dir @ ''/'' @ name) = ?p" by (simp add: child_path_def)
  let ?W = "walk_entry sha ?p entry"
  define U where "U = (\<Union>x \<in> set (walk_entries sha dir rest). set (projr (snd x)))"
  define ok where "ok \<longleftrightarrow> (\<forall>x \<in> set (walk_entries sha dir rest). \<exists>fs. snd x = Inr fs)"
  define H where "H = hashed sha ` set (dir_files dir rest)"
  have "ok \<and> Q = U \<longleftrightarrow> dir_plain dir rest \<and> Q = H" for Q
    unfolding ok_def U_def H_def by (rule 6(2))
  then have rest: "ok = dir_plain dir rest" "dir_plain dir rest \<Longrightarrow> U = H" by metis+
  have entry: "(\<exists>files. ?W = Inr files \<and> set files = S) \<longleftrightarrow>
      tree_plain ?p entry \<and> S = hashed sha ` set (tree_files ?p entry)" for S
    using 6(1) [OF p [symmetric]] by simp
  show ?case
  proof (cases ?W)
    case (Inl e)
    with entry [of "hashed sha ` set (tree_files ?p entry)"] have "\<not> tree_plain ?p entry" by simp
    with Inl show ?thesis by (simp add: p Let_def assert_safe_relative_path_def)
  next
    case (Inr fs)
    have split: "(\<forall>x \<in> set (walk_entries sha dir ((name, entry) # rest)). \<exists>fs. snd x = Inr fs) \<longleftrightarrow>
        safe_relative_path ?p \<and> ok"
      "safe_relative_path ?p \<Longrightarrow>
        (\<Union>x \<in> set (walk_entries sha dir ((name, entry) # rest)). set (projr (snd x))) = set fs \<union> U"
      by (simp_all add: p Let_def assert_safe_relative_path_def Inr ok_def U_def)
    from Inr entry [of "set fs"] have "tree_plain ?p entry" "set fs = hashed sha ` set (tree_files ?p entry)" by simp_all
    then show ?thesis
      unfolding split(1) dir_plain.simps dir_files.simps set_append image_Un H_def [symmetric]
      using rest split(2) by (metis (no_types, lifting))
  qed
qed (auto simp: hashed_def)

lemma walk_ok: "(\<exists>fs. walk_entry sha path e = Inr fs) \<longleftrightarrow> tree_plain path e"
proof
  assume "\<exists>fs. walk_entry sha path e = Inr fs"
  then obtain fs where "walk_entry sha path e = Inr fs" by (elim exE)
  with walk_sound(1) [of sha path e "set fs"] show "tree_plain path e" by simp
next
  assume "tree_plain path e"
  with walk_sound(1) [of sha path e "hashed sha ` set (tree_files path e)"]
  show "\<exists>fs. walk_entry sha path e = Inr fs" by simp (elim exE conjE, rule exI)
qed

lemma hash_directory_Inr:
  "(\<exists>files. hash_directory sha entries = Inr (h, files) \<and> set files = S) \<longleftrightarrow>
     dir_plain [] entries \<and> S = hashed sha ` set (dir_files [] entries) \<and>
     (\<exists>files. walk_entry sha [] (FsDir entries) = Inr files \<and> h = fixture_manifest_hash sha files)"
proof -
  have "(\<exists>files. walk_entry sha [] (FsDir entries) = Inr files \<and> set files = S) \<longleftrightarrow>
      dir_plain [] entries \<and> S = hashed sha ` set (dir_files [] entries)" for S
    using walk_sound(1) [of sha "[]" "FsDir entries"] by simp
  then show ?thesis
    unfolding hash_directory_def bind_result_Inr by (metis (no_types, lifting) Inr_inject Pair_inject)
qed

lemma hash_directory_files:
  "hash_directory sha entries = Inr (h, files) \<Longrightarrow>
     dir_plain [] entries \<and> set files = hashed sha ` set (dir_files [] entries) \<and>
     h = fixture_manifest_hash sha files"
proof -
  assume ok: "hash_directory sha entries = Inr (h, files)"
  then have "h = fixture_manifest_hash sha files" by (simp add: hash_directory_def) 
  with ok hash_directory_Inr [of sha entries h "set files"] show ?thesis by blast
qed

lemma dir_plain_safe:
  shows "tree_plain path e \<Longrightarrow> pc \<in> set (tree_files path e) \<Longrightarrow> safe_relative_path path \<Longrightarrow> safe_relative_path (fst pc)"
    "dir_plain dir es \<Longrightarrow> pc \<in> set (dir_files dir es) \<Longrightarrow> safe_relative_path (fst pc)"
proof (induction path e and dir es rule: tree_plain_dir_plain.induct)
  case (6 dir name entry rest)
  then show ?case by auto
qed auto

subsection \<open>A loaded task\<close>

lemma task_files_valid:
  assumes "schema_valid task_definition_schema j" and "f \<in> set (td_files (decode_task j))"
  shows "is_hash (tf_sha f)"
proof -
  let ?fx = "json_get ''fixture'' j"
  have "schema_valid fixture_schema ?fx"
    using closed_required [OF assms(1) [unfolded task_definition_schema_def], of "''fixture''"] by force
  then have "schema_valid task_files_schema (json_get ''files'' ?fx)"
    using closed_required [of "[''directory'', ''hash'', ''files'']" _ "[]" ?fx "''files''"]
    unfolding fixture_schema_def by force
  moreover obtain jf where jf: "jf \<in> set (json_items (json_get ''files'' ?fx))" "f = decode_task_file jf"
    using assms(2) by (auto simp: decode_task_def Let_def)
  ultimately have item: "schema_valid (Schema
        [KType [TObject], KRequired [''path'', ''sha256''],
         KClosed [(''path'', path_string), (''sha256'', task_hash_string)]]) jf"
    unfolding task_files_schema_def by (cases "json_get ''files'' ?fx") (auto simp: list_all_iff)
  have "schema_valid task_hash_string (json_get ''sha256'' jf)"
    using closed_required [OF item, of "''sha256''"] by force
  then show ?thesis
    unfolding jf(2) decode_task_file_def task_hash_string_def by (cases "json_get ''sha256'' jf") auto
qed

lemma validate_task_Inr:
  assumes "json_validator ajv" and "validate_task_definition ajv sha j = Inr d"
  shows "(\<forall>f \<in> set (td_files d). safe_relative_path (tf_path f) \<and> is_hash (tf_sha f)) \<and>
    distinct (map tf_path (td_files d)) \<and> td_fixture_hash d = fixture_manifest_hash sha (td_files d) \<and>
    (\<forall>p \<in> set (td_editable d) \<union> set (td_protected d). safe_relative_path p)"
proof -
  have ajv: "ajv task_definition_schema j" and d: "d = decode_task j"
    and fs: "\<forall>p \<in> set (map tf_path (td_files d)). safe_relative_path p"
    and uniq: "length (new_set (map tf_path (td_files d))) = length (map tf_path (td_files d))"
    and rest: "td_fixture_hash d = fixture_manifest_hash sha (td_files d)"
      "\<forall>p \<in> set (td_editable d) \<union> set (td_protected d). safe_relative_path p"
    using assms(2) by (auto simp: validate_task_definition_def Let_def map_assert_safe ball_Un)
  have "card (set (map tf_path (td_files d))) = length (map tf_path (td_files d))"
    using distinct_card [OF new_set_distinct [of "map tf_path (td_files d)"]] uniq by simp
  then have "distinct (map tf_path (td_files d))" by (rule card_distinct)
  moreover have "is_hash (tf_sha f)" if "f \<in> set (td_files d)" for f
    using task_files_valid ajv that unfolding d json_validator.ajv_standard [OF assms(1)] by blast
  ultimately show ?thesis using fs rest by simp
qed

lemma load_task_Inr:
  assumes "load_task_definition ajv sha task roots = Inr t"
  obtains source parsed fixture evaluator files where
    "er_task roots task = Some (source, parsed)" "lt_hash t = sha source"
    "validate_task_definition ajv sha parsed = Inr (lt_definition t)" "td_id (lt_definition t) = task"
    "safe_relative_path (td_directory (lt_definition t))" "safe_relative_path (td_reference (lt_definition t))"
    "er_fixture roots (td_directory (lt_definition t)) = Some fixture"
    "hash_directory sha fixture = Inr (td_fixture_hash (lt_definition t), td_files (lt_definition t))"
    "er_evaluator roots (td_reference (lt_definition t)) = Some evaluator"
    "hash_directory sha evaluator = Inr (td_validator_hash (lt_definition t), files)"
proof -
  obtain source parsed where a: "is_task_id task" "er_task roots task = Some (source, parsed)"
    using assms unfolding load_task_definition_def by (auto split: option.splits)
  then obtain d where d: "validate_task_definition ajv sha parsed = Inr d" "td_id d = task"
      "safe_relative_path (td_directory d)"
    using assms unfolding load_task_definition_def by auto
  then obtain fixture where fx: "er_fixture roots (td_directory d) = Some fixture"
      "hash_directory sha fixture = Inr (td_fixture_hash d, td_files d)" "safe_relative_path (td_reference d)"
    using assms a unfolding load_task_definition_def by (auto split: option.splits)
  then obtain evaluator files where ev: "er_evaluator roots (td_reference d) = Some evaluator"
      "hash_directory sha evaluator = Inr (td_validator_hash d, files)" "lt_definition t = d" "lt_hash t = sha source"
    using assms a d unfolding load_task_definition_def by (auto split: option.splits)
  show thesis by (rule that [OF a(2) ev(4)]) (use d fx ev in simp_all)
qed

subsection \<open>Properties\<close>

text \<open>A path that is accepted stays below the root it is joined to: its segments are appended to the
  root unchanged, joining them gives the path back, and no other accepted path denotes the same place.\<close>

theorem safe_path_confined:
  assumes "assert_safe_relative_path p = Inr q"
  shows "q = p \<and> join_path base p = base @ path_segments p \<and> path_segments p \<noteq> [] \<and>
    (\<forall>p'. safe_relative_path p' \<and> join_path base p' = join_path base p \<longrightarrow> p' = p)"
proof -
  have safe: "safe_relative_path p" and q: "q = p" using assms by (simp_all only: assert_safe_Inr)
  have "p' = p" if "safe_relative_path p'" "join_path base p' = join_path base p" for p'
  proof -
    have "base @ path_segments p' = base @ path_segments p"
      using that(2) by (simp only: safe_path_join [OF that(1)] safe_path_join [OF safe])
    then have "join_segments (path_segments p') = join_segments (path_segments p)"
      by (simp only: append_same_eq same_append_eq)
    then show ?thesis by (simp only: join_split)
  qed
  moreover have "path_segments p \<noteq> []" by (simp only: path_segments_def split_on_nonempty not_False_eq_True)
  ultimately show ?thesis by (simp add: q safe_path_join [OF safe])
qed

theorem safe_path_confined_witness:
  "assert_safe_relative_path ''src/a.ts'' = Inr ''src/a.ts'' \<and>
    join_path [''root''] ''src/a.ts'' = [''root'', ''src'', ''a.ts'']"
proof -
  have safe: "assert_safe_relative_path ''src/a.ts'' = Inr ''src/a.ts''" by code_simp
  from safe_path_confined [OF this, of "[''root'']"] have
    "join_path [''root''] ''src/a.ts'' = [''root''] @ path_segments ''src/a.ts''" by blast
  with safe show ?thesis by (simp add: path_segments_def)
qed

text \<open>Hashing a directory succeeds exactly when every name below it is safe and there are only files
  and directories, and then it lists every file of the tree with the hash of its contents and
  nothing else.\<close>

theorem directory_hash_exact:
  "((\<exists>r. hash_directory sha entries = Inr r) \<longleftrightarrow> dir_plain [] entries) \<and>
    (hash_directory sha entries = Inr (h, files) \<longrightarrow>
      set files = hashed sha ` set (dir_files [] entries) \<and> h = fixture_manifest_hash sha files \<and>
      (\<forall>f \<in> set files. safe_relative_path (tf_path f)))"
proof -
  have "(\<exists>r. hash_directory sha entries = Inr r) \<longleftrightarrow> (\<exists>fs. walk_entry sha [] (FsDir entries) = Inr fs)"
    by (cases "walk_entry sha [] (FsDir entries)") (simp_all only: hash_directory_def bind_result_simps sum.simps, auto)
  also have "\<dots> \<longleftrightarrow> dir_plain [] entries"
    by (simp only: walk_ok tree_plain.simps)
  finally have "(\<exists>r. hash_directory sha entries = Inr r) \<longleftrightarrow> dir_plain [] entries" .
  moreover have "safe_relative_path (tf_path f)"
    if "hash_directory sha entries = Inr (h, files)" "f \<in> set files" for f
    using hash_directory_files [OF that(1)] that(2) dir_plain_safe(2) [of "[]" entries]
    by (auto simp: hashed_def simp del: dir_plain.simps)
  ultimately show ?thesis using hash_directory_files [of sha entries h files] by simp
qed

theorem directory_hash_exact_witness:
  "(\<exists>r. hash_directory rev [(''b'', FsFile ''x''), (''a'', FsDir [(''c'', FsFile ''y'')])] = Inr r) \<and>
    (\<nexists>r. hash_directory rev [(''b'', FsFile ''x''), (''a'', FsLink)] = Inr r)"
proof -
  have "dir_plain [] [(''b'', FsFile ''x''), (''a'', FsDir [(''c'', FsFile ''y'')])]"
    "\<not> dir_plain [] [(''b'', FsFile ''x''), (''a'', FsLink)]" by code_simp+
  then show ?thesis using directory_hash_exact [of rev] by blast
qed

lemma hashed_inj:
  assumes "inj_on sha (snd ` S)"
  shows "inj_on (hashed sha) S"
proof (rule inj_onI)
  fix x y assume xy: "x \<in> S" "y \<in> S" "hashed sha x = hashed sha y"
  then have "sha (snd x) = sha (snd y)" and "fst x = fst y" by (simp_all add: hashed_def)
  moreover from this(1) have "snd x = snd y"
    using inj_onD [OF assms] xy(1,2) by blast
  ultimately show "x = y" by (simp add: prod_eq_iff)
qed

lemma pinned_files:
  assumes "json_validator ajv" and "load_task_definition ajv sha task roots = Inr t"
    and "load_task_definition ajv sha task' roots' = Inr t'"
    and "td_fixture_hash (lt_definition t) = td_fixture_hash (lt_definition t')"
    and "er_fixture roots (td_directory (lt_definition t)) = Some f"
    and "er_fixture roots' (td_directory (lt_definition t')) = Some f'"
    and "inj_on sha (snd ` set (dir_files [] f) \<union> snd ` set (dir_files [] f') \<union>
      {file_lines (file_entries (td_files (lt_definition t))),
       file_lines (file_entries (td_files (lt_definition t')))})"
  shows "set (dir_files [] f) = set (dir_files [] f')"
proof -
  let ?d = "lt_definition t" and ?d' = "lt_definition t'"
  obtain parsed where v1: "validate_task_definition ajv sha parsed = Inr ?d"
      "hash_directory sha f = Inr (td_fixture_hash ?d, td_files ?d)"
    by (rule load_task_Inr [OF assms(2)]) (use assms(5) in simp)
  obtain parsed' where v2: "validate_task_definition ajv sha parsed' = Inr ?d'"
      "hash_directory sha f' = Inr (td_fixture_hash ?d', td_files ?d')"
    by (rule load_task_Inr [OF assms(3)]) (use assms(6) in simp)
  note v = v1(1) v2(1) and h = v1(2) v2(2)
  note wf = validate_task_Inr [OF assms(1) v(1)] validate_task_Inr [OF assms(1) v(2)]
  have "set (td_files ?d) = set (td_files ?d')"
  proof (rule manifest_hash_sound)
    show "\<forall>x \<in> set (td_files ?d) \<union> set (td_files ?d'). safe_relative_path (tf_path x) \<and> is_hash (tf_sha x)"
      using wf by blast
    show "fixture_manifest_hash sha (td_files ?d) = fixture_manifest_hash sha (td_files ?d')"
      using wf assms(4) by simp
    show "file_lines (file_entries (td_files ?d)) = file_lines (file_entries (td_files ?d'))"
      if "sha (file_lines (file_entries (td_files ?d))) = sha (file_lines (file_entries (td_files ?d')))"
      by (rule inj_onD [OF assms(7) that]) simp_all
  qed
  then have eq: "hashed sha ` set (dir_files [] f) = hashed sha ` set (dir_files [] f')"
    using hash_directory_files [OF h(1)] hash_directory_files [OF h(2)] by simp
  have "inj_on sha (snd ` (set (dir_files [] f) \<union> set (dir_files [] f')))"
    by (rule inj_on_subset [OF assms(7)]) (simp only: image_Un, blast)
  then have "inj_on (hashed sha) (set (dir_files [] f) \<union> set (dir_files [] f'))"
    by (rule hashed_inj)
  with eq show ?thesis by (simp add: inj_on_image_eq_iff)
qed

text \<open>The source hash of a loaded task pins its fixture: two loads, from whatever roots, whose tasks
  carry the same fixture hash saw exactly the same files with the same contents, unless SHA-256
  collided on the contents and manifests it was given.\<close>

theorem fixture_hash_pins_content:
  assumes "json_validator ajv" and "load_task_definition ajv sha task roots = Inr t"
    and "load_task_definition ajv sha task' roots' = Inr t'"
    and "td_fixture_hash (lt_definition t) = td_fixture_hash (lt_definition t')"
    and "er_fixture roots (td_directory (lt_definition t)) = Some f"
    and "er_fixture roots' (td_directory (lt_definition t')) = Some f'"
    and "inj_on sha (snd ` set (dir_files [] f) \<union> snd ` set (dir_files [] f') \<union>
      {file_lines (file_entries (td_files (lt_definition t))),
       file_lines (file_entries (td_files (lt_definition t')))})"
  shows "set (dir_files [] f) = set (dir_files [] f')"
  using assms by (rule pinned_files)

definition example_sha :: "string \<Rightarrow> string" where
  "example_sha s = replicate 64 (if s = ''x'' then CHR ''a'' else if s = ''y'' then CHR ''c'' else CHR ''b'')"

definition example_task_json :: "string \<Rightarrow> json" where
  "example_task_json task = JObj
     [(''schemaVersion'', JNum 1), (''id'', JStr task), (''split'', JStr ''dev''),
      (''publicPrompt'', JStr ''Fix it''),
      (''fixture'', JObj [(''directory'', JStr ''demo''), (''hash'', JStr (replicate 64 (CHR ''b''))),
        (''files'', JArr [JObj [(''path'', JStr ''a.ts''), (''sha256'', JStr (replicate 64 (CHR ''a'')))]])]),
      (''setupArgv'', JArr [JStr ''npm'']),
      (''publicChecks'', JArr [JObj [(''name'', JStr ''test''), (''argv'', JArr [JStr ''npm''])]]),
      (''evaluatorReferenceId'', JStr ''demo''),
      (''validatorHash'', JStr (replicate 64 (CHR ''b''))),
      (''editableDirectories'', JArr [JStr ''src'']),
      (''allowedNewFileExtensions'', JArr [JStr ''.ts'']),
      (''protectedPaths'', JArr [JStr ''package.json'']),
      (''limits'', JObj [(''validationTimeoutSeconds'', JNum 60), (''maxFileBytes'', JNum 1000)])]"

definition example_roots :: evaluation_roots where
  "example_roots = \<lparr>er_task = (\<lambda>task. Some (''y'', example_task_json task)),
     er_fixture = (\<lambda>_. Some [(''a.ts'', FsFile ''x'')]), er_evaluator = (\<lambda>_. Some [])\<rparr>"

lemma example_strings:
  "is_task_id ''01-demo''" "is_task_id ''test''" "is_task_id ''demo''" "relative_path_pattern ''demo''"
  "relative_path_pattern ''a.ts''" "relative_path_pattern ''src''" "relative_path_pattern ''package.json''"
  "is_extension ''.ts''" "is_hash (replicate 64 (CHR ''a''))" "is_hash (replicate 64 (CHR ''b''))"
  "safe_relative_path ''demo''" "safe_relative_path ''a.ts''" "safe_relative_path ''src''"
  "safe_relative_path ''package.json''"
  by code_simp+

lemma example_task_valid: "is_task_id task \<Longrightarrow> schema_valid task_definition_schema (example_task_json task)"
  by (simp add: task_definition_schema_def example_task_json_def example_strings task_hash_string_def
      slug_string_def path_string_def task_text_def argv_schema_def fixture_schema_def
      task_files_schema_def public_checks_schema_def unique_strings_def task_limits_schema_def)

definition example_task :: "string \<Rightarrow> task_definition" where
  "example_task task =
     \<lparr>td_id = task, td_split = TaskDev, td_prompt = ''Fix it'', td_directory = ''demo'',
      td_fixture_hash = replicate 64 (CHR ''b''),
      td_files = [\<lparr>tf_path = ''a.ts'', tf_sha = replicate 64 (CHR ''a'')\<rparr>],
      td_setup = [''npm''], td_checks = [\<lparr>tk_name = ''test'', tk_argv = [''npm'']\<rparr>],
      td_reference = ''demo'', td_validator_hash = replicate 64 (CHR ''b''), td_editable = [''src''],
      td_extensions = [''.ts''], td_protected = [''package.json''],
      td_validation_timeout = 60, td_max_file_bytes = 1000\<rparr>"

lemma example_decoded: "decode_task (example_task_json task) = example_task task"
  by (simp add: decode_task_def example_task_json_def example_task_def Let_def json_strs_def json_get_def
      decode_task_file_def decode_task_check_def)

lemma example_sha_simps:
  "example_sha ''x'' = replicate 64 (CHR ''a'')" "example_sha [] = replicate 64 (CHR ''b'')"
  "example_sha (c # d # s) = replicate 64 (CHR ''b'')"
  by (simp_all add: example_sha_def del: replicate.simps)

lemma example_manifest:
  "fixture_manifest_hash example_sha [\<lparr>tf_path = ''a.ts'', tf_sha = h\<rparr>] = replicate 64 (CHR ''b'')"
  "fixture_manifest_hash example_sha [] = replicate 64 (CHR ''b'')"
  by (simp_all add: fixture_manifest_hash_def file_entries_def file_lines_def example_sha_simps)

lemma example_validated:
  "is_task_id task \<Longrightarrow>
     validate_task_definition schema_valid example_sha (example_task_json task) = Inr (example_task task)"
  using example_task_valid [of task] example_manifest(1)
  by (simp add: validate_task_definition_def example_decoded example_task_def example_strings
      assert_safe_relative_path_def new_set_def del: replicate.simps)

definition example_loaded :: "string \<Rightarrow> loaded_task" where
  "example_loaded task = \<lparr>lt_definition = example_task task, lt_hash = example_sha ''y'',
     lt_fixture_root = ''demo'', lt_evaluator = ''demo''\<rparr>"

lemma example_load:
  assumes "is_task_id task"
  shows "load_task_definition schema_valid example_sha task example_roots = Inr (example_loaded task)"
proof -
  have "hash_directory example_sha [(''a.ts'', FsFile ''x'')] =
      Inr (td_fixture_hash (example_task task), td_files (example_task task))"
    by (simp add: hash_directory_def assert_safe_relative_path_def example_strings example_sha_simps Let_def
        example_manifest example_task_def del: replicate.simps)
  moreover have "hash_directory example_sha [] = Inr (td_validator_hash (example_task task), [])"
    by (simp add: hash_directory_def example_manifest example_task_def del: replicate.simps)
  moreover have "safe_relative_path (td_directory (example_task task))" "safe_relative_path (td_reference (example_task task))"
    "td_id (example_task task) = task" "td_directory (example_task task) = ''demo''" "td_reference (example_task task) = ''demo''"
    by (simp_all add: example_task_def example_strings)
  ultimately show ?thesis
    by (simp add: load_task_definition_def assms example_roots_def example_validated
        assert_safe_relative_path_def example_loaded_def)
qed

theorem fixture_hash_pins_content_witness:
  "load_task_definition schema_valid example_sha ''01-demo'' example_roots = Inr (example_loaded ''01-demo'') \<and>
    set (dir_files [] [(''a.ts'', FsFile ''x'')]) = set (dir_files [] [(''a.ts'', FsFile ''x'')])"
proof -
  note load = example_load [OF example_strings(1)]
  have "example_sha (''a.ts'' @ s) \<noteq> example_sha ''x''" for s
    by (simp add: example_sha_simps replicate_eq_replicate del: replicate.simps)
  then have "inj_on example_sha (snd ` set (dir_files [] [(''a.ts'', FsFile ''x'')]) \<union>
      snd ` set (dir_files [] [(''a.ts'', FsFile ''x'')]) \<union>
      {file_lines (file_entries (td_files (lt_definition (example_loaded ''01-demo'')))),
       file_lines (file_entries (td_files (lt_definition (example_loaded ''01-demo''))))})"
    by (simp add: example_loaded_def example_task_def file_entries_def file_lines_def)
  then show ?thesis
    using fixture_hash_pins_content [OF standard.json_validator_axioms load load refl] load by (simp add: example_roots_def)
qed

end
