(* ===== verification/Benchmark.thy ===== *)
theory Benchmark
  imports Schedule Task_Definition Lab_Config
begin

section \<open>Frozen benchmark protocols (src/evaluation/benchmark.ts, src/evaluation/records.ts)\<close>

text \<open>
  A protocol freezes everything an assessment depends on: the corpus, the hashes of every held-out
  task, the source, the images, the configuration, the seed, the limits and the method, under an
  identity that is the digest of the rest. Protocols are JSON values, since they are hashed and
  compared as they are written. \<open>digest\<close>, the SHA-256 of \<open>JSON.stringify\<close>, is a parameter.
\<close>

subsection \<open>Records\<close>

fun json_keys :: "json \<Rightarrow> string list" where
  "json_keys (JObj kvs) = map fst kvs"
| "json_keys _ = []"

definition exact_keys :: "json \<Rightarrow> string list \<Rightarrow> bool" where
  "exact_keys value keys \<longleftrightarrow> (\<exists>kvs. value = JObj kvs) \<and> sort_strings (json_keys value) = sort_strings keys"

text \<open>\<open>const { k, ...rest } = value\<close>, and assigning a member.\<close>

fun json_without :: "string \<Rightarrow> json \<Rightarrow> json" where
  "json_without k (JObj kvs) = JObj (filter (\<lambda>kv. fst kv \<noteq> k) kvs)"
| "json_without k j = j"

fun json_set :: "string \<Rightarrow> json \<Rightarrow> json \<Rightarrow> json" where
  "json_set k v (JObj kvs) = JObj (if k \<in> set (map fst kvs)
     then map (\<lambda>kv. if fst kv = k then (k, v) else kv) kvs else kvs @ [(k, v)])"
| "json_set k v j = j"

text \<open>
  \<open>pattern.test(value)\<close> turns the value into a string first: an array of one element is printed as
  its element, and no other value that is not a string prints as a hash.
\<close>

fun pattern_test :: "(string \<Rightarrow> bool) \<Rightarrow> json \<Rightarrow> bool" where
  "pattern_test p (JStr s) = p s"
| "pattern_test p (JArr [x]) = pattern_test p x"
| "pattern_test p _ = False"

text \<open>\<open>^sha256:[a-f0-9]{64}$\<close>.\<close>

definition is_image_id :: "string \<Rightarrow> bool" where
  "is_image_id s \<longleftrightarrow> take 7 s = ''sha256:'' \<and> is_hash (drop 7 s)"

subsection \<open>The hash of the source\<close>

text \<open>
  \<open>sourceContentHash\<close>: the inputs of the build and the tests, without the directories of
  dependencies and caches. A symbolic link is an error, other special files are skipped.
\<close>

definition ignored_names :: "string list" where
  "ignored_names = [''node_modules'', ''target'', ''.cache'', ''.DS_Store'']"

definition source_inputs :: "string list" where
  "source_inputs =
     [''Dockerfile'', ''.dockerignore'', ''docker'', ''compose.yaml'', ''route-agent'', ''package.json'',
      ''pnpm-lock.yaml'', ''tsconfig.json'', ''tsconfig.build.json'', ''config/upstream-lock.json'',
      ''rust/switchyard-bridge/Cargo.toml'', ''rust/switchyard-bridge/Cargo.lock'',
      ''rust/switchyard-bridge/src'', ''src'', ''tests'', ''scripts'', ''tasks'', ''fixtures/public'', ''evaluator'']"

datatype source_error = SourceLink string | SourceMissing string

fun source_visit :: "(string \<Rightarrow> string) \<Rightarrow> string \<Rightarrow> fs_entry \<Rightarrow> source_error + (string \<times> string) list"
and source_visits :: "(string \<Rightarrow> string) \<Rightarrow> string \<Rightarrow> (string \<times> fs_entry) list
    \<Rightarrow> (string \<times> (source_error + (string \<times> string) list)) list" where
  "source_visit sha path (FsFile content) = Inr [(path, sha content)]"
| "source_visit sha path (FsDir entries) =
     first_error (sort_entries code_unit_le (source_visits sha path entries))"
| "source_visit sha path FsLink = Inl (SourceLink path)"
| "source_visit sha path FsOther = Inr []"
| "source_visits sha dir [] = []"
| "source_visits sha dir ((name, entry) # rest) =
     (if name \<in> set ignored_names then source_visits sha dir rest
      else (name, source_visit sha (dir @ ''/'' @ name) entry) # source_visits sha dir rest)"

definition source_content_hash :: "(string \<Rightarrow> string) \<Rightarrow> (json \<Rightarrow> string) \<Rightarrow> (string \<Rightarrow> fs_entry option)
    \<Rightarrow> source_error + string" where
  "source_content_hash sha digest tree =
     bind_result (map_result (\<lambda>path. case tree path of
          None \<Rightarrow> Inl (SourceMissing path) | Some entry \<Rightarrow> source_visit sha path entry) source_inputs)
       (\<lambda>files. Inr (digest (JArr (map (\<lambda>(path, h). JArr [JStr path, JStr h])
          (sort_entries code_unit_le (concat files))))))"

text \<open>A tree without the ignored entries.\<close>

fun prune :: "fs_entry \<Rightarrow> fs_entry"
and prune_entries :: "(string \<times> fs_entry) list \<Rightarrow> (string \<times> fs_entry) list" where
  "prune (FsDir entries) = FsDir (prune_entries entries)"
| "prune e = e"
| "prune_entries [] = []"
| "prune_entries ((name, entry) # rest) =
     (if name \<in> set ignored_names then prune_entries rest else (name, prune entry) # prune_entries rest)"

lemma source_visit_prune:
  "source_visit sha path (prune e) = source_visit sha path e"
  "source_visits sha dir (prune_entries es) = source_visits sha dir es"
  by (induction sha path e and sha dir es rule: source_visit_source_visits.induct) simp_all

subsection \<open>The JSON of a corpus\<close>

fun split_json :: "corpus_split \<Rightarrow> json" where
  "split_json SplitDev = JStr ''dev''"
| "split_json SplitHeldout = JStr ''heldout''"

fun home_json :: "task_home \<Rightarrow> json" where
  "home_json HomeCore = JStr ''core''"
| "home_json HomeHarness = JStr ''harness''"

definition corpus_task_json :: "corpus_task \<Rightarrow> json" where
  "corpus_task_json t = JObj
     [(''id'', JStr (cp_id t)), (''split'', split_json (cp_split t)),
      (''clusterId'', JStr (cp_cluster t)), (''corpus'', home_json (cp_home t)), (''weight'', JNum 1)]"

definition corpus_json :: "corpus_def \<Rightarrow> json" where
  "corpus_json c = JObj
     [(''schemaVersion'', JNum 1), (''id'', JStr (cd_id c)), (''tasks'', JArr (map corpus_task_json (cd_tasks c)))]"

definition corpus_hash :: "(json \<Rightarrow> string) \<Rightarrow> corpus_def \<Rightarrow> string" where
  "corpus_hash digest c = digest (corpus_json c)"

subsection \<open>The normalized configuration as JSON\<close>

definition normalize_role_json :: "json \<Rightarrow> json" where
  "normalize_role_json j = JObj
     ([(''provider'', json_get ''provider'' j), (''model'', json_get ''model'' j),
       (''billing'', (case json_field ''billing'' j of None \<Rightarrow> JStr ''unknown'' | Some b \<Rightarrow> b))]
      @ (case json_field ''pricing'' j of None \<Rightarrow> [] | Some p \<Rightarrow> [(''pricing'', p)]))"

definition normalize_config_json :: "json \<Rightarrow> json" where
  "normalize_config_json j =
     json_set ''models''
       (foldl (\<lambda>models role. json_set (role_key role)
            (normalize_role_json (json_get (role_key role) models)) models)
          (json_get ''models'' j) model_roles) j"

subsection \<open>Protocols\<close>

definition readiness_method_json :: json where
  "readiness_method_json = JObj
     [(''resamples'', JNum 10000), (''lowerQuantile'', JNum (25 / 1000)), (''upperQuantile'', JNum (975 / 1000)),
      (''minimumClusters'', JNum 20), (''minimumValidResamples'', JNum 5000), (''weighting'', JStr ''equal-task'')]"

definition readiness_targets_json :: json where
  "readiness_targets_json = JObj
     [(''absoluteSuccess'', JNum (8 / 10)), (''qualityDifference'', JNum (- 5 / 100)),
      (''strongTokenReduction'', JNum (25 / 100))]"

datatype benchmark_error =
    UnexpectedFields
  | BadProtocolIdentity
  | ProtocolRegistryChanged
  | BadSourceOrExposure
  | MutableImages
  | ProtocolTaskList
  | ProtocolTaskIdentity
  | BadProtocolLimit
  | ProtocolConfig config_error
  | NotExtendedDevelopment
  | ProtocolTask task_error
  | ExecutionChanged
  | FrozenTaskChanged string

definition combined_corpus :: corpus_def where
  "combined_corpus = \<lparr>cd_id = ''combined'', cd_tasks = map corpus_task_of all_task_ids\<rparr>"

definition protocol_keys :: "string list" where
  "protocol_keys =
     [''schemaVersion'', ''protocolId'', ''profile'', ''evidenceKind'', ''corpus'', ''corpusHash'', ''tasks'',
      ''sourceContentHash'', ''images'', ''configuration'', ''seed'', ''repetitions'', ''maxCostUsd'', ''suite'',
      ''method'', ''targets'', ''priorExposure'']"

definition heldout_ids :: "string list" where
  "heldout_ids = map cp_id (filter (\<lambda>t. cp_split t = SplitHeldout) (cd_tasks combined_corpus))"

fun is_prior_exposure :: "json \<Rightarrow> bool" where
  "is_prior_exposure (JArr xs) = list_all (\<lambda>x. case x of JStr s \<Rightarrow> has_nonspace s | _ \<Rightarrow> False) xs"
| "is_prior_exposure _ = False"

fun is_protocol_seed :: "json \<Rightarrow> bool" where
  "is_protocol_seed (JNum r) \<longleftrightarrow> of_int \<lfloor>r\<rfloor> = r \<and> 0 \<le> r \<and> r \<le> 4294967295"
| "is_protocol_seed _ \<longleftrightarrow> False"

fun is_protocol_limit :: "json \<Rightarrow> bool" where
  "is_protocol_limit JNull \<longleftrightarrow> True"
| "is_protocol_limit (JNum r) \<longleftrightarrow> 0 < r"
| "is_protocol_limit _ \<longleftrightarrow> False"

definition protocol_identity_ok :: "(json \<Rightarrow> string) \<Rightarrow> json \<Rightarrow> bool" where
  "protocol_identity_ok digest p \<longleftrightarrow>
     json_get ''schemaVersion'' p = JNum 1 \<and> json_get ''profile'' p = JStr ''harness-v1'' \<and>
     json_get ''evidenceKind'' p \<in> {JStr ''live'', JStr ''mock''} \<and> json_get ''suite'' p = JStr ''heldout'' \<and>
     json_get ''repetitions'' p = JNum 5 \<and> is_protocol_seed (json_get ''seed'' p) \<and>
     json_get ''protocolId'' p = JStr (digest (json_without ''protocolId'' p))"

definition protocol_registry_ok :: "(json \<Rightarrow> string) \<Rightarrow> json \<Rightarrow> bool" where
  "protocol_registry_ok digest p \<longleftrightarrow>
     json_get ''corpus'' p = corpus_json combined_corpus \<and>
     json_get ''corpusHash'' p = JStr (digest (json_get ''corpus'' p)) \<and>
     json_get ''method'' p = readiness_method_json \<and> json_get ''targets'' p = readiness_targets_json"

definition protocol_task_ok :: "json \<Rightarrow> string \<Rightarrow> benchmark_error + unit" where
  "protocol_task_ok task expected =
     (if \<not> exact_keys task [''id'', ''taskHash'', ''sourceHash'', ''validatorHash''] then Inl UnexpectedFields
      else if json_get ''id'' task \<noteq> JStr expected \<or>
        list_ex (\<lambda>k. \<not> pattern_test is_hash (json_get k task)) [''taskHash'', ''sourceHash'', ''validatorHash'']
      then Inl ProtocolTaskIdentity else Inr ())"

text \<open>The configuration is validated, and the protocol returned as it was given.\<close>

definition validate_benchmark_protocol :: "(schema \<Rightarrow> json \<Rightarrow> bool) \<Rightarrow> (json \<Rightarrow> string) \<Rightarrow> json
    \<Rightarrow> benchmark_error + json" where
  "validate_benchmark_protocol ajv digest p =
     (if \<not> exact_keys p protocol_keys then Inl UnexpectedFields
      else if \<not> protocol_identity_ok digest p then Inl BadProtocolIdentity
      else if \<not> protocol_registry_ok digest p then Inl ProtocolRegistryChanged
      else if \<not> pattern_test is_hash (json_get ''sourceContentHash'' p) \<or>
        \<not> is_prior_exposure (json_get ''priorExposure'' p) then Inl BadSourceOrExposure
      else if \<not> exact_keys (json_get ''images'' p) [''agent'', ''evaluator''] then Inl UnexpectedFields
      else if list_ex (\<lambda>k. \<not> pattern_test is_image_id (json_get k (json_get ''images'' p))) [''agent'', ''evaluator'']
      then Inl MutableImages
      else if length (json_items (json_get ''tasks'' p)) \<noteq> length heldout_ids then Inl ProtocolTaskList
      else
        bind_result (map_result (\<lambda>(task, expected). protocol_task_ok task expected)
          (zip (json_items (json_get ''tasks'' p)) heldout_ids)) (\<lambda>_.
        if \<not> is_protocol_limit (json_get ''maxCostUsd'' p) then Inl BadProtocolLimit
        else case validate_config ajv (json_get ''configuration'' p) of
          Inl e \<Rightarrow> Inl (ProtocolConfig e)
        | Inr _ \<Rightarrow> Inr p))"

text \<open>
  \<open>makeBenchmarkProtocol\<close> on a validated manifest, which is JSON here; \<open>!manifest.sourceContentHash\<close>
  holds of a missing and of an empty hash.
\<close>

definition protocol_task_json :: "string \<Rightarrow> loaded_task \<Rightarrow> json" where
  "protocol_task_json task t = JObj
     [(''id'', JStr task), (''taskHash'', JStr (lt_hash t)),
      (''sourceHash'', JStr (td_fixture_hash (lt_definition t))),
      (''validatorHash'', JStr (td_validator_hash (lt_definition t)))]"

definition load_for_protocol :: "(schema \<Rightarrow> json \<Rightarrow> bool) \<Rightarrow> (string \<Rightarrow> string) \<Rightarrow> evaluation_roots
    \<Rightarrow> string \<Rightarrow> benchmark_error + json" where
  "load_for_protocol ajv sha roots task =
     (case load_task_definition ajv sha task roots of
        Inl e \<Rightarrow> Inl (ProtocolTask e) | Inr t \<Rightarrow> Inr (protocol_task_json task t))"

definition make_benchmark_protocol :: "(schema \<Rightarrow> json \<Rightarrow> bool) \<Rightarrow> (string \<Rightarrow> string) \<Rightarrow> (json \<Rightarrow> string)
    \<Rightarrow> json \<Rightarrow> real \<Rightarrow> evaluation_roots \<Rightarrow> string list \<Rightarrow> benchmark_error + json" where
  "make_benchmark_protocol ajv sha digest manifest threshold roots prior =
     (if json_get ''schemaVersion'' manifest \<noteq> JNum 2 \<or>
        json_field ''id'' (json_get ''corpus'' manifest) \<noteq> Some (JStr ''combined'') \<or>
        json_get ''sourceContentHash'' manifest \<in> {JNull, JStr []} \<or>
        json_get ''suite'' manifest \<noteq> JStr ''dev''
      then Inl NotExtendedDevelopment
      else
        bind_result (map_result (load_for_protocol ajv sha roots) heldout_ids) (\<lambda>tasks.
        let corpus = corpus_json combined_corpus;
            configuration = json_set ''routing''
              (json_set ''weakThreshold'' (JNum threshold)
                 (json_get ''routing'' (json_get ''configuration'' manifest)))
              (json_get ''configuration'' manifest);
            images = json_get ''images'' manifest;
            value =
              [(''schemaVersion'', JNum 1), (''profile'', JStr ''harness-v1''),
               (''evidenceKind'', json_get ''evidenceKind'' manifest), (''corpus'', corpus),
               (''corpusHash'', JStr (digest corpus)), (''tasks'', JArr tasks),
               (''sourceContentHash'', json_get ''sourceContentHash'' manifest),
               (''images'', JObj [(''agent'', json_get ''agent'' images),
                  (''evaluator'', json_get ''evaluator'' images)]),
               (''configuration'', configuration), (''seed'', json_get ''seed'' manifest),
               (''repetitions'', JNum 5), (''maxCostUsd'', json_get ''maxCostUsd'' manifest),
               (''suite'', JStr ''heldout''), (''method'', readiness_method_json),
               (''targets'', readiness_targets_json), (''priorExposure'', JArr (map JStr prior))]
        in validate_benchmark_protocol ajv digest
             (JObj (value @ [(''protocolId'', JStr (digest (JObj value)))]))))"

subsection \<open>Executing a protocol\<close>

text \<open>What an execution was asked to do, and the roots its tasks are loaded from.\<close>

record benchmark_execution =
  be_corpus :: string
  be_suite :: string
  be_repetitions :: real
  be_max_cost :: "real option"
  be_seed :: real
  be_evidence :: string
  be_source :: string
  be_agent :: string
  be_evaluator :: string
  be_configuration :: json
  be_roots :: evaluation_roots

fun limit_json :: "real option \<Rightarrow> json" where
  "limit_json None = JNull"
| "limit_json (Some r) = JNum r"

definition execution_matches :: "json \<Rightarrow> benchmark_execution \<Rightarrow> bool" where
  "execution_matches p x \<longleftrightarrow>
     json_get ''id'' (json_get ''corpus'' p) = JStr (be_corpus x) \<and>
     json_get ''suite'' p = JStr (be_suite x) \<and> json_get ''repetitions'' p = JNum (be_repetitions x) \<and>
     json_get ''maxCostUsd'' p = limit_json (be_max_cost x) \<and> json_get ''seed'' p = JNum (be_seed x) \<and>
     json_get ''evidenceKind'' p = JStr (be_evidence x) \<and>
     json_get ''sourceContentHash'' p = JStr (be_source x) \<and>
     json_get ''configuration'' p = be_configuration x \<and>
     json_get ''agent'' (json_get ''images'' p) = JStr (be_agent x) \<and>
     json_get ''evaluator'' (json_get ''images'' p) = JStr (be_evaluator x)"

definition verify_frozen_task :: "(schema \<Rightarrow> json \<Rightarrow> bool) \<Rightarrow> (string \<Rightarrow> string) \<Rightarrow> evaluation_roots
    \<Rightarrow> json \<Rightarrow> benchmark_error + unit" where
  "verify_frozen_task ajv sha roots expected =
     (let task = json_str (json_get ''id'' expected)
      in case load_task_definition ajv sha task roots of
           Inl e \<Rightarrow> Inl (ProtocolTask e)
         | Inr t \<Rightarrow>
             if json_get ''taskHash'' expected \<noteq> JStr (lt_hash t) \<or>
               json_get ''sourceHash'' expected \<noteq> JStr (td_fixture_hash (lt_definition t)) \<or>
               json_get ''validatorHash'' expected \<noteq> JStr (td_validator_hash (lt_definition t))
             then Inl (FrozenTaskChanged task) else Inr ())"

definition verify_benchmark_execution :: "(schema \<Rightarrow> json \<Rightarrow> bool) \<Rightarrow> (string \<Rightarrow> string)
    \<Rightarrow> (json \<Rightarrow> string) \<Rightarrow> json \<Rightarrow> benchmark_execution \<Rightarrow> benchmark_error + unit" where
  "verify_benchmark_execution ajv sha digest p x =
     bind_result (validate_benchmark_protocol ajv digest p) (\<lambda>_.
     if \<not> execution_matches p x then Inl ExecutionChanged
     else bind_result (map_result (verify_frozen_task ajv sha (be_roots x)) (json_items (json_get ''tasks'' p)))
       (\<lambda>_. Inr ()))"

subsection \<open>What a valid protocol says\<close>

lemma protocol_Inr:
  assumes "validate_benchmark_protocol ajv digest p = Inr q"
  shows "q = p \<and> exact_keys p protocol_keys \<and> protocol_identity_ok digest p \<and> protocol_registry_ok digest p \<and>
    (\<exists>c. validate_config ajv (json_get ''configuration'' p) = Inr c)"
    "list_all2 (\<lambda>task expected. protocol_task_ok task expected = Inr ())
      (json_items (json_get ''tasks'' p)) heldout_ids"
proof -
  let ?ts = "json_items (json_get ''tasks'' p)"
  have *: "q = p" "exact_keys p protocol_keys" "protocol_identity_ok digest p" "protocol_registry_ok digest p"
    "length ?ts = length heldout_ids"
    "\<exists>us. map_result (\<lambda>(task, expected). protocol_task_ok task expected) (zip ?ts heldout_ids) = Inr us"
    "\<exists>c. validate_config ajv (json_get ''configuration'' p) = Inr c"
    using assms by (auto simp: validate_benchmark_protocol_def split: sum.splits)
  then show "q = p \<and> exact_keys p protocol_keys \<and> protocol_identity_ok digest p \<and> protocol_registry_ok digest p \<and>
      (\<exists>c. validate_config ajv (json_get ''configuration'' p) = Inr c)" by blast
  obtain us where "map_result (\<lambda>(task, expected). protocol_task_ok task expected) (zip ?ts heldout_ids) = Inr us"
    using *(6) by blast
  then have "\<forall>te \<in> set (zip ?ts heldout_ids). protocol_task_ok (fst te) (snd te) = Inr ()"
    using *(5) unfolding map_result_Inr by (auto simp: list_all2_conv_all_nth in_set_conv_nth split_def)
  then show "list_all2 (\<lambda>task expected. protocol_task_ok task expected = Inr ()) ?ts heldout_ids"
    using *(5) by (auto simp: list_all2_iff)
qed

lemma protocol_task_ids:
  assumes "validate_benchmark_protocol ajv digest p = Inr q"
  shows "map (\<lambda>t. json_str (json_get ''id'' t)) (json_items (json_get ''tasks'' p)) = heldout_ids"
  using protocol_Inr(2) [OF assms]
  by (induction rule: list_all2_induct) (auto simp: protocol_task_ok_def)

lemma field_without: "k \<noteq> j \<Longrightarrow> json_field k (json_without j p) = json_field k p"
proof (cases p)
  case (JObj kvs)
  assume "k \<noteq> j"
  then have "map_of (filter (\<lambda>kv. fst kv \<noteq> j) kvs) k = map_of kvs k" by (induction kvs) auto
  with JObj show ?thesis by simp
qed simp_all

lemma frozen_tasks:
  assumes "verify_benchmark_execution ajv sha digest p x = Inr ()" and "task \<in> set heldout_ids"
  obtains t e where "load_task_definition ajv sha task (be_roots x) = Inr t"
    "e \<in> set (json_items (json_get ''tasks'' p))" "json_str (json_get ''id'' e) = task"
    "json_get ''taskHash'' e = JStr (lt_hash t)"
    "json_get ''sourceHash'' e = JStr (td_fixture_hash (lt_definition t))"
    "json_get ''validatorHash'' e = JStr (td_validator_hash (lt_definition t))"
proof -
  let ?ts = "json_items (json_get ''tasks'' p)"
  obtain q us where q: "validate_benchmark_protocol ajv digest p = Inr q"
    and us: "map_result (verify_frozen_task ajv sha (be_roots x)) ?ts = Inr us"
    using assms(1) unfolding verify_benchmark_execution_def bind_result_Inr guard_Inr by blast
  obtain e where e: "e \<in> set ?ts" "json_str (json_get ''id'' e) = task"
    using assms(2) unfolding protocol_task_ids [OF q, symmetric] by auto
  have "verify_frozen_task ajv sha (be_roots x) e = Inr ()"
    using us e(1) unfolding map_result_Inr by (auto simp: list_all2_conv_all_nth in_set_conv_nth)
  then show thesis
    using that [OF _ e] unfolding verify_frozen_task_def Let_def e(2)
    by (cases "load_task_definition ajv sha task (be_roots x)") auto
qed

lemma heldout_ids_distinct: "distinct heldout_ids"
  using all_task_ids_distinct by (simp add: heldout_ids_def combined_corpus_def filter_map comp_def)

lemma frozen_entries_equal:
  assumes "validate_benchmark_protocol ajv digest p = Inr q"
    and "e \<in> set (json_items (json_get ''tasks'' p))" "e' \<in> set (json_items (json_get ''tasks'' p))"
    and "json_str (json_get ''id'' e) = json_str (json_get ''id'' e')"
  shows "e = e'"
proof -
  have "distinct (map (\<lambda>t. json_str (json_get ''id'' t)) (json_items (json_get ''tasks'' p)))"
    unfolding protocol_task_ids [OF assms(1)] by (rule heldout_ids_distinct)
  with assms(2-) show ?thesis by (auto simp: distinct_map dest: inj_onD)
qed

subsection \<open>Properties\<close>

text \<open>The identity of a protocol pins everything in it: two valid protocols with the same identity agree
  in every field, unless SHA-256 collided on them; and a valid protocol runs the combined corpus's
  held-out tasks in their registered order, with the frozen targets and method and a valid
  configuration.\<close>

theorem protocol_identity_pins:
  assumes "validate_benchmark_protocol ajv digest p = Inr p'" and "validate_benchmark_protocol ajv digest q = Inr q'"
    and "json_get ''protocolId'' p = json_get ''protocolId'' q"
    and "digest (json_without ''protocolId'' p) = digest (json_without ''protocolId'' q) \<Longrightarrow>
      json_without ''protocolId'' p = json_without ''protocolId'' q"
  shows "p' = p \<and> (\<forall>k. json_get k p = json_get k q) \<and>
    map (\<lambda>t. json_str (json_get ''id'' t)) (json_items (json_get ''tasks'' p)) = heldout_ids \<and>
    json_get ''targets'' p = readiness_targets_json \<and> json_get ''method'' p = readiness_method_json \<and>
    (\<exists>c. validate_config ajv (json_get ''configuration'' p) = Inr c)"
proof -
  note p = protocol_Inr(1) [OF assms(1)] and q = protocol_Inr(1) [OF assms(2)]
  have eq: "json_without ''protocolId'' p = json_without ''protocolId'' q"
    using p q assms(3) by (intro assms(4)) (auto simp: protocol_identity_ok_def)
  have "json_get k p = json_get k q" for k
  proof (cases "k = ''protocolId''")
    case False
    then show ?thesis
      using field_without [OF False, of p] field_without [OF False, of q] eq by (simp add: json_get_def)
  qed (simp add: assms(3))
  then show ?thesis
    using p protocol_task_ids [OF assms(1)] by (simp add: protocol_registry_ok_def)
qed

text \<open>C22: What a frozen benchmark is executed on cannot change: when the same protocol is verified twice, on
  whatever roots, every held-out task loads both times with the same task, fixture and validator
  hashes, and its fixture has the same files with the same contents unless SHA-256 collided.\<close>

theorem benchmark_content_frozen:
  assumes "json_validator ajv" and "verify_benchmark_execution ajv sha digest p x = Inr ()"
    and "verify_benchmark_execution ajv sha digest p x' = Inr ()" and "task \<in> set heldout_ids"
  shows "\<exists>t t' f f'. load_task_definition ajv sha task (be_roots x) = Inr t \<and>
    load_task_definition ajv sha task (be_roots x') = Inr t' \<and> lt_hash t = lt_hash t' \<and>
    td_validator_hash (lt_definition t) = td_validator_hash (lt_definition t') \<and>
    er_fixture (be_roots x) (td_directory (lt_definition t)) = Some f \<and>
    er_fixture (be_roots x') (td_directory (lt_definition t')) = Some f' \<and>
    (inj_on sha (snd ` set (dir_files [] f) \<union> snd ` set (dir_files [] f') \<union>
      {file_lines (file_entries (td_files (lt_definition t))),
       file_lines (file_entries (td_files (lt_definition t')))}) \<longrightarrow>
     set (dir_files [] f) = set (dir_files [] f'))"
proof -
  obtain q where q: "validate_benchmark_protocol ajv digest p = Inr q"
    using assms(2) unfolding verify_benchmark_execution_def bind_result_Inr by blast
  obtain t e where t: "load_task_definition ajv sha task (be_roots x) = Inr t"
    and e: "e \<in> set (json_items (json_get ''tasks'' p))" "json_str (json_get ''id'' e) = task"
      "json_get ''taskHash'' e = JStr (lt_hash t)"
      "json_get ''sourceHash'' e = JStr (td_fixture_hash (lt_definition t))"
      "json_get ''validatorHash'' e = JStr (td_validator_hash (lt_definition t))"
    by (rule frozen_tasks [OF assms(2,4)])
  obtain t' e' where t': "load_task_definition ajv sha task (be_roots x') = Inr t'"
    and e': "e' \<in> set (json_items (json_get ''tasks'' p))" "json_str (json_get ''id'' e') = task"
      "json_get ''taskHash'' e' = JStr (lt_hash t')"
      "json_get ''sourceHash'' e' = JStr (td_fixture_hash (lt_definition t'))"
      "json_get ''validatorHash'' e' = JStr (td_validator_hash (lt_definition t'))"
    by (rule frozen_tasks [OF assms(3,4)])
  have "e' = e" using frozen_entries_equal [OF q e'(1) e(1)] e(2) e'(2) by simp
  then have hashes: "lt_hash t = lt_hash t'"
    "td_fixture_hash (lt_definition t) = td_fixture_hash (lt_definition t')"
    "td_validator_hash (lt_definition t) = td_validator_hash (lt_definition t')"
    using e e' by simp_all
  obtain f where f: "er_fixture (be_roots x) (td_directory (lt_definition t)) = Some f"
    by (rule load_task_Inr [OF t])
  obtain f' where f': "er_fixture (be_roots x') (td_directory (lt_definition t')) = Some f'"
    by (rule load_task_Inr [OF t'])
  show ?thesis
    using t t' hashes f f' pinned_files [OF assms(1) t t' hashes(2) f f'] by blast
qed

subsection \<open>An example\<close>

definition example_image :: string where
  "example_image = ''sha256:'' @ replicate 64 (CHR ''a'')"

definition example_protocol :: json where
  "example_protocol = JObj
     [(''schemaVersion'', JNum 1), (''protocolId'', JStr []), (''profile'', JStr ''harness-v1''),
      (''evidenceKind'', JStr ''mock''), (''corpus'', corpus_json combined_corpus), (''corpusHash'', JStr []),
      (''tasks'', JArr (map (\<lambda>task. protocol_task_json task (example_loaded task)) heldout_ids)),
      (''sourceContentHash'', JStr (replicate 64 (CHR ''a''))),
      (''images'', JObj [(''agent'', JStr example_image), (''evaluator'', JStr example_image)]),
      (''configuration'', config_json example_config), (''seed'', JNum 7), (''repetitions'', JNum 5),
      (''maxCostUsd'', JNull), (''suite'', JStr ''heldout''), (''method'', readiness_method_json),
      (''targets'', readiness_targets_json), (''priorExposure'', JArr [])]"

definition example_execution :: benchmark_execution where
  "example_execution = \<lparr>be_corpus = ''combined'', be_suite = ''heldout'', be_repetitions = 5,
     be_max_cost = None, be_seed = 7, be_evidence = ''mock'', be_source = replicate 64 (CHR ''a''),
     be_agent = example_image, be_evaluator = example_image, be_configuration = config_json example_config,
     be_roots = example_roots\<rparr>"

lemma heldout_task_ids: "task \<in> set heldout_ids \<Longrightarrow> is_task_id task"
proof -
  have "list_all is_task_id all_task_ids" by code_simp
  then show "task \<in> set heldout_ids \<Longrightarrow> ?thesis"
    by (auto simp: heldout_ids_def combined_corpus_def list_all_iff)
qed

lemma example_protocol_task: "protocol_task_ok (protocol_task_json task (example_loaded task)) task = Inr ()"
proof -
  have "is_hash (example_sha ''y'')" "is_hash (replicate 64 (CHR ''b''))" by code_simp+
  moreover have "exact_keys (protocol_task_json task (example_loaded task))
      [''id'', ''taskHash'', ''sourceHash'', ''validatorHash'']"
    by (simp add: exact_keys_def protocol_task_json_def)
  ultimately show ?thesis
    by (simp add: protocol_task_ok_def) (simp add: protocol_task_json_def json_get_def example_loaded_def
        example_task_def del: replicate.simps)
qed

lemma example_protocol_tasks:
  "\<exists>us. map_result (\<lambda>(task, expected). protocol_task_ok task expected)
     (zip (map (\<lambda>task. protocol_task_json task (example_loaded task)) ids) ids) = Inr us"
  by (induction ids) (auto simp: example_protocol_task)

lemma example_protocol_get:
  "json_get ''tasks'' example_protocol =
      JArr (map (\<lambda>task. protocol_task_json task (example_loaded task)) heldout_ids)"
  "json_get ''configuration'' example_protocol = config_json example_config"
  "json_get ''images'' example_protocol = JObj [(''agent'', JStr example_image), (''evaluator'', JStr example_image)]"
  "json_get ''sourceContentHash'' example_protocol = JStr (replicate 64 (CHR ''a''))"
  "json_get ''priorExposure'' example_protocol = JArr []" "json_get ''maxCostUsd'' example_protocol = JNull"
  "json_get ''corpus'' example_protocol = corpus_json combined_corpus"
  "json_get ''corpusHash'' example_protocol = JStr []"
  "json_get ''method'' example_protocol = readiness_method_json"
  "json_get ''targets'' example_protocol = readiness_targets_json"
  "json_get ''schemaVersion'' example_protocol = JNum 1" "json_get ''profile'' example_protocol = JStr ''harness-v1''"
  "json_get ''evidenceKind'' example_protocol = JStr ''mock''" "json_get ''suite'' example_protocol = JStr ''heldout''"
  "json_get ''repetitions'' example_protocol = JNum 5" "json_get ''seed'' example_protocol = JNum 7"
  "json_get ''protocolId'' example_protocol = JStr []"
  unfolding example_protocol_def json_get_def json_field.simps map_of.simps by (simp_all del: replicate.simps)

lemma example_protocol_keys: "exact_keys example_protocol protocol_keys"
proof -
  have "json_keys example_protocol = protocol_keys"
    unfolding example_protocol_def protocol_keys_def json_keys.simps list.map fst_conv ..
  then show ?thesis unfolding exact_keys_def by (simp add: example_protocol_def)
qed

lemma example_protocol_images:
  "exact_keys (JObj [(''agent'', JStr i), (''evaluator'', JStr i)]) [''agent'', ''evaluator'']"
  "json_get ''agent'' (JObj [(''agent'', JStr i), (''evaluator'', JStr i)]) = JStr i"
  "json_get ''evaluator'' (JObj [(''agent'', JStr i), (''evaluator'', JStr i)]) = JStr i"
  by (simp_all add: exact_keys_def json_get_def)

lemma example_image_ok: "is_image_id example_image"
  by code_simp

lemma example_protocol_valid:
  "validate_benchmark_protocol schema_valid (\<lambda>_. []) example_protocol = Inr example_protocol"
proof -
  obtain us where us: "map_result (\<lambda>(task, expected). protocol_task_ok task expected)
     (zip (map (\<lambda>task. protocol_task_json task (example_loaded task)) heldout_ids) heldout_ids) = Inr us"
    using example_protocol_tasks by blast
  have "protocol_identity_ok (\<lambda>_. []) example_protocol" "protocol_registry_ok (\<lambda>_. []) example_protocol"
    by (simp_all add: protocol_identity_ok_def protocol_registry_ok_def example_protocol_get)
  moreover have "validate_config schema_valid (config_json example_config) = Inr example_config"
    using example_config_wf config_accepted by (simp add: validate_config_iff [OF standard.json_validator_axioms])
  ultimately show ?thesis
    unfolding validate_benchmark_protocol_def example_protocol_get
    by (simp add: us example_protocol_keys example_protocol_images example_image_ok example_strings(9)
        del: replicate.simps)
qed

theorem protocol_identity_pins_witness:
  "validate_benchmark_protocol schema_valid (\<lambda>_. []) example_protocol = Inr example_protocol \<and>
    map (\<lambda>t. json_str (json_get ''id'' t)) (json_items (json_get ''tasks'' example_protocol)) = heldout_ids"
  using protocol_identity_pins [OF example_protocol_valid example_protocol_valid refl refl] example_protocol_valid
  by blast

lemma example_frozen_tasks:
  "\<forall>task \<in> set ids. is_task_id task \<Longrightarrow>
     \<exists>us. map_result (verify_frozen_task schema_valid example_sha example_roots)
       (map (\<lambda>task. protocol_task_json task (example_loaded task)) ids) = Inr us"
proof (induction ids)
  case (Cons task ids)
  have "verify_frozen_task schema_valid example_sha example_roots
      (protocol_task_json task (example_loaded task)) = Inr ()"
    using Cons.prems example_load [of task] by (simp add: verify_frozen_task_def protocol_task_json_def json_get_def)
  with Cons show ?case by auto
qed simp

lemma example_verified:
  "verify_benchmark_execution schema_valid example_sha (\<lambda>_. []) example_protocol example_execution = Inr ()"
proof -
  obtain us where us: "map_result (verify_frozen_task schema_valid example_sha example_roots)
      (map (\<lambda>task. protocol_task_json task (example_loaded task)) heldout_ids) = Inr us"
    using example_frozen_tasks heldout_task_ids by blast
  have "execution_matches example_protocol example_execution"
    unfolding execution_matches_def example_protocol_get example_protocol_images
    by (simp add: example_execution_def corpus_json_def json_get_def combined_corpus_def del: replicate.simps)
  then show ?thesis
    unfolding verify_benchmark_execution_def example_protocol_valid bind_result_simps example_protocol_get
    by (simp add: example_execution_def us)
qed

theorem benchmark_content_frozen_witness:
  "\<exists>t. load_task_definition schema_valid example_sha ''07-tenant-authorization'' example_roots = Inr t"
proof -
  have "''07-tenant-authorization'' \<in> set heldout_ids" by code_simp
  from benchmark_content_frozen [OF standard.json_validator_axioms example_verified example_verified this]
  show ?thesis by (auto simp: example_execution_def)
qed

text \<open>The source hash sees nothing below a directory of dependencies or a cache: trees that agree once
  those entries are removed have the same hash, and a symbolic link anywhere else is refused in
  both or in neither.\<close>

theorem source_hash_scope:
  assumes "\<forall>path \<in> set source_inputs. map_option prune (tree path) = map_option prune (tree' path)"
  shows "source_content_hash sha digest tree = source_content_hash sha digest tree'"
proof -
  have "(case tree path of None \<Rightarrow> Inl (SourceMissing path) | Some entry \<Rightarrow> source_visit sha path entry) =
      (case tree' path of None \<Rightarrow> Inl (SourceMissing path) | Some entry \<Rightarrow> source_visit sha path entry)"
    if "path \<in> set source_inputs" for path
  proof (cases "tree path")
    case None
    with assms that show ?thesis by (cases "tree' path") auto
  next
    case (Some e)
    with assms that obtain e' where e': "tree' path = Some e'" "prune e = prune e'"
      by (cases "tree' path") auto
    have "source_visit sha path e = source_visit sha path (prune e)" by (simp only: source_visit_prune)
    also have "\<dots> = source_visit sha path e'" by (simp only: e'(2) source_visit_prune)
    finally show ?thesis by (simp add: Some e')
  qed
  then have "map_result (\<lambda>path. case tree path of None \<Rightarrow> Inl (SourceMissing path) | Some entry \<Rightarrow> source_visit sha path entry)
        source_inputs =
      map_result (\<lambda>path. case tree' path of None \<Rightarrow> Inl (SourceMissing path) | Some entry \<Rightarrow> source_visit sha path entry)
        source_inputs"
    by (rule map_result_cong)
  then show ?thesis unfolding source_content_hash_def by (simp only:)
qed

theorem source_hash_scope_witness:
  "source_content_hash rev (\<lambda>_. []) (\<lambda>_. Some (FsDir [(''target'', FsLink), (''a'', FsFile ''x'')])) =
    source_content_hash rev (\<lambda>_. []) (\<lambda>_. Some (FsDir [(''a'', FsFile ''x'')]))"
  by (rule source_hash_scope) (simp add: ignored_names_def)

end
