(* ===== verification/Submission.thy ===== *)
theory Submission
  imports Task_Definition Schedule
begin

section \<open>Workspaces and submissions (src/evaluation/workspace.ts)\<close>

text \<open>
  Materializing the fixture of a task, exporting what an agent changed, and applying an export to a
  fresh copy. A workspace that is scanned is a tree; one that is written is the state of its files
  and directories, so that writing over a directory or below a file fails as it does in the file
  system. A string stands for the bytes of a file; \<open>sc_bytes\<close> holds the bytes that the base64 text of
  a change stands for. The setup command of a task is a parameter.
\<close>

subsection \<open>Files and directories\<close>

record workspace =
  ws_files :: "string \<Rightarrow> string option"
  ws_dirs :: "string \<Rightarrow> bool"

definition empty_workspace :: workspace where
  "empty_workspace = \<lparr>ws_files = Map.empty, ws_dirs = (\<lambda>_. False)\<rparr>"

datatype workspace_error =
    WorkspacePath task_error
  | WorkspaceNotEmpty
  | NotDirectory string
  | IsDirectory string
  | AlreadyThere string
  | SourceMissing string
  | MaterializedMismatch string
  | SetupEmpty
  | SetupFailed
  | ForbiddenSymlink string
  | NonRegularFile string
  | InvalidExport
  | DuplicateSubmissionPath string
  | DeletedWithBytes string
  | MissingBytes string
  | ContentMismatch string
  | AggregateHash
  | RejectedSubmission
  | WrongFixture
  | OutsideAllowlist string

text \<open>The directories a path lies in, below the root of the workspace.\<close>

definition parents :: "string \<Rightarrow> string list" where
  "parents path = map (\<lambda>i. take i path) (filter (\<lambda>i. path ! i = CHR ''/'') [0..<length path])"

definition make_parents :: "string \<Rightarrow> workspace \<Rightarrow> workspace_error + workspace" where
  "make_parents path w =
     (if list_ex (\<lambda>d. ws_files w d \<noteq> None) (parents path) then Inl (NotDirectory path)
      else Inr (w\<lparr>ws_dirs := (\<lambda>d. ws_dirs w d \<or> d \<in> set (parents path))\<rparr>))"

definition write_bytes :: "string \<Rightarrow> string \<Rightarrow> workspace \<Rightarrow> workspace_error + workspace" where
  "write_bytes path bytes w =
     (if ws_dirs w path then Inl (IsDirectory path) else Inr (w\<lparr>ws_files := (ws_files w)(path \<mapsto> bytes)\<rparr>))"

text \<open>\<open>rm\<close> with \<open>force\<close> passes over a file that is not there.\<close>

definition remove_file :: "string \<Rightarrow> workspace \<Rightarrow> workspace_error + workspace" where
  "remove_file path w =
     (if ws_dirs w path then Inl (IsDirectory path)
      else if list_ex (\<lambda>d. ws_files w d \<noteq> None) (parents path) then Inl (NotDirectory path)
      else Inr (w\<lparr>ws_files := (ws_files w)(path := None)\<rparr>))"

subsection \<open>Materializing a task\<close>

definition copy_exclusive :: "(string \<Rightarrow> string option) \<Rightarrow> string \<Rightarrow> workspace \<Rightarrow> workspace_error + workspace \<times> string" where
  "copy_exclusive source path w =
     (case source path of
        None \<Rightarrow> Inl (SourceMissing path)
      | Some bytes \<Rightarrow>
          if ws_files w path \<noteq> None \<or> ws_dirs w path then Inl (AlreadyThere path)
          else bind_result (write_bytes path bytes w) (\<lambda>w'. Inr (w', bytes)))"

fun copy_files :: "(string \<Rightarrow> string) \<Rightarrow> (string \<Rightarrow> string option) \<Rightarrow> task_file list \<Rightarrow> workspace
    \<Rightarrow> workspace_error + workspace" where
  "copy_files sha source [] w = Inr w"
| "copy_files sha source (file # rest) w =
     (case assert_safe_relative_path (tf_path file) of
        Inl e \<Rightarrow> Inl (WorkspacePath e)
      | Inr path \<Rightarrow>
          bind_result (make_parents path w) (\<lambda>w1.
          bind_result (copy_exclusive source path w1) (\<lambda>(w2, bytes).
          if sha bytes \<noteq> tf_sha file then Inl (MaterializedMismatch path)
          else copy_files sha source rest w2)))"

text \<open>The directory a task is materialized in, by what is listed there if it exists.\<close>

definition ensure_fresh_directory :: "string list option \<Rightarrow> workspace_error + workspace" where
  "ensure_fresh_directory listing =
     (case listing of Some (_ # _) \<Rightarrow> Inl WorkspaceNotEmpty | _ \<Rightarrow> Inr empty_workspace)"

text \<open>What the setup command leaves in the workspace is a parameter, \<open>None\<close> when it fails or times out.\<close>

definition run_setup :: "(string list \<Rightarrow> workspace \<Rightarrow> workspace option) \<Rightarrow> task_definition \<Rightarrow> workspace
    \<Rightarrow> workspace_error + workspace" where
  "run_setup spawn task w =
     (case td_setup task of
        [] \<Rightarrow> Inl SetupEmpty
      | command # _ \<Rightarrow>
          if command = [] then Inl SetupEmpty
          else case spawn (td_setup task) w of None \<Rightarrow> Inl SetupFailed | Some w' \<Rightarrow> Inr w')"

text \<open>\<open>source\<close> gives the files below the fixture root.\<close>

definition materialize_task :: "(string \<Rightarrow> string) \<Rightarrow> (string \<Rightarrow> string option)
    \<Rightarrow> (string list \<Rightarrow> workspace \<Rightarrow> workspace option) \<Rightarrow> string list option \<Rightarrow> loaded_task
    \<Rightarrow> workspace_error + workspace" where
  "materialize_task sha source spawn listing task =
     bind_result (ensure_fresh_directory listing) (\<lambda>fresh.
     bind_result (copy_files sha source (td_files (lt_definition task)) fresh)
       (run_setup spawn (lt_definition task)))"

subsection \<open>Scanning a workspace\<close>

fun scan_entry :: "string \<Rightarrow> fs_entry \<Rightarrow> workspace_error + (string \<times> string) list"
and scan_entries :: "string \<Rightarrow> (string \<times> fs_entry) list
    \<Rightarrow> (string \<times> (workspace_error + (string \<times> string) list)) list" where
  "scan_entry path (FsFile content) = Inr [(path, content)]"
| "scan_entry path (FsDir entries) = first_error (sort_entries code_unit_le (scan_entries path entries))"
| "scan_entry path FsLink = Inl (ForbiddenSymlink path)"
| "scan_entry path FsOther = Inl (NonRegularFile path)"
| "scan_entries dir [] = []"
| "scan_entries dir ((name, entry) # rest) =
     (if dir = [] \<and> (name = ''node_modules'' \<or> name = ''.git'') then []
      else
        let path = (if dir = [] then name else dir @ ''/'' @ name)
        in [(name, case assert_safe_relative_path path of
               Inl e \<Rightarrow> Inl (WorkspacePath e) | Inr p \<Rightarrow> scan_entry p entry)])
     @ scan_entries dir rest"

definition scan_workspace :: "(string \<times> fs_entry) list \<Rightarrow> workspace_error + (string \<times> string) list" where
  "scan_workspace tree = scan_entry [] (FsDir tree)"

subsection \<open>Submissions\<close>

datatype change_kind = ChangeAdd | ChangeModify | ChangeDelete

record submission_change =
  sc_path :: string
  sc_kind :: change_kind
  sc_sha :: "string option"
  sc_bytes :: "string option"

datatype violation =
    ProtectedChanged string
  | FileTooLarge string
  | ExtensionNotAllowed string

fun violation_text :: "nat \<Rightarrow> violation \<Rightarrow> string" where
  "violation_text limit (ProtectedChanged path) = ''protected or non-editable path changed: '' @ path"
| "violation_text limit (FileTooLarge path) = ''file exceeds '' @ nat_string limit @ '' bytes: '' @ path"
| "violation_text limit (ExtensionNotAllowed path) = ''new file extension is not allowed: '' @ path"

record submission_export =
  sx_task :: string
  sx_source :: string
  sx_accepted :: bool
  sx_violations :: "string list"
  sx_changes :: "submission_change list"
  sx_hash :: string

definition is_editable :: "task_definition \<Rightarrow> string \<Rightarrow> bool" where
  "is_editable task path \<longleftrightarrow> list_ex (\<lambda>directory. prefix (directory @ ''/'') path) (td_editable task)"

fun kind_name :: "change_kind \<Rightarrow> string" where
  "kind_name ChangeAdd = ''add''"
| "kind_name ChangeModify = ''modify''"
| "kind_name ChangeDelete = ''delete''"

definition submission_hash :: "(string \<Rightarrow> string) \<Rightarrow> submission_change list \<Rightarrow> string" where
  "submission_hash sha changes = sha (concat (map (\<lambda>c.
     sc_path c @ [nul] @ kind_name (sc_kind c) @ [nul] @ (case sc_sha c of None \<Rightarrow> [] | Some h \<Rightarrow> h) @ [nul]) changes))"

definition submission_schema_ok :: "submission_export \<Rightarrow> bool" where
  "submission_schema_ok s \<longleftrightarrow>
     is_task_id (sx_task s) \<and> is_hash (sx_source s) \<and> is_hash (sx_hash s) \<and> list_all (\<lambda>v. v \<noteq> []) (sx_violations s) \<and>
     list_all (\<lambda>c. sc_path c \<noteq> [] \<and> (case sc_sha c of None \<Rightarrow> True | Some h \<Rightarrow> is_hash h)) (sx_changes s)"

fun check_changes :: "(string \<Rightarrow> string) \<Rightarrow> string list \<Rightarrow> submission_change list \<Rightarrow> workspace_error + unit" where
  "check_changes sha seen [] = Inr ()"
| "check_changes sha seen (c # rest) =
     (if \<not> safe_relative_path (sc_path c) then Inl (WorkspacePath UnsafePath)
      else if sc_path c \<in> set seen then Inl (DuplicateSubmissionPath (sc_path c))
      else if sc_kind c = ChangeDelete \<and> (sc_sha c \<noteq> None \<or> sc_bytes c \<noteq> None)
      then Inl (DeletedWithBytes (sc_path c))
      else if sc_kind c \<noteq> ChangeDelete \<and> (sc_sha c = None \<or> sc_bytes c = None)
      then Inl (MissingBytes (sc_path c))
      else if sc_kind c \<noteq> ChangeDelete \<and> map_option sha (sc_bytes c) \<noteq> sc_sha c
      then Inl (ContentMismatch (sc_path c))
      else check_changes sha (sc_path c # seen) rest)"

definition validate_submission_export :: "(string \<Rightarrow> string) \<Rightarrow> submission_export
    \<Rightarrow> workspace_error + submission_export" where
  "validate_submission_export sha s =
     (if \<not> submission_schema_ok s then Inl InvalidExport
      else bind_result (check_changes sha [] (sx_changes s)) (\<lambda>_.
        if submission_hash sha (sx_changes s) \<noteq> sx_hash s then Inl AggregateHash else Inr s))"

subsection \<open>Exporting\<close>

text \<open>\<open>extname\<close> of a path: from the last dot of its last segment, unless that is its first character.\<close>

definition extname :: "string \<Rightarrow> string" where
  "extname path =
     (let base = last (path_segments path);
          dots = filter (\<lambda>i. base ! i = CHR ''.'') [0..<length base]
      in if dots = [] \<or> last dots = 0 then [] else drop (last dots) base)"

datatype path_verdict = Unchanged | Violates violation | Changes submission_change

definition judge_path :: "(string \<Rightarrow> string) \<Rightarrow> task_definition \<Rightarrow> (string \<times> string) list \<Rightarrow> string \<Rightarrow> path_verdict" where
  "judge_path sha task current path =
     (let original = map_option tf_sha (map_of (rev (map (\<lambda>f. (tf_path f, f)) (td_files task))) path);
          bytes = map_of current path;
          current_hash = map_option sha bytes
      in if original \<noteq> None \<and> original = current_hash then Unchanged
         else if path \<in> set (td_protected task) \<or> \<not> is_editable task path then Violates (ProtectedChanged path)
         else case bytes of
           None \<Rightarrow> Changes \<lparr>sc_path = path, sc_kind = ChangeDelete, sc_sha = None, sc_bytes = None\<rparr>
         | Some b \<Rightarrow>
             if td_max_file_bytes task < length b then Violates (FileTooLarge path)
             else if original = None \<and> extname path \<notin> set (td_extensions task)
             then Violates (ExtensionNotAllowed path)
             else Changes \<lparr>sc_path = path, sc_kind = (if original = None then ChangeAdd else ChangeModify),
               sc_sha = current_hash, sc_bytes = Some b\<rparr>)"

definition verdict_violations :: "path_verdict list \<Rightarrow> violation list" where
  "verdict_violations vs = concat (map (\<lambda>v. case v of Violates x \<Rightarrow> [x] | _ \<Rightarrow> []) vs)"

definition verdict_changes :: "path_verdict list \<Rightarrow> submission_change list" where
  "verdict_changes vs = concat (map (\<lambda>v. case v of Changes c \<Rightarrow> [c] | _ \<Rightarrow> []) vs)"

definition export_submission :: "(string \<Rightarrow> string) \<Rightarrow> loaded_task \<Rightarrow> (string \<times> fs_entry) list
    \<Rightarrow> workspace_error + submission_export" where
  "export_submission sha task tree =
     bind_result (scan_workspace tree) (\<lambda>current.
       let definition = lt_definition task;
           paths = sort_strings (new_set (map tf_path (td_files definition) @ map fst current));
           verdicts = map (judge_path sha definition current) paths;
           violations = verdict_violations verdicts;
           changes = (if violations = [] then verdict_changes verdicts else [])
       in validate_submission_export sha
            \<lparr>sx_task = td_id definition, sx_source = td_fixture_hash definition, sx_accepted = (violations = []),
             sx_violations = map (violation_text (td_max_file_bytes definition)) violations, sx_changes = changes, sx_hash = submission_hash sha changes\<rparr>)"

subsection \<open>Applying\<close>

fun apply_changes :: "task_definition \<Rightarrow> submission_change list \<Rightarrow> workspace \<Rightarrow> workspace_error + workspace" where
  "apply_changes task [] w = Inr w"
| "apply_changes task (c # rest) w =
     (if \<not> is_editable task (sc_path c) then Inl (OutsideAllowlist (sc_path c))
      else
        case assert_safe_relative_path (sc_path c) of
          Inl e \<Rightarrow> Inl (WorkspacePath e)
        | Inr target \<Rightarrow>
            bind_result
              (if sc_kind c = ChangeDelete then remove_file target w
               else bind_result (make_parents target w)
                      (write_bytes target (case sc_bytes c of None \<Rightarrow> [] | Some b \<Rightarrow> b)))
              (apply_changes task rest))"

definition apply_submission :: "loaded_task \<Rightarrow> submission_export \<Rightarrow> workspace \<Rightarrow> workspace_error + workspace" where
  "apply_submission task s w =
     (if \<not> sx_accepted s then Inl RejectedSubmission
      else if sx_task s \<noteq> td_id (lt_definition task) \<or> sx_source s \<noteq> td_fixture_hash (lt_definition task)
      then Inl WrongFixture
      else apply_changes (lt_definition task) (sx_changes s) w)"

subsection \<open>Paths of a scan\<close>

text \<open>What is passed over: the dependencies and the version control at the top of a workspace.\<close>

definition ignored_path :: "string \<Rightarrow> bool" where
  "ignored_path p \<longleftrightarrow> takeWhile (\<lambda>c. c \<noteq> CHR ''/'') p \<in> {''node_modules'', ''.git''}"

lemma takeWhile_stop: "\<not> P c \<Longrightarrow> takeWhile P (xs @ c # ys) = takeWhile P xs"
  by (induction xs) auto

lemma ignored_parent: "d \<in> set (parents p) \<Longrightarrow> ignored_path d = ignored_path p"
proof -
  assume "d \<in> set (parents p)"
  then obtain i where i: "i < length p" "p ! i = CHR ''/''" "d = take i p" by (auto simp: parents_def)
  have "p = take i p @ CHR ''/'' # drop (Suc i) p" using i(1,2) by (metis id_take_nth_drop)
  then have "takeWhile (\<lambda>c. c \<noteq> CHR ''/'') p = takeWhile (\<lambda>c. c \<noteq> CHR ''/'') (take i p)"
    using takeWhile_stop [of "\<lambda>c. c \<noteq> CHR ''/''" "CHR ''/''" "take i p" "drop (Suc i) p"] by simp
  then show ?thesis by (simp add: ignored_path_def i(3))
qed

lemma first_error_member:
  assumes "first_error rs = Inr files" "x \<in> set files"
  shows "\<exists>name fs. (name, Inr fs) \<in> set rs \<and> x \<in> set fs"
  using assms
proof (induction rs arbitrary: files)
  case (Cons r rs)
  then show ?case by (cases r) (auto, blast+)
qed simp

lemma scan_below:
  "scan_entry path entry = Inr files \<Longrightarrow> path \<noteq> [] \<Longrightarrow> x \<in> set files \<Longrightarrow> fst x = path \<or> prefix (path @ ''/'') (fst x)"
  "(name, Inr files) \<in> set (scan_entries dir entries) \<Longrightarrow> x \<in> set files \<Longrightarrow> dir \<noteq> [] \<Longrightarrow> prefix (dir @ ''/'') (fst x)"
proof (induction path entry and dir entries arbitrary: files and name files rule: scan_entry_scan_entries.induct)
  case (2 path entries)
  obtain name fs where "(name, Inr fs) \<in> set (sort_entries code_unit_le (scan_entries path entries))" "x \<in> set fs"
    using first_error_member [OF 2(2) [unfolded scan_entry.simps] 2(4)] by blast
  then show ?case using 2(1) 2(3) by auto
next
  case (6 dir n entry rest)
  show ?case
  proof (cases "(name, Inr files) \<in> set (scan_entries dir rest)")
    case True
    then show ?thesis using 6(2) 6(4,5) by blast
  next
    case False
    then have "scan_entry (dir @ ''/'' @ n) entry = Inr files"
      using 6(3,5) by (simp add: assert_safe_relative_path_def Let_def split: if_splits)
    moreover have "assert_safe_relative_path (dir @ ''/'' @ n) = Inr (dir @ ''/'' @ n)"
      using False 6(3,5) by (simp add: assert_safe_relative_path_def Let_def split: if_splits)
    ultimately have "fst x = dir @ ''/'' @ n \<or> prefix ((dir @ ''/'' @ n) @ ''/'') (fst x)"
      using 6(1) 6(4,5) by simp
    then show ?thesis by (auto simp: prefix_def)
  qed
qed (auto split: if_splits)

lemma scan_not_ignored:
  assumes "scan_workspace tree = Inr current" "list_all (\<lambda>(name, _). CHR ''/'' \<notin> set name \<and> name \<noteq> []) tree" "x \<in> set current"
  shows "\<not> ignored_path (fst x)"
proof -
  obtain name fs where n: "(name, Inr fs) \<in> set (scan_entries [] tree)" "x \<in> set fs"
    using first_error_member [OF assms(1) [unfolded scan_workspace_def scan_entry.simps] assms(3)] by auto
  have "\<exists>entry. scan_entry name entry = Inr fs \<and> name \<notin> {''node_modules'', ''.git''} \<and> CHR ''/'' \<notin> set name \<and> name \<noteq> []"
    if t: "(name, Inr fs) \<in> set (scan_entries [] t)" "list_all (\<lambda>(name, _). CHR ''/'' \<notin> set name \<and> name \<noteq> []) t" for t
    using t
  proof (induction t)
    case (Cons a t)
    obtain n entry where a: "a = (n, entry)" by (cases a)
    show ?case
    proof (cases "(name, Inr fs) \<in> set (scan_entries [] t)")
      case True
      then show ?thesis using Cons.IH Cons.prems(2) by simp
    next
      case False
      then show ?thesis
        using Cons.prems a
        by (intro exI [of _ entry]) (simp add: assert_safe_relative_path_def Let_def split: if_splits)
    qed
  qed simp
  then obtain entry where e: "scan_entry name entry = Inr fs" "name \<notin> {''node_modules'', ''.git''}" "CHR ''/'' \<notin> set name" "name \<noteq> []"
    using n(1) assms(2) by blast
  have name: "takeWhile (\<lambda>c. c \<noteq> CHR ''/'') name = name" using e(3) by (auto simp: takeWhile_eq_all_conv)
  consider "fst x = name" | ys where "fst x = name @ CHR ''/'' # ys"
    using scan_below(1) [OF e(1,4) n(2)] by (auto simp: prefix_def)
  then have "takeWhile (\<lambda>c. c \<noteq> CHR ''/'') (fst x) = name"
    using name by cases (simp_all add: takeWhile_stop [of "\<lambda>c. c \<noteq> CHR ''/''" "CHR ''/''"])
  with e(2) show ?thesis by (simp add: ignored_path_def)
qed

subsection \<open>Materializing\<close>

text \<open>What one file of the fixture leaves.\<close>

definition placed :: "string \<Rightarrow> string \<Rightarrow> workspace \<Rightarrow> workspace" where
  "placed path bytes w = w\<lparr>ws_dirs := (\<lambda>d. ws_dirs w d \<or> d \<in> set (parents path)), ws_files := (ws_files w)(path \<mapsto> bytes)\<rparr>"

lemma write_placed:
  "make_parents path w = Inr w1 \<Longrightarrow> write_bytes path bytes w1 = Inr w2 \<Longrightarrow> w2 = placed path bytes w"
  by (auto simp: make_parents_def write_bytes_def placed_def split: if_splits)

lemma copy_exclusive_written:
  "copy_exclusive source path w = Inr (w', bytes) \<Longrightarrow> source path = Some bytes \<and> write_bytes path bytes w = Inr w'"
  by (cases "source path"; cases "write_bytes path (the (source path)) w") (auto simp: copy_exclusive_def split: if_splits)

lemma copy_files_step:
  assumes "copy_files sha source (g # files) w = Inr w'"
  obtains bytes where "source (tf_path g) = Some bytes" "sha bytes = tf_sha g"
    "copy_files sha source files (placed (tf_path g) bytes w) = Inr w'"
proof -
  obtain w1 where w1: "make_parents (tf_path g) w = Inr w1"
    and c: "bind_result (copy_exclusive source (tf_path g) w1) (\<lambda>(w2, bytes).
      if sha bytes \<noteq> tf_sha g then Inl (MaterializedMismatch (tf_path g)) else copy_files sha source files w2) = Inr w'"
    using assms by (cases "make_parents (tf_path g) w") (simp_all add: assert_safe_relative_path_def split: if_splits)
  obtain w2 bytes where w2: "copy_exclusive source (tf_path g) w1 = Inr (w2, bytes)"
    using c by (cases "copy_exclusive source (tf_path g) w1") auto
  show ?thesis
    using that [of bytes] c w2 copy_exclusive_written [OF w2] write_placed [OF w1] by (simp split: if_splits)
qed

lemma copy_files_result:
  assumes "copy_files sha source files w = Inr w'"
  shows "ws_files w' p = (if p \<in> set (map tf_path files) then source p else ws_files w p) \<and>
    ws_dirs w' d = (ws_dirs w d \<or> (\<exists>f \<in> set files. d \<in> set (parents (tf_path f)))) \<and>
    (\<forall>f \<in> set files. \<exists>bytes. source (tf_path f) = Some bytes \<and> sha bytes = tf_sha f)"
  using assms
proof (induction files arbitrary: w)
  case (Cons g files)
  obtain bytes where b: "source (tf_path g) = Some bytes" "sha bytes = tf_sha g"
    and rest: "copy_files sha source files (placed (tf_path g) bytes w) = Inr w'"
    using copy_files_step [OF Cons.prems] by metis
  show ?case using Cons.IH [OF rest] b by (auto simp: placed_def)
qed simp

subsection \<open>Applying changes\<close>

text \<open>What a list of changes leaves at a path, the last change of it counting.\<close>

definition changed_file :: "submission_change \<Rightarrow> string option" where
  "changed_file c = (if sc_kind c = ChangeDelete then None
     else Some (case sc_bytes c of None \<Rightarrow> [] | Some b \<Rightarrow> b))"

lemma apply_changes_files:
  assumes "apply_changes task changes w = Inr w'" "distinct (map sc_path changes)"
  shows "ws_files w' p = (case find (\<lambda>c. sc_path c = p) changes of None \<Rightarrow> ws_files w p | Some c \<Rightarrow> changed_file c) \<and>
    (\<forall>c \<in> set changes. is_editable task (sc_path c) \<and> safe_relative_path (sc_path c))"
  using assms
proof (induction changes arbitrary: w)
  case (Cons b changes)
  obtain w1 where w1: "(if sc_kind b = ChangeDelete then remove_file (sc_path b) w
      else bind_result (make_parents (sc_path b) w)
        (write_bytes (sc_path b) (case sc_bytes b of None \<Rightarrow> [] | Some b \<Rightarrow> b))) = Inr w1"
    and rest: "apply_changes task changes w1 = Inr w'" and ok: "is_editable task (sc_path b)" "safe_relative_path (sc_path b)"
    using Cons.prems(1) by (auto simp: assert_safe_relative_path_def split: if_splits)
  have files: "ws_files w1 = (ws_files w)(sc_path b := changed_file b)"
    using w1 by (auto simp: remove_file_def make_parents_def write_bytes_def changed_file_def split: if_splits)
  have "find (\<lambda>c. sc_path c = sc_path b) changes = None" using Cons.prems(2) by (simp add: find_None_iff) (metis image_eqI)
  then show ?case using Cons.IH [OF rest] Cons.prems(2) files ok by (auto split: option.splits)
qed simp

text \<open>Paths of files: none of them is a directory of another.\<close>

definition no_nesting :: "string set \<Rightarrow> bool" where
  "no_nesting P \<longleftrightarrow> (\<forall>p \<in> P. \<forall>q \<in> P. p \<notin> set (parents q))"

definition room_for :: "string set \<Rightarrow> workspace \<Rightarrow> bool" where
  "room_for P w \<longleftrightarrow> (\<forall>p. \<not> ignored_path p \<longrightarrow> ws_files w p \<noteq> None \<longrightarrow> p \<in> P) \<and>
     (\<forall>d. \<not> ignored_path d \<longrightarrow> ws_dirs w d \<longrightarrow> (\<exists>q \<in> P. d \<in> set (parents q)))"

lemma room_parents:
  assumes "room_for P w" "no_nesting P" "p \<in> P" "\<not> ignored_path p"
  shows "\<not> ws_dirs w p" "\<not> list_ex (\<lambda>d. ws_files w d \<noteq> None) (parents p)"
proof -
  show "\<not> ws_dirs w p" using assms by (auto simp: room_for_def no_nesting_def)
  have "ws_files w d = None" if "d \<in> set (parents p)" for d
    using assms that ignored_parent [OF that] unfolding room_for_def no_nesting_def by blast
  then show "\<not> list_ex (\<lambda>d. ws_files w d \<noteq> None) (parents p)" by (auto simp: list_ex_iff)
qed

lemma apply_changes_room:
  assumes "room_for P w" "no_nesting P"
    and "\<forall>c \<in> set changes. sc_path c \<in> P \<and> \<not> ignored_path (sc_path c) \<and> is_editable task (sc_path c) \<and>
      safe_relative_path (sc_path c)"
  shows "\<exists>w'. apply_changes task changes w = Inr w'"
  using assms(1,3)
proof (induction changes arbitrary: w)
  case (Cons c changes)
  have c: "sc_path c \<in> P" "\<not> ignored_path (sc_path c)" "is_editable task (sc_path c)" "safe_relative_path (sc_path c)"
    using Cons.prems(2) by auto
  note free = room_parents [OF Cons.prems(1) assms(2) c(1,2)]
  define w1 where "w1 = (if sc_kind c = ChangeDelete then w\<lparr>ws_files := (ws_files w)(sc_path c := None)\<rparr>
    else w\<lparr>ws_dirs := (\<lambda>d. ws_dirs w d \<or> d \<in> set (parents (sc_path c))),
      ws_files := (ws_files w)(sc_path c \<mapsto> (case sc_bytes c of None \<Rightarrow> [] | Some b \<Rightarrow> b))\<rparr>)"
  have self: "sc_path c \<notin> set (parents (sc_path c))" using assms(2) c(1) by (auto simp: no_nesting_def)
  have step: "(if sc_kind c = ChangeDelete then remove_file (sc_path c) w
      else bind_result (make_parents (sc_path c) w)
        (write_bytes (sc_path c) (case sc_bytes c of None \<Rightarrow> [] | Some b \<Rightarrow> b))) = Inr w1"
    using free self by (auto simp: remove_file_def make_parents_def write_bytes_def w1_def)
  have "room_for P w1"
    using Cons.prems(1) c(1) by (auto simp: room_for_def w1_def)
  then obtain w' where "apply_changes task changes w1 = Inr w'" using Cons.IH [of w1] Cons.prems(2) by auto
  then show ?case using c step by (simp add: assert_safe_relative_path_def)
qed simp

subsection \<open>What an export holds\<close>

lemma judged_path: "judge_path sha task current path = Changes c \<Longrightarrow> sc_path c = path"
  by (auto simp: judge_path_def Let_def split: if_splits option.splits)

lemma judged_change:
  assumes "judge_path sha task current path = Changes c"
  shows "is_editable task path \<and> path \<notin> set (td_protected task)"
    "changed_file c = map_of current path"
    "map_of current path = Some b \<Longrightarrow> length b \<le> td_max_file_bytes task \<and>
      (path \<in> set (map tf_path (td_files task)) \<or> extname path \<in> set (td_extensions task))"
proof -
  show "is_editable task path \<and> path \<notin> set (td_protected task)"
    using assms by (auto simp: judge_path_def Let_def split: if_splits)
  show "changed_file c = map_of current path"
    using assms by (cases "map_of current path") (auto simp: judge_path_def Let_def changed_file_def split: if_splits)
  have known: "map_of (rev (map (\<lambda>f. (tf_path f, f)) (td_files task))) path \<noteq> None \<Longrightarrow> path \<in> set (map tf_path (td_files task))"
    by (auto dest!: map_of_SomeD)
  show "length b \<le> td_max_file_bytes task \<and>
      (path \<in> set (map tf_path (td_files task)) \<or> extname path \<in> set (td_extensions task))" if "map_of current path = Some b"
    using assms that known by (cases "map_of (rev (map (\<lambda>f. (tf_path f, f)) (td_files task))) path")
      (auto simp: judge_path_def Let_def split: if_splits)
qed

lemma judged_unchanged:
  assumes "judge_path sha task current path = Unchanged"
  shows "\<exists>f bytes. map_of (rev (map (\<lambda>f. (tf_path f, f)) (td_files task))) path = Some f \<and>
    map_of current path = Some bytes \<and> sha bytes = tf_sha f"
  using assms by (cases "map_of current path") (auto simp: judge_path_def Let_def split: if_splits)

lemma set_verdict_changes: "c \<in> set (verdict_changes vs) \<longleftrightarrow> Changes c \<in> set vs"
  by (induction vs) (auto simp: verdict_changes_def split: path_verdict.splits)

lemma no_violation: "verdict_violations vs = [] \<longleftrightarrow> (\<forall>v \<in> set vs. \<forall>x. v \<noteq> Violates x)"
  by (induction vs) (auto simp: verdict_violations_def split: path_verdict.splits)

lemma judged_distinct:
  "distinct paths \<Longrightarrow> distinct (map sc_path (verdict_changes (map (judge_path sha task current) paths)))"
proof (induction paths)
  case (Cons path paths)
  have "path \<notin> sc_path ` set (verdict_changes (map (judge_path sha task current) paths))"
    using Cons.prems by (auto simp: set_verdict_changes dest!: judged_path [OF sym])
  then show ?case
    using Cons by (auto simp: verdict_changes_def dest!: judged_path split: path_verdict.splits)
qed (simp add: verdict_changes_def)

lemma find_judged:
  "find (\<lambda>c. sc_path c = p) (verdict_changes (map (judge_path sha task current) paths)) =
     (if p \<in> set paths then (case judge_path sha task current p of Changes c \<Rightarrow> Some c | _ \<Rightarrow> None) else None)"
proof (induction paths)
  case (Cons path paths)
  then show ?case
  proof (cases "judge_path sha task current path")
    case (Changes c)
    then show ?thesis using Cons by (cases "path = p") (auto simp: verdict_changes_def judged_path [OF Changes])
  qed (auto simp: verdict_changes_def)
qed (simp add: verdict_changes_def)

definition compared_paths :: "task_definition \<Rightarrow> (string \<times> string) list \<Rightarrow> string list" where
  "compared_paths task current = sort_strings (new_set (map tf_path (td_files task) @ map fst current))"

lemma compared_distinct: "distinct (compared_paths task current)"
  by (metis compared_paths_def mset_eq_imp_distinct_iff mset_sort_strings new_set_distinct)

lemma compared_set: "set (compared_paths task current) = tf_path ` set (td_files task) \<union> fst ` set current"
  by (simp add: compared_paths_def)

text \<open>An accepted export holds the verdict of every path, all of them changes or unchanged.\<close>

lemma accepted_export:
  assumes "export_submission sha task tree = Inr s" "sx_accepted s"
  obtains current where "scan_workspace tree = Inr current" "sx_task s = td_id (lt_definition task)"
    "sx_source s = td_fixture_hash (lt_definition task)"
    "sx_changes s = verdict_changes (map (judge_path sha (lt_definition task) current) (compared_paths (lt_definition task) current))"
    "\<forall>path \<in> set (compared_paths (lt_definition task) current). \<forall>x. judge_path sha (lt_definition task) current path \<noteq> Violates x"
    "check_changes sha [] (sx_changes s) = Inr ()"
proof -
  obtain current where current: "scan_workspace tree = Inr current"
    using assms(1) by (auto simp: export_submission_def)
  let ?vs = "map (judge_path sha (lt_definition task) current) (compared_paths (lt_definition task) current)"
  let ?v = "verdict_violations ?vs"
  let ?s = "\<lparr>sx_task = td_id (lt_definition task), sx_source = td_fixture_hash (lt_definition task), sx_accepted = (?v = []),
    sx_violations = map (violation_text (td_max_file_bytes (lt_definition task))) ?v, sx_changes = (if ?v = [] then verdict_changes ?vs else []),
    sx_hash = submission_hash sha (if ?v = [] then verdict_changes ?vs else [])\<rparr>"
  have v: "validate_submission_export sha ?s = Inr s"
    using assms(1) current by (simp add: export_submission_def compared_paths_def [symmetric] Let_def)
  then have s: "s = ?s" and check: "check_changes sha [] (sx_changes ?s) = Inr ()"
    by (auto simp: validate_submission_export_def simp del: submission_export.simps split: if_splits)
  then show ?thesis using that [OF current] assms(2) no_violation [of ?vs] by simp
qed

lemma checked_safe: "check_changes sha seen changes = Inr () \<Longrightarrow> c \<in> set changes \<Longrightarrow> safe_relative_path (sc_path c)"
  by (induction changes arbitrary: seen) (auto split: if_splits)

lemma confined_change:
  assumes "export_submission sha task tree = Inr s" "apply_submission task s w = Inr w'" "ws_files w' p \<noteq> ws_files w p"
  shows "is_editable (lt_definition task) p" "p \<notin> set (td_protected (lt_definition task))" "safe_relative_path p"
    "ws_files w' p = Some b \<Longrightarrow> length b \<le> td_max_file_bytes (lt_definition task) \<and>
      (p \<in> tf_path ` set (td_files (lt_definition task)) \<or> extname p \<in> set (td_extensions (lt_definition task)))"
proof -
  have acc: "sx_accepted s" and app: "apply_changes (lt_definition task) (sx_changes s) w = Inr w'"
    using assms(2) by (auto simp: apply_submission_def split: if_splits)
  obtain current where changes: "sx_changes s =
      verdict_changes (map (judge_path sha (lt_definition task) current) (compared_paths (lt_definition task) current))"
    and check: "check_changes sha [] (sx_changes s) = Inr ()"
    using accepted_export [OF assms(1) acc] by metis
  have files: "ws_files w' p = (case find (\<lambda>c. sc_path c = p) (sx_changes s) of None \<Rightarrow> ws_files w p | Some c \<Rightarrow> changed_file c)"
    using apply_changes_files [OF app] changes judged_distinct [OF compared_distinct] by simp
  then obtain c where found: "find (\<lambda>c. sc_path c = p) (sx_changes s) = Some c"
    using assms(3) by (cases "find (\<lambda>c. sc_path c = p) (sx_changes s)") auto
  then have c: "c \<in> set (sx_changes s)" by (auto simp: find_Some_iff)
  have judged: "judge_path sha (lt_definition task) current p = Changes c"
    using found unfolding changes find_judged by (auto split: if_splits path_verdict.splits)
  note j = judged_change [OF judged]
  show "is_editable (lt_definition task) p" "p \<notin> set (td_protected (lt_definition task))" using j(1) by simp_all
  show "safe_relative_path p" using checked_safe [OF check c] judged_path [OF judged] by simp
  show "length b \<le> td_max_file_bytes (lt_definition task) \<and>
      (p \<in> tf_path ` set (td_files (lt_definition task)) \<or> extname p \<in> set (td_extensions (lt_definition task)))"
    if "ws_files w' p = Some b"
    using j(2) j(3) [of b] that files found by simp
qed

subsection \<open>What applying an export restores\<close>

text \<open>A setup command that keeps to the dependencies and the version control.\<close>

definition setup_confined :: "(string list \<Rightarrow> workspace \<Rightarrow> workspace option) \<Rightarrow> bool" where
  "setup_confined spawn \<longleftrightarrow> (\<forall>argv w w'. spawn argv w = Some w' \<longrightarrow>
     (\<forall>p. \<not> ignored_path p \<longrightarrow> ws_files w' p = ws_files w p \<and> ws_dirs w' p = ws_dirs w p))"

lemma materialized:
  assumes "materialize_task sha source spawn listing task = Inr w" "setup_confined spawn"
  shows "\<not> ignored_path p \<Longrightarrow> ws_files w p = (if p \<in> tf_path ` set (td_files (lt_definition task)) then source p else None)"
    "tf_path ` set (td_files (lt_definition task)) \<subseteq> P \<Longrightarrow> room_for P w"
    "f \<in> set (td_files (lt_definition task)) \<Longrightarrow> \<exists>bytes. source (tf_path f) = Some bytes \<and> sha bytes = tf_sha f"
proof -
  obtain w0 where w0: "copy_files sha source (td_files (lt_definition task)) empty_workspace = Inr w0" and s: "spawn (td_setup (lt_definition task)) w0 = Some w"
    using assms(1) by (auto simp: materialize_task_def ensure_fresh_directory_def run_setup_def split: option.splits list.splits if_splits)
  note r = copy_files_result [OF w0]
  have same: "ws_files w p = ws_files w0 p \<and> ws_dirs w p = ws_dirs w0 p" if "\<not> ignored_path p" for p
    using assms(2) s that by (auto simp: setup_confined_def)
  show "ws_files w p = (if p \<in> tf_path ` set (td_files (lt_definition task)) then source p else None)" if "\<not> ignored_path p"
    using r same [OF that] by (simp add: empty_workspace_def)
  show "\<exists>bytes. source (tf_path f) = Some bytes \<and> sha bytes = tf_sha f" if "f \<in> set (td_files (lt_definition task))"
    using r that by blast
  show "room_for P w" if P: "tf_path ` set (td_files (lt_definition task)) \<subseteq> P"
    unfolding room_for_def
  proof (intro conjI allI impI)
    fix p assume "\<not> ignored_path p" "ws_files w p \<noteq> None"
    then show "p \<in> P" using r [of p] same P by (auto simp: empty_workspace_def split: if_splits)
  next
    fix d assume "\<not> ignored_path d" "ws_dirs w d"
    then show "\<exists>q \<in> P. d \<in> set (parents q)" using r [of _ d] same P by (auto simp: empty_workspace_def)
  qed
qed

text \<open>The hash tells the files of a workspace from those of the fixture.\<close>

definition hash_separates :: "(string \<Rightarrow> string) \<Rightarrow> (string \<Rightarrow> string option) \<Rightarrow> (string \<times> string) list \<Rightarrow> bool" where
  "hash_separates sha source current \<longleftrightarrow>
     (\<forall>(path, bytes) \<in> set current. \<forall>original. source path = Some original \<longrightarrow> sha bytes = sha original \<longrightarrow> bytes = original)"

lemma restored:
  assumes mat: "materialize_task sha source spawn listing task = Inr w0" and conf: "setup_confined spawn"
    and scan: "scan_workspace tree = Inr current" and names: "list_all (\<lambda>(name, _). CHR ''/'' \<notin> set name \<and> name \<noteq> []) tree"
    and exp: "export_submission sha task tree = Inr s" and acc: "sx_accepted s"
    and sep: "hash_separates sha source current"
    and fixture: "\<forall>f \<in> set (td_files (lt_definition task)). \<not> ignored_path (tf_path f)"
    and unnested: "no_nesting (tf_path ` set (td_files (lt_definition task)) \<union> fst ` set current)"
  shows "\<exists>w1. apply_submission task s w0 = Inr w1 \<and> (\<forall>p. \<not> ignored_path p \<longrightarrow> ws_files w1 p = map_of current p)"
proof -
  let ?task = "lt_definition task"
  let ?P = "tf_path ` set (td_files ?task) \<union> fst ` set current"
  let ?judge = "judge_path sha ?task current"
  have s: "sx_task s = td_id ?task" "sx_source s = td_fixture_hash ?task"
    "sx_changes s = verdict_changes (map ?judge (compared_paths ?task current))"
    "\<forall>path \<in> set (compared_paths ?task current). \<forall>x. ?judge path \<noteq> Violates x"
    "check_changes sha [] (sx_changes s) = Inr ()"
    by (rule accepted_export [OF exp acc], use scan in simp)+
  have usual: "\<not> ignored_path p" if "p \<in> ?P" for p
    using that fixture scan_not_ignored [OF scan names] by auto
  have change: "sc_path c \<in> ?P \<and> \<not> ignored_path (sc_path c) \<and> is_editable ?task (sc_path c) \<and> safe_relative_path (sc_path c)"
    if c: "c \<in> set (sx_changes s)" for c
  proof -
    obtain path where path: "path \<in> ?P" "?judge path = Changes c"
      using c unfolding s(3) set_verdict_changes by (metis compared_set imageE list.set_map)
    with judged_path [OF path(2)] judged_change(1) [OF path(2)] usual checked_safe [OF s(5) c] show ?thesis by simp
  qed
  obtain w1 where w1: "apply_changes ?task (sx_changes s) w0 = Inr w1"
    using apply_changes_room [OF materialized(2) [OF mat conf] unnested] change by blast
  have "ws_files w1 p = map_of current p" if p: "\<not> ignored_path p" for p
  proof -
    have w1p: "ws_files w1 p = (case find (\<lambda>c. sc_path c = p) (sx_changes s) of None \<Rightarrow> ws_files w0 p | Some c \<Rightarrow> changed_file c)"
      using apply_changes_files [OF w1] judged_distinct [OF compared_distinct] s(3) by simp
    show ?thesis
    proof (cases "p \<in> ?P")
      case False
      then have "p \<notin> set (compared_paths ?task current)" by (simp add: compared_set)
      then show ?thesis
        using w1p materialized(1) [OF mat conf p] False map_of_eq_None_iff [of current p] unfolding s(3) find_judged by simp
    next
      case True
      then have P: "p \<in> set (compared_paths ?task current)" by (simp add: compared_set)
      show ?thesis
      proof (cases "?judge p")
        case Unchanged
        obtain f bytes where f: "map_of (rev (map (\<lambda>f. (tf_path f, f)) (td_files ?task))) p = Some f"
          and bytes: "map_of current p = Some bytes" "sha bytes = tf_sha f"
          using judged_unchanged [OF Unchanged] by blast
        have member: "f \<in> set (td_files ?task)" "tf_path f = p" using map_of_SomeD [OF f] by auto
        obtain original where original: "source p = Some original" "sha original = tf_sha f"
          using materialized(3) [OF mat conf member(1)] member(2) by auto
        have "bytes = original"
          using sep map_of_SomeD [OF bytes(1)] original bytes(2) by (auto simp: hash_separates_def)
        then show ?thesis
          using w1p materialized(1) [OF mat conf p] member bytes(1) original(1) P Unchanged unfolding s(3) find_judged by auto
      next
        case (Violates x)
        then show ?thesis using s(4) P by blast
      next
        case (Changes c)
        then show ?thesis using w1p P judged_change(2) [OF Changes] unfolding s(3) find_judged by simp
      qed
    qed
  qed
  then show ?thesis using w1 acc s(1,2) by (auto simp: apply_submission_def)
qed

subsection \<open>Round trip and confinement\<close>

text \<open>C6: A submission carries over everything an agent did that the experiment keeps. Take a task
  materialized by a setup command that touches only the dependencies and the version control, and a
  workspace whose accepted export is applied to it. Then applying succeeds, and outside the
  dependencies and the version control the fresh copy holds exactly the files of the agent's
  workspace, with their contents: added and changed files are written, deleted files are gone and the
  others are those of the fixture. The hash is assumed to tell these files apart, and no file to be a
  directory of another.\<close>

theorem submission_roundtrip:
  assumes "materialize_task sha source spawn listing task = Inr w0" "setup_confined spawn"
    and "scan_workspace tree = Inr current" "list_all (\<lambda>(name, _). CHR ''/'' \<notin> set name \<and> name \<noteq> []) tree"
    and "export_submission sha task tree = Inr s" "sx_accepted s"
    and "hash_separates sha source current"
    and "\<forall>f \<in> set (td_files (lt_definition task)). \<not> ignored_path (tf_path f)"
    and "no_nesting (tf_path ` set (td_files (lt_definition task)) \<union> fst ` set current)"
  shows "\<exists>w1. apply_submission task s w0 = Inr w1 \<and>
    (\<forall>p. \<not> ignored_path p \<longrightarrow> ws_files w1 p = map_of current p)"
  by (rule restored [OF assms])

text \<open>C23: A submission cannot reach outside what a task gives to the agent. Whatever workspace an export is
  applied to, a file that differs afterwards lies in an editable directory and is not protected, its
  path is relative and stays below the workspace, and its contents keep to the size limit of the task;
  a file that the fixture does not have carries one of the extensions the task allows.\<close>

theorem submission_confined:
  assumes "export_submission sha task tree = Inr s" "apply_submission task s w = Inr w'" "ws_files w' p \<noteq> ws_files w p"
  shows "is_editable (lt_definition task) p \<and> p \<notin> set (td_protected (lt_definition task)) \<and> safe_relative_path p \<and>
    (\<forall>b. ws_files w' p = Some b \<longrightarrow> length b \<le> td_max_file_bytes (lt_definition task) \<and>
      (p \<in> tf_path ` set (td_files (lt_definition task)) \<or> extname p \<in> set (td_extensions (lt_definition task))))"
  using confined_change [OF assms] by blast

subsection \<open>A concrete submission\<close>

definition demo_task :: loaded_task where
  "demo_task = (example_loaded ''01-demo'')\<lparr>lt_definition := (example_task ''01-demo'')
     \<lparr>td_files := [\<lparr>tf_path = ''src/a.ts'', tf_sha = replicate 64 (CHR ''a'')\<rparr>], td_editable := [''src''],
      td_extensions := [''.ts''], td_protected := [''package.json''], td_max_file_bytes := 10,
      td_fixture_hash := replicate 64 (CHR ''b'')\<rparr>\<rparr>"

definition demo_source :: "string \<Rightarrow> string option" where
  "demo_source = [''src/a.ts'' \<mapsto> ''x'']"

definition demo_setup :: "string list \<Rightarrow> workspace \<Rightarrow> workspace option" where
  "demo_setup argv w = Some (w\<lparr>ws_files := (ws_files w)(''node_modules/m'' \<mapsto> ''m'')\<rparr>)"

definition demo_tree :: "(string \<times> fs_entry) list" where
  "demo_tree = [(''src'', FsDir [(''b.ts'', FsFile ''zz''), (''a.ts'', FsFile ''yy'')]),
     (''node_modules'', FsDir [(''m'', FsFile ''m'')])]"

definition demo_current :: "(string \<times> string) list" where
  "demo_current = [(''src/a.ts'', ''yy''), (''src/b.ts'', ''zz'')]"

definition demo_export :: submission_export where
  "demo_export = \<lparr>sx_task = ''01-demo'', sx_source = replicate 64 (CHR ''b''), sx_accepted = True, sx_violations = [],
     sx_changes = [\<lparr>sc_path = ''src/a.ts'', sc_kind = ChangeModify, sc_sha = Some (replicate 64 (CHR ''b'')), sc_bytes = Some ''yy''\<rparr>,
       \<lparr>sc_path = ''src/b.ts'', sc_kind = ChangeAdd, sc_sha = Some (replicate 64 (CHR ''b'')), sc_bytes = Some ''zz''\<rparr>],
     sx_hash = replicate 64 (CHR ''b'')\<rparr>"

lemma demo_paths:
  "safe_relative_path ''src/a.ts''" "safe_relative_path ''src/b.ts''" "safe_relative_path ''src''"
  "extname ''src/b.ts'' = ''.ts''" "parents ''src/a.ts'' = [''src'']" "parents ''src/b.ts'' = [''src'']"
  "\<not> ignored_path ''src/a.ts''" "\<not> ignored_path ''src/b.ts''" "ignored_path ''node_modules/m''"
  by code_simp+

lemma demo_scan: "scan_workspace demo_tree = Inr demo_current"
  by code_simp

lemma demo_exported: "export_submission example_sha demo_task demo_tree = Inr demo_export"
proof -
  let ?task = "lt_definition demo_task"
  have paths: "sort_strings (new_set (map tf_path (td_files ?task) @ map fst demo_current)) = [''src/a.ts'', ''src/b.ts'']"
    by (simp add: demo_task_def demo_current_def new_set_def sort_strings_def)
  have verdicts: "map (judge_path example_sha ?task demo_current) [''src/a.ts'', ''src/b.ts''] = map Changes (sx_changes demo_export)"
    by (simp add: judge_path_def demo_task_def example_task_def demo_current_def demo_export_def example_sha_simps
        is_editable_def demo_paths replicate_eq_replicate del: replicate.simps)
  have parts: "verdict_violations (map Changes cs) = []" "verdict_changes (map Changes cs) = cs" for cs
    by (induction cs) (simp_all add: verdict_violations_def verdict_changes_def)
  have hash: "submission_hash example_sha (sx_changes demo_export) = replicate 64 (CHR ''b'')"
    by (simp add: submission_hash_def demo_export_def example_sha_simps del: replicate.simps)
  have "is_hash (replicate 64 (CHR ''b''))" "is_task_id ''01-demo''" by code_simp+
  then have valid: "validate_submission_export example_sha demo_export = Inr demo_export"
    using hash by (simp add: validate_submission_export_def submission_schema_ok_def demo_export_def example_sha_simps
        demo_paths del: replicate.simps)
  have "export_submission example_sha demo_task demo_tree = validate_submission_export example_sha
      \<lparr>sx_task = td_id ?task, sx_source = td_fixture_hash ?task, sx_accepted = True, sx_violations = [],
       sx_changes = sx_changes demo_export, sx_hash = replicate 64 (CHR ''b'')\<rparr>"
    by (simp add: export_submission_def demo_scan paths verdicts parts hash Let_def del: list.map(2) replicate.simps)
  then show ?thesis using valid by (simp add: demo_task_def example_task_def demo_export_def)
qed

definition demo_workspace :: workspace where
  "demo_workspace = \<lparr>ws_files = [''src/a.ts'' \<mapsto> ''x'', ''node_modules/m'' \<mapsto> ''m''], ws_dirs = (\<lambda>d. d = ''src'')\<rparr>"

lemma demo_materialized: "materialize_task example_sha demo_source demo_setup (Some []) demo_task = Inr demo_workspace"
  by (simp add: materialize_task_def ensure_fresh_directory_def run_setup_def demo_task_def example_loaded_def example_task_def demo_paths assert_safe_relative_path_def
      make_parents_def copy_exclusive_def write_bytes_def empty_workspace_def demo_source_def example_sha_simps
      demo_setup_def demo_workspace_def del: replicate.simps)

theorem submission_roundtrip_witness:
  "\<exists>w1. apply_submission demo_task demo_export demo_workspace = Inr w1 \<and>
    ws_files w1 ''src/a.ts'' = Some ''yy'' \<and> ws_files w1 ''src/b.ts'' = Some ''zz''"
proof -
  have conf: "setup_confined demo_setup" by (auto simp: setup_confined_def demo_setup_def demo_paths)
  have names: "list_all (\<lambda>(name, _). CHR ''/'' \<notin> set name \<and> name \<noteq> []) demo_tree" by (simp add: demo_tree_def)
  have accepted: "sx_accepted demo_export" by (simp add: demo_export_def)
  have files: "td_files (lt_definition demo_task) = [\<lparr>tf_path = ''src/a.ts'', tf_sha = replicate 64 (CHR ''a'')\<rparr>]"
    by (simp add: demo_task_def)
  have sep: "hash_separates example_sha demo_source demo_current"
    by (auto simp: hash_separates_def demo_current_def demo_source_def example_sha_simps replicate_eq_replicate
        simp del: replicate.simps)
  have usual: "\<forall>f \<in> set (td_files (lt_definition demo_task)). \<not> ignored_path (tf_path f)" by (simp add: files demo_paths)
  have flat: "no_nesting (tf_path ` set (td_files (lt_definition demo_task)) \<union> fst ` set demo_current)"
    by (simp add: no_nesting_def files demo_current_def demo_paths)
  show ?thesis
    using submission_roundtrip [OF demo_materialized conf demo_scan names demo_exported accepted sep usual flat]
    by (auto simp: demo_paths demo_current_def)
qed

theorem submission_confined_witness:
  "\<exists>w1. apply_submission demo_task demo_export demo_workspace = Inr w1 \<and> is_editable (lt_definition demo_task) ''src/b.ts''"
proof -
  obtain w1 where w1: "apply_submission demo_task demo_export demo_workspace = Inr w1" "ws_files w1 ''src/b.ts'' = Some ''zz''"
    by (auto simp: apply_submission_def demo_export_def demo_task_def example_loaded_def example_task_def is_editable_def
        assert_safe_relative_path_def demo_paths make_parents_def write_bytes_def demo_workspace_def simp del: replicate.simps)
  have "ws_files w1 ''src/b.ts'' \<noteq> ws_files demo_workspace ''src/b.ts''" using w1(2) by (simp add: demo_workspace_def)
  then show ?thesis using submission_confined [OF demo_exported w1(1)] w1(1) by blast
qed

end
