(* ===== verification/Run_Events.thy ===== *)
theory Run_Events
  imports Routing_Decision
begin

section \<open>Run events (src/artifacts/run-artifacts.ts)\<close>

text \<open>
  The events of an attempt's log: their identity, kind and JSON payload, the schema Ajv compiles
  (one payload schema per kind), redaction of secrets, and the JSON of an event. The replacement of
  secrets inside the text of a string (three regular expressions) is the argument \<open>scrub\<close>;
  redaction by member name is modelled.
\<close>

subsection \<open>Data\<close>

datatype evidence_kind = MockEvidence | LiveEvidence | ReplayEvidence

record attempt_identity =
  ai_project :: string
  ai_session :: string
  ai_run :: string
  ai_attempt :: string
  ai_decision :: "string option"
  ai_experiment :: "string option"
  ai_task :: "string option"
  ai_repetition :: "nat option"

datatype event_kind =
    KindStartup | KindRouting | KindModelCall | KindTool | KindAuth | KindLifecycle | KindError
  | KindFinalization

record run_event =
  re_sequence :: nat
  re_timestamp :: string
  re_identity :: attempt_identity
  re_kind :: event_kind
  re_payload :: json

fun kind_string :: "event_kind \<Rightarrow> string" where
  "kind_string KindStartup = ''startup''"
| "kind_string KindRouting = ''routing''"
| "kind_string KindModelCall = ''model-call''"
| "kind_string KindTool = ''tool''"
| "kind_string KindAuth = ''auth''"
| "kind_string KindLifecycle = ''lifecycle''"
| "kind_string KindError = ''error''"
| "kind_string KindFinalization = ''finalization''"

definition event_kinds :: "event_kind list" where
  "event_kinds = [KindStartup, KindRouting, KindModelCall, KindTool, KindAuth, KindLifecycle, KindError,
     KindFinalization]"

subsection \<open>Schemas\<close>

definition enum_strings :: "string list \<Rightarrow> schema" where
  "enum_strings xs = Schema [KEnum (map JStr xs)]"

definition any_string :: schema where
  "any_string = Schema [KType [TString]]"

definition nullable_string :: schema where
  "nullable_string = Schema [KType [TString, TNull]]"

definition nullable_nonempty :: schema where
  "nullable_nonempty = Schema [KType [TString, TNull], KMinLength 1]"

definition count_schema :: schema where
  "count_schema = Schema [KType [TInteger], KMinimum 0]"

definition identity_schema :: schema where
  "identity_schema = Schema
     [KType [TObject],
      KRequired [''projectId'', ''piSessionId'', ''runId'', ''attemptId'', ''decisionId'', ''experimentId'',
        ''taskId'', ''repetition''],
      KClosed
        [(''projectId'', nonempty_string),
         (''piSessionId'', nonempty_string),
         (''runId'', nonempty_string),
         (''attemptId'', nonempty_string),
         (''decisionId'', nullable_nonempty),
         (''experimentId'', nullable_nonempty),
         (''taskId'', nullable_nonempty),
         (''repetition'', nullable_count)]]"

definition startup_schema :: schema where
  "startup_schema = Schema
     [KType [TObject],
      KRequired [''mode'', ''evidenceKind'', ''authProfile'', ''configHash''],
      KClosed
        [(''mode'', enum_strings [''weak-only'', ''strong-only'', ''routed'']),
         (''evidenceKind'', enum_strings [''mock'', ''live'', ''replay'']),
         (''authProfile'', any_string),
         (''configHash'', hash_string)]]"

definition routing_event_schema :: "(string \<Rightarrow> bool) \<Rightarrow> schema" where
  "routing_event_schema date_ok = Schema
     [KType [TObject],
      KRequired [''action''],
      KClosed
        [(''type'', enum_strings [''session'', ''decision'', ''model_lock'']),
         (''action'', enum_strings [''start'', ''pending'', ''persisted'', ''restored'', ''selected'',
            ''rejected'', ''decision-recorded'']),
         (''sessionId'', any_string),
         (''reason'', any_string),
         (''provider'', any_string),
         (''model'', any_string),
         (''observation'', enum_strings [''persisted'', ''resumed-selection'']),
         (''decision'', routing_decision_schema date_ok)]]"

definition requested_model_schema :: schema where
  "requested_model_schema = Schema
     [KType [TObject, TNull],
      KRequired [''provider'', ''model''],
      KClosed [(''provider'', any_string), (''model'', any_string)]]"

definition served_model_schema :: schema where
  "served_model_schema = Schema
     [KType [TObject],
      KRequired [''provider'', ''model'', ''providerReportedModelId''],
      KClosed [(''provider'', any_string), (''model'', any_string),
        (''providerReportedModelId'', nullable_string)]]"

definition call_usage_schema :: schema where
  "call_usage_schema = Schema
     [KType [TObject, TNull],
      KRequired [''inputTokens'', ''outputTokens'', ''cacheReadTokens'', ''cacheWriteTokens'',
        ''reasoningTokens'', ''totalTokens'', ''semantics''],
      KClosed
        [(''inputTokens'', count_schema),
         (''outputTokens'', count_schema),
         (''cacheReadTokens'', count_schema),
         (''cacheWriteTokens'', count_schema),
         (''reasoningTokens'', nullable_count),
         (''totalTokens'', count_schema),
         (''semantics'', Schema [KConst (JStr ''pi-exclusive-categories'')])]]"

definition model_call_schema :: schema where
  "model_call_schema = Schema
     [KType [TObject],
      KRequired [''action'', ''role'', ''callId''],
      KClosed
        [(''type'', Schema [KConst (JStr ''provider_call'')]),
         (''action'', enum_strings [''start'', ''end'']),
         (''role'', enum_strings [''classifier'', ''coding'', ''compaction'']),
         (''callId'', nonempty_string),
         (''outcome'', any_string),
         (''provider'', any_string),
         (''model'', any_string),
         (''providerReportedModelId'', nullable_string),
         (''inputTokens'', nullable_count),
         (''outputTokens'', nullable_count),
         (''cacheReadTokens'', nullable_count),
         (''cacheWriteTokens'', nullable_count),
         (''reasoningTokens'', nullable_count),
         (''totalTokens'', nullable_count),
         (''requestedModel'', requested_model_schema),
         (''servedModel'', served_model_schema),
         (''usage'', call_usage_schema),
         (''errorMessage'', any_string)]]"

definition tool_schema :: schema where
  "tool_schema = Schema
     [KType [TObject],
      KRequired [''action'', ''toolCallId'', ''toolName''],
      KClosed
        [(''action'', enum_strings [''start'', ''end'']),
         (''toolCallId'', nonempty_string),
         (''toolName'', nonempty_string),
         (''isError'', Schema [KType [TBool]])]]"

definition auth_schema :: schema where
  "auth_schema = Schema
     [KType [TObject],
      KClosed
        [(''type'', Schema [KConst (JStr ''auth_status'')]),
         (''action'', enum_strings [''login'', ''refresh'']),
         (''outcome'', enum_strings [''success'', ''error'']),
         (''provider'', any_string),
         (''status'', enum_strings [''available'', ''required''])],
      KAnyOf
        [Schema [KRequired [''type'', ''provider'', ''status'']],
         Schema [KRequired [''action'', ''outcome'']]]]"

definition lifecycle_schema :: schema where
  "lifecycle_schema = Schema
     [KType [TObject],
      KRequired [''action''],
      KClosed
        [(''action'', enum_strings [''agent-start'', ''agent-settled'', ''compaction-start'', ''session-shutdown'']),
         (''reason'', any_string)]]"

definition error_schema :: schema where
  "error_schema = Schema
     [KType [TObject],
      KRequired [''category''],
      KClosed
        [(''category'', nonempty_string),
         (''action'', any_string),
         (''reason'', any_string),
         (''message'', any_string)]]"

definition finalization_schema :: schema where
  "finalization_schema = Schema
     [KType [TObject],
      KRequired [''status'', ''validationStatus''],
      KClosed
        [(''status'', any_string),
         (''validationStatus'', Schema [KConst (JStr ''not-run'')])]]"

fun payload_schema :: "(string \<Rightarrow> bool) \<Rightarrow> event_kind \<Rightarrow> schema" where
  "payload_schema date_ok KindStartup = startup_schema"
| "payload_schema date_ok KindRouting = routing_event_schema date_ok"
| "payload_schema date_ok KindModelCall = model_call_schema"
| "payload_schema date_ok KindTool = tool_schema"
| "payload_schema date_ok KindAuth = auth_schema"
| "payload_schema date_ok KindLifecycle = lifecycle_schema"
| "payload_schema date_ok KindError = error_schema"
| "payload_schema date_ok KindFinalization = finalization_schema"

definition run_event_schema :: "(string \<Rightarrow> bool) \<Rightarrow> schema" where
  "run_event_schema date_ok = Schema
     (KType [TObject]
      # KRequired [''schemaVersion'', ''sequence'', ''timestamp'', ''identity'', ''kind'', ''payload'']
      # KClosed
          [(''schemaVersion'', Schema [KConst (JNum 1)]),
           (''sequence'', Schema [KType [TInteger], KMinimum 1]),
           (''timestamp'', Schema [KType [TString], KPattern date_ok]),
           (''identity'', identity_schema),
           (''kind'', enum_strings (map kind_string event_kinds)),
           (''payload'', Schema [KType [TObject]])]
      # map (\<lambda>kind. KIf
            (Schema [KProperties [(''kind'', Schema [KConst (JStr (kind_string kind))])], KRequired [''kind'']])
            (Schema [KProperties [(''payload'', payload_schema date_ok kind)]])
            (Schema [])) event_kinds)"

subsection \<open>JSON of an event\<close>

definition identity_json :: "attempt_identity \<Rightarrow> json" where
  "identity_json i = JObj
     [(''projectId'', JStr (ai_project i)), (''piSessionId'', JStr (ai_session i)),
      (''runId'', JStr (ai_run i)), (''attemptId'', JStr (ai_attempt i)),
      (''experimentId'', nullable JStr (ai_experiment i)), (''taskId'', nullable JStr (ai_task i)),
      (''repetition'', nullable (\<lambda>n. JNum (real n)) (ai_repetition i)),
      (''decisionId'', nullable JStr (ai_decision i))]"

definition event_json :: "run_event \<Rightarrow> json" where
  "event_json e = JObj
     [(''schemaVersion'', JNum 1),
      (''sequence'', JNum (real (re_sequence e))),
      (''timestamp'', JStr (re_timestamp e)),
      (''identity'', identity_json (re_identity e)),
      (''kind'', JStr (kind_string (re_kind e))),
      (''payload'', re_payload e)]"

definition read_identity :: "json \<Rightarrow> attempt_identity" where
  "read_identity j =
     \<lparr>ai_project = json_str (json_get ''projectId'' j), ai_session = json_str (json_get ''piSessionId'' j),
      ai_run = json_str (json_get ''runId'' j), ai_attempt = json_str (json_get ''attemptId'' j),
      ai_decision = read_nullable json_str (json_get ''decisionId'' j),
      ai_experiment = read_nullable json_str (json_get ''experimentId'' j),
      ai_task = read_nullable json_str (json_get ''taskId'' j),
      ai_repetition = read_nullable json_nat (json_get ''repetition'' j)\<rparr>"

definition read_kind :: "json \<Rightarrow> event_kind" where
  "read_kind j = (case filter (\<lambda>k. kind_string k = json_str j) event_kinds of
     k # _ \<Rightarrow> k | [] \<Rightarrow> KindStartup)"

definition read_event :: "json \<Rightarrow> run_event" where
  "read_event j =
     \<lparr>re_sequence = json_nat (json_get ''sequence'' j),
      re_timestamp = json_str (json_get ''timestamp'' j),
      re_identity = read_identity (json_get ''identity'' j),
      re_kind = read_kind (json_get ''kind'' j),
      re_payload = json_get ''payload'' j\<rparr>"

subsection \<open>Redaction\<close>

definition sensitive_key :: "string \<Rightarrow> bool" where
  "sensitive_key = delimited_match
     [''auth'', ''authorization'', ''credential'', ''secret'', ''token'', ''apikey'', ''api-key'',
      ''api_key'', ''account'', ''oauth'', ''cookie'', ''password'', ''code'']"

definition redacted :: json where
  "redacted = JStr ''[REDACTED]''"

fun redact_sensitive :: "(string \<Rightarrow> string) \<Rightarrow> json \<Rightarrow> json" where
  "redact_sensitive scrub (JStr s) = JStr (scrub s)"
| "redact_sensitive scrub (JArr xs) = JArr (map (redact_sensitive scrub) xs)"
| "redact_sensitive scrub (JObj kvs) = from_entries
     (map (\<lambda>(k, child). (k, if sensitive_key k then redacted else redact_sensitive scrub child)) kvs)"
| "redact_sensitive scrub j = j"

subsection \<open>Validation of an event\<close>

definition assert_event :: "(schema \<Rightarrow> json \<Rightarrow> bool) \<Rightarrow> (string \<Rightarrow> bool) \<Rightarrow> json \<Rightarrow> run_event option" where
  "assert_event ajv date_ok value =
     (if ajv (run_event_schema date_ok) value then Some (read_event value) else None)"

text \<open>What makes the JSON of an event valid.\<close>

definition identity_wf :: "attempt_identity \<Rightarrow> bool" where
  "identity_wf i \<longleftrightarrow> ai_project i \<noteq> [] \<and> ai_session i \<noteq> [] \<and> ai_run i \<noteq> [] \<and> ai_attempt i \<noteq> [] \<and>
     pred_option (\<lambda>s. s \<noteq> []) (ai_decision i) \<and> pred_option (\<lambda>s. s \<noteq> []) (ai_experiment i) \<and>
     pred_option (\<lambda>s. s \<noteq> []) (ai_task i)"

definition event_wf :: "(string \<Rightarrow> bool) \<Rightarrow> run_event \<Rightarrow> bool" where
  "event_wf date_ok e \<longleftrightarrow> 1 \<le> re_sequence e \<and> date_ok (re_timestamp e) \<and> identity_wf (re_identity e) \<and>
     (\<exists>kvs. re_payload e = JObj kvs) \<and> schema_valid (payload_schema date_ok (re_kind e)) (re_payload e)"

lemma kind_string_inj [simp]: "kind_string k = kind_string k' \<longleftrightarrow> k = k'"
  by (cases k; cases k') simp_all

lemma event_kinds_all [simp]: "k \<in> set event_kinds"
  by (cases k) (simp_all add: event_kinds_def)

lemma read_kind_roundtrip [simp]: "read_kind (JStr (kind_string k)) = k"
  by (cases k) (simp_all add: read_kind_def event_kinds_def)

lemma read_identity_roundtrip [simp]: "read_identity (identity_json i) = i"
  by (simp add: read_identity_def identity_json_def)

lemma read_event_roundtrip [simp]: "read_event (event_json e) = e"
  by (simp add: read_event_def event_json_def)

lemma nullable_nonempty_json [simp]:
  "schema_valid nullable_nonempty (nullable JStr x) \<longleftrightarrow> pred_option (\<lambda>s. s \<noteq> []) x"
  by (cases x) (auto simp: nullable_nonempty_def nullable_def Suc_le_eq)

lemma identity_json_valid: "schema_valid identity_schema (identity_json i) \<longleftrightarrow> identity_wf i"
  by (simp add: identity_schema_def identity_json_def identity_wf_def)

lemma kind_conditions:
  "list_all (\<lambda>k. keyword_valid k (event_json e)) (map (\<lambda>kind. KIf
      (Schema [KProperties [(''kind'', Schema [KConst (JStr (kind_string kind))])], KRequired [''kind'']])
      (Schema [KProperties [(''payload'', payload_schema date_ok kind)]])
      (Schema [])) kinds) \<longleftrightarrow>
   (re_kind e \<in> set kinds \<longrightarrow> schema_valid (payload_schema date_ok (re_kind e)) (re_payload e))"
  by (induction kinds) (auto simp: event_json_def)

lemma event_json_valid: "schema_valid (run_event_schema date_ok) (event_json e) \<longleftrightarrow> event_wf date_ok e"
proof -
  have "schema_valid (run_event_schema date_ok) (event_json e) \<longleftrightarrow>
      schema_valid (Schema [KType [TObject],
        KRequired [''schemaVersion'', ''sequence'', ''timestamp'', ''identity'', ''kind'', ''payload''],
        KClosed
          [(''schemaVersion'', Schema [KConst (JNum 1)]),
           (''sequence'', Schema [KType [TInteger], KMinimum 1]),
           (''timestamp'', Schema [KType [TString], KPattern date_ok]),
           (''identity'', identity_schema),
           (''kind'', enum_strings (map kind_string event_kinds)),
           (''payload'', Schema [KType [TObject]])]]) (event_json e) \<and>
      schema_valid (payload_schema date_ok (re_kind e)) (re_payload e)"
    using kind_conditions [of e date_ok event_kinds] by (simp add: run_event_schema_def)
  also have "\<dots> \<longleftrightarrow> event_wf date_ok e"
    by (cases "re_payload e") (auto simp: event_json_def event_wf_def identity_json_valid enum_strings_def)
  finally show ?thesis .
qed

end
