(* ===== verification/Usage_Ledger.thy ===== *)
theory Usage_Ledger
  imports Keyed_Store Lab_Config
begin

section \<open>Token usage and cost (src/artifacts/usage.ts)\<close>

text \<open>
  Normalization of the usage a provider reports, the ledger that records one usage per provider
  call, the summaries derived from it, and the cost of a role. Token counts are naturals once
  normalized; their sums round as doubles do (\<open>js_sum\<close>). Prices are exact reals.
\<close>

subsection \<open>Data\<close>

datatype usage_role = UClassifier | UCoding | UCompaction

text \<open>Pi's \<open>Usage\<close> as the provider reports it: any numbers.\<close>

record provider_usage =
  pu_input :: jsnum
  pu_output :: jsnum
  pu_cache_read :: jsnum
  pu_cache_write :: jsnum
  pu_reasoning :: "jsnum option"
  pu_total :: jsnum

record normalized_usage =
  nu_input :: nat
  nu_output :: nat
  nu_cache_read :: nat
  nu_cache_write :: nat
  nu_reasoning :: "nat option"
  nu_total :: nat

datatype usage_status = Complete | Partial | Unknown

datatype usage_missing =
    AbsentForEveryCall
  | AbsentForCalls nat
  | EndedBeforeComplete nat
  | NoReasoningBreakdown

record usage_summary =
  us_status :: usage_status
  us_observed :: nat
  us_missing :: nat
  us_input :: "nat option"
  us_output :: "nat option"
  us_cache_read :: "nat option"
  us_cache_write :: "nat option"
  us_reasoning :: "nat option"
  us_total :: "nat option"
  us_reasons :: "usage_missing list"

record recorded_usage =
  ru_role :: usage_role
  ru_usage :: "normalized_usage option"
  ru_complete :: bool

datatype usage_error =
    NotSafeInteger string
  | TotalMismatch nat nat
  | ReasoningExceedsOutput
  | EmptyCallId
  | ConflictingUsage string

subsection \<open>Normalization\<close>

definition nonnegative_integer :: "jsnum \<Rightarrow> string \<Rightarrow> usage_error + nat" where
  "nonnegative_integer value name =
     (if \<not> is_safe_integer value \<or> js_less value 0 then Inl (NotSafeInteger name)
      else Inr (js_nat value))"

definition optional_count :: "jsnum option \<Rightarrow> usage_error + nat option" where
  "optional_count value =
     (case value of None \<Rightarrow> Inr None
      | Some r \<Rightarrow> bind_result (nonnegative_integer r ''reasoning'') (\<lambda>n. Inr (Some n)))"

definition normalize_usage :: "provider_usage \<Rightarrow> usage_error + normalized_usage" where
  "normalize_usage usage =
     bind_result (nonnegative_integer (pu_input usage) ''input'') (\<lambda>input.
     bind_result (nonnegative_integer (pu_output usage) ''output'') (\<lambda>output.
     bind_result (nonnegative_integer (pu_cache_read usage) ''cacheRead'') (\<lambda>cache_read.
     bind_result (nonnegative_integer (pu_cache_write usage) ''cacheWrite'') (\<lambda>cache_write.
     bind_result (optional_count (pu_reasoning usage)) (\<lambda>reasoning.
     bind_result (nonnegative_integer (pu_total usage) ''totalTokens'') (\<lambda>total.
       let normalized = \<lparr>nu_input = input, nu_output = output, nu_cache_read = cache_read,
             nu_cache_write = cache_write, nu_reasoning = reasoning, nu_total = total\<rparr>;
           computed = js_sum [input, output, cache_read, cache_write]
       in if computed \<noteq> total then Inl (TotalMismatch total computed)
          else if \<not> pred_option (\<lambda>r. r \<le> output) reasoning
          then Inl ReasoningExceedsOutput
          else Inr normalized))))))"

subsection \<open>Summaries\<close>

definition usages :: "recorded_usage list \<Rightarrow> normalized_usage list" where
  "usages records = List.map_filter ru_usage records"

definition summarize :: "recorded_usage list \<Rightarrow> usage_summary" where
  "summarize records =
     (if records = [] then
        \<lparr>us_status = Complete, us_observed = 0, us_missing = 0, us_input = Some 0, us_output = Some 0,
         us_cache_read = Some 0, us_cache_write = Some 0, us_reasoning = Some 0, us_total = Some 0,
         us_reasons = []\<rparr>
      else
        let observed = filter (\<lambda>record. ru_usage record \<noteq> None) records;
            missing_calls = length records - length observed;
            incomplete_calls = length (filter (\<lambda>record. \<not> ru_complete record) observed)
        in if observed = [] then
             \<lparr>us_status = Unknown, us_observed = 0, us_missing = missing_calls, us_input = None,
              us_output = None, us_cache_read = None, us_cache_write = None, us_reasoning = None,
              us_total = None, us_reasons = [AbsentForEveryCall]\<rparr>
           else
             let sum = (\<lambda>field. Some (js_sum (map field (usages observed))));
                 reasoning_complete = list_all (\<lambda>usage. nu_reasoning usage \<noteq> None) (usages observed)
             in \<lparr>us_status = (if missing_calls = 0 \<and> incomplete_calls = 0 then Complete else Partial),
                 us_observed = length observed,
                 us_missing = missing_calls,
                 us_input = sum nu_input,
                 us_output = sum nu_output,
                 us_cache_read = sum nu_cache_read,
                 us_cache_write = sum nu_cache_write,
                 us_reasoning = (if reasoning_complete
                   then Some (js_sum (List.map_filter nu_reasoning (usages observed))) else None),
                 us_total = sum nu_total,
                 us_reasons =
                   (if missing_calls > 0 then [AbsentForCalls missing_calls] else [])
                   @ (if incomplete_calls > 0 then [EndedBeforeComplete incomplete_calls] else [])
                   @ (if \<not> reasoning_complete then [NoReasoningBreakdown] else [])\<rparr>)"

subsection \<open>The ledger\<close>

text \<open>\<open>Map<string, RecordedUsage>\<close>: entries in insertion order.\<close>

type_synonym usage_ledger = "(string \<times> recorded_usage) list"

definition ledger_record :: "usage_ledger \<Rightarrow> string \<Rightarrow> usage_role \<Rightarrow> normalized_usage option \<Rightarrow> bool
    \<Rightarrow> usage_error + bool \<times> usage_ledger" where
  "ledger_record calls call_id role usage is_complete =
     (if call_id = [] then Inl EmptyCallId
      else
        let next = \<lparr>ru_role = role, ru_usage = usage, ru_complete = is_complete\<rparr>
        in case map_of calls call_id of
             Some existing \<Rightarrow>
               if existing \<noteq> next then Inl (ConflictingUsage call_id) else Inr (False, calls)
           | None \<Rightarrow> Inr (True, calls @ [(call_id, next)]))"

record usage_summaries =
  sum_classifier :: usage_summary
  sum_coding :: usage_summary
  sum_compaction :: usage_summary
  sum_total :: usage_summary

definition records_of_role :: "usage_ledger \<Rightarrow> usage_role \<Rightarrow> recorded_usage list" where
  "records_of_role calls role = filter (\<lambda>record. ru_role record = role) (map snd calls)"

definition ledger_summaries :: "usage_ledger \<Rightarrow> usage_summaries" where
  "ledger_summaries calls =
     \<lparr>sum_classifier = summarize (records_of_role calls UClassifier),
      sum_coding = summarize (records_of_role calls UCoding),
      sum_compaction = summarize (records_of_role calls UCompaction),
      sum_total = summarize (map snd calls)\<rparr>"

definition summary_for_roles :: "usage_ledger \<Rightarrow> usage_role list \<Rightarrow> usage_summary" where
  "summary_for_roles calls roles =
     summarize (filter (\<lambda>record. ru_role record \<in> set roles) (map snd calls))"

subsection \<open>Cost\<close>

text \<open>The prices per million tokens a cost is computed from.\<close>

record token_prices =
  tp_input :: real
  tp_output :: real
  tp_cache_read :: "real option"
  tp_cache_write :: "real option"

definition prices_of :: "pricing \<Rightarrow> token_prices" where
  "prices_of p = \<lparr>tp_input = p_input p, tp_output = p_output p, tp_cache_read = p_cache_read p,
     tp_cache_write = p_cache_write p\<rparr>"

definition price_or_zero :: "real option \<Rightarrow> real" where
  "price_or_zero p = (case p of None \<Rightarrow> 0 | Some r \<Rightarrow> r)"

definition calculate_with_pricing :: "usage_summary \<Rightarrow> token_prices \<Rightarrow> real option" where
  "calculate_with_pricing usage prices =
     (if us_observed usage = 0 \<and> us_missing usage = 0 then Some 0
      else
        case (us_input usage, us_output usage, us_cache_read usage, us_cache_write usage) of
          (Some input, Some output, Some cache_read, Some cache_write) \<Rightarrow>
            if us_status usage \<noteq> Complete then None
            else if cache_read > 0 \<and> tp_cache_read prices = None then None
            else if cache_write > 0 \<and> tp_cache_write prices = None then None
            else Some ((real input * tp_input prices + real output * tp_output prices
                   + real cache_read * price_or_zero (tp_cache_read prices)
                   + real cache_write * price_or_zero (tp_cache_write prices)) / 1000000)
        | _ \<Rightarrow> None)"

datatype cost_missing =
    EstimateUnavailable billing
  | EstimateIncomplete
  | ReferenceIncomplete
  | ReferenceUnavailable

record role_cost =
  rc_billing :: billing
  rc_currency :: "string option"
  rc_pricing_as_of :: "string option"
  rc_estimated :: "real option"
  rc_reference :: "real option"
  rc_reasons :: "cost_missing list"

definition calculate_role_cost :: "lab_role \<Rightarrow> usage_summary \<Rightarrow> token_prices option \<Rightarrow> role_cost" where
  "calculate_role_cost role usage reference_pricing =
     (let estimated =
            (case lr_pricing role of
               Some pricing \<Rightarrow>
                 if lr_billing role = BPerToken then calculate_with_pricing usage (prices_of pricing) else None
             | None \<Rightarrow> None);
          reference = (case reference_pricing of Some prices \<Rightarrow> calculate_with_pricing usage prices | None \<Rightarrow> None)
      in \<lparr>rc_billing = lr_billing role,
          rc_currency = (if lr_billing role = BPerToken then Some ''USD'' else None),
          rc_pricing_as_of = (if lr_billing role = BPerToken then map_option p_as_of (lr_pricing role) else None),
          rc_estimated = estimated,
          rc_reference = reference,
          rc_reasons =
            (if lr_billing role \<noteq> BPerToken then [EstimateUnavailable (lr_billing role)]
             else if estimated = None then [EstimateIncomplete] else [])
            @ (if reference_pricing \<noteq> None \<and> reference = None then [ReferenceIncomplete] else [])
            @ (if reference_pricing = None then [ReferenceUnavailable] else [])\<rparr>)"

subsection \<open>Normalization accepts exact sums only\<close>

definition is_count :: "jsnum \<Rightarrow> nat \<Rightarrow> bool" where
  "is_count v n \<longleftrightarrow> v = Fin (real n) \<and> n < 2 ^ 53"

lemma nonnegative_integer_Inr [simp]: "nonnegative_integer v name = Inr n \<longleftrightarrow> is_count v n"
proof (cases v)
  case (Fin r)
  show ?thesis
  proof
    assume "nonnegative_integer v name = Inr n"
    with Fin have r: "of_int \<lfloor>r\<rfloor> = r" "0 \<le> r" "r \<le> 2 ^ 53 - 1" "n = nat \<lfloor>r\<rfloor>"
      by (auto simp: nonnegative_integer_def split: if_splits)
    then have "real n = r" by (metis of_nat_nat zero_le_floor)
    moreover have "n < 2 ^ 53"
    proof -
      have "real n < 2 ^ 53" using r(3) \<open>real n = r\<close> by simp
      then show ?thesis by (simp only: of_nat_less_numeral_power_cancel_iff)
    qed
    ultimately show "is_count v n" by (simp add: is_count_def Fin)
  next
    assume "is_count v n"
    then have "v = Fin (real n)" "n < 2 ^ 53" by (simp_all add: is_count_def)
    moreover have "real n \<le> 2 ^ 53 - 1"
    proof -
      have "n \<le> 2 ^ 53 - 1" using \<open>n < 2 ^ 53\<close> by simp
      then have "real n \<le> real (2 ^ 53 - 1)" by (rule of_nat_mono)
      then show ?thesis by simp
    qed
    ultimately show "nonnegative_integer v name = Inr n" by (simp add: nonnegative_integer_def)
  qed
qed (auto simp: nonnegative_integer_def is_count_def)

lemma optional_count_Inr [simp]: "optional_count v = Inr x \<longleftrightarrow> rel_option is_count v x"
  by (cases v; cases x) (auto simp: optional_count_def)

definition usage_wf :: "normalized_usage \<Rightarrow> bool" where
  "usage_wf n \<longleftrightarrow> nu_total n = nu_input n + nu_output n + nu_cache_read n + nu_cache_write n \<and>
     nu_total n < 2 ^ 53 \<and> pred_option (\<lambda>r. r \<le> nu_output n) (nu_reasoning n)"

lemma normalize_usage_sum:
  "normalize_usage usage = Inr n \<longleftrightarrow>
     is_count (pu_input usage) (nu_input n) \<and> is_count (pu_output usage) (nu_output n) \<and>
     is_count (pu_cache_read usage) (nu_cache_read n) \<and>
     is_count (pu_cache_write usage) (nu_cache_write n) \<and>
     rel_option is_count (pu_reasoning usage) (nu_reasoning n) \<and>
     is_count (pu_total usage) (nu_total n) \<and>
     js_sum [nu_input n, nu_output n, nu_cache_read n, nu_cache_write n] = nu_total n \<and>
     pred_option (\<lambda>r. r \<le> nu_output n) (nu_reasoning n)"
  by (cases n) (auto simp: normalize_usage_def Let_def)

subsection \<open>The ledger records every call once\<close>

definition ledger_put :: "usage_ledger \<Rightarrow> string \<times> recorded_usage \<Rightarrow> usage_error + usage_ledger" where
  "ledger_put calls kv =
     (case ledger_record calls (fst kv) (ru_role (snd kv)) (ru_usage (snd kv)) (ru_complete (snd kv)) of
        Inl e \<Rightarrow> Inl e | Inr (_, calls') \<Rightarrow> Inr calls')"

lemma ledger_put_cases:
  "ledger_put calls (k, v) =
     (if k = [] then Inl EmptyCallId
      else case map_of calls k of
             Some w \<Rightarrow> if w \<noteq> v then Inl (ConflictingUsage k) else Inr calls
           | None \<Rightarrow> Inr (calls @ [(k, v)]))"
  by (cases v) (auto simp: ledger_put_def ledger_record_def Let_def split: option.splits)

interpretation ledger: once_store map_of ledger_put "\<lambda>kv. fst kv \<noteq> []"
proof
  fix k :: string and v :: recorded_usage and s :: usage_ledger
  assume "fst (k, v) \<noteq> []" "map_of s k = None"
  moreover from this(2) have "map_of (s @ [(k, v)]) k' = (if k' = k then Some v else map_of s k')" for k'
    by (simp add: map_of_append map_add_def split: option.splits)
  ultimately show "\<exists>s'. ledger_put s (k, v) = Inr s' \<and> (\<forall>k'. map_of s' k' = (if k' = k then Some v else map_of s k'))"
    by (simp add: ledger_put_cases del: map_of_append)
qed (auto simp: ledger_put_cases)

lemma ledger_put_keys:
  "ledger_put s kv = Inr s' \<Longrightarrow> distinct (map fst s) \<Longrightarrow> distinct (map fst s')"
  by (cases kv) (auto simp: ledger_put_cases map_of_eq_None_iff split: if_splits option.splits)

lemma ledger_keys:
  "fold_result ledger_put s ops = Inr s' \<Longrightarrow> distinct (map fst s) \<Longrightarrow> distinct (map fst s')"
  by (erule fold_result_invariant) (auto dest: ledger_put_keys)

subsection \<open>What a summary says\<close>

lemma usages_filter: "usages (filter (\<lambda>r. ru_usage r \<noteq> None) records) = usages records"
  by (induction records) (auto simp: usages_def map_filter_simps split: option.splits)

lemma usages_simps [simp]:
  "usages [] = []"
  "usages (r # rs) = (case ru_usage r of None \<Rightarrow> usages rs | Some u \<Rightarrow> u # usages rs)"
  by (auto simp: usages_def map_filter_simps split: option.splits)

lemma usages_length: "length (filter (\<lambda>r. ru_usage r \<noteq> None) records) = length (usages records)"
  by (induction records) (auto split: option.splits)

lemma usages_none: "usages records = [] \<longleftrightarrow> (\<forall>r \<in> set records. ru_usage r = None)"
  by (induction records) (auto split: option.splits)

lemma usages_all: "length (usages records) = length records \<longleftrightarrow> (\<forall>r \<in> set records. ru_usage r \<noteq> None)"
proof (induction records)
  case (Cons r rs)
  have "length (usages rs) \<le> length rs" by (induction rs) (auto split: option.splits)
  with Cons show ?case by (auto split: option.splits)
qed simp

lemma usages_le: "length (usages records) \<le> length records"
  by (induction records) (auto split: option.splits)

text \<open>The tokens of a category, an unknown amount counting as none.\<close>

definition tokens :: "nat option \<Rightarrow> nat" where
  "tokens x = (case x of None \<Rightarrow> 0 | Some n \<Rightarrow> n)"

definition token_total :: "(normalized_usage \<Rightarrow> nat) \<Rightarrow> recorded_usage list \<Rightarrow> nat" where
  "token_total field records = sum_list (map field (usages records))"

lemma usages_observed: "filter (\<lambda>r. ru_usage r \<noteq> None) records = [] \<longleftrightarrow> usages records = []"
  by (metis length_0_conv usages_length)

lemma summarize_counts:
  "us_observed (summarize records) = length (usages records) \<and>
   us_missing (summarize records) = length records - length (usages records)"
  unfolding summarize_def Let_def usages_observed usages_length by simp

lemma summarize_status:
  "us_status (summarize records) =
     (if \<forall>r \<in> set records. ru_usage r \<noteq> None \<and> ru_complete r then Complete
      else if \<forall>r \<in> set records. ru_usage r = None then Unknown else Partial)"
proof -
  have "length records - length (filter (\<lambda>r. ru_usage r \<noteq> None) records) = 0 \<longleftrightarrow>
      (\<forall>r \<in> set records. ru_usage r \<noteq> None)"
    unfolding usages_length using usages_all [of records] usages_le [of records]
    by (metis diff_is_0_eq le_antisym order_refl)
  moreover have "length (filter (\<lambda>r. \<not> ru_complete r) (filter (\<lambda>r. ru_usage r \<noteq> None) records)) = 0 \<longleftrightarrow>
      (\<forall>r \<in> set records. ru_usage r \<noteq> None \<longrightarrow> ru_complete r)"
    by (auto simp: filter_empty_conv)
  moreover have "filter (\<lambda>r. ru_usage r \<noteq> None) records = [] \<longleftrightarrow> (\<forall>r \<in> set records. ru_usage r = None)"
    by (auto simp: filter_empty_conv)
  moreover have "us_status (summarize records) = (if records = [] then Complete
      else if filter (\<lambda>r. ru_usage r \<noteq> None) records = [] then Unknown
      else if length records - length (filter (\<lambda>r. ru_usage r \<noteq> None) records) = 0 \<and>
        length (filter (\<lambda>r. \<not> ru_complete r) (filter (\<lambda>r. ru_usage r \<noteq> None) records)) = 0 then Complete
      else Partial)"
    unfolding summarize_def Let_def by simp
  ultimately have "us_status (summarize records) = (if records = [] then Complete
      else if \<forall>r \<in> set records. ru_usage r = None then Unknown
      else if (\<forall>r \<in> set records. ru_usage r \<noteq> None) \<and>
        (\<forall>r \<in> set records. ru_usage r \<noteq> None \<longrightarrow> ru_complete r) then Complete
      else Partial)"
    by (simp only:)
  then show ?thesis by (cases records) auto
qed

lemma summarize_fields:
  "us_input (summarize records) = (if records = [] then Some 0 else if usages records = [] then None
     else Some (js_sum (map nu_input (usages records))))"
  "us_output (summarize records) = (if records = [] then Some 0 else if usages records = [] then None
     else Some (js_sum (map nu_output (usages records))))"
  "us_cache_read (summarize records) = (if records = [] then Some 0 else if usages records = [] then None
     else Some (js_sum (map nu_cache_read (usages records))))"
  "us_cache_write (summarize records) = (if records = [] then Some 0 else if usages records = [] then None
     else Some (js_sum (map nu_cache_write (usages records))))"
  "us_total (summarize records) = (if records = [] then Some 0 else if usages records = [] then None
     else Some (js_sum (map nu_total (usages records))))"
  unfolding summarize_def Let_def usages_filter usages_observed by simp_all

lemma summarize_tokens:
  assumes "token_total nu_total records < 2 ^ 53" and "\<forall>u \<in> set (usages records). usage_wf u"
  shows "tokens (us_input (summarize records)) = token_total nu_input records"
    "tokens (us_output (summarize records)) = token_total nu_output records"
    "tokens (us_cache_read (summarize records)) = token_total nu_cache_read records"
    "tokens (us_cache_write (summarize records)) = token_total nu_cache_write records"
    "tokens (us_total (summarize records)) = token_total nu_total records"
proof -
  have le: "sum_list (map f (usages records)) < 2 ^ 53"
    if "f \<in> {nu_input, nu_output, nu_cache_read, nu_cache_write, nu_total}" for f
  proof -
    have "sum_list (map f (usages records)) \<le> token_total nu_total records"
      unfolding token_total_def
      by (rule sum_list_mono) (use assms(2) that in \<open>auto simp: usage_wf_def\<close>)
    with assms(1) show ?thesis by simp
  qed
  have eq: "tokens (if records = [] then Some 0 else if usages records = [] then None
      else Some (js_sum (map f (usages records)))) = token_total f records"
    if "f \<in> {nu_input, nu_output, nu_cache_read, nu_cache_write, nu_total}" for f
    using le [OF that] by (auto simp: tokens_def token_total_def js_sum_exact)
  show "tokens (us_input (summarize records)) = token_total nu_input records"
    "tokens (us_output (summarize records)) = token_total nu_output records"
    "tokens (us_cache_read (summarize records)) = token_total nu_cache_read records"
    "tokens (us_cache_write (summarize records)) = token_total nu_cache_write records"
    "tokens (us_total (summarize records)) = token_total nu_total records"
    unfolding summarize_fields by (rule eq; blast)+
qed

text \<open>The roles partition the calls.\<close>

lemma token_total_append: "token_total f (xs @ ys) = token_total f xs + token_total f ys"
  by (induction xs) (auto simp: token_total_def split: option.splits)

lemma token_total_roles:
  "token_total f (map snd calls) =
     token_total f (records_of_role calls UClassifier) + token_total f (records_of_role calls UCoding)
     + token_total f (records_of_role calls UCompaction)"
proof (induction calls)
  case (Cons c calls)
  then show ?case
    by (cases "ru_role (snd c)") (auto simp: token_total_def records_of_role_def split: option.splits)
qed (simp add: token_total_def records_of_role_def)

lemma usages_set: "u \<in> set (usages records) \<longleftrightarrow> (\<exists>r \<in> set records. ru_usage r = Some u)"
  by (induction records) (auto split: option.splits)

definition ledger_wf :: "usage_ledger \<Rightarrow> bool" where
  "ledger_wf calls \<longleftrightarrow> (\<forall>u \<in> set (usages (map snd calls)). usage_wf u)"

lemma ledger_wf_role: "ledger_wf calls \<Longrightarrow> \<forall>u \<in> set (usages (records_of_role calls role)). usage_wf u"
  by (auto simp: ledger_wf_def usages_set records_of_role_def)

lemma calls_of_roles:
  "length (map snd calls) = length (records_of_role calls UClassifier)
     + length (records_of_role calls UCoding) + length (records_of_role calls UCompaction)"
proof (induction calls)
  case (Cons c calls)
  then show ?case by (cases "ru_role (snd c)") (auto simp: records_of_role_def)
qed (simp add: records_of_role_def)

subsection \<open>What a cost says\<close>

definition prices_wf :: "token_prices \<Rightarrow> bool" where
  "prices_wf p \<longleftrightarrow> 0 \<le> tp_input p \<and> 0 \<le> tp_output p \<and>
     pred_option (\<lambda>r. 0 \<le> r) (tp_cache_read p) \<and> pred_option (\<lambda>r. 0 \<le> r) (tp_cache_write p)"

lemma prices_of_wf: "pricing_wf p \<Longrightarrow> prices_wf (prices_of p)"
  by (simp add: prices_wf_def prices_of_def pricing_wf_def)

text \<open>The price of one call in micro-dollars.\<close>

definition call_price :: "token_prices \<Rightarrow> normalized_usage \<Rightarrow> real" where
  "call_price p u = real (nu_input u) * tp_input p + real (nu_output u) * tp_output p
     + real (nu_cache_read u) * price_or_zero (tp_cache_read p)
     + real (nu_cache_write u) * price_or_zero (tp_cache_write p)"

lemma call_price_nonneg: "prices_wf p \<Longrightarrow> 0 \<le> call_price p u"
  by (cases "tp_cache_read p"; cases "tp_cache_write p")
    (auto simp: call_price_def prices_wf_def price_or_zero_def)

lemma sum_call_price:
  "sum_list (map (call_price p) (usages records)) =
     real (token_total nu_input records) * tp_input p + real (token_total nu_output records) * tp_output p
     + real (token_total nu_cache_read records) * price_or_zero (tp_cache_read p)
     + real (token_total nu_cache_write records) * price_or_zero (tp_cache_write p)"
proof -
  have "sum_list (map (call_price p) us) =
     real (sum_list (map nu_input us)) * tp_input p + real (sum_list (map nu_output us)) * tp_output p
     + real (sum_list (map nu_cache_read us)) * price_or_zero (tp_cache_read p)
     + real (sum_list (map nu_cache_write us)) * price_or_zero (tp_cache_write p)" for us
    by (induction us) (simp_all add: call_price_def algebra_simps)
  then show ?thesis by (simp add: token_total_def)
qed

text \<open>A summary is priced exactly when every call is complete and every cache category used has a price.\<close>

definition priceable :: "token_prices \<Rightarrow> recorded_usage list \<Rightarrow> bool" where
  "priceable p records \<longleftrightarrow> (\<forall>r \<in> set records. ru_usage r \<noteq> None \<and> ru_complete r) \<and>
     (tp_cache_read p = None \<longrightarrow> token_total nu_cache_read records = 0) \<and>
     (tp_cache_write p = None \<longrightarrow> token_total nu_cache_write records = 0)"

lemma tokens_some: "x = Some n \<Longrightarrow> tokens x = m \<Longrightarrow> n = m"
  by (simp add: tokens_def)

lemma price_of_summary:
  assumes "token_total nu_total records < 2 ^ 53" and "\<forall>u \<in> set (usages records). usage_wf u"
  shows "calculate_with_pricing (summarize records) p =
    (if priceable p records then Some (sum_list (map (call_price p) (usages records)) / 1000000) else None)"
proof (cases "usages records = []")
  case True
  then show ?thesis
    by (cases records)
      (auto simp: calculate_with_pricing_def summarize_counts summarize_fields priceable_def usages_none
        token_total_def)
next
  case False
  define c where "c = summarize records"
  have none: "us_observed c \<noteq> 0" using False by (simp add: c_def summarize_counts)
  have nonempty: "records \<noteq> []" using False by auto
  have fields: "us_input c = Some (token_total nu_input records)"
    "us_output c = Some (token_total nu_output records)"
    "us_cache_read c = Some (token_total nu_cache_read records)"
    "us_cache_write c = Some (token_total nu_cache_write records)"
    using summarize_tokens [OF assms] summarize_fields [of records] False nonempty
    by (simp_all add: c_def tokens_def)
  have status: "us_status c = Complete \<longleftrightarrow> (\<forall>r \<in> set records. ru_usage r \<noteq> None \<and> ru_complete r)"
    unfolding c_def summarize_status by simp
  show ?thesis
    unfolding c_def [symmetric] calculate_with_pricing_def fields priceable_def sum_call_price
    using none by (auto simp: status)
qed

subsection \<open>Properties\<close>

definition example_usage :: normalized_usage where
  "example_usage = \<lparr>nu_input = 100, nu_output = 20, nu_cache_read = 5, nu_cache_write = 0,
     nu_reasoning = Some 7, nu_total = 125\<rparr>"

definition example_ledger :: usage_ledger where
  "example_ledger =
     [(''c1'', \<lparr>ru_role = UClassifier, ru_usage = Some example_usage, ru_complete = True\<rparr>),
      (''c2'', \<lparr>ru_role = UCoding, ru_usage = Some example_usage, ru_complete = True\<rparr>)]"

lemma example_ledger_wf: "ledger_wf example_ledger"
  by (simp add: ledger_wf_def example_ledger_def usage_wf_def example_usage_def)

text \<open>\<open>normalizeUsage\<close> accepts a provider's report exactly when every count is a nonnegative safe
  integer, the reported total is the exact sum of the four categories, and the reasoning tokens do
  not exceed the output tokens; it then returns the same counts. The rounding of the double addition
  never lets a wrong total through.\<close>

theorem usage_normalization:
  "normalize_usage usage = Inr n \<longleftrightarrow>
     is_count (pu_input usage) (nu_input n) \<and> is_count (pu_output usage) (nu_output n) \<and>
     is_count (pu_cache_read usage) (nu_cache_read n) \<and>
     is_count (pu_cache_write usage) (nu_cache_write n) \<and>
     rel_option is_count (pu_reasoning usage) (nu_reasoning n) \<and>
     is_count (pu_total usage) (nu_total n) \<and>
     nu_total n = nu_input n + nu_output n + nu_cache_read n + nu_cache_write n \<and>
     pred_option (\<lambda>r. r \<le> nu_output n) (nu_reasoning n)"
  using js_sum_eq_iff [of "nu_total n" "[nu_input n, nu_output n, nu_cache_read n, nu_cache_write n]"]
  by (auto simp: normalize_usage_sum is_count_def add.assoc)

text \<open>The ledger records each provider call once: after any sequence of records that raises no
  error, the entries are exactly those recorded, one per call identity, and recording any of them
  again (a replayed event log) succeeds and changes nothing.\<close>

theorem ledger_replay:
  assumes "fold_result ledger_put [] ops = Inr calls" and "set again \<subseteq> set ops"
  shows "distinct (map fst calls) \<and> set calls = set ops \<and> fold_result ledger_put calls again = Inr calls"
proof -
  have keys: "distinct (map fst calls)" using ledger_keys [OF assms(1)] by simp
  have "map_of calls k = map_of ops k" for k using ledger.puts_lookup [OF assms(1), of k] by simp
  then have "(k, v) \<in> set ops" if "(k, v) \<in> set calls" for k v
    using map_of_is_SomeI [OF keys that] by (metis map_of_SomeD)
  moreover have "(k, v) \<in> set calls" if "(k, v) \<in> set ops" for k v
    using ledger.puts_recorded [OF assms(1) that] by (blast dest: map_of_SomeD)
  ultimately have "set calls = set ops" by (intro set_eqI) (metis surj_pair)
  then show ?thesis using keys ledger.puts_replay [OF assms] by blast
qed

theorem ledger_replay_witness:
  "distinct (map fst example_ledger) \<and> set example_ledger = set example_ledger \<and>
     fold_result ledger_put example_ledger (rev example_ledger) = Inr example_ledger"
  by (rule ledger_replay) (simp_all add: example_ledger_def ledger_put_cases)

text \<open>The summaries account for every call and every token: the calls of the roles add up to the
  calls of the ledger, so do the tokens of each category, and the total is the sum of its
  categories, provided the ledger holds fewer than 2^53 tokens; the status is complete exactly when
  every call reported complete usage.\<close>

theorem ledger_conservation:
  assumes "ledger_wf calls" and "token_total nu_total (map snd calls) < 2 ^ 53"
  defines "s \<equiv> ledger_summaries calls"
  shows "us_observed (sum_total s) + us_missing (sum_total s) = length calls \<and>
    length calls = us_observed (sum_classifier s) + us_missing (sum_classifier s)
      + us_observed (sum_coding s) + us_missing (sum_coding s)
      + us_observed (sum_compaction s) + us_missing (sum_compaction s) \<and>
    (\<forall>field \<in> {us_input, us_output, us_cache_read, us_cache_write, us_total}.
      tokens (field (sum_total s)) = tokens (field (sum_classifier s)) + tokens (field (sum_coding s))
        + tokens (field (sum_compaction s))) \<and>
    tokens (us_total (sum_total s)) = tokens (us_input (sum_total s)) + tokens (us_output (sum_total s))
      + tokens (us_cache_read (sum_total s)) + tokens (us_cache_write (sum_total s)) \<and>
    (us_status (sum_total s) = Complete \<longleftrightarrow>
      (\<forall>call \<in> set calls. ru_usage (snd call) \<noteq> None \<and> ru_complete (snd call)))"
proof -
  have count: "us_observed (summarize rs) + us_missing (summarize rs) = length rs" for rs
    using usages_le [of rs] by (simp add: summarize_counts)
  have wf: "\<forall>u \<in> set (usages (map snd calls)). usage_wf u" using assms(1) by (simp add: ledger_wf_def)
  have le: "token_total nu_total (records_of_role calls role) < 2 ^ 53" for role
    using token_total_roles [of nu_total calls] assms(2) by (cases role) simp_all
  note role_tokens = summarize_tokens [OF le ledger_wf_role [OF assms(1)]]
  have "sum_list (map nu_total us) = sum_list (map nu_input us) + sum_list (map nu_output us)
      + sum_list (map nu_cache_read us) + sum_list (map nu_cache_write us)"
    if "\<forall>u \<in> set us. nu_total u = nu_input u + nu_output u + nu_cache_read u + nu_cache_write u" for us
    using that by (induction us) simp_all
  moreover have "\<forall>u \<in> set (usages (map snd calls)).
      nu_total u = nu_input u + nu_output u + nu_cache_read u + nu_cache_write u"
    using wf by (simp add: usage_wf_def)
  ultimately have categories: "token_total nu_total (map snd calls) = token_total nu_input (map snd calls)
      + token_total nu_output (map snd calls) + token_total nu_cache_read (map snd calls)
      + token_total nu_cache_write (map snd calls)"
    unfolding token_total_def by blast
  have "us_status (summarize rs) = Complete \<longleftrightarrow> (\<forall>r \<in> set rs. ru_usage r \<noteq> None \<and> ru_complete r)" for rs
    by (simp add: summarize_status)
  then have status: "us_status (sum_total s) = Complete \<longleftrightarrow>
      (\<forall>call \<in> set calls. ru_usage (snd call) \<noteq> None \<and> ru_complete (snd call))"
    by (simp add: s_def ledger_summaries_def)
  have "\<forall>field \<in> {us_input, us_output, us_cache_read, us_cache_write, us_total}.
      tokens (field (sum_total s)) = tokens (field (sum_classifier s)) + tokens (field (sum_coding s))
        + tokens (field (sum_compaction s))"
    using token_total_roles [of _ calls]
    by (simp add: s_def ledger_summaries_def summarize_tokens [OF assms(2) wf] role_tokens)
  moreover have "tokens (us_total (sum_total s)) = tokens (us_input (sum_total s))
      + tokens (us_output (sum_total s)) + tokens (us_cache_read (sum_total s))
      + tokens (us_cache_write (sum_total s))"
    using categories by (simp add: s_def ledger_summaries_def summarize_tokens [OF assms(2) wf])
  ultimately show ?thesis
    using count calls_of_roles [of calls] status
    by (simp add: s_def ledger_summaries_def)
qed

theorem ledger_conservation_witness:
  "us_observed (sum_total (ledger_summaries example_ledger))
     + us_missing (sum_total (ledger_summaries example_ledger)) = length example_ledger"
proof -
  have "token_total nu_total (map snd example_ledger) < 2 ^ 53"
    by (simp add: token_total_def example_ledger_def example_usage_def)
  from ledger_conservation [OF example_ledger_wf this] show ?thesis by blast
qed

text \<open>The cost of a group of calls is the sum of the prices of its calls, and it is unknown
  (never a partial amount) exactly when some call has no complete usage or uses a cache category
  that has no price; no calls cost nothing.\<close>

theorem cost_of_calls:
  assumes "token_total nu_total records < 2 ^ 53" and "\<forall>u \<in> set (usages records). usage_wf u"
    and "prices_wf prices"
  shows "calculate_with_pricing (summarize records) prices =
      (if priceable prices records then Some (sum_list (map (call_price prices) (usages records)) / 1000000)
       else None) \<and>
    pred_option (\<lambda>c. 0 \<le> c) (calculate_with_pricing (summarize records) prices) \<and>
    calculate_with_pricing (summarize []) prices = Some 0"
proof -
  have "0 \<le> sum_list (map (call_price prices) (usages records))"
    using call_price_nonneg [OF assms(3)] by (intro sum_list_nonneg) auto
  then show ?thesis
    using price_of_summary [OF assms(1,2)] by (simp add: calculate_with_pricing_def summarize_def)
qed

theorem cost_of_calls_witness:
  "calculate_with_pricing (summarize (map snd example_ledger)) (prices_of example_pricing) =
     (if priceable (prices_of example_pricing) (map snd example_ledger)
      then Some (sum_list (map (call_price (prices_of example_pricing)) (usages (map snd example_ledger))) / 1000000)
      else None)"
proof -
  have "token_total nu_total (map snd example_ledger) < 2 ^ 53"
    by (simp add: token_total_def example_ledger_def example_usage_def)
  moreover have "prices_wf (prices_of example_pricing)"
    by (simp add: prices_wf_def prices_of_def example_pricing_def)
  ultimately show ?thesis
    using cost_of_calls example_ledger_wf unfolding ledger_wf_def by blast
qed

end
