(* ===== verification/Run_Artifacts.thy ===== *)
theory Run_Artifacts
  imports Run_Events Usage_Ledger
begin

section \<open>Attempt artifacts (src/artifacts/run-artifacts.ts)\<close>

text \<open>
  The result of an attempt, \<open>AttemptArtifactStore\<close> (the event log, the decision, the patch and the
  final result of one attempt), reading an attempt back, attaching an independent validation and
  classifying a trial. The three files of an attempt are part of the state: the log as the JSON of
  its lines and the result as what reading \<open>run.json\<close> gives. Appends are queued in the program and
  executed in order, so an append is one step; failures of the file system are not modelled.
\<close>

subsection \<open>Results\<close>

datatype execution_status =
    StCompleted | StTimeout | StCancelled | StProviderError | StAuthRequired | StRateLimited
  | StHarnessError | StBudgetExhausted

datatype validation_status = VPass | VFail | VError | VNotRun

datatype observation = ObsPersisted | ObsResumed

record validation_check =
  vc_name :: string
  vc_status :: validation_status
  vc_exit :: "int option"
  vc_duration :: int
  vc_stdout :: "string option"
  vc_stderr :: "string option"
  vc_reason :: "string option"

record independent_validation =
  iv_status :: validation_status
  iv_checks :: "validation_check list"
  iv_duration :: "int option"

record role_provenance =
  rp_provider :: string
  rp_model :: string
  rp_hash :: string

record provenance =
  pv_lab_revision :: "string option"
  pv_lab_dirty :: "bool option"
  pv_pi_version :: string
  pv_switchyard :: string
  pv_image :: "string option"
  pv_config_hash :: string
  pv_capability_hash :: string
  pv_metadata_hash :: string
  pv_provider_hash :: string
  pv_auth_profile :: string
  pv_mode :: session_mode
  pv_limits :: execution_config
  pv_models :: "model_role \<Rightarrow> role_provenance"
  pv_task_hash :: "string option"
  pv_source_hash :: "string option"
  pv_validator_hash :: "string option"
  pv_previous :: "string option"

record durations =
  du_setup :: int
  du_routing :: "int option"
  du_agent :: "int option"
  du_validation :: "int option"

record costs =
  co_classifier :: role_cost
  co_coding :: role_cost
  co_total_estimated :: "real option"
  co_total_reference :: "real option"

record run_result =
  rs_identity :: attempt_identity
  rs_evidence :: evidence_kind
  rs_mode :: session_mode
  rs_decision :: "routing_decision option"
  rs_observation :: "observation option"
  rs_served :: "model_identity option"
  rs_status :: execution_status
  rs_started :: string
  rs_ended :: "string option"
  rs_error_category :: "string option"
  rs_validation :: validation_status
  rs_checks :: "validation_check list"
  rs_durations :: durations
  rs_usage :: usage_summaries
  rs_costs :: costs
  rs_provenance :: provenance
  rs_reasons :: "string list"

datatype artifact_error =
    InvalidRunEvent
  | InvalidRunResult
  | NotRunWithEvidence
  | ValidationWithoutEvidence
  | AggregateMismatch validation_status
  | BadRunId
  | AlreadyExists
  | AppendAfterFinalize
  | PatchAfterFinalize
  | AlreadyFinalized
  | SecondDecision
  | InvalidArtifactDecision
  | InvalidEventLine nat
  | SequenceInvalid nat
  | ResultCorrupt
  | AttachIncomplete
  | AlreadyAttached
  | CancelledValidated

subsection \<open>The result schema\<close>

text \<open>
  What the schema demands of a result beyond the types of its fields: nonnegative integers, hashes,
  nonempty strings and unique reasons.
\<close>

definition optional :: "('a \<Rightarrow> bool) \<Rightarrow> 'a option \<Rightarrow> bool" where
  "optional p x = pred_option p x"

definition role_cost_schema :: "role_cost \<Rightarrow> bool" where
  "role_cost_schema c \<longleftrightarrow> optional (\<lambda>r. 0 \<le> r) (rc_estimated c) \<and> optional (\<lambda>r. 0 \<le> r) (rc_reference c)"

definition check_schema :: "validation_check \<Rightarrow> bool" where
  "check_schema c \<longleftrightarrow> vc_name c \<noteq> [] \<and> 0 \<le> vc_duration c"

definition limits_schema :: "execution_config \<Rightarrow> bool" where
  "limits_schema l \<longleftrightarrow> 1 \<le> max_agent_turns l \<and> 1 \<le> timeout_seconds l \<and> 1 \<le> request_timeout_seconds l \<and>
     1 \<le> validation_timeout_seconds l \<and> 1 \<le> context_token_cap l \<and> 1 \<le> max_output_tokens l"

definition role_provenance_schema :: "role_provenance \<Rightarrow> bool" where
  "role_provenance_schema m \<longleftrightarrow> rp_provider m \<noteq> [] \<and> rp_model m \<noteq> [] \<and> is_hash (rp_hash m)"

text \<open>\<open>^[a-z0-9][a-z0-9-]*$\<close>.\<close>

definition is_attempt_slug :: "string \<Rightarrow> bool" where
  "is_attempt_slug s \<longleftrightarrow> is_slug (length s) s"

definition provenance_schema :: "provenance \<Rightarrow> bool" where
  "provenance_schema p \<longleftrightarrow>
     optional is_revision (pv_lab_revision p) \<and> pv_pi_version p \<noteq> [] \<and> is_revision (pv_switchyard p) \<and>
     optional (\<lambda>s. s \<noteq> []) (pv_image p) \<and> is_hash (pv_config_hash p) \<and> is_hash (pv_capability_hash p) \<and>
     is_hash (pv_metadata_hash p) \<and> is_hash (pv_provider_hash p) \<and> is_profile (pv_auth_profile p) \<and>
     limits_schema (pv_limits p) \<and>
     list_all (\<lambda>r. role_provenance_schema (pv_models p r)) model_roles \<and>
     optional is_hash (pv_task_hash p) \<and> optional is_hash (pv_source_hash p) \<and>
     optional is_hash (pv_validator_hash p) \<and> optional is_attempt_slug (pv_previous p)"

definition durations_schema :: "durations \<Rightarrow> bool" where
  "durations_schema d \<longleftrightarrow> 0 \<le> du_setup d \<and> optional (\<lambda>n. 0 \<le> n) (du_routing d) \<and>
     optional (\<lambda>n. 0 \<le> n) (du_agent d) \<and> optional (\<lambda>n. 0 \<le> n) (du_validation d)"

definition costs_schema :: "costs \<Rightarrow> bool" where
  "costs_schema c \<longleftrightarrow> role_cost_schema (co_classifier c) \<and> role_cost_schema (co_coding c) \<and>
     optional (\<lambda>r. 0 \<le> r) (co_total_estimated c) \<and> optional (\<lambda>r. 0 \<le> r) (co_total_reference c)"

definition run_result_schema :: "(string \<Rightarrow> bool) \<Rightarrow> run_result \<Rightarrow> bool" where
  "run_result_schema date_ok r \<longleftrightarrow>
     identity_wf (rs_identity r) \<and> optional (decision_wf date_ok) (rs_decision r) \<and>
     optional (\<lambda>m. mi_provider m \<noteq> [] \<and> mi_model m \<noteq> []) (rs_served r) \<and>
     date_ok (rs_started r) \<and> optional date_ok (rs_ended r) \<and>
     list_all check_schema (rs_checks r) \<and> durations_schema (rs_durations r) \<and>
     costs_schema (rs_costs r) \<and> provenance_schema (rs_provenance r) \<and>
     distinct (rs_reasons r) \<and> list_all (\<lambda>s. s \<noteq> []) (rs_reasons r)"

definition expected_status :: "validation_check list \<Rightarrow> validation_status" where
  "expected_status checks =
     (if list_ex (\<lambda>c. vc_status c = VError) checks then VError
      else if list_all (\<lambda>c. vc_status c = VPass) checks then VPass else VFail)"

definition validate_run_result :: "(string \<Rightarrow> bool) \<Rightarrow> run_result \<Rightarrow> artifact_error + run_result" where
  "validate_run_result date_ok r =
     (if \<not> run_result_schema date_ok r then Inl InvalidRunResult
      else if rs_validation r = VNotRun then
        (if rs_checks r \<noteq> [] \<or> du_validation (rs_durations r) \<noteq> None then Inl NotRunWithEvidence
         else Inr r)
      else if rs_checks r = [] \<or> du_validation (rs_durations r) = None then Inl ValidationWithoutEvidence
      else if rs_validation r \<noteq> expected_status (rs_checks r)
      then Inl (AggregateMismatch (expected_status (rs_checks r)))
      else Inr r)"

subsection \<open>The store of an attempt\<close>

datatype result_file = ResultMissing | ResultUnparsable | ResultStored run_result

text \<open>The directory of an attempt: the lines of the log, whether its tail is cut, the patch, the result.\<close>

record attempt_files =
  af_lines :: "json option list"
  af_truncated :: bool
  af_patch :: string
  af_result :: result_file

record start_options =
  so_identity :: attempt_identity
  so_evidence :: evidence_kind
  so_mode :: session_mode
  so_provenance :: provenance
  so_started :: string
  so_setup :: int

record attempt_store =
  as_options :: start_options
  as_sequence :: nat
  as_dedupe :: "string \<Rightarrow> nat option"
  as_decision :: "routing_decision option"
  as_finalized :: bool
  as_files :: attempt_files

text \<open>The constructor and \<open>initialize\<close>; \<open>exists\<close> says whether the directory is already there.\<close>

definition start_attempt :: "start_options \<Rightarrow> bool \<Rightarrow> artifact_error + attempt_store" where
  "start_attempt options exists =
     (if \<not> is_run_id (ai_run (so_identity options)) then Inl BadRunId
      else if exists then Inl AlreadyExists
      else Inr \<lparr>as_options = options, as_sequence = 0, as_dedupe = Map.empty, as_decision = None,
                as_finalized = False,
                as_files = \<lparr>af_lines = [], af_truncated = False, af_patch = [], af_result = ResultMissing\<rparr>\<rparr>)"

definition store_identity :: "attempt_store \<Rightarrow> string option \<Rightarrow> attempt_identity" where
  "store_identity s decision_id = (so_identity (as_options s))\<lparr>ai_decision := decision_id\<rparr>"

definition current_decision_id :: "attempt_store \<Rightarrow> string option" where
  "current_decision_id s = map_option rd_id (as_decision s)"

record append_options =
  ao_dedupe :: "string option"
  ao_decision :: "string option option"
  ao_timestamp :: string

text \<open>
  \<open>appendEvent\<close>: the sequence number and the dedupe key are taken before the event is validated.
\<close>

definition append_event :: "(schema \<Rightarrow> json \<Rightarrow> bool) \<Rightarrow> (string \<Rightarrow> bool) \<Rightarrow> (string \<Rightarrow> string)
    \<Rightarrow> event_kind \<Rightarrow> json \<Rightarrow> append_options \<Rightarrow> attempt_store
    \<Rightarrow> attempt_store \<times> (artifact_error + unit)" where
  "append_event ajv date_ok scrub kind payload options s =
     (if as_finalized s then (s, Inl AppendAfterFinalize)
      else if (case ao_dedupe options of Some k \<Rightarrow> k \<noteq> [] \<and> as_dedupe s k \<noteq> None | None \<Rightarrow> False)
      then (s, Inr ())
      else
        let sequence = Suc (as_sequence s);
            s1 = s\<lparr>as_sequence := sequence,
              as_dedupe := (case ao_dedupe options of
                Some k \<Rightarrow> if k \<noteq> [] then (as_dedupe s)(k \<mapsto> sequence) else as_dedupe s
              | None \<Rightarrow> as_dedupe s)\<rparr>;
            decision_id = (case ao_decision options of Some d \<Rightarrow> d | None \<Rightarrow> current_decision_id s);
            event = \<lparr>re_sequence = sequence, re_timestamp = ao_timestamp options,
              re_identity = store_identity s decision_id, re_kind = kind,
              re_payload = redact_sensitive scrub payload\<rparr>
        in case assert_event ajv date_ok (event_json event) of
             None \<Rightarrow> (s1, Inl InvalidRunEvent)
           | Some validated \<Rightarrow>
               (s1\<lparr>as_files := (as_files s1)
                  \<lparr>af_lines := af_lines (as_files s1) @ [Some (event_json event)]\<rparr>\<rparr>, Inr ()))"

fun observation_string :: "observation \<Rightarrow> string" where
  "observation_string ObsPersisted = ''persisted''"
| "observation_string ObsResumed = ''resumed-selection''"

definition record_decision :: "(schema \<Rightarrow> json \<Rightarrow> bool) \<Rightarrow> (string \<Rightarrow> bool) \<Rightarrow> (string \<Rightarrow> string)
    \<Rightarrow> string \<Rightarrow> routing_decision \<Rightarrow> observation \<Rightarrow> attempt_store
    \<Rightarrow> attempt_store \<times> (artifact_error + unit)" where
  "record_decision ajv date_ok scrub timestamp decision observed s =
     (if validate_routing_decision ajv date_ok (decision_json decision) \<noteq> Inr decision
      then (s, Inl InvalidArtifactDecision)
      else if (case as_decision s of Some d \<Rightarrow> rd_id d \<noteq> rd_id decision | None \<Rightarrow> False)
      then (s, Inl SecondDecision)
      else append_event ajv date_ok scrub KindRouting
        (JObj [(''action'', JStr ''decision-recorded''), (''observation'', JStr (observation_string observed)),
           (''decision'', decision_json decision)])
        \<lparr>ao_dedupe = Some (''decision:'' @ rd_id decision), ao_decision = Some (Some (rd_id decision)),
         ao_timestamp = timestamp\<rparr>
        (s\<lparr>as_decision := Some decision\<rparr>))"

definition write_patch :: "string \<Rightarrow> attempt_store \<Rightarrow> attempt_store \<times> (artifact_error + unit)" where
  "write_patch patch s =
     (if as_finalized s then (s, Inl PatchAfterFinalize)
      else (s\<lparr>as_files := (as_files s)\<lparr>af_patch := patch\<rparr>\<rparr>, Inr ()))"

subsection \<open>Finalization\<close>

record finalize_input =
  fi_status :: execution_status
  fi_ended :: "string option"
  fi_error_category :: "string option"
  fi_decision :: "routing_decision option"
  fi_observation :: "observation option"
  fi_served :: "model_identity option"
  fi_routing_ms :: "int option"
  fi_agent_ms :: "int option"
  fi_usage :: usage_summaries
  fi_costs :: costs
  fi_reasons :: "string list"
  fi_timestamp :: string

fun status_string :: "execution_status \<Rightarrow> string" where
  "status_string StCompleted = ''completed''"
| "status_string StTimeout = ''timeout''"
| "status_string StCancelled = ''cancelled''"
| "status_string StProviderError = ''provider-error''"
| "status_string StAuthRequired = ''auth-required''"
| "status_string StRateLimited = ''rate-limited''"
| "status_string StHarnessError = ''harness-error''"
| "status_string StBudgetExhausted = ''budget-exhausted''"

definition reason_not_validated :: string where
  "reason_not_validated = ''independent validation has not run for this interactive session''"

definition reason_no_task_hash :: string where
  "reason_no_task_hash = ''task hash is unavailable for interactive runs''"

definition reason_no_source_hash :: string where
  "reason_no_source_hash = ''source hash is unavailable for interactive runs''"

definition reason_no_validator_hash :: string where
  "reason_no_validator_hash = ''validator hash is unavailable for interactive runs''"

definition finalize_reasons :: "provenance \<Rightarrow> string list \<Rightarrow> string list" where
  "finalize_reasons p extra =
     [reason_not_validated]
     @ (if pv_task_hash p = None then [reason_no_task_hash] else [])
     @ (if pv_source_hash p = None then [reason_no_source_hash] else [])
     @ (if pv_validator_hash p = None then [reason_no_validator_hash] else [])
     @ extra"

definition build_result :: "finalize_input \<Rightarrow> attempt_store \<Rightarrow> run_result" where
  "build_result input s =
     \<lparr>rs_identity = store_identity s (map_option rd_id (fi_decision input)),
      rs_evidence = so_evidence (as_options s),
      rs_mode = so_mode (as_options s),
      rs_decision = fi_decision input,
      rs_observation = fi_observation input,
      rs_served = fi_served input,
      rs_status = fi_status input,
      rs_started = so_started (as_options s),
      rs_ended = fi_ended input,
      rs_error_category = fi_error_category input,
      rs_validation = VNotRun,
      rs_checks = [],
      rs_durations = \<lparr>du_setup = so_setup (as_options s), du_routing = fi_routing_ms input,
        du_agent = fi_agent_ms input, du_validation = None\<rparr>,
      rs_usage = fi_usage input,
      rs_costs = fi_costs input,
      rs_provenance = so_provenance (as_options s),
      rs_reasons = finalize_reasons (so_provenance (as_options s)) (fi_reasons input)\<rparr>"

definition finalize_attempt :: "(schema \<Rightarrow> json \<Rightarrow> bool) \<Rightarrow> (string \<Rightarrow> bool) \<Rightarrow> (string \<Rightarrow> string)
    \<Rightarrow> finalize_input \<Rightarrow> attempt_store \<Rightarrow> attempt_store \<times> (artifact_error + run_result)" where
  "finalize_attempt ajv date_ok scrub input s =
     (if as_finalized s then (s, Inl AlreadyFinalized)
      else
        let recorded = (case fi_decision input of
              Some d \<Rightarrow>
                if current_decision_id s \<noteq> Some (rd_id d)
                then record_decision ajv date_ok scrub (fi_timestamp input) d
                  (case fi_observation input of Some ob \<Rightarrow> ob | None \<Rightarrow> ObsPersisted) s
                else (s, Inr ())
            | None \<Rightarrow> (s, Inr ()))
        in case recorded of
             (s1, Inl e) \<Rightarrow> (s1, Inl e)
           | (s1, Inr _) \<Rightarrow>
               (case validate_run_result date_ok (build_result input s1) of
                  Inl e \<Rightarrow> (s1, Inl e)
                | Inr result \<Rightarrow>
                    (case append_event ajv date_ok scrub KindFinalization
                        (JObj [(''status'', JStr (status_string (rs_status result))),
                               (''validationStatus'', JStr ''not-run'')])
                        \<lparr>ao_dedupe = None, ao_decision = None, ao_timestamp = fi_timestamp input\<rparr> s1 of
                       (s2, Inl e) \<Rightarrow> (s2, Inl e)
                     | (s2, Inr _) \<Rightarrow>
                         (s2\<lparr>as_files := (as_files s2)\<lparr>af_result := ResultStored result\<rparr>,
                             as_finalized := True\<rparr>, Inr result))))"

subsection \<open>Reading an attempt\<close>

record attempt_read =
  ar_result :: "run_result option"
  ar_events :: "run_event list"
  ar_truncated :: bool

text \<open>Lines are numbered from 1; a truncated last line is not in \<open>af_lines\<close>.\<close>

fun read_lines :: "(schema \<Rightarrow> json \<Rightarrow> bool) \<Rightarrow> (string \<Rightarrow> bool) \<Rightarrow> nat \<Rightarrow> json option list
    \<Rightarrow> artifact_error + run_event list" where
  "read_lines ajv date_ok n [] = Inr []"
| "read_lines ajv date_ok n (line # rest) =
     (case Option.bind line (assert_event ajv date_ok) of
        None \<Rightarrow> Inl (InvalidEventLine n)
      | Some event \<Rightarrow> bind_result (read_lines ajv date_ok (Suc n) rest) (\<lambda>events. Inr (event # events)))"

fun check_sequence :: "nat \<Rightarrow> run_event list \<Rightarrow> artifact_error + unit" where
  "check_sequence n [] = Inr ()"
| "check_sequence n (e # es) =
     (if re_sequence e \<noteq> n then Inl (SequenceInvalid n) else check_sequence (Suc n) es)"

definition read_attempt :: "(schema \<Rightarrow> json \<Rightarrow> bool) \<Rightarrow> (string \<Rightarrow> bool) \<Rightarrow> attempt_files
    \<Rightarrow> artifact_error + attempt_read" where
  "read_attempt ajv date_ok files =
     bind_result (read_lines ajv date_ok 1 (af_lines files)) (\<lambda>events.
     bind_result (check_sequence 1 events) (\<lambda>_.
       case af_result files of
         ResultMissing \<Rightarrow> Inr \<lparr>ar_result = None, ar_events = events, ar_truncated = af_truncated files\<rparr>
       | ResultUnparsable \<Rightarrow> Inl ResultCorrupt
       | ResultStored parsed \<Rightarrow>
           bind_result (validate_run_result date_ok parsed) (\<lambda>result.
             Inr \<lparr>ar_result = Some result, ar_events = events, ar_truncated = af_truncated files\<rparr>)))"

subsection \<open>Independent validation and outcomes\<close>

definition reasons_before_validation :: "string list" where
  "reasons_before_validation =
     [reason_not_validated,
      ''independent validation has not run through the Phase 07 evaluator'',
      ''independent validation is not available until Phase 07'']"

definition attach_validation_result :: "(schema \<Rightarrow> json \<Rightarrow> bool) \<Rightarrow> (string \<Rightarrow> bool)
    \<Rightarrow> independent_validation \<Rightarrow> attempt_files \<Rightarrow> artifact_error + attempt_files \<times> run_result" where
  "attach_validation_result ajv date_ok v files =
     bind_result (read_attempt ajv date_ok files) (\<lambda>attempt.
       case ar_result attempt of
         None \<Rightarrow> Inl AttachIncomplete
       | Some r \<Rightarrow>
           if rs_validation r \<noteq> VNotRun then Inl AlreadyAttached
           else if rs_status r = StCancelled \<and> iv_status v \<noteq> VNotRun then Inl CancelledValidated
           else
             bind_result (validate_run_result date_ok
               (r\<lparr>rs_validation := iv_status v, rs_checks := iv_checks v,
                  rs_durations := (rs_durations r)\<lparr>du_validation := iv_duration v\<rparr>,
                  rs_reasons := filter (\<lambda>s. s \<notin> set reasons_before_validation) (rs_reasons r)\<rparr>))
               (\<lambda>result. Inr (files\<lparr>af_result := ResultStored result\<rparr>, result)))"

datatype trial_outcome = OutPass | OutFail | OutUnavailable | OutIncomplete

definition classify_trial_outcome :: "run_result \<Rightarrow> trial_outcome" where
  "classify_trial_outcome r =
     (if rs_status r = StCancelled then OutIncomplete
      else if rs_status r = StTimeout \<or> rs_status r = StBudgetExhausted then OutFail
      else if rs_status r \<noteq> StCompleted then OutUnavailable
      else if rs_validation r = VNotRun then OutIncomplete
      else if rs_validation r = VError then OutUnavailable
      else if rs_validation r = VPass then OutPass else OutFail)"

subsection \<open>The log of an attempt\<close>

lemma assert_event_json [simp]:
  "assert_event schema_valid date_ok (event_json e) = (if event_wf date_ok e then Some e else None)"
  by (simp add: assert_event_def event_json_valid)

text \<open>The log is in order: its events are valid and numbered without gaps up to the store's counter.\<close>

definition log_events :: "attempt_store \<Rightarrow> run_event list \<Rightarrow> bool" where
  "log_events s es \<longleftrightarrow> af_lines (as_files s) = map (\<lambda>e. Some (event_json e)) es \<and> \<not> af_truncated (as_files s)"

definition log_wf :: "(string \<Rightarrow> bool) \<Rightarrow> attempt_store \<Rightarrow> bool" where
  "log_wf date_ok s \<longleftrightarrow> (\<exists>es. log_events s es \<and> (\<forall>e \<in> set es. event_wf date_ok e) \<and>
     map re_sequence es = [1..<Suc (length es)] \<and> as_sequence s = length es)"

lemma read_lines_events:
  "(\<forall>e \<in> set es. event_wf date_ok e) \<Longrightarrow>
     read_lines schema_valid date_ok n (map (\<lambda>e. Some (event_json e)) es) = Inr es"
  by (induction es arbitrary: n) simp_all

lemma check_sequence_upto:
  "check_sequence n es = Inr u \<longleftrightarrow> map re_sequence es = [n..<n + length es]"
  by (induction es arbitrary: n) (auto simp: upt_conv_Cons simp del: upt_Suc)

lemma check_sequence_gap:
  "map re_sequence es = [n..<n + length es] \<Longrightarrow> re_sequence e \<noteq> n + length es \<Longrightarrow>
     check_sequence n (es @ [e]) = Inl (SequenceInvalid (n + length es))"
  by (induction es arbitrary: n) (auto simp: upt_conv_Cons simp del: upt_Suc)

lemma read_log:
  assumes "log_events s es" "\<forall>e \<in> set es. event_wf date_ok e" "map re_sequence es = [1..<Suc (length es)]"
  shows "read_attempt schema_valid date_ok (as_files s) =
    (case af_result (as_files s) of
       ResultMissing \<Rightarrow> Inr \<lparr>ar_result = None, ar_events = es, ar_truncated = False\<rparr>
     | ResultUnparsable \<Rightarrow> Inl ResultCorrupt
     | ResultStored parsed \<Rightarrow> bind_result (validate_run_result date_ok parsed) (\<lambda>result.
         Inr \<lparr>ar_result = Some result, ar_events = es, ar_truncated = False\<rparr>))"
proof -
  have "check_sequence 1 es = Inr ()" using assms(3) by (simp add: check_sequence_upto)
  with assms(1,2) show ?thesis
    by (simp add: read_attempt_def log_events_def read_lines_events split: result_file.splits)
qed

lemma log_wf_read:
  "log_wf date_ok s \<Longrightarrow> \<exists>es. length es = as_sequence s \<and> map re_sequence es = [1..<Suc (length es)] \<and>
     read_attempt schema_valid date_ok (as_files s) =
       (case af_result (as_files s) of
          ResultMissing \<Rightarrow> Inr \<lparr>ar_result = None, ar_events = es, ar_truncated = False\<rparr>
        | ResultUnparsable \<Rightarrow> Inl ResultCorrupt
        | ResultStored parsed \<Rightarrow> bind_result (validate_run_result date_ok parsed) (\<lambda>result.
            Inr \<lparr>ar_result = Some result, ar_events = es, ar_truncated = False\<rparr>))"
  unfolding log_wf_def using read_log by metis

text \<open>One append: either the log is unchanged or one event with the next number is added.\<close>

definition appended_event :: "(string \<Rightarrow> string) \<Rightarrow> event_kind \<Rightarrow> json \<Rightarrow> append_options \<Rightarrow> attempt_store
    \<Rightarrow> run_event" where
  "appended_event scrub kind payload options s =
     \<lparr>re_sequence = Suc (as_sequence s), re_timestamp = ao_timestamp options,
      re_identity = store_identity s
        (case ao_decision options of Some d \<Rightarrow> d | None \<Rightarrow> current_decision_id s),
      re_kind = kind, re_payload = redact_sensitive scrub payload\<rparr>"

definition is_duplicate :: "append_options \<Rightarrow> attempt_store \<Rightarrow> bool" where
  "is_duplicate options s = (case ao_dedupe options of Some k \<Rightarrow> k \<noteq> [] \<and> as_dedupe s k \<noteq> None | None \<Rightarrow> False)"

definition next_dedupe :: "append_options \<Rightarrow> attempt_store \<Rightarrow> string \<Rightarrow> nat option" where
  "next_dedupe options s = (case ao_dedupe options of
     Some k \<Rightarrow> if k \<noteq> [] then (as_dedupe s)(k \<mapsto> Suc (as_sequence s)) else as_dedupe s | None \<Rightarrow> as_dedupe s)"

lemma append_event_cases:
  "append_event schema_valid date_ok scrub kind payload options s =
     (if as_finalized s then (s, Inl AppendAfterFinalize)
      else if is_duplicate options s then (s, Inr ())
      else
        let e = appended_event scrub kind payload options s;
            s1 = s\<lparr>as_sequence := Suc (as_sequence s), as_dedupe := next_dedupe options s\<rparr>
        in if event_wf date_ok e
           then (s1\<lparr>as_files := (as_files s)\<lparr>af_lines := af_lines (as_files s) @ [Some (event_json e)]\<rparr>\<rparr>, Inr ())
           else (s1, Inl InvalidRunEvent))"
  by (simp add: append_event_def is_duplicate_def next_dedupe_def appended_event_def Let_def)

lemma append_log_wf:
  assumes "append_event schema_valid date_ok scrub kind payload options s = (s', Inr u)" and "log_wf date_ok s"
  shows "log_wf date_ok s' \<and> af_result (as_files s') = af_result (as_files s) \<and>
    as_finalized s' = as_finalized s \<and> as_options s' = as_options s \<and> as_decision s' = as_decision s"
proof -
  obtain es where es: "log_events s es" "\<forall>e \<in> set es. event_wf date_ok e"
    "map re_sequence es = [1..<Suc (length es)]" "as_sequence s = length es"
    using assms(2) unfolding log_wf_def by blast
  show ?thesis
  proof (cases "is_duplicate options s")
    case True
    with assms show ?thesis by (auto simp: append_event_cases split: if_splits)
  next
    case False
    let ?e = "appended_event scrub kind payload options s"
    have wf: "event_wf date_ok ?e"
      and s': "s' = s\<lparr>as_sequence := Suc (as_sequence s), as_dedupe := next_dedupe options s,
        as_files := (as_files s)\<lparr>af_lines := af_lines (as_files s) @ [Some (event_json ?e)]\<rparr>\<rparr>"
      using assms(1) False by (auto simp: append_event_cases Let_def split: if_splits)
    have "log_events s' (es @ [?e])" using es(1) by (simp add: s' log_events_def)
    moreover have "map re_sequence (es @ [?e]) = [1..<Suc (length (es @ [?e]))]"
      using es(3,4) by (simp add: appended_event_def)
    moreover have "as_sequence s' = length (es @ [?e])" using es(4) by (simp add: s')
    ultimately show ?thesis using es(2) wf unfolding log_wf_def
      by (intro conjI exI [of _ "es @ [?e]"]) (auto simp: s')
  qed
qed

subsection \<open>Operations on an attempt\<close>

datatype attempt_op =
    OpAppend event_kind json append_options
  | OpDecision string routing_decision observation
  | OpPatch string
  | OpFinalize finalize_input

fun attempt_step :: "(schema \<Rightarrow> json \<Rightarrow> bool) \<Rightarrow> (string \<Rightarrow> bool) \<Rightarrow> (string \<Rightarrow> string) \<Rightarrow> attempt_op
    \<Rightarrow> attempt_store \<Rightarrow> attempt_store \<times> (artifact_error + unit)" where
  "attempt_step ajv date_ok scrub (OpAppend kind payload options) s =
     append_event ajv date_ok scrub kind payload options s"
| "attempt_step ajv date_ok scrub (OpDecision timestamp decision observed) s =
     record_decision ajv date_ok scrub timestamp decision observed s"
| "attempt_step ajv date_ok scrub (OpPatch patch) s = write_patch patch s"
| "attempt_step ajv date_ok scrub (OpFinalize input) s =
     (case finalize_attempt ajv date_ok scrub input s of
        (s', Inl e) \<Rightarrow> (s', Inl e) | (s', Inr _) \<Rightarrow> (s', Inr ()))"

text \<open>A caller that stops at the first error.\<close>

definition attempt_run :: "(schema \<Rightarrow> json \<Rightarrow> bool) \<Rightarrow> (string \<Rightarrow> bool) \<Rightarrow> (string \<Rightarrow> string)
    \<Rightarrow> attempt_store \<Rightarrow> attempt_op list \<Rightarrow> artifact_error + attempt_store" where
  "attempt_run ajv date_ok scrub = fold_result (\<lambda>s op.
     case attempt_step ajv date_ok scrub op s of (s', Inr _) \<Rightarrow> Inr s' | (_, Inl e) \<Rightarrow> Inl e)"

text \<open>The result file is written exactly when the store is finalized, and holds a valid result.\<close>

definition attempt_inv :: "(string \<Rightarrow> bool) \<Rightarrow> attempt_store \<Rightarrow> bool" where
  "attempt_inv date_ok s \<longleftrightarrow> log_wf date_ok s \<and>
     (case af_result (as_files s) of
        ResultMissing \<Rightarrow> \<not> as_finalized s
      | ResultUnparsable \<Rightarrow> False
      | ResultStored r \<Rightarrow> as_finalized s \<and> validate_run_result date_ok r = Inr r)"

lemma validate_same: "validate_run_result date_ok r = Inr r' \<Longrightarrow> r' = r"
  by (auto simp: validate_run_result_def split: if_splits)

lemma record_log_wf:
  assumes "record_decision schema_valid date_ok scrub ts d ob s = (s', Inr u)" and "log_wf date_ok s"
  shows "log_wf date_ok s' \<and> af_result (as_files s') = af_result (as_files s) \<and>
    as_finalized s' = as_finalized s \<and> as_options s' = as_options s"
proof -
  have "log_wf date_ok (s\<lparr>as_decision := Some d\<rparr>)"
    using assms(2) by (simp add: log_wf_def log_events_def)
  then show ?thesis
    using assms(1) by (auto simp: record_decision_def dest!: append_log_wf split: if_splits option.splits)
qed

lemma finalize_Inr:
  assumes "finalize_attempt schema_valid date_ok scrub input s = (s', Inr r)" and "log_wf date_ok s"
  shows "log_wf date_ok s' \<and> as_finalized s' \<and> af_result (as_files s') = ResultStored r \<and>
    validate_run_result date_ok r = Inr r \<and> \<not> as_finalized s"
proof -
  obtain s1 s2 u w where
    rec: "(case fi_decision input of
        Some d \<Rightarrow> if current_decision_id s \<noteq> Some (rd_id d)
          then record_decision schema_valid date_ok scrub (fi_timestamp input) d
            (case fi_observation input of Some ob \<Rightarrow> ob | None \<Rightarrow> ObsPersisted) s
          else (s, Inr ()) | None \<Rightarrow> (s, Inr ())) = (s1, Inr u)"
    and valid: "validate_run_result date_ok (build_result input s1) = Inr r"
    and app: "append_event schema_valid date_ok scrub KindFinalization
        (JObj [(''status'', JStr (status_string (rs_status r))), (''validationStatus'', JStr ''not-run'')])
        \<lparr>ao_dedupe = None, ao_decision = None, ao_timestamp = fi_timestamp input\<rparr> s1 = (s2, Inr w)"
    and s': "s' = s2\<lparr>as_files := (as_files s2)\<lparr>af_result := ResultStored r\<rparr>, as_finalized := True\<rparr>"
    and fin: "\<not> as_finalized s"
    using assms(1) unfolding finalize_attempt_def Let_def
    by (auto split: if_splits prod.splits sum.splits)
  have "log_wf date_ok s1"
    using rec assms(2) record_log_wf by (auto split: option.splits if_splits)
  with app have "log_wf date_ok s2" using append_log_wf by blast
  then have "log_wf date_ok s'" by (simp add: s' log_wf_def log_events_def)
  with s' fin valid validate_same [OF valid] show ?thesis by simp
qed

lemma attempt_inv_step:
  assumes "attempt_step schema_valid date_ok scrub op s = (s', Inr u)" and "attempt_inv date_ok s"
  shows "attempt_inv date_ok s'"
proof (cases op)
  case (OpAppend kind payload options)
  with assms append_log_wf [of date_ok scrub kind payload options s s' u] show ?thesis
    by (simp add: attempt_inv_def split: result_file.splits)
next
  case (OpDecision ts d ob)
  with assms record_log_wf [of date_ok scrub ts d ob s s' u] show ?thesis
    by (simp add: attempt_inv_def split: result_file.splits)
next
  case (OpPatch patch)
  with assms show ?thesis
    by (auto simp: attempt_inv_def write_patch_def log_wf_def log_events_def
        split: if_splits result_file.splits)
next
  case (OpFinalize input)
  then obtain r where "finalize_attempt schema_valid date_ok scrub input s = (s', Inr r)"
    using assms(1) by (auto split: prod.splits sum.splits)
  with assms(2) finalize_Inr [of date_ok scrub input s s' r] show ?thesis
    by (simp add: attempt_inv_def)
qed

lemma attempt_run_inv:
  assumes "attempt_run schema_valid date_ok scrub s ops = Inr s'" and "attempt_inv date_ok s"
  shows "attempt_inv date_ok s'"
  using assms unfolding attempt_run_def
  by (rule fold_result_invariant) (auto dest: attempt_inv_step split: prod.splits sum.splits)

lemma start_inv: "start_attempt options exists = Inr s \<Longrightarrow> attempt_inv date_ok s"
  by (auto simp: start_attempt_def attempt_inv_def log_wf_def log_events_def split: if_splits)

subsection \<open>Properties\<close>

definition example_identity :: attempt_identity where
  "example_identity = \<lparr>ai_project = ''p'', ai_session = ''s1'', ai_run = ''r1'', ai_attempt = ''a1'',
     ai_decision = None, ai_experiment = None, ai_task = None, ai_repetition = None\<rparr>"

definition example_provenance :: provenance where
  "example_provenance =
     \<lparr>pv_lab_revision = None, pv_lab_dirty = None, pv_pi_version = ''0.85.0'',
      pv_switchyard = replicate 40 (CHR ''a''), pv_image = None, pv_config_hash = example_hash,
      pv_capability_hash = example_hash, pv_metadata_hash = example_hash, pv_provider_hash = example_hash,
      pv_auth_profile = ''default'', pv_mode = Routed, pv_limits = execution example_config,
      pv_models = (\<lambda>_. \<lparr>rp_provider = ''acme'', rp_model = ''m1'', rp_hash = example_hash\<rparr>),
      pv_task_hash = None, pv_source_hash = None, pv_validator_hash = None, pv_previous = None\<rparr>"

definition example_options :: start_options where
  "example_options = \<lparr>so_identity = example_identity, so_evidence = MockEvidence, so_mode = Routed,
     so_provenance = example_provenance, so_started = ''t'', so_setup = 0\<rparr>"

definition example_role_cost :: role_cost where
  "example_role_cost = \<lparr>rc_billing = BUnknown, rc_currency = None, rc_pricing_as_of = None,
     rc_estimated = None, rc_reference = None, rc_reasons = []\<rparr>"

definition example_finalize :: finalize_input where
  "example_finalize =
     \<lparr>fi_status = StCompleted, fi_ended = Some ''t'', fi_error_category = None, fi_decision = None,
      fi_observation = None, fi_served = None, fi_routing_ms = None, fi_agent_ms = None,
      fi_usage = ledger_summaries [],
      fi_costs = \<lparr>co_classifier = example_role_cost, co_coding = example_role_cost,
        co_total_estimated = None, co_total_reference = None\<rparr>,
      fi_reasons = [], fi_timestamp = ''t''\<rparr>"

definition example_new :: attempt_store where
  "example_new = \<lparr>as_options = example_options, as_sequence = 0, as_dedupe = Map.empty, as_decision = None,
     as_finalized = False,
     as_files = \<lparr>af_lines = [], af_truncated = False, af_patch = [], af_result = ResultMissing\<rparr>\<rparr>"

definition example_result :: run_result where
  "example_result = build_result example_finalize example_new"

definition example_done :: attempt_store where
  "example_done = fst (finalize_attempt schema_valid (\<lambda>_. True) id example_finalize example_new)"

lemma example_start: "start_attempt example_options False = Inr example_new"
  by (simp add: start_attempt_def example_new_def example_options_def example_identity_def is_run_id_def
      is_alnum_def is_lower_def is_path_char_def is_digit_def)

lemma example_provenance_ok: "provenance_schema example_provenance"
  by (simp add: provenance_schema_def example_provenance_def optional_def is_revision_def list_all_iff
      is_lower_hex_def is_profile_def is_slug_def is_lower_def is_digit_def limits_schema_def
      example_config_def role_provenance_schema_def)

lemma example_result_valid: "validate_run_result (\<lambda>_. True) example_result = Inr example_result"
  using example_provenance_ok
  by (simp add: validate_run_result_def example_result_def build_result_def example_finalize_def
      example_new_def example_options_def run_result_schema_def store_identity_def example_identity_def
      identity_wf_def optional_def durations_schema_def costs_schema_def role_cost_schema_def
      example_role_cost_def finalize_reasons_def example_provenance_def reason_not_validated_def
      reason_no_task_hash_def reason_no_source_hash_def reason_no_validator_hash_def)

lemma finalization_payload_ok:
  "event_wf (\<lambda>_. True) (appended_event id KindFinalization
     (JObj [(''status'', JStr x), (''validationStatus'', JStr ''not-run'')])
     \<lparr>ao_dedupe = None, ao_decision = None, ao_timestamp = ''t''\<rparr> example_new)"
proof -
  have "\<not> sensitive_key ''status''" "\<not> sensitive_key ''validationStatus''"
    "\<not> is_array_index ''status''" "\<not> is_array_index ''validationStatus''"
    by code_simp+
  then show ?thesis
    by (simp add: event_wf_def appended_event_def store_identity_def example_new_def example_options_def
        example_identity_def identity_wf_def from_entries_def finalization_schema_def any_string_def
        current_decision_id_def)
qed

lemma example_finalized:
  "finalize_attempt schema_valid (\<lambda>_. True) id example_finalize example_new = (example_done, Inr example_result)"
proof -
  have v: "validate_run_result (\<lambda>_. True) (build_result example_finalize example_new) = Inr example_result"
    using example_result_valid by (simp add: example_result_def)
  have s: "\<not> as_finalized example_new" "fi_decision example_finalize = None"
    "fi_timestamp example_finalize = ''t''"
    by (simp_all add: example_new_def example_finalize_def)
  have "\<exists>s2. append_event schema_valid (\<lambda>_. True) id KindFinalization
      (JObj [(''status'', JStr (status_string (rs_status example_result))), (''validationStatus'', JStr ''not-run'')])
      \<lparr>ao_dedupe = None, ao_decision = None, ao_timestamp = ''t''\<rparr> example_new = (s2, Inr ())"
    using s(1) finalization_payload_ok by (simp add: append_event_cases is_duplicate_def Let_def)
  then show ?thesis
    using s v unfolding example_done_def by (auto simp: finalize_attempt_def Let_def)
qed

text \<open>C10: Whatever sequence of appends, decisions, patches and finalization succeeds on a fresh attempt,
  its log reads back: every event is valid, the events are numbered 1, 2, 3 and so on without a gap,
  the tail is not truncated, and reading gives a result exactly when the attempt was finalized, the
  one that was written.\<close>

theorem attempt_reads_back:
  assumes "json_validator ajv" and "start_attempt options exists = Inr s0"
    and "attempt_run ajv date_ok scrub s0 ops = Inr s"
  shows "\<exists>attempt. read_attempt ajv date_ok (as_files s) = Inr attempt \<and>
    map re_sequence (ar_events attempt) = [1..<Suc (length (ar_events attempt))] \<and>
    \<not> ar_truncated attempt \<and> (ar_result attempt \<noteq> None \<longleftrightarrow> as_finalized s) \<and>
    (\<forall>r. ar_result attempt = Some r \<longleftrightarrow> af_result (as_files s) = ResultStored r)"
proof -
  have inv: "attempt_inv date_ok s"
    using attempt_run_inv start_inv assms(2,3) unfolding json_validator_eq [OF assms(1)] by blast
  then have "log_wf date_ok s" by (simp add: attempt_inv_def)
  from log_wf_read [OF this] inv show ?thesis
    unfolding json_validator_eq [OF assms(1)]
    by (cases "af_result (as_files s)") (auto simp: attempt_inv_def)
qed

theorem attempt_reads_back_witness:
  "\<exists>attempt. read_attempt schema_valid (\<lambda>_. True) (as_files example_done) = Inr attempt \<and>
    map re_sequence (ar_events attempt) = [1..<Suc (length (ar_events attempt))] \<and>
    \<not> ar_truncated attempt \<and> (ar_result attempt \<noteq> None \<longleftrightarrow> as_finalized example_done) \<and>
    (\<forall>r. ar_result attempt = Some r \<longleftrightarrow> af_result (as_files example_done) = ResultStored r)"
  by (rule attempt_reads_back [OF standard.json_validator_axioms example_start, of _ id "[OpFinalize example_finalize]"])
    (simp add: attempt_run_def example_finalized)

text \<open>A finalized attempt is frozen: every further append, decision of another identity, patch or
  finalization is an error and leaves the log, the patch and the result as they are.\<close>

theorem finalized_attempt_frozen:
  assumes "as_finalized s"
  shows "as_files (fst (attempt_step ajv date_ok scrub op s)) = as_files s \<and>
    as_finalized (fst (attempt_step ajv date_ok scrub op s)) \<and>
    (\<exists>e. snd (attempt_step ajv date_ok scrub op s) = Inl e)"
  using assms
  by (cases op) (auto simp: append_event_def record_decision_def write_patch_def finalize_attempt_def)

theorem finalized_attempt_frozen_witness:
  "as_files (fst (attempt_step schema_valid (\<lambda>_. True) id (OpPatch ''late'') example_done)) = as_files example_done \<and>
    as_finalized (fst (attempt_step schema_valid (\<lambda>_. True) id (OpPatch ''late'') example_done)) \<and>
    (\<exists>e. snd (attempt_step schema_valid (\<lambda>_. True) id (OpPatch ''late'') example_done) = Inl e)"
proof (rule finalized_attempt_frozen)
  have "log_wf (\<lambda>_. True) example_new"
    using start_inv [OF example_start] by (simp add: attempt_inv_def)
  from finalize_Inr [OF example_finalized this] show "as_finalized example_done" by blast
qed

text \<open>C38: A rejected event damages the log: when the payload of an append is invalid the error is
  raised after the sequence number and the dedupe key were taken, so the next valid append leaves a
  gap and the whole attempt no longer reads back, and repeating the rejected append under its dedupe
  key reports success although no event was ever written.\<close>

theorem rejected_event_breaks_log:
  assumes "json_validator ajv" and "log_wf date_ok s"
    and "append_event ajv date_ok scrub kind payload options s = (s1, Inl InvalidRunEvent)"
    and "append_event ajv date_ok scrub kind' payload' options' s1 = (s2, Inr ())"
    and "\<not> is_duplicate options' s1"
  shows "read_attempt ajv date_ok (as_files s2) = Inl (SequenceInvalid (Suc (as_sequence s))) \<and>
    (\<forall>k. ao_dedupe options = Some k \<and> k \<noteq> [] \<longrightarrow>
      append_event ajv date_ok scrub kind payload options s1 = (s1, Inr ()))"
proof -
  obtain es where es: "log_events s es" "\<forall>e \<in> set es. event_wf date_ok e"
    "map re_sequence es = [1..<Suc (length es)]" "as_sequence s = length es"
    using assms(2) unfolding log_wf_def by blast
  have open_s: "\<not> as_finalized s" "\<not> is_duplicate options s"
    and s1: "s1 = s\<lparr>as_sequence := Suc (as_sequence s), as_dedupe := next_dedupe options s\<rparr>"
    using assms(3) unfolding json_validator_eq [OF assms(1)]
    by (auto simp: append_event_cases Let_def split: if_splits)
  let ?e = "appended_event scrub kind' payload' options' s1"
  have wf: "event_wf date_ok ?e" and s2: "af_lines (as_files s2) = af_lines (as_files s) @ [Some (event_json ?e)]"
    using assms(4,5) open_s unfolding json_validator_eq [OF assms(1)]
    by (auto simp: append_event_cases Let_def s1 split: if_splits)
  have "af_lines (as_files s2) = map (\<lambda>e. Some (event_json e)) (es @ [?e])"
    using es(1) s2 by (simp add: log_events_def)
  moreover have "read_lines schema_valid date_ok 1 (map (\<lambda>e. Some (event_json e)) (es @ [?e])) = Inr (es @ [?e])"
    using es(2) wf by (intro read_lines_events) auto
  moreover have "check_sequence 1 (es @ [?e]) = Inl (SequenceInvalid (1 + length es))"
    using es(3,4) by (intro check_sequence_gap) (simp_all add: appended_event_def s1)
  ultimately have "read_attempt schema_valid date_ok (as_files s2) = Inl (SequenceInvalid (Suc (as_sequence s)))"
    by (simp add: read_attempt_def es(4))
  then show ?thesis
    using open_s unfolding json_validator_eq [OF assms(1)]
    by (auto simp: append_event_cases is_duplicate_def next_dedupe_def s1)
qed

definition example_bad_append :: append_options where
  "example_bad_append = \<lparr>ao_dedupe = Some ''k'', ao_decision = None, ao_timestamp = ''t''\<rparr>"

definition example_good_append :: append_options where
  "example_good_append = \<lparr>ao_dedupe = None, ao_decision = None, ao_timestamp = ''t''\<rparr>"

lemma example_appends:
  "\<exists>s1 s2. append_event schema_valid (\<lambda>_. True) id KindError (JObj []) example_bad_append example_new =
      (s1, Inl InvalidRunEvent) \<and>
    append_event schema_valid (\<lambda>_. True) id KindError (JObj [(''category'', JStr ''x'')]) example_good_append s1 =
      (s2, Inr ()) \<and>
    \<not> is_duplicate example_good_append s1"
proof -
  have "\<not> sensitive_key ''category''" "\<not> is_array_index ''category''" by code_simp+
  then show ?thesis
    by (simp add: append_event_cases Let_def is_duplicate_def example_bad_append_def
        example_good_append_def example_new_def event_wf_def appended_event_def error_schema_def
        store_identity_def example_options_def example_identity_def identity_wf_def from_entries_def
        current_decision_id_def any_string_def)
qed

theorem rejected_event_breaks_log_witness:
  "\<exists>s1 s2 :: attempt_store.
    read_attempt schema_valid (\<lambda>_. True) (as_files s2) = Inl (SequenceInvalid (Suc (as_sequence example_new))) \<and>
    (\<forall>k. ao_dedupe example_bad_append = Some k \<and> k \<noteq> [] \<longrightarrow>
      append_event schema_valid (\<lambda>_. True) id KindError (JObj []) example_bad_append s1 = (s1, Inr ()))"
proof -
  have wf: "log_wf (\<lambda>_. True) example_new"
    using start_inv [OF example_start] by (simp add: attempt_inv_def)
  obtain s1 s2 where
    a: "append_event schema_valid (\<lambda>_. True) id KindError (JObj []) example_bad_append example_new =
      (s1, Inl InvalidRunEvent)"
    and b: "append_event schema_valid (\<lambda>_. True) id KindError (JObj [(''category'', JStr ''x'')])
      example_good_append s1 = (s2, Inr ())"
    and c: "\<not> is_duplicate example_good_append s1"
    using example_appends by (elim exE conjE)
  show ?thesis
    by (rule exI, rule exI, rule rejected_event_breaks_log [OF standard.json_validator_axioms wf a b c])
qed

lemma attach_Inr:
  assumes "attach_validation_result ajv date_ok v files = Inr (files', r)"
  obtains attempt r0 where "read_attempt ajv date_ok files = Inr attempt" "ar_result attempt = Some r0"
    "rs_validation r0 = VNotRun" "\<not> (rs_status r0 = StCancelled \<and> iv_status v \<noteq> VNotRun)"
    "r = r0\<lparr>rs_validation := iv_status v, rs_checks := iv_checks v,
       rs_durations := (rs_durations r0)\<lparr>du_validation := iv_duration v\<rparr>,
       rs_reasons := filter (\<lambda>s. s \<notin> set reasons_before_validation) (rs_reasons r0)\<rparr>"
    "validate_run_result date_ok r = Inr r" "files' = files\<lparr>af_result := ResultStored r\<rparr>"
    "read_attempt ajv date_ok files' = Inr (attempt\<lparr>ar_result := Some r\<rparr>)"
proof -
  obtain attempt r0 where a: "read_attempt ajv date_ok files = Inr attempt" "ar_result attempt = Some r0"
    "rs_validation r0 = VNotRun" "\<not> (rs_status r0 = StCancelled \<and> iv_status v \<noteq> VNotRun)"
    and valid: "validate_run_result date_ok
        (r0\<lparr>rs_validation := iv_status v, rs_checks := iv_checks v,
           rs_durations := (rs_durations r0)\<lparr>du_validation := iv_duration v\<rparr>,
           rs_reasons := filter (\<lambda>s. s \<notin> set reasons_before_validation) (rs_reasons r0)\<rparr>) = Inr r"
    and f: "files' = files\<lparr>af_result := ResultStored r\<rparr>"
    using assms by (auto simp: attach_validation_result_def split: option.splits if_splits)
  note r = validate_same [OF valid]
  have again: "validate_run_result date_ok r = Inr r" using valid r by simp
  obtain r1 where "af_result files = ResultStored r1"
    using a(1,2) by (cases "af_result files") (auto simp: read_attempt_def)
  then have "read_attempt ajv date_ok files' = Inr (attempt\<lparr>ar_result := Some r\<rparr>)"
    using a(1) again by (auto simp: read_attempt_def f)
  from that [OF a r again f this] show thesis .
qed

text \<open>C37: Independent validation is attached at most once, to a finalized attempt, and consistently: when
  it succeeds the result carries exactly the given status, checks and duration (an error if any check
  errs, a pass if all pass, otherwise a failure), the log and patch are untouched, reading the attempt
  gives the new result, a cancelled execution stays unvalidated, and attaching again is refused.\<close>

theorem validation_attached_once:
  assumes "json_validator ajv" and "attach_validation_result ajv date_ok v files = Inr (files', r)"
  shows "rs_validation r = iv_status v \<and> rs_checks r = iv_checks v \<and>
    du_validation (rs_durations r) = iv_duration v \<and>
    (iv_status v \<noteq> VNotRun \<longrightarrow> iv_checks v \<noteq> [] \<and> iv_status v = expected_status (iv_checks v) \<and>
       rs_status r \<noteq> StCancelled) \<and>
    files' = files\<lparr>af_result := ResultStored r\<rparr> \<and>
    (\<exists>attempt. read_attempt ajv date_ok files' = Inr attempt \<and> ar_result attempt = Some r) \<and>
    (iv_status v \<noteq> VNotRun \<longrightarrow> (\<forall>v'. attach_validation_result ajv date_ok v' files' = Inl AlreadyAttached))"
proof -
  obtain attempt r0 where a: "\<not> (rs_status r0 = StCancelled \<and> iv_status v \<noteq> VNotRun)"
    and r: "r = r0\<lparr>rs_validation := iv_status v, rs_checks := iv_checks v,
       rs_durations := (rs_durations r0)\<lparr>du_validation := iv_duration v\<rparr>,
       rs_reasons := filter (\<lambda>s. s \<notin> set reasons_before_validation) (rs_reasons r0)\<rparr>"
    and valid: "validate_run_result date_ok r = Inr r" and f: "files' = files\<lparr>af_result := ResultStored r\<rparr>"
    and read': "read_attempt ajv date_ok files' = Inr (attempt\<lparr>ar_result := Some r\<rparr>)"
    by (rule attach_Inr [OF assms(2)])
  have "iv_status v \<noteq> VNotRun \<longrightarrow> iv_checks v \<noteq> [] \<and> iv_status v = expected_status (iv_checks v)"
    using valid by (auto simp: r validate_run_result_def split: if_splits)
  moreover have "attach_validation_result ajv date_ok v' files' = Inl AlreadyAttached"
    if "iv_status v \<noteq> VNotRun" for v'
    using read' that by (simp add: r attach_validation_result_def)
  ultimately show ?thesis using a f read' by (auto simp: r)
qed

definition example_validation :: independent_validation where
  "example_validation = \<lparr>iv_status = VPass,
     iv_checks = [\<lparr>vc_name = ''tests'', vc_status = VPass, vc_exit = Some 0, vc_duration = 5,
       vc_stdout = None, vc_stderr = None, vc_reason = None\<rparr>],
     iv_duration = Some 5\<rparr>"

definition example_finished :: attempt_files where
  "example_finished = \<lparr>af_lines = [], af_truncated = False, af_patch = [], af_result = ResultStored example_result\<rparr>"

lemma example_attach:
  "\<exists>files r. attach_validation_result schema_valid (\<lambda>_. True) example_validation example_finished = Inr (files, r)"
proof -
  have read: "read_attempt schema_valid (\<lambda>_. True) example_finished =
      Inr \<lparr>ar_result = Some example_result, ar_events = [], ar_truncated = False\<rparr>"
    using example_result_valid by (simp add: read_attempt_def example_finished_def)
  have fields: "rs_validation example_result = VNotRun" "rs_status example_result = StCompleted"
    by (simp_all add: example_result_def build_result_def example_finalize_def)
  have "\<exists>r. validate_run_result (\<lambda>_. True) (example_result
      \<lparr>rs_validation := iv_status example_validation, rs_checks := iv_checks example_validation,
       rs_durations := (rs_durations example_result)\<lparr>du_validation := iv_duration example_validation\<rparr>,
       rs_reasons := filter (\<lambda>s. s \<notin> set reasons_before_validation) (rs_reasons example_result)\<rparr>) = Inr r"
    using example_result_valid
    by (auto simp: validate_run_result_def example_validation_def run_result_schema_def check_schema_def
        expected_status_def durations_schema_def optional_def list_all_iff split: if_splits)
  with read fields show ?thesis by (auto simp: attach_validation_result_def)
qed

theorem validation_attached_once_witness:
  "\<exists>files r. files = example_finished\<lparr>af_result := ResultStored r\<rparr> \<and>
     rs_validation r = VPass \<and> (\<forall>v'. attach_validation_result schema_valid (\<lambda>_. True) v' files = Inl AlreadyAttached)"
proof -
  obtain files r where
    a: "attach_validation_result schema_valid (\<lambda>_. True) example_validation example_finished = Inr (files, r)"
    using example_attach by blast
  have "iv_status example_validation = VPass" by (simp add: example_validation_def)
  with validation_attached_once [OF standard.json_validator_axioms a] show ?thesis by auto
qed

text \<open>A trial counts as a pass exactly when the execution completed and the independent validation
  passed; a valid result that passes has checks, all of them passed. Timeouts and exhausted budgets
  are failures, cancelled or unvalidated executions are incomplete, and everything else (provider,
  authentication and harness errors, validator errors) is unavailable, never a failure.\<close>

theorem trial_outcome_exact:
  assumes "validate_run_result date_ok r = Inr r"
  shows "(classify_trial_outcome r = OutPass \<longleftrightarrow>
      rs_status r = StCompleted \<and> rs_checks r \<noteq> [] \<and> (\<forall>c \<in> set (rs_checks r). vc_status c = VPass)) \<and>
    (classify_trial_outcome r = OutFail \<longleftrightarrow>
      rs_status r \<in> {StTimeout, StBudgetExhausted} \<or>
      (rs_status r = StCompleted \<and> (\<forall>c \<in> set (rs_checks r). vc_status c \<noteq> VError) \<and>
       (\<exists>c \<in> set (rs_checks r). vc_status c \<noteq> VPass))) \<and>
    (classify_trial_outcome r = OutIncomplete \<longleftrightarrow>
      rs_status r = StCancelled \<or> (rs_status r = StCompleted \<and> rs_checks r = []))"
proof -
  have none: "rs_validation r = VNotRun \<longleftrightarrow> rs_checks r = []"
    and exp: "rs_validation r \<noteq> VNotRun \<Longrightarrow> rs_validation r = expected_status (rs_checks r)"
    using assms by (auto simp: validate_run_result_def split: if_splits)
  have pass: "rs_validation r = VPass \<longleftrightarrow> rs_checks r \<noteq> [] \<and> (\<forall>c \<in> set (rs_checks r). vc_status c = VPass)"
  proof (cases "rs_validation r = VNotRun")
    case False
    moreover have "expected_status (rs_checks r) = VPass \<longleftrightarrow> (\<forall>c \<in> set (rs_checks r). vc_status c = VPass)"
      by (auto simp: expected_status_def list_ex_iff list_all_iff)
    ultimately show ?thesis using none exp by metis
  qed (use none in simp)
  have err: "rs_validation r = VError \<longleftrightarrow> (\<exists>c \<in> set (rs_checks r). vc_status c = VError)"
  proof (cases "rs_validation r = VNotRun")
    case False
    moreover have "expected_status (rs_checks r) = VError \<longleftrightarrow> (\<exists>c \<in> set (rs_checks r). vc_status c = VError)"
      by (auto simp: expected_status_def list_ex_iff list_all_iff)
    ultimately show ?thesis using none exp by metis
  qed (use none in simp)
  have fail: "rs_validation r = VFail \<longleftrightarrow> rs_validation r \<noteq> VNotRun \<and> rs_validation r \<noteq> VPass \<and> rs_validation r \<noteq> VError"
    by (cases "rs_validation r") simp_all
  have "classify_trial_outcome r = OutPass \<longleftrightarrow> rs_status r = StCompleted \<and> rs_validation r = VPass"
    "classify_trial_outcome r = OutFail \<longleftrightarrow>
      rs_status r \<in> {StTimeout, StBudgetExhausted} \<or> (rs_status r = StCompleted \<and> rs_validation r = VFail)"
    "classify_trial_outcome r = OutIncomplete \<longleftrightarrow>
      rs_status r = StCancelled \<or> (rs_status r = StCompleted \<and> rs_validation r = VNotRun)"
    by (cases "rs_status r"; cases "rs_validation r"; simp add: classify_trial_outcome_def)+
  then show ?thesis unfolding fail unfolding pass err none by auto
qed

theorem trial_outcome_exact_witness:
  "(classify_trial_outcome example_result = OutIncomplete \<longleftrightarrow>
      rs_status example_result = StCancelled \<or> (rs_status example_result = StCompleted \<and> rs_checks example_result = []))"
  using trial_outcome_exact [OF example_result_valid] by blast

end
