(* ===== verification/Validator.thy ===== *)
theory Validator
  imports Submission Run_Artifacts
begin

section \<open>Independent validation (src/evaluation/validator.ts)\<close>

text \<open>
  The evaluator's definition, one check as the events of its child process, the validation of a
  submission on a fresh copy of its fixture and the gate a fixture has to pass with its reference
  solution. What a process reports and leaves in the workspace, the setup command, \<open>JSON.parse\<close> and
  the listing of a workspace are parameters.
\<close>

subsection \<open>The definition of an evaluator\<close>

record validator_definition =
  vd_task :: string
  vd_hidden :: "task_check list"
  vd_reference :: string
  vd_incomplete :: string
  vd_mutants :: "string list option"

datatype validator_error =
    ValidatorWorkspace workspace_error
  | ValidatorUnreadable
  | ValidatorInvalid
  | ValidatorTaskMismatch
  | CheckWithoutCommand string
  | CheckPending string
  | CheckCrashed string
  | UnsupportedEntry string
  | QualityGateFailed

text \<open>\<open>^mutant-[a-z0-9-]{1,56}$\<close>.\<close>

definition is_mutant_name :: "string \<Rightarrow> bool" where
  "is_mutant_name s \<longleftrightarrow> take 7 s = ''mutant-'' \<and> 8 \<le> length s \<and> length s \<le> 63 \<and>
     list_all (\<lambda>c. is_lower c \<or> is_digit c \<or> c = CHR ''-'') (drop 7 s)"

definition validator_schema :: schema where
  "validator_schema = Schema
     [KType [TObject],
      KRequired [''schemaVersion'', ''taskId'', ''hiddenChecks'', ''referenceDirectory'', ''incompleteDirectory''],
      KClosed
        [(''schemaVersion'', Schema [KConst (JNum 1)]),
         (''taskId'', slug_string),
         (''hiddenChecks'', public_checks_schema),
         (''referenceDirectory'', slug_string),
         (''incompleteDirectory'', slug_string),
         (''mutantDirectories'', Schema [KType [TArray], KUniqueItems,
            KItems (Schema [KType [TString], KPattern is_mutant_name])])]]"

definition decode_validator :: "json \<Rightarrow> validator_definition" where
  "decode_validator j =
     \<lparr>vd_task = json_str (json_get ''taskId'' j),
      vd_hidden = map decode_task_check (json_items (json_get ''hiddenChecks'' j)),
      vd_reference = json_str (json_get ''referenceDirectory'' j),
      vd_incomplete = json_str (json_get ''incompleteDirectory'' j),
      vd_mutants = map_option json_strs (json_field ''mutantDirectories'' j)\<rparr>"

text \<open>\<open>stored\<close> is what parsing \<open>validator.json\<close> of the evaluator gives, if that succeeds.\<close>

definition load_validator :: "(schema \<Rightarrow> json \<Rightarrow> bool) \<Rightarrow> json option \<Rightarrow> loaded_task
    \<Rightarrow> validator_error + validator_definition" where
  "load_validator ajv stored task =
     (case stored of
        None \<Rightarrow> Inl ValidatorUnreadable
      | Some j \<Rightarrow>
          if \<not> ajv validator_schema j then Inl ValidatorInvalid
          else
            let definition = decode_validator j
            in if vd_task definition \<noteq> td_id (lt_definition task) then Inl ValidatorTaskMismatch
               else Inr definition)"

subsection \<open>The command of a check\<close>

definition resolve_arg :: "string \<Rightarrow> string \<Rightarrow> string \<Rightarrow> validator_error + string" where
  "resolve_arg workspace evaluator value =
     (let inside = (\<lambda>root rest. case assert_safe_relative_path rest of
          Inl e \<Rightarrow> Inl (ValidatorWorkspace (WorkspacePath e)) | Inr path \<Rightarrow> Inr (root @ ''/'' @ path))
      in if value = ''{workspace}'' then Inr workspace
         else if value = ''{evaluator}'' then Inr evaluator
         else if prefix ''{workspace}/'' value then inside workspace (drop (length ''{workspace}/'') value)
         else if prefix ''{evaluator}/'' value then inside evaluator (drop (length ''{evaluator}/'') value)
         else Inr value)"

definition is_node_test :: "string list \<Rightarrow> bool" where
  "is_node_test argv \<longleftrightarrow> (case argv of [] \<Rightarrow> False | command # args \<Rightarrow> command = ''node'' \<and> ''--test'' \<in> set args)"

definition effective_command :: "(string \<Rightarrow> string) \<Rightarrow> string list \<Rightarrow> string list" where
  "effective_command asset argv =
     (if is_node_test argv
      then [hd argv, ''--experimental-strip-types'', ''--import'', asset ''validation-guard'',
            ''--test-reporter'', asset ''validation-reporter''] @ tl argv
      else argv)"

subsection \<open>The process of a check\<close>

text \<open>What killing a process group answers: it is gone already, or the signal may not be sent.\<close>

datatype kill_reply = Killed | KillGone | KillDenied string

datatype child_event =
    StdoutChunk string kill_reply
  | StderrChunk string kill_reply
  | ControlChunk string
  | TimerFired kill_reply
  | SpawnError string
  | Closed "int option" "string option"

record finished_check =
  fc_status :: validation_status
  fc_exit :: "int option"
  fc_reason :: "string option"
  fc_stdout :: string
  fc_stderr :: string

record check_state =
  ck_stdout :: string
  ck_stderr :: string
  ck_bytes :: nat
  ck_exceeded :: bool
  ck_timed_out :: bool
  ck_completion :: string
  ck_crashed :: bool
  ck_finished :: "finished_check option"

definition initial_check :: check_state where
  "initial_check = \<lparr>ck_stdout = [], ck_stderr = [], ck_bytes = 0, ck_exceeded = False, ck_timed_out = False,
     ck_completion = [], ck_crashed = False, ck_finished = None\<rparr>"

definition output_limit :: nat where
  "output_limit = 1024 * 1024"

definition finish_check :: "validation_status \<Rightarrow> int option \<Rightarrow> string option \<Rightarrow> check_state \<Rightarrow> check_state" where
  "finish_check status code reason st =
     (case ck_finished st of
        Some _ \<Rightarrow> st
      | None \<Rightarrow> st\<lparr>ck_finished := Some \<lparr>fc_status = status, fc_exit = code, fc_reason = reason,
          fc_stdout = ck_stdout st, fc_stderr = ck_stderr st\<rparr>\<rparr>)"

definition capture_chunk :: "(check_state \<Rightarrow> check_state) \<Rightarrow> string \<Rightarrow> kill_reply \<Rightarrow> check_state \<Rightarrow> check_state" where
  "capture_chunk push chunk kill st =
     (if ck_exceeded st then st
      else
        let st' = st\<lparr>ck_bytes := ck_bytes st + length chunk\<rparr>
        in if output_limit < ck_bytes st'
           then case kill of
               KillDenied message \<Rightarrow> finish_check VError None (Some message) (st'\<lparr>ck_exceeded := True\<rparr>)
             | _ \<Rightarrow> st'\<lparr>ck_exceeded := True\<rparr>
           else push st')"

text \<open>The trusted runner confirms on the control pipe that assertions completed.\<close>

definition confirms_completion :: "(string \<Rightarrow> json option) \<Rightarrow> string \<Rightarrow> bool" where
  "confirms_completion parse text =
     (case parse text of None \<Rightarrow> False | Some j \<Rightarrow> json_get ''completed'' j = JBool True)"

definition on_close :: "(string \<Rightarrow> json option) \<Rightarrow> bool \<Rightarrow> int option \<Rightarrow> string option \<Rightarrow> check_state \<Rightarrow> check_state" where
  "on_close parse node_test code signal st =
     (if ck_exceeded st then finish_check VFail None (Some ''validation output limit exceeded'') st
      else if ck_timed_out st then finish_check VFail None (Some ''validation timeout'') st
      else if code = Some 0 then
        let completed = (\<not> node_test \<or> confirms_completion parse (ck_completion st))
        in finish_check (if completed then VPass else VFail) (Some 0)
             (if completed then None else Some ''trusted test runner did not confirm completed assertions'') st
      else finish_check VFail code (case signal of
          Some s \<Rightarrow> (if s = [] then None else Some (''terminated by '' @ s)) | None \<Rightarrow> None) st)"

text \<open>A timer that cannot send its signal throws outside of any promise, which ends the evaluator.\<close>

definition on_timer :: "kill_reply \<Rightarrow> check_state \<Rightarrow> check_state" where
  "on_timer kill st =
     (if ck_finished st \<noteq> None then st
      else case kill of
          KillDenied _ \<Rightarrow> st\<lparr>ck_timed_out := True, ck_crashed := True\<rparr>
        | _ \<Rightarrow> st\<lparr>ck_timed_out := True\<rparr>)"

fun check_step :: "(string \<Rightarrow> json option) \<Rightarrow> bool \<Rightarrow> check_state \<Rightarrow> child_event \<Rightarrow> check_state" where
  "check_step parse node_test st (StdoutChunk chunk kill) =
     capture_chunk (\<lambda>s. s\<lparr>ck_stdout := ck_stdout s @ chunk\<rparr>) chunk kill st"
| "check_step parse node_test st (StderrChunk chunk kill) =
     capture_chunk (\<lambda>s. s\<lparr>ck_stderr := ck_stderr s @ chunk\<rparr>) chunk kill st"
| "check_step parse node_test st (ControlChunk chunk) =
     (if length (ck_completion st) < 4096 then st\<lparr>ck_completion := ck_completion st @ chunk\<rparr> else st)"
| "check_step parse node_test st (TimerFired kill) = on_timer kill st"
| "check_step parse node_test st (SpawnError message) = finish_check VError None (Some message) st"
| "check_step parse node_test st (Closed code signal) = on_close parse node_test code signal st"

text \<open>A process: what it reports in order, how long it takes and the workspace it leaves.\<close>

record check_process =
  cp_events :: "child_event list"
  cp_elapsed :: int
  cp_workspace :: workspace

record check_world =
  cw_asset :: "string \<Rightarrow> string"
  cw_parse :: "string \<Rightarrow> json option"
  cw_workspace :: string
  cw_evaluator :: string
  cw_process :: "string list \<Rightarrow> workspace \<Rightarrow> check_process"

definition stdout_artifact :: "task_check \<Rightarrow> string" where
  "stdout_artifact item = tk_name item @ ''.stdout.txt''"

definition stderr_artifact :: "task_check \<Rightarrow> string" where
  "stderr_artifact item = tk_name item @ ''.stderr.txt''"

definition run_check :: "check_world \<Rightarrow> task_check \<Rightarrow> workspace
    \<Rightarrow> validator_error + validation_check \<times> (string \<times> string) list \<times> workspace" where
  "run_check world item w =
     bind_result (map_result (resolve_arg (cw_workspace world) (cw_evaluator world)) (tk_argv item)) (\<lambda>argv.
       if argv = [] \<or> hd argv = [] then Inl (CheckWithoutCommand (tk_name item))
       else
         let process = cw_process world (effective_command (cw_asset world) argv) w;
             st = foldl (check_step (cw_parse world) (is_node_test argv)) initial_check (cp_events process)
         in if ck_crashed st then Inl (CheckCrashed (tk_name item))
            else case ck_finished st of
                None \<Rightarrow> Inl (CheckPending (tk_name item))
              | Some f \<Rightarrow> Inr
                  (\<lparr>vc_name = tk_name item, vc_status = fc_status f, vc_exit = fc_exit f,
                    vc_duration = cp_elapsed process, vc_stdout = Some (stdout_artifact item),
                    vc_stderr = Some (stderr_artifact item), vc_reason = fc_reason f\<rparr>,
                   [(stdout_artifact item, fc_stdout f), (stderr_artifact item, fc_stderr f)],
                   cp_workspace process))"

fun run_checks :: "check_world \<Rightarrow> task_check list \<Rightarrow> workspace
    \<Rightarrow> validator_error + validation_check list \<times> (string \<times> string) list" where
  "run_checks world [] w = Inr ([], [])"
| "run_checks world (item # rest) w =
     bind_result (run_check world item w) (\<lambda>(result, outputs, w').
     bind_result (run_checks world rest w') (\<lambda>(results, more). Inr (result # results, outputs @ more)))"

subsection \<open>Validating a submission\<close>

text \<open>
  What a validation reads from its surroundings: the files of the fixture, the setup command, the
  stored definition of the evaluator, the processes, and the time that passes.
\<close>

record validation_world =
  vw_sha :: "string \<Rightarrow> string"
  vw_source :: "string \<Rightarrow> string option"
  vw_setup :: "string list \<Rightarrow> workspace \<Rightarrow> workspace option"
  vw_ajv :: "schema \<Rightarrow> json \<Rightarrow> bool"
  vw_stored :: "json option"
  vw_checks :: check_world
  vw_elapsed :: int

record validation_run =
  vr_validation :: independent_validation
  vr_outputs :: "(string \<times> string) list"

definition policy_check :: "submission_export \<Rightarrow> validation_check" where
  "policy_check s =
     \<lparr>vc_name = ''submission-policy'', vc_status = VFail, vc_exit = None, vc_duration = 0, vc_stdout = None,
      vc_stderr = None, vc_reason = Some (join_text ''; '' (sx_violations s))\<rparr>"

definition checks_status :: "validation_check list \<Rightarrow> validation_status" where
  "checks_status results =
     (if list_ex (\<lambda>c. vc_status c = VError) results then VError
      else if list_all (\<lambda>c. vc_status c = VPass) results then VPass else VFail)"

definition validate_submission :: "validation_world \<Rightarrow> loaded_task \<Rightarrow> submission_export \<Rightarrow> execution_status
    \<Rightarrow> validator_error + validation_run" where
  "validate_submission world task s status =
     (if status = StCancelled
      then Inr \<lparr>vr_validation = \<lparr>iv_status = VNotRun, iv_checks = [], iv_duration = None\<rparr>, vr_outputs = []\<rparr>
      else if \<not> sx_accepted s
      then Inr \<lparr>vr_validation = \<lparr>iv_status = VFail, iv_checks = [policy_check s],
          iv_duration = Some (vw_elapsed world)\<rparr>, vr_outputs = []\<rparr>
      else
        bind_result (load_validator (vw_ajv world) (vw_stored world) task) (\<lambda>validator.
        bind_result (lift_error ValidatorWorkspace
          (materialize_task (vw_sha world) (vw_source world) (vw_setup world) (Some []) task)) (\<lambda>fresh.
        bind_result (lift_error ValidatorWorkspace (apply_submission task s fresh)) (\<lambda>workspace.
        bind_result (run_checks (vw_checks world) (td_checks (lt_definition task) @ vd_hidden validator) workspace)
          (\<lambda>(results, outputs).
          Inr \<lparr>vr_validation = \<lparr>iv_status = checks_status results, iv_checks = results,
              iv_duration = Some (vw_elapsed world)\<rparr>, vr_outputs = outputs\<rparr>)))))"

subsection \<open>The quality gate of a fixture\<close>

definition make_directory :: "string \<Rightarrow> workspace \<Rightarrow> workspace_error + workspace" where
  "make_directory path w =
     (if ws_files w path \<noteq> None then Inl (AlreadyThere path)
      else bind_result (make_parents path w) (\<lambda>w'. Inr (w'\<lparr>ws_dirs := (ws_dirs w')(path := True)\<rparr>)))"

fun overlay_entry :: "string \<Rightarrow> fs_entry \<Rightarrow> workspace \<Rightarrow> validator_error + workspace"
and overlay_entries :: "string \<Rightarrow> (string \<times> fs_entry) list \<Rightarrow> workspace \<Rightarrow> validator_error + workspace" where
  "overlay_entry relative (FsFile bytes) w =
     lift_error ValidatorWorkspace (bind_result (make_parents relative w) (write_bytes relative bytes))"
| "overlay_entry relative (FsDir entries) w =
     bind_result (lift_error ValidatorWorkspace (make_directory relative w)) (overlay_entries relative entries)"
| "overlay_entry relative FsLink w = Inl (UnsupportedEntry relative)"
| "overlay_entry relative FsOther w = Inl (UnsupportedEntry relative)"
| "overlay_entries dir [] w = Inr w"
| "overlay_entries dir ((name, entry) # rest) w =
     bind_result (overlay_entry (if dir = [] then name else dir @ ''/'' @ name) entry w) (overlay_entries dir rest)"

definition overlay_solution :: "(string \<times> fs_entry) list option \<Rightarrow> workspace \<Rightarrow> validator_error + workspace" where
  "overlay_solution source w =
     (case source of None \<Rightarrow> Inl ValidatorUnreadable | Some entries \<Rightarrow> overlay_entries [] entries w)"

text \<open>\<open>listing\<close> is what reading a workspace gives, \<open>solutions\<close> what the directories of the evaluator hold.\<close>

record gate_world =
  gw_validation :: validation_world
  gw_listing :: "workspace \<Rightarrow> (string \<times> fs_entry) list"
  gw_solutions :: "string \<Rightarrow> (string \<times> fs_entry) list option"

definition evaluate_variant :: "gate_world \<Rightarrow> loaded_task \<Rightarrow> string option \<Rightarrow> validator_error + independent_validation" where
  "evaluate_variant world task source =
     (let v = gw_validation world
      in bind_result (lift_error ValidatorWorkspace
           (materialize_task (vw_sha v) (vw_source v) (vw_setup v) None task)) (\<lambda>fresh.
         bind_result (case source of None \<Rightarrow> Inr fresh
           | Some directory \<Rightarrow> overlay_solution (gw_solutions world directory) fresh) (\<lambda>workspace.
         bind_result (lift_error ValidatorWorkspace
           (export_submission (vw_sha v) task (gw_listing world workspace))) (\<lambda>s.
         bind_result (validate_submission v task s StCompleted) (\<lambda>r. Inr (vr_validation r))))))"

text \<open>\<open>path.basename\<close>: the last segment that is not empty.\<close>

definition base_name :: "string \<Rightarrow> string" where
  "base_name path = (case filter (\<lambda>s. s \<noteq> []) (path_segments path) of [] \<Rightarrow> [] | segments \<Rightarrow> last segments)"

record reference_verification =
  rv_baseline :: independent_validation
  rv_reference :: independent_validation
  rv_incomplete :: independent_validation
  rv_mutants :: "(string \<times> independent_validation) list option"

definition verify_reference :: "gate_world \<Rightarrow> loaded_task \<Rightarrow> validator_error + reference_verification" where
  "verify_reference world task =
     bind_result (load_validator (vw_ajv (gw_validation world)) (vw_stored (gw_validation world)) task) (\<lambda>validator.
     bind_result (evaluate_variant world task None) (\<lambda>baseline.
     bind_result (evaluate_variant world task (Some (base_name (vd_reference validator)))) (\<lambda>reference.
     bind_result (evaluate_variant world task (Some (base_name (vd_incomplete validator)))) (\<lambda>incomplete.
     bind_result (case vd_mutants validator of None \<Rightarrow> Inr None
       | Some names \<Rightarrow> bind_result
           (map_result (\<lambda>name. bind_result (evaluate_variant world task (Some name)) (\<lambda>v. Inr (name, v))) names)
           (\<lambda>mutants. Inr (Some mutants))) (\<lambda>mutants.
     if iv_status baseline \<noteq> VFail \<or> iv_status reference \<noteq> VPass \<or> iv_status incomplete \<noteq> VFail \<or>
       (case mutants of None \<Rightarrow> False | Some ms \<Rightarrow> list_ex (\<lambda>(_, v). iv_status v \<noteq> VFail) ms)
     then Inl QualityGateFailed
     else Inr \<lparr>rv_baseline = baseline, rv_reference = reference, rv_incomplete = incomplete, rv_mutants = mutants\<rparr>)))))"

subsection \<open>What a process reports before it closes\<close>

text \<open>The texts a process wrote, and whether nothing but output came before.\<close>

definition out_text :: "child_event list \<Rightarrow> string" where
  "out_text events = concat (map (\<lambda>ev. case ev of StdoutChunk c _ \<Rightarrow> c | _ \<Rightarrow> []) events)"

definition err_text :: "child_event list \<Rightarrow> string" where
  "err_text events = concat (map (\<lambda>ev. case ev of StderrChunk c _ \<Rightarrow> c | _ \<Rightarrow> []) events)"

definition control_text :: "child_event list \<Rightarrow> string" where
  "control_text events =
     foldl (\<lambda>text ev. case ev of ControlChunk c \<Rightarrow> (if length text < 4096 then text @ c else text) | _ \<Rightarrow> text) [] events"

fun is_output :: "child_event \<Rightarrow> bool" where
  "is_output (StdoutChunk c k) = True"
| "is_output (StderrChunk c k) = True"
| "is_output (ControlChunk c) = True"
| "is_output _ = False"

definition undisturbed :: "child_event list \<Rightarrow> bool" where
  "undisturbed events \<longleftrightarrow> list_all is_output events \<and> length (out_text events) + length (err_text events) \<le> output_limit"

definition open_state :: "child_event list \<Rightarrow> check_state" where
  "open_state events = \<lparr>ck_stdout = out_text events, ck_stderr = err_text events,
     ck_bytes = length (out_text events) + length (err_text events), ck_exceeded = False, ck_timed_out = False,
     ck_completion = control_text events, ck_crashed = False, ck_finished = None\<rparr>"

abbreviation check_fold :: "(string \<Rightarrow> json option) \<Rightarrow> bool \<Rightarrow> child_event list \<Rightarrow> check_state" where
  "check_fold parse node_test events \<equiv> foldl (check_step parse node_test) initial_check events"

lemma texts_simps [simp]:
  "out_text [] = []" "err_text [] = []" "control_text [] = []"
  "out_text (xs @ [ev]) = out_text xs @ (case ev of StdoutChunk c _ \<Rightarrow> c | _ \<Rightarrow> [])"
  "err_text (xs @ [ev]) = err_text xs @ (case ev of StderrChunk c _ \<Rightarrow> c | _ \<Rightarrow> [])"
  by (simp_all add: out_text_def err_text_def control_text_def)

lemma control_text_snoc [simp]:
  "control_text (xs @ [ev]) = (case ev of ControlChunk c \<Rightarrow>
     (if length (control_text xs) < 4096 then control_text xs @ c else control_text xs) | _ \<Rightarrow> control_text xs)"
  by (simp only: control_text_def foldl_append foldl.simps)

lemma undisturbed_snoc:
  "undisturbed (xs @ [ev]) \<longleftrightarrow> undisturbed xs \<and> is_output ev \<and>
     length (out_text (xs @ [ev])) + length (err_text (xs @ [ev])) \<le> output_limit"
  by (cases ev) (auto simp: undisturbed_def)

lemma undisturbed_fold: "undisturbed events \<Longrightarrow> check_fold parse node_test events = open_state events"
proof (induction events rule: rev_induct)
  case Nil
  then show ?case by (simp add: initial_check_def open_state_def)
next
  case (snoc ev events)
  then have "check_fold parse node_test events = open_state events" "is_output ev"
    "length (out_text (events @ [ev])) + length (err_text (events @ [ev])) \<le> output_limit"
    by (simp_all add: undisturbed_snoc del: texts_simps)
  then show ?case by (cases ev) (simp_all add: open_state_def capture_chunk_def Let_def)
qed

lemma finished_stays: "ck_finished st = Some f \<Longrightarrow> ck_finished (check_step parse node_test st ev) = Some f"
  by (cases ev) (auto simp: capture_chunk_def finish_check_def on_close_def on_timer_def Let_def split: kill_reply.splits)

lemma finished_fold: "ck_finished st = Some f \<Longrightarrow> ck_finished (foldl (check_step parse node_test) st events) = Some f"
  by (induction events arbitrary: st) (simp_all add: finished_stays)

text \<open>While nothing disturbed the process its check is open, and afterwards it cannot pass.\<close>

lemma open_undisturbed:
  "ck_finished (check_fold parse node_test events) = None \<Longrightarrow> \<not> ck_exceeded (check_fold parse node_test events) \<Longrightarrow>
   \<not> ck_timed_out (check_fold parse node_test events) \<Longrightarrow> undisturbed events"
proof (induction events rule: rev_induct)
  case Nil
  then show ?case by (simp add: undisturbed_def)
next
  case (snoc ev events)
  let ?st = "check_fold parse node_test events"
  have step: "check_fold parse node_test (events @ [ev]) = check_step parse node_test ?st ev" by simp
  have none: "ck_finished ?st = None"
    using snoc.prems(1) finished_stays [of ?st _ parse node_test ev] unfolding step by (cases "ck_finished ?st") auto
  have "\<not> ck_exceeded ?st" "\<not> ck_timed_out ?st"
    using snoc.prems(2,3) none unfolding step
    by (cases ev; auto simp: capture_chunk_def finish_check_def on_close_def on_timer_def Let_def split: kill_reply.splits if_splits)+
  then have und: "undisturbed events" using snoc.IH none by blast
  note open_events = undisturbed_fold [OF und, of parse node_test]
  show ?case
    using snoc.prems und undisturbed_def [of events] unfolding step open_events undisturbed_snoc
    by (cases ev) (auto simp: capture_chunk_def finish_check_def on_close_def on_timer_def open_state_def Let_def
        split: kill_reply.splits if_splits)
qed

definition closes_well :: "(string \<Rightarrow> json option) \<Rightarrow> bool \<Rightarrow> child_event list \<Rightarrow> bool" where
  "closes_well parse node_test events \<longleftrightarrow>
     (\<exists>before signal after. events = before @ Closed (Some 0) signal # after \<and> undisturbed before \<and>
        (node_test \<longrightarrow> confirms_completion parse (control_text before)))"

lemma close_step_pass:
  assumes "undisturbed before" "node_test \<longrightarrow> confirms_completion parse (control_text before)"
  shows "ck_finished (check_step parse node_test (check_fold parse node_test before) (Closed (Some 0) signal)) =
    Some \<lparr>fc_status = VPass, fc_exit = Some 0, fc_reason = None, fc_stdout = out_text before, fc_stderr = err_text before\<rparr>"
  using assms by (auto simp: undisturbed_fold open_state_def on_close_def finish_check_def Let_def)

lemma step_pass:
  assumes "ck_finished st = None" "ck_finished (check_step parse node_test st ev) = Some f" "fc_status f = VPass"
  shows "\<exists>signal. ev = Closed (Some 0) signal \<and> \<not> ck_exceeded st \<and> \<not> ck_timed_out st \<and>
    (node_test \<longrightarrow> confirms_completion parse (ck_completion st))"
  using assms
  by (cases ev) (auto simp: capture_chunk_def finish_check_def on_close_def on_timer_def Let_def
      split: kill_reply.splits if_splits)

lemma closes_well_more: "closes_well parse node_test events \<Longrightarrow> closes_well parse node_test (events @ later)"
  unfolding closes_well_def by (metis append.assoc append_Cons)

lemma finished_pass:
  "(\<exists>f. ck_finished (check_fold parse node_test events) = Some f \<and> fc_status f = VPass) \<longleftrightarrow> closes_well parse node_test events"
proof
  assume "closes_well parse node_test events"
  then obtain before signal after where "events = before @ Closed (Some 0) signal # after" "undisturbed before"
    "node_test \<longrightarrow> confirms_completion parse (control_text before)" by (auto simp: closes_well_def)
  then show "\<exists>f. ck_finished (check_fold parse node_test events) = Some f \<and> fc_status f = VPass"
    using finished_fold [OF close_step_pass] by fastforce
next
  assume "\<exists>f. ck_finished (check_fold parse node_test events) = Some f \<and> fc_status f = VPass"
  then show "closes_well parse node_test events"
  proof (induction events rule: rev_induct)
    case Nil
    then show ?case by (simp add: initial_check_def)
  next
    case (snoc ev events)
    let ?st = "check_fold parse node_test events"
    obtain f where f: "ck_finished (check_step parse node_test ?st ev) = Some f" "fc_status f = VPass"
      using snoc.prems by auto
    show ?case
    proof (cases "ck_finished ?st")
      case (Some g)
      then have "closes_well parse node_test events" using snoc.IH finished_stays [OF Some] f by simp
      then show ?thesis by (rule closes_well_more)
    next
      case None
      obtain signal where ev: "ev = Closed (Some 0) signal" and quiet: "\<not> ck_exceeded ?st" "\<not> ck_timed_out ?st"
        and confirmed: "node_test \<longrightarrow> confirms_completion parse (ck_completion ?st)"
        using step_pass [OF None f] by blast
      have und: "undisturbed events" by (rule open_undisturbed [OF None quiet])
      then have "ck_completion ?st = control_text events" by (simp add: undisturbed_fold open_state_def)
      then have "node_test \<longrightarrow> confirms_completion parse (control_text events)" using confirmed by metis
      then show ?thesis using und ev unfolding closes_well_def by blast
    qed
  qed
qed

subsection \<open>What a check keeps of its output\<close>

definition output_kept :: "check_state \<Rightarrow> bool" where
  "output_kept st \<longleftrightarrow> length (ck_stdout st) + length (ck_stderr st) \<le> output_limit \<and>
     (\<not> ck_exceeded st \<longrightarrow> ck_bytes st = length (ck_stdout st) + length (ck_stderr st)) \<and>
     (\<forall>f. ck_finished st = Some f \<longrightarrow> length (fc_stdout f) + length (fc_stderr f) \<le> output_limit)"

lemma output_kept_finish: "output_kept st \<Longrightarrow> output_kept (finish_check status code reason st)"
  by (auto simp: output_kept_def finish_check_def split: option.splits)

lemma output_kept_capture:
  assumes "output_kept st"
    and "\<not> ck_exceeded st \<Longrightarrow> ck_bytes st + length chunk \<le> output_limit \<Longrightarrow>
      output_kept (push (st\<lparr>ck_bytes := ck_bytes st + length chunk\<rparr>))"
  shows "output_kept (capture_chunk push chunk kill st)"
proof -
  have "output_kept (st\<lparr>ck_bytes := n, ck_exceeded := True\<rparr>)" for n using assms(1) by (simp add: output_kept_def)
  then show ?thesis
    using assms output_kept_finish by (simp add: capture_chunk_def Let_def split: kill_reply.split)
qed

lemma output_kept_step: "output_kept st \<Longrightarrow> output_kept (check_step parse node_test st ev)"
proof (cases ev)
  case (StdoutChunk c k)
  assume "output_kept st"
  then show ?thesis unfolding StdoutChunk check_step.simps
    by (rule output_kept_capture) (use \<open>output_kept st\<close> in \<open>simp add: output_kept_def\<close>)
next
  case (StderrChunk c k)
  assume "output_kept st"
  then show ?thesis unfolding StderrChunk check_step.simps
    by (rule output_kept_capture) (use \<open>output_kept st\<close> in \<open>simp add: output_kept_def\<close>)
next
  case (TimerFired k)
  assume "output_kept st"
  then show ?thesis by (cases k) (simp_all add: TimerFired on_timer_def output_kept_def)
next
  case (ControlChunk c)
  assume "output_kept st"
  then show ?thesis by (simp add: ControlChunk output_kept_def)
qed (simp_all add: output_kept_finish on_close_def Let_def)

lemma output_kept_fold: "output_kept st \<Longrightarrow> output_kept (foldl (check_step parse node_test) st events)"
  by (induction events arbitrary: st) (simp_all add: output_kept_step)

lemma initial_kept: "output_kept initial_check"
  by (simp add: output_kept_def initial_check_def)

lemma run_check_Inr:
  assumes "run_check world item w = Inr (r, outputs, w')"
  obtains argv f where "map_result (resolve_arg (cw_workspace world) (cw_evaluator world)) (tk_argv item) = Inr argv"
    "ck_finished (check_fold (cw_parse world) (is_node_test argv)
       (cp_events (cw_process world (effective_command (cw_asset world) argv) w))) = Some f"
    "vc_name r = tk_name item" "vc_status r = fc_status f"
    "vc_duration r = cp_elapsed (cw_process world (effective_command (cw_asset world) argv) w)"
    "outputs = [(stdout_artifact item, fc_stdout f), (stderr_artifact item, fc_stderr f)]"
  using assms by (auto simp: run_check_def Let_def split: option.splits)

lemma run_checks_names: "run_checks world items w = Inr (results, outputs) \<Longrightarrow> map vc_name results = map tk_name items"
proof (induction items arbitrary: w results outputs)
  case (Cons item items)
  then show ?case by (auto elim!: run_check_Inr)
qed simp

text \<open>C24: A check passes exactly when its process ends well: it closes with exit code zero before the time
  limit, having written no more than one mebibyte to both its outputs together, and, if it is a test of
  Node's runner, the trusted reporter has confirmed completed assertions on the control pipe. A timeout,
  a signal, a failure to start, excess output or a test that exits early never counts as a pass. What is
  kept of the output never exceeds the limit.\<close>

theorem check_passes_exactly:
  assumes "run_check world item w = Inr (r, outputs, w')"
    and "map_result (resolve_arg (cw_workspace world) (cw_evaluator world)) (tk_argv item) = Inr argv"
  shows "(vc_status r = VPass \<longleftrightarrow> closes_well (cw_parse world) (is_node_test argv)
      (cp_events (cw_process world (effective_command (cw_asset world) argv) w))) \<and>
    sum_list (map (\<lambda>(name, bytes). length bytes) outputs) \<le> output_limit"
proof -
  obtain f where f: "ck_finished (check_fold (cw_parse world) (is_node_test argv)
       (cp_events (cw_process world (effective_command (cw_asset world) argv) w))) = Some f"
    and r: "vc_status r = fc_status f"
    and out: "outputs = [(stdout_artifact item, fc_stdout f), (stderr_artifact item, fc_stderr f)]"
    using run_check_Inr [OF assms(1)] assms(2) by (metis sum.inject(2))
  have "length (fc_stdout f) + length (fc_stderr f) \<le> output_limit"
    using output_kept_fold [OF initial_kept] f by (auto simp: output_kept_def)
  moreover have "vc_status r = VPass \<longleftrightarrow> closes_well (cw_parse world) (is_node_test argv)
      (cp_events (cw_process world (effective_command (cw_asset world) argv) w))"
    unfolding finished_pass [symmetric] f r by simp
  ultimately show ?thesis using out by simp
qed

subsection \<open>What a validation reports\<close>

lemma checks_decoded:
  assumes "schema_valid public_checks_schema j"
  shows "map decode_task_check (json_items j) \<noteq> [] \<and>
    (\<forall>c \<in> set (map decode_task_check (json_items j)). is_task_id (tk_name c))"
proof -
  let ?item = "Schema [KType [TObject], KRequired [''name'', ''argv''], KClosed [(''name'', slug_string), (''argv'', argv_schema)]]"
  have "json_items j \<noteq> []" using assms by (cases j) (auto simp: public_checks_schema_def)
  moreover have "is_task_id (tk_name (decode_task_check c))" if "c \<in> set (json_items j)" for c
  proof -
    have item: "schema_valid ?item c" using assms that by (cases j) (auto simp: public_checks_schema_def list_all_iff)
    have "schema_valid slug_string (json_get ''name'' c)" by (rule closed_required [OF item, THEN conjunct2]) simp_all
    then show ?thesis by (cases "json_get ''name'' c") (auto simp: slug_string_def decode_task_check_def)
  qed
  ultimately show ?thesis by simp
qed

lemma loaded_checks:
  assumes "json_validator ajv" "load_task_definition ajv sha task roots = Inr t"
  shows "td_checks (lt_definition t) \<noteq> [] \<and> (\<forall>c \<in> set (td_checks (lt_definition t)). is_task_id (tk_name c))"
proof -
  obtain parsed where "validate_task_definition ajv sha parsed = Inr (lt_definition t)"
    by (rule load_task_Inr [OF assms(2)])
  then have j: "ajv task_definition_schema parsed" and d: "lt_definition t = decode_task parsed"
    by (auto simp: validate_task_definition_def Let_def)
  have valid: "schema_valid task_definition_schema parsed" using j by (simp only: json_validator.ajv_standard [OF assms(1)])
  have "schema_valid public_checks_schema (json_get ''publicChecks'' parsed)"
    by (rule closed_required [OF valid [unfolded task_definition_schema_def], THEN conjunct2]) simp_all
  from checks_decoded [OF this] show ?thesis by (simp add: d decode_task_def Let_def)
qed

lemma validator_checks:
  assumes "json_validator ajv" "load_validator ajv stored task = Inr d"
  shows "vd_hidden d \<noteq> [] \<and> (\<forall>c \<in> set (vd_hidden d). is_task_id (tk_name c))"
proof -
  obtain j where j: "ajv validator_schema j" "d = decode_validator j"
    using assms(2) by (auto simp: load_validator_def Let_def split: option.splits)
  have valid: "schema_valid validator_schema j" using j(1) by (simp only: json_validator.ajv_standard [OF assms(1)])
  have "schema_valid public_checks_schema (json_get ''hiddenChecks'' j)"
    by (rule closed_required [OF valid [unfolded validator_schema_def], THEN conjunct2]) simp_all
  from checks_decoded [OF this] show ?thesis by (simp add: j(2) decode_validator_def)
qed

text \<open>A submission that was run: its checks ran, in order, on the fixture with its changes.\<close>

lemma validate_submission_run:
  assumes "validate_submission world task s status = Inr run" "status \<noteq> StCancelled" "sx_accepted s"
  obtains validator fresh w results where "load_validator (vw_ajv world) (vw_stored world) task = Inr validator"
    "materialize_task (vw_sha world) (vw_source world) (vw_setup world) (Some []) task = Inr fresh"
    "apply_submission task s fresh = Inr w"
    "run_checks (vw_checks world) (td_checks (lt_definition task) @ vd_hidden validator) w = Inr (results, vr_outputs run)"
    "vr_validation run = \<lparr>iv_status = checks_status results, iv_checks = results, iv_duration = Some (vw_elapsed world)\<rparr>"
proof -
  obtain validator where a: "load_validator (vw_ajv world) (vw_stored world) task = Inr validator"
    using assms by (cases "load_validator (vw_ajv world) (vw_stored world) task") (simp_all add: validate_submission_def)
  obtain fresh where b: "materialize_task (vw_sha world) (vw_source world) (vw_setup world) (Some []) task = Inr fresh"
    using assms a by (cases "materialize_task (vw_sha world) (vw_source world) (vw_setup world) (Some []) task")
      (simp_all add: validate_submission_def)
  obtain w where c: "apply_submission task s fresh = Inr w"
    using assms a b by (cases "apply_submission task s fresh") (simp_all add: validate_submission_def)
  obtain results outputs where d: "run_checks (vw_checks world) (td_checks (lt_definition task) @ vd_hidden validator) w = Inr (results, outputs)"
    using assms a b c by (cases "run_checks (vw_checks world) (td_checks (lt_definition task) @ vd_hidden validator) w")
      (auto simp: validate_submission_def)
  have "run = \<lparr>vr_validation = \<lparr>iv_status = checks_status results, iv_checks = results,
       iv_duration = Some (vw_elapsed world)\<rparr>, vr_outputs = outputs\<rparr>"
    using assms a b c d by (simp add: validate_submission_def)
  then show thesis by (intro that [OF a b c]) (simp_all add: d)
qed

lemma validate_submission_refused:
  assumes "validate_submission world task s status = Inr run" "status \<noteq> StCancelled" "\<not> sx_accepted s"
  shows "vr_validation run = \<lparr>iv_status = VFail, iv_checks = [policy_check s], iv_duration = Some (vw_elapsed world)\<rparr>"
  using assms by (auto simp: validate_submission_def)

lemma validate_submission_cancelled:
  assumes "validate_submission world task s StCancelled = Inr run"
  shows "vr_validation run = \<lparr>iv_status = VNotRun, iv_checks = [], iv_duration = None\<rparr>"
  using assms by (auto simp: validate_submission_def)

lemma checks_status_expected: "checks_status = expected_status"
  by (rule ext) (simp add: checks_status_def expected_status_def)

lemma run_checks_schema:
  assumes "run_checks world items w = Inr (results, outputs)" "\<forall>c \<in> set items. is_task_id (tk_name c)"
    "\<forall>argv w. 0 \<le> cp_elapsed (cw_process world argv w)"
  shows "list_all check_schema results"
  using assms(1,2)
proof (induction items arbitrary: w results outputs)
  case (Cons item items)
  then show ?case
    using assms(3) by (auto elim!: run_check_Inr simp: check_schema_def is_task_id_def is_slug_def)
qed simp

text \<open>What a result needs to hold of a validation for it to be attached.\<close>

definition evidence_of :: "execution_status \<Rightarrow> independent_validation \<Rightarrow> bool" where
  "evidence_of status v \<longleftrightarrow>
     (if status = StCancelled then v = \<lparr>iv_status = VNotRun, iv_checks = [], iv_duration = None\<rparr>
      else iv_status v = expected_status (iv_checks v) \<and> iv_checks v \<noteq> [] \<and> list_all check_schema (iv_checks v) \<and>
        (\<exists>n. iv_duration v = Some n \<and> 0 \<le> n))"

lemma validation_evidence:
  assumes "json_validator (vw_ajv world)" "load_task_definition (vw_ajv world) (vw_sha world) name roots = Inr task"
    and "validate_submission world task s status = Inr run"
    and "0 \<le> vw_elapsed world" "\<forall>argv w. 0 \<le> cp_elapsed (cw_process (vw_checks world) argv w)"
  shows "evidence_of status (vr_validation run)"
proof (cases "status = StCancelled")
  case True
  then show ?thesis using validate_submission_cancelled assms(3) by (simp add: evidence_of_def)
next
  case running: False
  show ?thesis
  proof (cases "sx_accepted s")
    case False
    then show ?thesis
      using validate_submission_refused [OF assms(3) running False] running assms(4)
      by (simp add: evidence_of_def expected_status_def policy_check_def check_schema_def)
  next
    case True
    obtain validator w results where v: "load_validator (vw_ajv world) (vw_stored world) task = Inr validator"
      and run: "run_checks (vw_checks world) (td_checks (lt_definition task) @ vd_hidden validator) w = Inr (results, vr_outputs run)"
      and iv: "vr_validation run = \<lparr>iv_status = checks_status results, iv_checks = results, iv_duration = Some (vw_elapsed world)\<rparr>"
      using validate_submission_run [OF assms(3) running True] by metis
    have named: "\<forall>c \<in> set (td_checks (lt_definition task) @ vd_hidden validator). is_task_id (tk_name c)"
      using loaded_checks [OF assms(1,2)] validator_checks [OF assms(1) v] by auto
    have "results \<noteq> []"
      using arg_cong [OF run_checks_names [OF run], of length] loaded_checks [OF assms(1,2)] by auto
    then show ?thesis
      using iv running run_checks_schema [OF run named assms(5)] assms(4)
      by (simp add: evidence_of_def checks_status_expected)
  qed
qed

lemma expected_run: "expected_status checks \<noteq> VNotRun"
  by (simp add: expected_status_def)

lemma attach_evidence:
  assumes "read_attempt ajv date_ok files = Inr attempt" "ar_result attempt = Some r" "rs_validation r = VNotRun"
    and "evidence_of (rs_status r) v"
  shows "\<exists>files' r'. attach_validation_result ajv date_ok v files = Inr (files', r') \<and> rs_validation r' = iv_status v"
proof -
  let ?r = "r\<lparr>rs_validation := iv_status v, rs_checks := iv_checks v,
    rs_durations := (rs_durations r)\<lparr>du_validation := iv_duration v\<rparr>,
    rs_reasons := filter (\<lambda>s. s \<notin> set reasons_before_validation) (rs_reasons r)\<rparr>"
  obtain r1 where "af_result files = ResultStored r1"
    using assms(1,2) by (cases "af_result files") (auto simp: read_attempt_def)
  then have valid: "run_result_schema date_ok r"
    using assms(1,2) by (auto simp: read_attempt_def validate_run_result_def split: if_splits)
  have "run_result_schema date_ok ?r"
    using valid assms(4)
    by (auto simp: run_result_schema_def durations_schema_def optional_def evidence_of_def list_all_iff split: if_splits)
  then have "validate_run_result date_ok ?r = Inr ?r"
    using assms(4) expected_run [of "iv_checks v"] by (auto simp: validate_run_result_def evidence_of_def split: if_splits)
  then show ?thesis
    using assms by (auto simp: attach_validation_result_def evidence_of_def)
qed

text \<open>What the validator reports can be attached to the attempt it validated. For a loaded task, whatever
  the submission and the processes did, a validation that ends is evidence the result accepts: a
  cancelled attempt is left unvalidated, a refused submission fails on its policy, and otherwise the
  status is the one the checks require. So for a finalized attempt that has no validation yet, with
  the execution status the validator was given, attaching succeeds and stores that status. Time is
  assumed not to run backwards.\<close>

theorem validation_attaches:
  assumes "json_validator (vw_ajv world)" "load_task_definition (vw_ajv world) (vw_sha world) name roots = Inr task"
    and "validate_submission world task s (rs_status r) = Inr run"
    and "0 \<le> vw_elapsed world" "\<forall>argv w. 0 \<le> cp_elapsed (cw_process (vw_checks world) argv w)"
    and "read_attempt ajv date_ok files = Inr attempt" "ar_result attempt = Some r" "rs_validation r = VNotRun"
  shows "\<exists>files' r'. attach_validation_result ajv date_ok (vr_validation run) files = Inr (files', r') \<and>
    rs_validation r' = iv_status (vr_validation run)"
  by (rule attach_evidence [OF assms(6-8) validation_evidence [OF assms(1-5)]])

lemma passed_run:
  assumes "validate_submission world task s status = Inr run" "iv_status (vr_validation run) = VPass"
  obtains validator fresh w where "sx_accepted s" "load_validator (vw_ajv world) (vw_stored world) task = Inr validator"
    "materialize_task (vw_sha world) (vw_source world) (vw_setup world) (Some []) task = Inr fresh"
    "apply_submission task s fresh = Inr w"
    "run_checks (vw_checks world) (td_checks (lt_definition task) @ vd_hidden validator) w =
       Inr (iv_checks (vr_validation run), vr_outputs run)"
    "list_all (\<lambda>c. vc_status c = VPass) (iv_checks (vr_validation run))"
proof -
  have running: "status \<noteq> StCancelled" using assms validate_submission_cancelled by force
  have accepted: "sx_accepted s" using assms running validate_submission_refused by force
  show thesis
    using validate_submission_run [OF assms(1) running accepted] that [OF accepted] assms(2)
    by (smt (verit) checks_status_def independent_validation.select_convs(1,2) validation_status.distinct(1,3))
qed

text \<open>C5: A pass is a verdict on the agent's work. If the validator passes what was exported from an agent's
  workspace, the export was accepted and every public and every hidden check, in order, ran and passed,
  starting from a fresh copy of the fixture in which, outside the dependencies and the version control,
  the files are exactly those the agent left. The assumptions are those of the round trip of a
  submission.\<close>

theorem pass_judges_agent_work:
  assumes "validate_submission world task s status = Inr run" "iv_status (vr_validation run) = VPass"
    and "setup_confined (vw_setup world)"
    and "scan_workspace tree = Inr current" "list_all (\<lambda>(name, _). CHR ''/'' \<notin> set name \<and> name \<noteq> []) tree"
    and "export_submission (vw_sha world) task tree = Inr s"
    and "hash_separates (vw_sha world) (vw_source world) current"
    and "\<forall>f \<in> set (td_files (lt_definition task)). \<not> ignored_path (tf_path f)"
    and "no_nesting (tf_path ` set (td_files (lt_definition task)) \<union> fst ` set current)"
  shows "\<exists>validator w. load_validator (vw_ajv world) (vw_stored world) task = Inr validator \<and>
    (\<forall>p. \<not> ignored_path p \<longrightarrow> ws_files w p = map_of current p) \<and>
    run_checks (vw_checks world) (td_checks (lt_definition task) @ vd_hidden validator) w =
      Inr (iv_checks (vr_validation run), vr_outputs run) \<and>
    map vc_name (iv_checks (vr_validation run)) = map tk_name (td_checks (lt_definition task) @ vd_hidden validator) \<and>
    (\<forall>c \<in> set (iv_checks (vr_validation run)). vc_status c = VPass)"
proof -
  obtain validator fresh w where p: "sx_accepted s" "load_validator (vw_ajv world) (vw_stored world) task = Inr validator"
    "materialize_task (vw_sha world) (vw_source world) (vw_setup world) (Some []) task = Inr fresh"
    "apply_submission task s fresh = Inr w"
    and run: "run_checks (vw_checks world) (td_checks (lt_definition task) @ vd_hidden validator) w =
       Inr (iv_checks (vr_validation run), vr_outputs run)"
    and pass: "list_all (\<lambda>c. vc_status c = VPass) (iv_checks (vr_validation run))"
    using passed_run [OF assms(1,2)] by blast
  obtain w1 where w1: "apply_submission task s fresh = Inr w1" "\<forall>p. \<not> ignored_path p \<longrightarrow> ws_files w1 p = map_of current p"
    using restored [OF p(3) assms(3-6) p(1) assms(7-9)] by blast
  have "w1 = w" using p(4) w1(1) by simp
  then show ?thesis using p(2) w1(2) run pass run_checks_names [OF run] by (auto simp: list_all_iff)
qed

subsection \<open>The gate\<close>

lemma variant_Inr:
  assumes "evaluate_variant world task source = Inr v"
  obtains s run where "validate_submission (gw_validation world) task s StCompleted = Inr run" "v = vr_validation run"
  using assms by (auto simp: evaluate_variant_def Let_def)

lemma variant_failed:
  assumes "evaluate_variant world task source = Inr v" "iv_status v = VFail"
  shows "(\<exists>c \<in> set (iv_checks v). vc_status c \<noteq> VPass) \<and> (\<forall>c \<in> set (iv_checks v). vc_status c \<noteq> VError)"
proof -
  obtain s run where run: "validate_submission (gw_validation world) task s StCompleted = Inr run" and v: "v = vr_validation run"
    using variant_Inr [OF assms(1)] by blast
  show ?thesis
  proof (cases "sx_accepted s")
    case False
    then show ?thesis using validate_submission_refused [OF run _ False] by (simp add: v policy_check_def)
  next
    case True
    obtain results where "vr_validation run = \<lparr>iv_status = checks_status results, iv_checks = results,
        iv_duration = Some (vw_elapsed (gw_validation world))\<rparr>"
      using validate_submission_run [OF run _ True] by blast
    then show ?thesis using assms(2) by (auto simp: v checks_status_def list_ex_iff list_all_iff split: if_splits)
  qed
qed

lemma verify_reference_Inr:
  assumes "verify_reference world task = Inr r"
  obtains validator where "load_validator (vw_ajv (gw_validation world)) (vw_stored (gw_validation world)) task = Inr validator"
    "evaluate_variant world task None = Inr (rv_baseline r)"
    "evaluate_variant world task (Some (base_name (vd_reference validator))) = Inr (rv_reference r)"
    "evaluate_variant world task (Some (base_name (vd_incomplete validator))) = Inr (rv_incomplete r)"
    "iv_status (rv_baseline r) = VFail" "iv_status (rv_reference r) = VPass" "iv_status (rv_incomplete r) = VFail"
    "case (vd_mutants validator, rv_mutants r) of (None, None) \<Rightarrow> True
     | (Some names, Some ms) \<Rightarrow> list_all2 (\<lambda>name (name', v). name' = name \<and>
         evaluate_variant world task (Some name) = Inr v \<and> iv_status v = VFail) names ms
     | _ \<Rightarrow> False"
proof -
  obtain validator baseline reference incomplete mutants where
    a: "load_validator (vw_ajv (gw_validation world)) (vw_stored (gw_validation world)) task = Inr validator"
      "evaluate_variant world task None = Inr baseline"
      "evaluate_variant world task (Some (base_name (vd_reference validator))) = Inr reference"
      "evaluate_variant world task (Some (base_name (vd_incomplete validator))) = Inr incomplete"
    and m: "(case vd_mutants validator of None \<Rightarrow> Inr None
       | Some names \<Rightarrow> bind_result
           (map_result (\<lambda>name. bind_result (evaluate_variant world task (Some name)) (\<lambda>v. Inr (name, v))) names)
           (\<lambda>mutants. Inr (Some mutants))) = Inr mutants"
    and gate: "iv_status baseline = VFail" "iv_status reference = VPass" "iv_status incomplete = VFail"
      "\<not> (case mutants of None \<Rightarrow> False | Some ms \<Rightarrow> list_ex (\<lambda>(_, v). iv_status v \<noteq> VFail) ms)"
    and r: "r = \<lparr>rv_baseline = baseline, rv_reference = reference, rv_incomplete = incomplete, rv_mutants = mutants\<rparr>"
    using assms unfolding verify_reference_def by (simp only: bind_result_Inr guard_Inr sum.inject de_Morgan_disj not_not) blast
  have "case (vd_mutants validator, mutants) of (None, None) \<Rightarrow> True
     | (Some names, Some ms) \<Rightarrow> list_all2 (\<lambda>name (name', v). name' = name \<and>
         evaluate_variant world task (Some name) = Inr v \<and> iv_status v = VFail) names ms
     | _ \<Rightarrow> False"
  proof (cases "vd_mutants validator")
    case None
    then show ?thesis using m by simp
  next
    case (Some names)
    then obtain ms where ms: "mutants = Some ms"
      "list_all2 (\<lambda>name nv. bind_result (evaluate_variant world task (Some name)) (\<lambda>v. Inr (name, v)) = Inr nv) names ms"
      using m by (auto simp: map_result_Inr)
    have "list_all (\<lambda>nv. iv_status (snd nv) = VFail) ms" using gate(4) ms(1) by (auto simp: list_ex_iff list_all_iff)
    with ms(2) have "list_all2 (\<lambda>name (name', v). name' = name \<and>
         evaluate_variant world task (Some name) = Inr v \<and> iv_status v = VFail) names ms"
      by (auto simp: list_all2_conv_all_nth list_all_length)
    then show ?thesis using Some ms(1) by simp
  qed
  then show thesis by (intro that [OF a(1)]) (simp_all add: r a gate)
qed

text \<open>A fixture that passes the gate tells solutions from non-solutions. The reference solution was accepted
  and every public and hidden check passed on it; the untouched fixture, the incomplete solution and
  each of the mutants the evaluator names were refused by a check that did not pass, and not because a
  check could not be run.\<close>

theorem reference_gate:
  assumes "verify_reference world task = Inr r"
  shows "\<exists>validator. load_validator (vw_ajv (gw_validation world)) (vw_stored (gw_validation world)) task = Inr validator \<and>
    map vc_name (iv_checks (rv_reference r)) = map tk_name (td_checks (lt_definition task) @ vd_hidden validator) \<and>
    (\<forall>c \<in> set (iv_checks (rv_reference r)). vc_status c = VPass) \<and>
    map_option (map fst) (rv_mutants r) = vd_mutants validator \<and>
    (\<forall>v \<in> {rv_baseline r, rv_incomplete r} \<union> (case rv_mutants r of None \<Rightarrow> {} | Some ms \<Rightarrow> snd ` set ms).
       (\<exists>c \<in> set (iv_checks v). vc_status c \<noteq> VPass) \<and> (\<forall>c \<in> set (iv_checks v). vc_status c \<noteq> VError))"
proof -
  obtain validator where v: "load_validator (vw_ajv (gw_validation world)) (vw_stored (gw_validation world)) task = Inr validator"
    and variants: "evaluate_variant world task None = Inr (rv_baseline r)"
      "evaluate_variant world task (Some (base_name (vd_reference validator))) = Inr (rv_reference r)"
      "evaluate_variant world task (Some (base_name (vd_incomplete validator))) = Inr (rv_incomplete r)"
    and statuses: "iv_status (rv_baseline r) = VFail" "iv_status (rv_reference r) = VPass" "iv_status (rv_incomplete r) = VFail"
    and mutants: "case (vd_mutants validator, rv_mutants r) of (None, None) \<Rightarrow> True
     | (Some names, Some ms) \<Rightarrow> list_all2 (\<lambda>name (name', v). name' = name \<and>
         evaluate_variant world task (Some name) = Inr v \<and> iv_status v = VFail) names ms
     | _ \<Rightarrow> False"
    using verify_reference_Inr [OF assms] by blast
  obtain s run where run: "validate_submission (gw_validation world) task s StCompleted = Inr run" and rv: "rv_reference r = vr_validation run"
    using variant_Inr [OF variants(2)] by blast
  obtain w where checks: "run_checks (vw_checks (gw_validation world)) (td_checks (lt_definition task) @ vd_hidden validator) w =
       Inr (iv_checks (rv_reference r), vr_outputs run)" "list_all (\<lambda>c. vc_status c = VPass) (iv_checks (rv_reference r))"
    using passed_run [OF run] statuses(2) v unfolding rv by (metis sum.inject(2))
  have names: "map_option (map fst) (rv_mutants r) = vd_mutants validator"
    using mutants by (cases "vd_mutants validator"; cases "rv_mutants r")
      (auto simp: list_all2_conv_all_nth intro!: nth_equalityI)
  have failed: "evaluate_variant world task (Some (fst m)) = Inr (snd m)" "iv_status (snd m) = VFail"
    if "rv_mutants r = Some ms" "m \<in> set ms" for ms m
    using mutants that by (cases "vd_mutants validator"; force simp: list_all2_conv_all_nth in_set_conv_nth)+
  have "(\<exists>c \<in> set (iv_checks v). vc_status c \<noteq> VPass) \<and> (\<forall>c \<in> set (iv_checks v). vc_status c \<noteq> VError)"
    if "v \<in> {rv_baseline r, rv_incomplete r} \<union> (case rv_mutants r of None \<Rightarrow> {} | Some ms \<Rightarrow> snd ` set ms)" for v
    using that variant_failed [OF variants(1) statuses(1)] variant_failed [OF variants(3) statuses(3)]
      variant_failed [OF failed(1) failed(2)]
    by (cases "rv_mutants r") auto
  then show ?thesis using v run_checks_names [OF checks(1)] checks(2) names by (auto simp: list_all_iff)
qed

subsection \<open>A concrete validation\<close>

text \<open>A project whose only check passes when \<open>src/a.ts\<close> has the expected content.\<close>

definition demo_process :: "string list \<Rightarrow> workspace \<Rightarrow> check_process" where
  "demo_process argv w = \<lparr>cp_events = [StdoutChunk ''ran'' Killed,
     Closed (Some (if ws_files w ''src/a.ts'' = Some ''yy'' then 0 else 1)) None], cp_elapsed = 1, cp_workspace = w\<rparr>"

definition demo_checks :: check_world where
  "demo_checks = \<lparr>cw_asset = (\<lambda>name. name), cw_parse = (\<lambda>_. None), cw_workspace = ''/w'', cw_evaluator = ''/e'',
     cw_process = demo_process\<rparr>"

definition demo_check :: "string \<Rightarrow> task_check" where
  "demo_check name = \<lparr>tk_name = name, tk_argv = [''npm'']\<rparr>"

definition demo_result :: "bool \<Rightarrow> string \<Rightarrow> validation_check" where
  "demo_result ok name = \<lparr>vc_name = name, vc_status = (if ok then VPass else VFail), vc_exit = Some (if ok then 0 else 1),
     vc_duration = 1, vc_stdout = Some (name @ ''.stdout.txt''), vc_stderr = Some (name @ ''.stderr.txt''), vc_reason = None\<rparr>"

definition demo_outputs :: "string \<Rightarrow> (string \<times> string) list" where
  "demo_outputs name = [(name @ ''.stdout.txt'', ''ran''), (name @ ''.stderr.txt'', [])]"

lemma demo_run_check:
  "run_check demo_checks (demo_check name) w =
     Inr (demo_result (ws_files w ''src/a.ts'' = Some ''yy'') name, demo_outputs name, w)"
  by (simp add: run_check_def demo_checks_def demo_check_def resolve_arg_def Let_def is_node_test_def effective_command_def
      demo_process_def initial_check_def capture_chunk_def output_limit_def on_close_def finish_check_def demo_result_def
      demo_outputs_def stdout_artifact_def stderr_artifact_def)

theorem check_passes_exactly_witness:
  "vc_status (demo_result True ''test'') = VPass \<and>
    closes_well (\<lambda>_. None) False [StdoutChunk ''ran'' Killed, Closed (Some 0) None]"
proof -
  let ?w = "empty_workspace\<lparr>ws_files := [''src/a.ts'' \<mapsto> ''yy'']\<rparr>"
  have run: "run_check demo_checks (demo_check ''test'') ?w = Inr (demo_result True ''test'', demo_outputs ''test'', ?w)"
    by (simp add: demo_run_check)
  have argv: "map_result (resolve_arg (cw_workspace demo_checks) (cw_evaluator demo_checks)) (tk_argv (demo_check ''test'')) = Inr [''npm'']"
    by (simp add: demo_checks_def demo_check_def resolve_arg_def)
  show ?thesis
    using check_passes_exactly [OF run argv]
    by (simp add: demo_checks_def demo_result_def is_node_test_def effective_command_def demo_process_def)
qed

definition demo_validator_json :: json where
  "demo_validator_json = JObj
     [(''schemaVersion'', JNum 1), (''taskId'', JStr ''01-demo''),
      (''hiddenChecks'', JArr [JObj [(''name'', JStr ''hidden''), (''argv'', JArr [JStr ''npm''])]]),
      (''referenceDirectory'', JStr ''reference''), (''incompleteDirectory'', JStr ''incomplete''),
      (''mutantDirectories'', JArr [JStr ''mutant-one''])]"

definition demo_validator :: validator_definition where
  "demo_validator = \<lparr>vd_task = ''01-demo'', vd_hidden = [demo_check ''hidden''], vd_reference = ''reference'',
     vd_incomplete = ''incomplete'', vd_mutants = Some [''mutant-one'']\<rparr>"

lemma demo_validator_valid: "schema_valid validator_schema demo_validator_json"
proof -
  have "is_task_id ''01-demo''" "is_task_id ''hidden''" "is_task_id ''reference''" "is_task_id ''incomplete''"
    "is_mutant_name ''mutant-one''" by code_simp+
  then show ?thesis
    by (simp add: validator_schema_def demo_validator_json_def slug_string_def public_checks_schema_def argv_schema_def task_text_def)
qed

definition demo_validation :: validation_world where
  "demo_validation = \<lparr>vw_sha = example_sha, vw_source = demo_source, vw_setup = demo_setup, vw_ajv = schema_valid,
     vw_stored = Some demo_validator_json, vw_checks = demo_checks, vw_elapsed = 2\<rparr>"

lemma demo_loaded_validator: "td_id (lt_definition task) = ''01-demo'' \<Longrightarrow>
    load_validator schema_valid (Some demo_validator_json) task = Inr demo_validator"
  by (simp add: load_validator_def demo_validator_valid Let_def)
    (simp add: demo_validator_json_def demo_validator_def demo_check_def decode_validator_def json_strs_def json_get_def
      decode_task_check_def)

definition gate_tree :: "string \<Rightarrow> (string \<times> fs_entry) list" where
  "gate_tree bytes = [(''src'', FsDir [(''a.ts'', FsFile bytes)])]"

definition gate_export :: "string \<Rightarrow> submission_export" where
  "gate_export bytes = \<lparr>sx_task = ''01-demo'', sx_source = replicate 64 (CHR ''b''), sx_accepted = True, sx_violations = [],
     sx_changes = (if bytes = ''x'' then [] else [\<lparr>sc_path = ''src/a.ts'', sc_kind = ChangeModify,
       sc_sha = Some (example_sha bytes), sc_bytes = Some bytes\<rparr>]),
     sx_hash = replicate 64 (CHR ''b'')\<rparr>"

lemma gate_scan: "scan_workspace (gate_tree bytes) = Inr [(''src/a.ts'', bytes)]"
  by (simp add: scan_workspace_def gate_tree_def assert_safe_relative_path_def demo_paths Let_def)

lemma example_hash: "is_hash (replicate 64 (CHR ''b''))" "is_task_id ''01-demo''"
  by code_simp+

lemma gate_exported:
  assumes "bytes \<in> {''x'', ''yy'', ''zz''}"
  shows "export_submission example_sha demo_task (gate_tree bytes) = Inr (gate_export bytes)"
proof -
  let ?task = "lt_definition demo_task" and ?current = "[(''src/a.ts'', bytes)]"
  have paths: "sort_strings (new_set (map tf_path (td_files ?task) @ map fst ?current)) = [''src/a.ts'']"
    by (simp add: demo_task_def new_set_def sort_strings_def)
  have verdict: "judge_path example_sha ?task ?current ''src/a.ts'' =
      (case sx_changes (gate_export bytes) of [] \<Rightarrow> Unchanged | c # _ \<Rightarrow> Changes c)"
    using assms
    by (auto simp: judge_path_def demo_task_def example_task_def gate_export_def example_sha_simps
        is_editable_def demo_paths replicate_eq_replicate simp del: replicate.simps)
  have parts: "verdict_violations (map (judge_path example_sha ?task ?current) [''src/a.ts'']) = []"
    "verdict_changes (map (judge_path example_sha ?task ?current) [''src/a.ts'']) = sx_changes (gate_export bytes)"
    by (auto simp: verdict verdict_violations_def verdict_changes_def gate_export_def)
  have hash: "submission_hash example_sha (sx_changes (gate_export bytes)) = replicate 64 (CHR ''b'')"
    by (simp add: submission_hash_def gate_export_def example_sha_simps del: replicate.simps)
  have "is_hash (example_sha bytes)" if "bytes \<noteq> ''x''"
    using assms that by (auto simp: example_sha_simps example_hash simp del: replicate.simps)
  then have valid: "validate_submission_export example_sha (gate_export bytes) = Inr (gate_export bytes)"
    using hash by (simp add: validate_submission_export_def submission_schema_ok_def gate_export_def
        demo_paths example_hash del: replicate.simps)
  have "export_submission example_sha demo_task (gate_tree bytes) = validate_submission_export example_sha
      \<lparr>sx_task = td_id ?task, sx_source = td_fixture_hash ?task, sx_accepted = True, sx_violations = [],
       sx_changes = sx_changes (gate_export bytes), sx_hash = replicate 64 (CHR ''b'')\<rparr>"
    by (simp add: export_submission_def gate_scan paths parts hash Let_def del: list.map(2) replicate.simps)
  then show ?thesis using valid by (simp add: demo_task_def example_task_def gate_export_def)
qed

lemma gate_applied:
  assumes "bytes \<in> {''x'', ''yy'', ''zz''}"
  shows "\<exists>w. apply_submission demo_task (gate_export bytes) demo_workspace = Inr w \<and> ws_files w ''src/a.ts'' = Some bytes"
  using assms
  by (auto simp: apply_submission_def gate_export_def demo_task_def example_loaded_def example_task_def is_editable_def
      assert_safe_relative_path_def demo_paths make_parents_def write_bytes_def demo_workspace_def simp del: replicate.simps)

definition gate_run :: "bool \<Rightarrow> validation_run" where
  "gate_run ok = \<lparr>vr_validation = \<lparr>iv_status = (if ok then VPass else VFail),
      iv_checks = [demo_result ok ''test'', demo_result ok ''hidden''], iv_duration = Some 2\<rparr>,
     vr_outputs = demo_outputs ''test'' @ demo_outputs ''hidden''\<rparr>"

lemma demo_checks_run:
  "run_checks demo_checks [demo_check ''test'', demo_check ''hidden''] w =
    Inr ([demo_result (ws_files w ''src/a.ts'' = Some ''yy'') ''test'', demo_result (ws_files w ''src/a.ts'' = Some ''yy'') ''hidden''],
      demo_outputs ''test'' @ demo_outputs ''hidden'')"
  by (simp add: demo_run_check)

lemma demo_task_checks: "td_checks (lt_definition demo_task) = [demo_check ''test'']" "td_id (lt_definition demo_task) = ''01-demo''"
  by (simp_all add: demo_task_def example_task_def demo_check_def)

lemma gate_validated:
  assumes "bytes \<in> {''x'', ''yy'', ''zz''}"
  shows "validate_submission demo_validation demo_task (gate_export bytes) StCompleted = Inr (gate_run (bytes = ''yy''))"
proof -
  obtain w where w: "apply_submission demo_task (gate_export bytes) demo_workspace = Inr w" "ws_files w ''src/a.ts'' = Some bytes"
    using gate_applied [OF assms] by blast
  have "sx_accepted (gate_export bytes)" by (simp add: gate_export_def)
  moreover have "checks_status [demo_result b ''test'', demo_result b ''hidden''] = (if b then VPass else VFail)" for b
    by (simp add: checks_status_def demo_result_def)
  ultimately show ?thesis
    using w demo_checks_run [of w]
    by (simp add: validate_submission_def demo_validation_def demo_loaded_validator demo_task_checks demo_materialized
        demo_validator_def gate_run_def del: run_checks.simps)
qed

theorem pass_judges_agent_work_witness:
  "iv_status (vr_validation (gate_run True)) = VPass \<and>
   (\<exists>w. ws_files w ''src/a.ts'' = Some ''yy'' \<and>
     run_checks demo_checks [demo_check ''test'', demo_check ''hidden''] w =
       Inr (iv_checks (vr_validation (gate_run True)), vr_outputs (gate_run True)))"
proof -
  have run: "validate_submission demo_validation demo_task (gate_export ''yy'') StCompleted = Inr (gate_run True)"
    by (simp add: gate_validated)
  have pass: "iv_status (vr_validation (gate_run True)) = VPass" by (simp add: gate_run_def)
  have conf: "setup_confined (vw_setup demo_validation)"
    by (auto simp: setup_confined_def demo_setup_def demo_paths demo_validation_def)
  have names: "list_all (\<lambda>(name, _). CHR ''/'' \<notin> set name \<and> name \<noteq> []) (gate_tree ''yy'')" by (simp add: gate_tree_def)
  have exported: "export_submission (vw_sha demo_validation) demo_task (gate_tree ''yy'') = Inr (gate_export ''yy'')"
    by (simp add: gate_exported demo_validation_def)
  have files: "td_files (lt_definition demo_task) = [\<lparr>tf_path = ''src/a.ts'', tf_sha = replicate 64 (CHR ''a'')\<rparr>]"
    by (simp add: demo_task_def)
  have sep: "hash_separates (vw_sha demo_validation) (vw_source demo_validation) [(''src/a.ts'', ''yy'')]"
    by (auto simp: hash_separates_def demo_source_def example_sha_simps replicate_eq_replicate demo_validation_def
        simp del: replicate.simps)
  have usual: "\<forall>f \<in> set (td_files (lt_definition demo_task)). \<not> ignored_path (tf_path f)" by (simp add: files demo_paths)
  have flat: "no_nesting (tf_path ` set (td_files (lt_definition demo_task)) \<union> fst ` set [(''src/a.ts'', ''yy'')])"
    by (simp add: no_nesting_def files demo_paths)
  obtain validator w where "load_validator (vw_ajv demo_validation) (vw_stored demo_validation) demo_task = Inr validator"
    and w: "\<forall>p. \<not> ignored_path p \<longrightarrow> ws_files w p = map_of [(''src/a.ts'', ''yy'')] p"
    and ran: "run_checks (vw_checks demo_validation) (td_checks (lt_definition demo_task) @ vd_hidden validator) w =
      Inr (iv_checks (vr_validation (gate_run True)), vr_outputs (gate_run True))"
    using pass_judges_agent_work [OF run pass conf gate_scan names exported sep usual flat] by blast
  then have "validator = demo_validator" by (simp add: demo_validation_def demo_loaded_validator demo_task_checks)
  then have "run_checks demo_checks [demo_check ''test'', demo_check ''hidden''] w =
      Inr (iv_checks (vr_validation (gate_run True)), vr_outputs (gate_run True))"
    using ran by (simp add: demo_validation_def demo_task_checks demo_validator_def del: run_checks.simps)
  moreover have "ws_files w ''src/a.ts'' = Some ''yy''" using w by (simp add: demo_paths)
  ultimately show ?thesis using pass by blast
qed

definition gate_world :: gate_world where
  "gate_world = \<lparr>gw_validation = demo_validation,
     gw_listing = (\<lambda>w. case ws_files w ''src/a.ts'' of None \<Rightarrow> [] | Some bytes \<Rightarrow> gate_tree bytes),
     gw_solutions = (\<lambda>name. Some (gate_tree (if name = ''reference'' then ''yy'' else ''zz'')))\<rparr>"

lemma demo_materialized_fresh: "materialize_task example_sha demo_source demo_setup None demo_task = Inr demo_workspace"
  using demo_materialized by (simp add: materialize_task_def ensure_fresh_directory_def)

lemma gate_overlay: "\<exists>w. overlay_solution (Some (gate_tree bytes)) demo_workspace = Inr w \<and> ws_files w ''src/a.ts'' = Some bytes"
  by (simp add: overlay_solution_def gate_tree_def make_directory_def make_parents_def write_bytes_def demo_paths
      demo_workspace_def parents_def)

lemma gate_variant:
  assumes "name \<noteq> None \<longrightarrow> bytes = (if name = Some ''reference'' then ''yy'' else ''zz'')" "name = None \<longrightarrow> bytes = ''x''"
  shows "evaluate_variant gate_world demo_task name = Inr (vr_validation (gate_run (bytes = ''yy'')))"
proof -
  have bytes: "bytes \<in> {''x'', ''yy'', ''zz''}" using assms by (cases name) auto
  obtain w where w: "(case name of None \<Rightarrow> Inr demo_workspace
      | Some directory \<Rightarrow> overlay_solution (gw_solutions gate_world directory) demo_workspace) = Inr w"
    "ws_files w ''src/a.ts'' = Some bytes"
  proof (cases name)
    case None
    then show ?thesis using that [of demo_workspace] assms by (simp add: demo_workspace_def)
  next
    case (Some directory)
    then have "gw_solutions gate_world directory = Some (gate_tree bytes)" using assms by (simp add: gate_world_def)
    then show ?thesis using that gate_overlay [of bytes] Some by auto
  qed
  have sel: "gw_validation gate_world = demo_validation" "vw_sha demo_validation = example_sha"
    "vw_source demo_validation = demo_source" "vw_setup demo_validation = demo_setup"
    by (simp_all add: gate_world_def demo_validation_def)
  have listing: "gw_listing gate_world w = gate_tree bytes" using w(2) by (simp add: gate_world_def)
  show ?thesis
    using w gate_exported [OF bytes] gate_validated [OF bytes] demo_materialized_fresh sel listing
    by (simp add: evaluate_variant_def Let_def)
qed

theorem reference_gate_witness:
  "verify_reference gate_world demo_task =
     Inr \<lparr>rv_baseline = vr_validation (gate_run False), rv_reference = vr_validation (gate_run True),
       rv_incomplete = vr_validation (gate_run False), rv_mutants = Some [(''mutant-one'', vr_validation (gate_run False))]\<rparr> \<and>
   vc_status (demo_result True ''hidden'') = VPass"
proof -
  let ?r = "\<lparr>rv_baseline = vr_validation (gate_run False), rv_reference = vr_validation (gate_run True),
       rv_incomplete = vr_validation (gate_run False), rv_mutants = Some [(''mutant-one'', vr_validation (gate_run False))]\<rparr>"
  have names: "base_name ''reference'' = ''reference''" "base_name ''incomplete'' = ''incomplete''"
    by (simp_all add: base_name_def path_segments_def)
  have variants: "evaluate_variant gate_world demo_task None = Inr (vr_validation (gate_run False))"
    "evaluate_variant gate_world demo_task (Some ''reference'') = Inr (vr_validation (gate_run True))"
    "evaluate_variant gate_world demo_task (Some ''incomplete'') = Inr (vr_validation (gate_run False))"
    "evaluate_variant gate_world demo_task (Some ''mutant-one'') = Inr (vr_validation (gate_run False))"
    using gate_variant [of None "''x''"] gate_variant [of "Some ''reference''" "''yy''"]
      gate_variant [of "Some ''incomplete''" "''zz''"] gate_variant [of "Some ''mutant-one''" "''zz''"] by simp_all
  have status: "iv_status (vr_validation (gate_run ok)) = (if ok then VPass else VFail)" for ok by (simp add: gate_run_def)
  have loaded: "load_validator (vw_ajv (gw_validation gate_world)) (vw_stored (gw_validation gate_world)) demo_task = Inr demo_validator"
    by (simp add: gate_world_def demo_validation_def demo_loaded_validator demo_task_checks)
  have passed: "verify_reference gate_world demo_task = Inr ?r"
    by (simp add: verify_reference_def loaded demo_validator_def names variants status)
  have "\<forall>c \<in> set (iv_checks (rv_reference ?r)). vc_status c = VPass" using reference_gate [OF passed] by blast
  then have "vc_status (demo_result True ''hidden'') = VPass" by (simp add: gate_run_def)
  with passed show ?thesis by blast
qed

theorem validation_attaches_witness:
  "\<exists>files r. attach_validation_result schema_valid (\<lambda>_. True) (vr_validation (gate_run False)) example_finished = Inr (files, r) \<and>
     rs_validation r = VFail"
proof -
  let ?world = "demo_validation\<lparr>vw_source := [''a.ts'' \<mapsto> ''x'']\<rparr>" and ?task = "example_loaded ''01-demo''"
  let ?s = "\<lparr>sx_task = ''01-demo'', sx_source = replicate 64 (CHR ''b''), sx_accepted = True, sx_violations = [], sx_changes = [],
    sx_hash = replicate 64 (CHR ''b'')\<rparr>"
  let ?w = "\<lparr>ws_files = [''a.ts'' \<mapsto> ''x'', ''node_modules/m'' \<mapsto> ''m''], ws_dirs = (\<lambda>d. False)\<rparr>"
  have valid: "json_validator (vw_ajv ?world)" using standard.json_validator_axioms by (simp add: demo_validation_def)
  have loaded: "load_task_definition (vw_ajv ?world) (vw_sha ?world) ''01-demo'' example_roots = Inr ?task"
    using example_load [OF example_hash(2)] by (simp add: demo_validation_def)
  have "materialize_task example_sha [''a.ts'' \<mapsto> ''x''] demo_setup (Some []) ?task = Inr ?w"
    by (simp add: materialize_task_def ensure_fresh_directory_def run_setup_def example_loaded_def example_task_def
        assert_safe_relative_path_def example_strings parents_def make_parents_def copy_exclusive_def write_bytes_def
        empty_workspace_def example_sha_simps demo_setup_def del: replicate.simps)
  moreover have "apply_submission ?task ?s ?w = Inr ?w"
    by (simp add: apply_submission_def example_loaded_def example_task_def del: replicate.simps)
  moreover have "td_checks (lt_definition ?task) = [demo_check ''test'']" "td_id (lt_definition ?task) = ''01-demo''"
    by (simp_all add: example_loaded_def example_task_def demo_check_def)
  moreover have "checks_status [demo_result False ''test'', demo_result False ''hidden''] = VFail"
    by (simp add: checks_status_def demo_result_def)
  ultimately have run: "validate_submission ?world ?task ?s (rs_status example_result) = Inr (gate_run False)"
    using demo_checks_run [of ?w]
    by (simp add: validate_submission_def demo_validation_def demo_loaded_validator demo_validator_def gate_run_def
        example_result_def build_result_def example_finalize_def del: run_checks.simps replicate.simps)
  have read: "read_attempt schema_valid (\<lambda>_. True) example_finished =
      Inr \<lparr>ar_result = Some example_result, ar_events = [], ar_truncated = False\<rparr>"
    using example_result_valid by (simp add: read_attempt_def example_finished_def)
  have pending: "rs_validation example_result = VNotRun" by (simp add: example_result_def build_result_def)
  have time: "0 \<le> vw_elapsed ?world" "\<forall>argv w. 0 \<le> cp_elapsed (cw_process (vw_checks ?world) argv w)"
    by (simp_all add: demo_validation_def demo_checks_def demo_process_def)
  show ?thesis
    using validation_attaches [OF valid loaded run time read _ pending] by (simp add: gate_run_def)
qed

end
