(* ===== verification/Recorder.thy ===== *)
theory Recorder
  imports Session_Routing Run_Artifacts
begin

section \<open>The runtime recorder (src/artifacts/runtime-recorder.ts)\<close>

text \<open>
  \<open>RuntimeArtifactRecorder\<close> turns the events of the routing controller and of Pi into the artifacts of
  one attempt: the log, the usage of every provider call, the decision, the model that served, the
  durations and the final result. A write the recorder tracks without waiting is executed at once. A
  rejected one is kept and surfaces when the pending writes are flushed; but \<open>appendEvent\<close> checks an
  event before it makes a promise, so an event the schema refuses throws out of the handler instead. The
  clock, fresh identities, the output of \<open>git diff\<close> and the text of a routing error are inputs.
\<close>

subsection \<open>Options and provenance\<close>

record recorder_options =
  ro_project :: string
  ro_session :: string
  ro_run :: string
  ro_mode :: session_mode
  ro_evidence :: evidence_kind
  ro_profile :: string
  ro_config :: lab_config
  ro_roles :: role_models
  ro_prices :: "model_role \<Rightarrow> real \<times> real \<times> real \<times> real"
  ro_config_hash :: string
  ro_capability_hash :: string
  ro_metadata_hash :: string
  ro_provider_hash :: string
  ro_environment :: "string \<Rightarrow> string option"
  ro_setup :: int
  ro_experiment :: "string option"
  ro_task :: "string option"
  ro_repetition :: "nat option"
  ro_task_hash :: "string option"
  ro_source_hash :: "string option"
  ro_validator_hash :: "string option"

definition metadata_hash :: "(json \<Rightarrow> string) \<Rightarrow> pi_model \<Rightarrow> string" where
  "metadata_hash digest model = digest (JObj
     [(''provider'', JStr (pm_provider model)), (''model'', JStr (pm_id model)), (''api'', JStr (pm_api model)),
      (''name'', JStr (pm_name model)), (''contextWindow'', JNum (of_int (pm_context_window model))),
      (''maxTokens'', JNum (of_int (pm_max_tokens model)))])"

text \<open>A model without any price has no reference price.\<close>

definition reference_pricing :: "real \<times> real \<times> real \<times> real \<Rightarrow> token_prices option" where
  "reference_pricing = (\<lambda>(input, output, cache_read, cache_write).
     if input = 0 \<and> output = 0 \<and> cache_read = 0 \<and> cache_write = 0 then None
     else Some \<lparr>tp_input = input, tp_output = output, tp_cache_read = Some cache_read, tp_cache_write = Some cache_write\<rparr>)"

definition role_identity :: "(json \<Rightarrow> string) \<Rightarrow> pi_model \<Rightarrow> role_provenance" where
  "role_identity digest model =
     \<lparr>rp_provider = pm_provider model, rp_model = pm_id model, rp_hash = metadata_hash digest model\<rparr>"

definition provenance_of :: "(json \<Rightarrow> string) \<Rightarrow> recorder_options \<Rightarrow> provenance" where
  "provenance_of digest o' =
     \<lparr>pv_lab_revision = (case ro_environment o' ''LAB_REVISION'' of
          None \<Rightarrow> None | Some s \<Rightarrow> if is_revision s then Some s else None),
      pv_lab_dirty = (case ro_environment o' ''LAB_DIRTY'' of
          None \<Rightarrow> None | Some s \<Rightarrow> if s = ''true'' then Some True else if s = ''false'' then Some False else None),
      pv_pi_version = ''0.85.0'', pv_switchyard = ''2dd67d76ad12961f92359153e03686773e3e8761'',
      pv_image = ro_environment o' ''LAB_AGENT_IMAGE_ID'', pv_config_hash = ro_config_hash o',
      pv_capability_hash = ro_capability_hash o', pv_metadata_hash = ro_metadata_hash o',
      pv_provider_hash = ro_provider_hash o', pv_auth_profile = ro_profile o', pv_mode = ro_mode o',
      pv_limits = execution (ro_config o'), pv_models = (\<lambda>role. role_identity digest (ro_roles o' role)),
      pv_task_hash = ro_task_hash o', pv_source_hash = ro_source_hash o', pv_validator_hash = ro_validator_hash o',
      pv_previous = (case ro_environment o' ''LAB_PREVIOUS_ATTEMPT_ID'' of
          None \<Rightarrow> None | Some s \<Rightarrow> if s \<noteq> [] \<and> s \<noteq> ''-'' then Some s else None)\<rparr>"

subsection \<open>Classifying errors\<close>

text \<open>Case-insensitive regular expressions: a pattern is a test of what follows a position.\<close>

definition literal :: "string \<Rightarrow> string \<Rightarrow> bool" where
  "literal w s \<longleftrightarrow> take (length w) s = w"

definition rate_limit_at :: "string \<Rightarrow> bool" where
  "rate_limit_at s \<longleftrightarrow> literal ''rate'' s \<and>
     (literal ''limit'' (drop 4 s) \<or>
      (case drop 4 s of [] \<Rightarrow> False | c # rest \<Rightarrow> c \<noteq> CHR 0x0A \<and> c \<noteq> CHR 0x0D \<and> literal ''limit'' rest))"

definition server_error_at :: "string \<Rightarrow> bool" where
  "server_error_at s \<longleftrightarrow> literal ''http 5'' s \<and>
     (case drop 6 s of a # b # _ \<Rightarrow> is_digit a \<and> is_digit b | _ \<Rightarrow> False)"

definition mentions :: "(string \<Rightarrow> bool) list \<Rightarrow> string \<Rightarrow> bool" where
  "mentions patterns message = list_ex (\<lambda>s. list_ex (\<lambda>p. p s) patterns) (suffixes (map to_lower message))"

type_synonym failure = "execution_status \<times> string"

definition error_status :: "string \<Rightarrow> bool \<Rightarrow> failure" where
  "error_status message from_provider =
     (if mentions [literal ''cancel'', literal ''abort''] message then (StCancelled, ''cancelled'')
      else if mentions [literal ''wall-time'', literal ''timeout'', literal ''timed out''] message
      then (StTimeout, ''timeout'')
      else if mentions [literal ''auth'', literal ''credential'', literal ''login'', literal ''revoked'', literal ''http 401''] message
      then (StAuthRequired, ''authentication'')
      else if mentions [rate_limit_at, literal ''quota'', literal ''http 429''] message then (StRateLimited, ''rate-limit'')
      else if mentions [literal ''provider'', server_error_at] message then (StProviderError, ''provider'')
      else if from_provider then (StProviderError, ''provider'') else (StHarnessError, ''harness''))"

fun limit_failure :: "limit_status \<Rightarrow> failure" where
  "limit_failure LimitTimeout = (StTimeout, ''timeout'')"
| "limit_failure LimitBudget = (StBudgetExhausted, ''budget-exhausted'')"

subsection \<open>State\<close>

datatype recorder_fault =
    FaultUsage usage_error
  | FaultOutsideSelection
  | FaultSeveralModels
  | FaultArtifact artifact_error
  | FaultWrite
  | FaultPatch

datatype call_role = CodingCall | CompactionCall

record recorder =
  rc_store :: attempt_store
  rc_usage :: usage_ledger
  rc_decision :: "routing_decision option"
  rc_observation :: "observation option"
  rc_served :: "model_identity option"
  rc_routing_started :: "real option"
  rc_routing_ms :: "int option"
  rc_agent_started :: "real option"
  rc_agent_ms :: "int option"
  rc_error :: "failure option"
  rc_limit :: "failure option"
  rc_write_error :: "artifact_error option"
  rc_patched :: bool
  rc_final :: "run_result option"
  rc_pending :: "(string \<times> call_role) list"
  rc_compacting :: bool

text \<open>What does not change while a recorder runs.\<close>

record recorder_env =
  rv_ajv :: "schema \<Rightarrow> json \<Rightarrow> bool"
  rv_date :: "string \<Rightarrow> bool"
  rv_scrub :: "string \<Rightarrow> string"
  rv_digest :: "json \<Rightarrow> string"
  rv_text :: "routing_error \<Rightarrow> string"
  rv_options :: recorder_options

text \<open>What the outside provides while an event is handled: the clocks and a fresh identity.\<close>

record tick =
  tk_now :: real
  tk_time :: string
  tk_id :: string

subsection \<open>Writing\<close>

text \<open>\<open>track\<close>: the outcome of a promise that is not awaited.\<close>

definition track :: "attempt_store \<times> (artifact_error + unit) \<Rightarrow> recorder \<Rightarrow> recorder" where
  "track written st =
     st\<lparr>rc_store := fst written,
        rc_write_error := (case snd written of Inl e \<Rightarrow> Some e | Inr _ \<Rightarrow> rc_write_error st)\<rparr>"

definition write_event :: "recorder_env \<Rightarrow> tick \<Rightarrow> event_kind \<Rightarrow> json \<Rightarrow> string option \<Rightarrow> string option option
    \<Rightarrow> recorder \<Rightarrow> attempt_store \<times> (artifact_error + unit)" where
  "write_event env tk kind payload dedupe decision st =
     append_event (rv_ajv env) (rv_date env) (rv_scrub env) kind payload
       \<lparr>ao_dedupe = dedupe, ao_decision = decision, ao_timestamp = tk_time tk\<rparr> (rc_store st)"

text \<open>
  \<open>appendEvent\<close> is not \<open>async\<close>: after the end of the attempt it returns a rejected promise, which is
  tracked, but \<open>assertEvent\<close> throws before there is a promise. The number and the key of the event are then
  already taken.
\<close>

definition track_event :: "recorder_env \<Rightarrow> tick \<Rightarrow> event_kind \<Rightarrow> json \<Rightarrow> string option \<Rightarrow> string option option
    \<Rightarrow> recorder \<Rightarrow> recorder \<times> recorder_fault option" where
  "track_event env tk kind payload dedupe decision st =
     (case write_event env tk kind payload dedupe decision st of
        (s, Inl InvalidRunEvent) \<Rightarrow> (st\<lparr>rc_store := s\<rparr>, Some (FaultArtifact InvalidRunEvent))
      | written \<Rightarrow> (track written st, None))"

definition decision_ref :: "recorder \<Rightarrow> string option option" where
  "decision_ref st = Some (map_option rd_id (rc_decision st))"

definition elapsed :: "real \<Rightarrow> real \<Rightarrow> int" where
  "elapsed now started = max 0 \<lfloor>now - started + 1 / 2\<rfloor>"

subsection \<open>Starting\<close>

definition recorder_start_options :: "recorder_env \<Rightarrow> string \<Rightarrow> start_options" where
  "recorder_start_options env started =
     (let o' = rv_options env
      in \<lparr>so_identity = \<lparr>ai_project = ro_project o', ai_session = ro_session o', ai_run = ro_run o',
            ai_attempt = ro_run o', ai_decision = None, ai_experiment = ro_experiment o',
            ai_task = ro_task o', ai_repetition = ro_repetition o'\<rparr>,
          so_evidence = ro_evidence o', so_mode = ro_mode o', so_provenance = provenance_of (rv_digest env) o',
          so_started = started, so_setup = ro_setup o'\<rparr>)"

fun evidence_string :: "evidence_kind \<Rightarrow> string" where
  "evidence_string MockEvidence = ''mock''"
| "evidence_string LiveEvidence = ''live''"
| "evidence_string ReplayEvidence = ''replay''"

definition startup_payload :: "recorder_options \<Rightarrow> json" where
  "startup_payload o' = JObj
     [(''mode'', JStr (mode_string (ro_mode o'))), (''evidenceKind'', JStr (evidence_string (ro_evidence o'))),
      (''authProfile'', JStr (ro_profile o')), (''configHash'', JStr (ro_config_hash o'))]"

definition new_recorder :: "attempt_store \<Rightarrow> recorder" where
  "new_recorder s =
     \<lparr>rc_store = s, rc_usage = [], rc_decision = None, rc_observation = None, rc_served = None,
      rc_routing_started = None, rc_routing_ms = None, rc_agent_started = None, rc_agent_ms = None,
      rc_error = None, rc_limit = None, rc_write_error = None, rc_patched = False, rc_final = None,
      rc_pending = [], rc_compacting = False\<rparr>"

definition start_recorder :: "recorder_env \<Rightarrow> tick \<Rightarrow> bool \<Rightarrow> recorder_fault + recorder" where
  "start_recorder env tk present =
     bind_result (lift_error FaultArtifact (start_attempt (recorder_start_options env (tk_time tk)) present)) (\<lambda>s.
       case write_event env tk KindStartup (startup_payload (rv_options env)) None None (new_recorder s) of
         (s', Inl e) \<Rightarrow> Inl (FaultArtifact e)
       | (s', Inr _) \<Rightarrow> Inr (new_recorder s'))"

subsection \<open>Events of the routing controller\<close>

fun call_payload :: "session_event \<Rightarrow> (string \<times> json) list" where
  "call_payload (ClassifierStart call) =
     [(''type'', JStr ''provider_call''), (''role'', JStr ''classifier''), (''action'', JStr ''start''), (''callId'', JStr call)]"
| "call_payload (ClassifierSucceeded call usage identity) =
     [(''type'', JStr ''provider_call''), (''role'', JStr ''classifier''), (''action'', JStr ''end''),
      (''callId'', JStr call), (''outcome'', JStr ''success'')] @
     (case usage of None \<Rightarrow> []
      | Some u \<Rightarrow>
          (let count = nullable (\<lambda>n. JNum (real n))
           in [(''inputTokens'', count (bu_input u)), (''outputTokens'', count (bu_output u)),
               (''cacheReadTokens'', count (bu_cache_read u)), (''cacheWriteTokens'', count (bu_cache_write u)),
               (''reasoningTokens'', count (bu_reasoning u)), (''totalTokens'', count (bu_total u))]) @
          (case identity of None \<Rightarrow> []
           | Some (provider, model, reported) \<Rightarrow>
               [(''provider'', JStr provider), (''model'', JStr model),
                (''providerReportedModelId'', nullable JStr reported)]))"
| "call_payload (ClassifierFailed call) =
     [(''type'', JStr ''provider_call''), (''role'', JStr ''classifier''), (''action'', JStr ''end''),
      (''callId'', JStr call), (''outcome'', JStr ''error'')]"
| "call_payload _ = []"

fun reason_string :: "start_reason \<Rightarrow> string" where
  "reason_string ReasonNew = ''new''"
| "reason_string ReasonFork = ''fork''"
| "reason_string (ReasonOther s) = s"

fun decision_action_string :: "decision_action \<Rightarrow> string" where
  "decision_action_string DPending = ''pending''"
| "decision_action_string DPersisted = ''persisted''"
| "decision_action_string DRestored = ''restored''"

fun lock_action_string :: "lock_action \<Rightarrow> string" where
  "lock_action_string LSelected = ''selected''"
| "lock_action_string LRestored = ''restored''"
| "lock_action_string LRejected = ''rejected''"

fun routing_payload :: "session_event \<Rightarrow> (string \<times> json) list" where
  "routing_payload (SessionStarted session reason) =
     [(''type'', JStr ''session''), (''action'', JStr ''start''), (''sessionId'', JStr session),
      (''reason'', JStr (reason_string reason))]"
| "routing_payload (DecisionEvent action session _) =
     [(''type'', JStr ''decision''), (''action'', JStr (decision_action_string action)), (''sessionId'', JStr session)]"
| "routing_payload (ModelLock action provider model) =
     [(''type'', JStr ''model_lock''), (''action'', JStr (lock_action_string action)),
      (''provider'', JStr provider), (''model'', JStr model)]"
| "routing_payload (AuthStatus provider available) =
     [(''type'', JStr ''auth_status''), (''provider'', JStr provider),
      (''status'', JStr (if available then ''available'' else ''required''))]"
| "routing_payload _ = []"

text \<open>\<open>bridgeUsage\<close>: a report with a missing count is no usage at all; reasoning may be missing.\<close>

definition bridge_usage_of :: "bridge_usage option \<Rightarrow> usage_error + normalized_usage option" where
  "bridge_usage_of usage =
     (case usage of
        None \<Rightarrow> Inr None
      | Some u \<Rightarrow>
          (case (bu_input u, bu_output u, bu_cache_read u, bu_cache_write u, bu_total u) of
             (Some input, Some output, Some cache_read, Some cache_write, Some total_tokens) \<Rightarrow>
               bind_result (normalize_usage
                 \<lparr>pu_input = Fin (real input), pu_output = Fin (real output), pu_cache_read = Fin (real cache_read),
                  pu_cache_write = Fin (real cache_write), pu_reasoning = map_option (\<lambda>n. Fin (real n)) (bu_reasoning u),
                  pu_total = Fin (real total_tokens)\<rparr>) (\<lambda>n. Inr (Some n))
           | _ \<Rightarrow> Inr None))"

text \<open>\<open>usage.record\<close>: a fault leaves the recorder as it was.\<close>

definition record_call :: "string \<Rightarrow> usage_role \<Rightarrow> normalized_usage option \<Rightarrow> bool \<Rightarrow> recorder \<Rightarrow> recorder_fault + recorder" where
  "record_call call role usage is_complete st =
     (case ledger_record (rc_usage st) call role usage is_complete of
        Inl e \<Rightarrow> Inl (FaultUsage e) | Inr (_, calls) \<Rightarrow> Inr (st\<lparr>rc_usage := calls\<rparr>))"

text \<open>A handler returns the new state and what it throws, if anything.\<close>

definition classifier_end :: "recorder_env \<Rightarrow> tick \<Rightarrow> session_event \<Rightarrow> string \<Rightarrow> usage_error + normalized_usage option
    \<Rightarrow> bool \<Rightarrow> recorder \<Rightarrow> recorder \<times> recorder_fault option" where
  "classifier_end env tk e call usage succeeded st =
     (let st1 = (case rc_routing_started st of
            None \<Rightarrow> st | Some started \<Rightarrow> st\<lparr>rc_routing_ms := Some (elapsed (tk_now tk) started)\<rparr>)
      in case usage of
           Inl err \<Rightarrow> (st1, Some (FaultUsage err))
         | Inr u \<Rightarrow>
             (case record_call call UClassifier u succeeded st1 of
                Inl fault \<Rightarrow> (st1, Some fault)
              | Inr st2 \<Rightarrow> track_event env tk KindModelCall (JObj (call_payload e)) (Some (call @ '':end'')) None st2))"

fun record_routing_event :: "recorder_env \<Rightarrow> tick \<Rightarrow> session_event \<Rightarrow> recorder \<Rightarrow> recorder \<times> recorder_fault option" where
  "record_routing_event env tk (ExecutionStart session) st = (st\<lparr>rc_agent_started := Some (tk_now tk)\<rparr>, None)"
| "record_routing_event env tk (ClassifierStart call) st =
     track_event env tk KindModelCall (JObj (call_payload (ClassifierStart call))) (Some (call @ '':start'')) None
       (st\<lparr>rc_routing_started := Some (tk_now tk)\<rparr>)"
| "record_routing_event env tk (ClassifierSucceeded call usage identity) st =
     classifier_end env tk (ClassifierSucceeded call usage identity) call (bridge_usage_of usage) True st"
| "record_routing_event env tk (ClassifierFailed call) st =
     classifier_end env tk (ClassifierFailed call) call (Inr None) False st"
| "record_routing_event env tk (DecisionEvent action session (Some d)) st =
     (let observed = (if action = DRestored then ObsResumed else ObsPersisted);
          st1 = st\<lparr>rc_decision := Some d, rc_observation := Some observed\<rparr>
      in (track (record_decision (rv_ajv env) (rv_date env) (rv_scrub env) (tk_time tk) d observed (rc_store st1)) st1, None))"
| "record_routing_event env tk (AuthStatus provider available) st =
     track_event env tk KindAuth (JObj (routing_payload (AuthStatus provider available))) None None st"
| "record_routing_event env tk (RoutingErrorEvent session err limit) st =
     (let failure = error_status (rv_text env err) False;
          st1 = st\<lparr>rc_limit := (case rc_limit st of None \<Rightarrow> map_option limit_failure limit | Some l \<Rightarrow> Some l),
                   rc_error := Some failure\<rparr>
      in track_event env tk KindError
           (JObj [(''category'', JStr (snd failure)), (''message'', JStr (rv_text env err))]) None None st1)"
| "record_routing_event env tk e st =
     track_event env tk KindRouting (JObj (routing_payload e)) None None st"

definition record_auth_event :: "recorder_env \<Rightarrow> tick \<Rightarrow> bool \<Rightarrow> bool \<Rightarrow> recorder \<Rightarrow> recorder \<times> recorder_fault option" where
  "record_auth_event env tk is_login succeeded st =
     track_event env tk KindAuth
       (JObj [(''action'', JStr (if is_login then ''login'' else ''refresh'')),
              (''outcome'', JStr (if succeeded then ''success'' else ''error''))]) None None st"

subsection \<open>Messages of the coding model\<close>

record assistant_message =
  am_provider :: string
  am_model :: string
  am_response_model :: "string option"
  am_stop :: string
  am_usage :: provider_usage
  am_error :: "string option"

definition expected_model :: "recorder_env \<Rightarrow> recorder \<Rightarrow> pi_model option" where
  "expected_model env st = map_option (\<lambda>d.
     ro_roles (rv_options env) (case rd_tier d of TierWeak \<Rightarrow> Weak | TierStrong \<Rightarrow> Strong)) (rc_decision st)"

definition usage_json :: "normalized_usage \<Rightarrow> json" where
  "usage_json u = JObj
     [(''inputTokens'', JNum (real (nu_input u))), (''outputTokens'', JNum (real (nu_output u))),
      (''cacheReadTokens'', JNum (real (nu_cache_read u))), (''cacheWriteTokens'', JNum (real (nu_cache_write u))),
      (''reasoningTokens'', nullable (\<lambda>n. JNum (real n)) (nu_reasoning u)),
      (''totalTokens'', JNum (real (nu_total u))), (''semantics'', JStr ''pi-exclusive-categories'')]"

definition ended_incomplete :: "assistant_message \<Rightarrow> bool" where
  "ended_incomplete m \<longleftrightarrow> am_stop m \<in> {''pending'', ''error'', ''aborted'', ''deferred''}"

definition error_text :: "string option \<Rightarrow> string option" where
  "error_text t = (case t of Some s \<Rightarrow> if s = [] then None else Some s | None \<Rightarrow> None)"

definition message_payload :: "assistant_message \<Rightarrow> string \<Rightarrow> normalized_usage \<Rightarrow> json" where
  "message_payload m call usage = JObj
     ([(''action'', JStr ''end''), (''role'', JStr ''coding''), (''callId'', JStr call),
       (''outcome'', JStr (if ended_incomplete m then am_stop m else ''success'')),
       (''servedModel'', JObj [(''provider'', JStr (am_provider m)), (''model'', JStr (am_model m)),
          (''providerReportedModelId'', nullable JStr (am_response_model m))]),
       (''usage'', usage_json usage)] @
      (case error_text (am_error m) of None \<Rightarrow> [] | Some s \<Rightarrow> [(''errorMessage'', JStr s)]))"

definition mismatch :: "failure" where
  "mismatch = (StHarnessError, ''model-identity-mismatch'')"

definition record_assistant :: "recorder_env \<Rightarrow> tick \<Rightarrow> assistant_message \<Rightarrow> string \<Rightarrow> recorder
    \<Rightarrow> recorder \<times> recorder_fault option" where
  "record_assistant env tk m call st =
     (if (case expected_model env st of None \<Rightarrow> False
          | Some model \<Rightarrow> am_provider m \<noteq> pm_provider model \<or> am_model m \<noteq> pm_id model)
      then (st\<lparr>rc_error := Some mismatch\<rparr>, Some FaultOutsideSelection)
      else if (case rc_served st of None \<Rightarrow> False
          | Some served \<Rightarrow> mi_provider served \<noteq> am_provider m \<or> mi_model served \<noteq> am_model m)
      then (st\<lparr>rc_error := Some mismatch\<rparr>, Some FaultSeveralModels)
      else
        let st1 = st\<lparr>rc_served := Some
              \<lparr>mi_provider = am_provider m, mi_model = am_model m, mi_reported = am_response_model m\<rparr>\<rparr>
        in case normalize_usage (am_usage m) of
             Inl e \<Rightarrow> (st1, Some (FaultUsage e))
           | Inr usage \<Rightarrow>
               (case record_call call UCoding (Some usage) (\<not> ended_incomplete m) st1 of
                  Inl fault \<Rightarrow> (st1, Some fault)
                | Inr st2 \<Rightarrow>
                    let st3 = (case error_text (am_error m) of
                          Some s \<Rightarrow> if ended_incomplete m then st2\<lparr>rc_error := Some (error_status s True)\<rparr> else st2
                        | None \<Rightarrow> st2)
                    in track_event env tk KindModelCall (message_payload m call usage) (Some call) (decision_ref st3) st3))"

subsection \<open>The extension\<close>

datatype patch_output = PatchText string | NoWorktree | PatchFailure

datatype pi_event =
    BeforeAgentStart
  | BeforeProviderRequest "(string \<times> string) option"
  | MessageEnd "assistant_message option"
  | ToolStart string string
  | ToolEnd string string bool
  | BeforeCompact string
  | Compacted string "provider_usage option"
  | CompactFailed bool string "string option"
  | AgentSettled
  | SessionShutdown string patch_output

fun call_role_string :: "call_role \<Rightarrow> string" where
  "call_role_string CodingCall = ''coding''"
| "call_role_string CompactionCall = ''compaction''"

text \<open>The oldest request of a role that is still open, or another identity when there is none.\<close>

definition take_pending :: "call_role \<Rightarrow> string \<Rightarrow> recorder \<Rightarrow> string \<times> recorder" where
  "take_pending role other st =
     (case take_first (\<lambda>call. snd call = role) (rc_pending st) of
        (None, _) \<Rightarrow> (other, st)
      | (Some call, rest) \<Rightarrow> (fst call, st\<lparr>rc_pending := rest\<rparr>))"

definition lifecycle :: "recorder_env \<Rightarrow> tick \<Rightarrow> (string \<times> json) list \<Rightarrow> recorder \<Rightarrow> recorder \<times> recorder_fault option" where
  "lifecycle env tk payload st = track_event env tk KindLifecycle (JObj payload) None None st"

definition settle :: "tick \<Rightarrow> recorder \<Rightarrow> recorder" where
  "settle tk st = (case rc_agent_started st of None \<Rightarrow> st
     | Some started \<Rightarrow> st\<lparr>rc_agent_ms := Some (case rc_agent_ms st of None \<Rightarrow> elapsed (tk_now tk) started
           | Some ms \<Rightarrow> ms + elapsed (tk_now tk) started), rc_agent_started := None\<rparr>)"

definition flush :: "recorder \<Rightarrow> recorder_fault + unit" where
  "flush st = (if rc_write_error st = None then Inr () else Inl FaultWrite)"

definition capture_patch :: "patch_output \<Rightarrow> recorder \<Rightarrow> recorder \<times> recorder_fault option" where
  "capture_patch output st =
     (if rc_final st \<noteq> None then (st, None)
      else case output of
          NoWorktree \<Rightarrow> (st, None)
        | PatchFailure \<Rightarrow> (st, Some FaultPatch)
        | PatchText patch \<Rightarrow>
            (case write_patch patch (rc_store st) of
               (s, Inl e) \<Rightarrow> (st\<lparr>rc_store := s\<rparr>, Some (FaultArtifact e))
             | (s, Inr _) \<Rightarrow> (st\<lparr>rc_store := s, rc_patched := True\<rparr>, None)))"

subsection \<open>Finalization\<close>

datatype final_error = LimitError limit_status string | OtherError string

fun final_message :: "final_error \<Rightarrow> string" where
  "final_message (LimitError limit s) = s"
| "final_message (OtherError s) = s"

definition sum_both :: "real option \<Rightarrow> real option \<Rightarrow> real option" where
  "sum_both a b = (case (a, b) of (Some x, Some y) \<Rightarrow> Some (x + y) | _ \<Rightarrow> None)"

definition final_role :: "recorder_env \<Rightarrow> recorder \<Rightarrow> model_role" where
  "final_role env st = (case rc_decision st of
     Some d \<Rightarrow> (case rd_tier d of TierWeak \<Rightarrow> Weak | TierStrong \<Rightarrow> Strong)
   | None \<Rightarrow> if ro_mode (rv_options env) = StrongOnly then Strong else Weak)"

definition recorded_costs :: "recorder_env \<Rightarrow> recorder \<Rightarrow> costs" where
  "recorded_costs env st =
     (let o' = rv_options env;
          classifier = calculate_role_cost (models (ro_config o') Classifier) (sum_classifier (ledger_summaries (rc_usage st)))
            (reference_pricing (ro_prices o' Classifier));
          coding = calculate_role_cost (models (ro_config o') (final_role env st))
            (summary_for_roles (rc_usage st) [UCoding, UCompaction]) (reference_pricing (ro_prices o' (final_role env st)))
      in \<lparr>co_classifier = classifier, co_coding = coding,
          co_total_estimated = sum_both (rc_estimated classifier) (rc_estimated coding),
          co_total_reference = sum_both (rc_reference classifier) (rc_reference coding)\<rparr>)"

definition reason_no_response :: string where
  "reason_no_response = ''no completed coding model response was observed''"

definition reason_no_patch :: string where
  "reason_no_patch = ''workspace patch was unavailable because the project is not a Git worktree''"

definition final_input :: "recorder_env \<Rightarrow> tick \<Rightarrow> recorder \<Rightarrow> finalize_input" where
  "final_input env tk st =
     \<lparr>fi_status = (case rc_limit st of Some f \<Rightarrow> fst f
        | None \<Rightarrow> (case rc_error st of Some f \<Rightarrow> fst f | None \<Rightarrow> StCompleted)),
      fi_ended = Some (tk_time tk),
      fi_error_category = (case rc_limit st of Some f \<Rightarrow> Some (snd f) | None \<Rightarrow> map_option snd (rc_error st)),
      fi_decision = rc_decision st, fi_observation = rc_observation st, fi_served = rc_served st,
      fi_routing_ms = rc_routing_ms st, fi_agent_ms = rc_agent_ms st, fi_usage = ledger_summaries (rc_usage st),
      fi_costs = recorded_costs env st,
      fi_reasons = (if rc_served st = None then [reason_no_response] else []) @
        (if \<not> rc_patched st then [reason_no_patch] else []),
      fi_timestamp = tk_time tk\<rparr>"

text \<open>The error the session ended with, if any, is classified and logged before the pending writes are flushed.\<close>

definition note_error :: "recorder_env \<Rightarrow> tick \<Rightarrow> final_error option \<Rightarrow> recorder \<Rightarrow> recorder \<times> recorder_fault option" where
  "note_error env tk err st =
     (case err of
        None \<Rightarrow> (st, None)
      | Some e \<Rightarrow>
          let failure = error_status (final_message e) False;
              st1 = st\<lparr>rc_limit := (case rc_limit st of Some l \<Rightarrow> Some l
                    | None \<Rightarrow> (case e of LimitError limit _ \<Rightarrow> Some (limit_failure limit) | OtherError _ \<Rightarrow> None)),
                  rc_error := Some failure\<rparr>
          in case write_event env tk KindError
                 (JObj [(''category'', JStr (snd failure)), (''message'', JStr (final_message e))]) None None st1 of
               (s, Inl fault) \<Rightarrow> (st1\<lparr>rc_store := s\<rparr>, Some (FaultArtifact fault))
             | (s, Inr _) \<Rightarrow> (st1\<lparr>rc_store := s\<rparr>, None))"

definition finalize :: "recorder_env \<Rightarrow> tick \<Rightarrow> final_error option \<Rightarrow> recorder \<Rightarrow> recorder \<times> (recorder_fault + run_result)" where
  "finalize env tk err st =
     (case rc_final st of
        Some r \<Rightarrow> (st, Inr r)
      | None \<Rightarrow>
          (case note_error env tk err (settle tk st) of
             (st1, Some fault) \<Rightarrow> (st1, Inl fault)
           | (st1, None) \<Rightarrow>
               (case flush st1 of
                  Inl fault \<Rightarrow> (st1, Inl fault)
                | Inr _ \<Rightarrow>
                    (case finalize_attempt (rv_ajv env) (rv_date env) (rv_scrub env) (final_input env tk st1) (rc_store st1) of
                       (s, Inl e) \<Rightarrow> (st1\<lparr>rc_store := s\<rparr>, Inl (FaultArtifact e))
                     | (s, Inr r) \<Rightarrow> (st1\<lparr>rc_store := s, rc_final := Some r\<rparr>, Inr r)))))"

subsection \<open>Events of Pi\<close>

definition request_payload :: "call_role \<Rightarrow> string \<Rightarrow> (string \<times> string) option \<Rightarrow> json" where
  "request_payload role call model = JObj
     [(''action'', JStr ''start''), (''role'', JStr (call_role_string role)), (''callId'', JStr call),
      (''requestedModel'', (case model of None \<Rightarrow> JNull
         | Some (provider, model_id) \<Rightarrow> JObj [(''provider'', JStr provider), (''model'', JStr model_id)]))]"

definition compaction_payload :: "string \<Rightarrow> normalized_usage option \<Rightarrow> json" where
  "compaction_payload call usage = JObj
     [(''action'', JStr ''end''), (''role'', JStr ''compaction''), (''callId'', JStr call),
      (''outcome'', JStr ''success''), (''usage'', nullable usage_json usage)]"

definition compaction_usage :: "provider_usage option \<Rightarrow> usage_error + normalized_usage option" where
  "compaction_usage usage = (case usage of None \<Rightarrow> Inr None
     | Some u \<Rightarrow> bind_result (normalize_usage u) (\<lambda>n. Inr (Some n)))"

text \<open>The identity of a compaction whose request was not seen.\<close>

definition compaction_call :: "string \<Rightarrow> string" where
  "compaction_call entry = ''compaction:'' @ entry"

text \<open>\<open>compactionActive\<close> is reset last, so an event that is refused leaves it set.\<close>

definition compaction_over :: "recorder \<times> recorder_fault option \<Rightarrow> recorder \<times> recorder_fault option" where
  "compaction_over res = (case res of
     (st, None) \<Rightarrow> (st\<lparr>rc_compacting := False\<rparr>, None)
   | (st, Some fault) \<Rightarrow> (st, Some fault))"

definition on_compacted :: "recorder_env \<Rightarrow> tick \<Rightarrow> string \<Rightarrow> provider_usage option \<Rightarrow> recorder
    \<Rightarrow> recorder \<times> recorder_fault option" where
  "on_compacted env tk entry usage st =
     (let (call, st1) = take_pending CompactionCall (compaction_call entry) st
      in case compaction_usage usage of
           Inl e \<Rightarrow> (st1, Some (FaultUsage e))
         | Inr u \<Rightarrow>
             (case record_call call UCompaction u True st1 of
                Inl fault \<Rightarrow> (st1, Some fault)
              | Inr st2 \<Rightarrow> compaction_over
                  (track_event env tk KindModelCall (compaction_payload call u) (Some call) (decision_ref st2) st2)))"

definition on_compact_failed :: "recorder_env \<Rightarrow> tick \<Rightarrow> bool \<Rightarrow> string \<Rightarrow> string option \<Rightarrow> recorder
    \<Rightarrow> recorder \<times> recorder_fault option" where
  "on_compact_failed env tk aborted reason message st =
     (let (call, st1) = take_pending CompactionCall (tk_id tk) st
      in case record_call call UCompaction None False st1 of
           Inl fault \<Rightarrow> (st1, Some fault)
         | Inr st2 \<Rightarrow> compaction_over
             (track_event env tk KindError
                (JObj ([(''category'', JStr (if aborted then ''cancelled'' else ''provider'')),
                    (''action'', JStr ''compaction-failed''), (''reason'', JStr reason)] @
                  (case error_text message of None \<Rightarrow> [] | Some s \<Rightarrow> [(''message'', JStr s)]))) None None st2))"

definition on_shutdown :: "recorder_env \<Rightarrow> tick \<Rightarrow> string \<Rightarrow> patch_output \<Rightarrow> recorder \<Rightarrow> recorder \<times> recorder_fault option" where
  "on_shutdown env tk reason output st =
     (case write_event env tk KindLifecycle
         (JObj [(''action'', JStr ''session-shutdown''), (''reason'', JStr reason)]) None None st of
        (s, Inl e) \<Rightarrow> (st\<lparr>rc_store := s\<rparr>, Some (FaultArtifact e))
      | (s, Inr _) \<Rightarrow>
          let st1 = st\<lparr>rc_store := s\<rparr>
          in case flush st1 of
               Inl fault \<Rightarrow> (st1, Some fault)
             | Inr _ \<Rightarrow>
                 if reason \<in> {''new'', ''resume'', ''fork''} then
                   (case capture_patch output st1 of
                      (st2, Some fault) \<Rightarrow> (st2, Some fault)
                    | (st2, None) \<Rightarrow>
                        (case finalize env tk None st2 of
                           (st3, Inl fault) \<Rightarrow> (st3, Some fault) | (st3, Inr _) \<Rightarrow> (st3, None)))
                 else (st1, None))"

fun handle_pi :: "recorder_env \<Rightarrow> tick \<Rightarrow> pi_event \<Rightarrow> recorder \<Rightarrow> recorder \<times> recorder_fault option" where
  "handle_pi env tk BeforeAgentStart st =
     lifecycle env tk [(''action'', JStr ''agent-start'')]
       (st\<lparr>rc_agent_started := (case rc_agent_started st of None \<Rightarrow> Some (tk_now tk) | Some t \<Rightarrow> Some t)\<rparr>)"
| "handle_pi env tk (BeforeProviderRequest model) st =
     (let role = (if rc_compacting st then CompactionCall else CodingCall);
          st1 = st\<lparr>rc_pending := rc_pending st @ [(tk_id tk, role)]\<rparr>
      in track_event env tk KindModelCall (request_payload role (tk_id tk) model) (Some (tk_id tk @ '':start''))
           (decision_ref st1) st1)"
| "handle_pi env tk (MessageEnd None) st = (st, None)"
| "handle_pi env tk (MessageEnd (Some m)) st =
     (let (call, st1) = take_pending CodingCall (tk_id tk) st in record_assistant env tk m call st1)"
| "handle_pi env tk (ToolStart call tool) st =
     track_event env tk KindTool
       (JObj [(''action'', JStr ''start''), (''toolCallId'', JStr call), (''toolName'', JStr tool)])
       (Some (''tool:'' @ call @ '':start'')) None st"
| "handle_pi env tk (ToolEnd call tool is_error) st =
     track_event env tk KindTool
       (JObj [(''action'', JStr ''end''), (''toolCallId'', JStr call), (''toolName'', JStr tool), (''isError'', JBool is_error)])
       (Some (''tool:'' @ call @ '':end'')) None st"
| "handle_pi env tk (BeforeCompact reason) st =
     lifecycle env tk [(''action'', JStr ''compaction-start''), (''reason'', JStr reason)] (st\<lparr>rc_compacting := True\<rparr>)"
| "handle_pi env tk (Compacted entry usage) st = on_compacted env tk entry usage st"
| "handle_pi env tk (CompactFailed aborted reason message) st = on_compact_failed env tk aborted reason message st"
| "handle_pi env tk AgentSettled st = lifecycle env tk [(''action'', JStr ''agent-settled'')] (settle tk st)"
| "handle_pi env tk (SessionShutdown reason output) st = on_shutdown env tk reason output st"

datatype recorder_input = FromRouting session_event | FromAuth bool bool | FromPi pi_event

fun recorder_step :: "recorder_env \<Rightarrow> tick \<times> recorder_input \<Rightarrow> recorder \<Rightarrow> recorder \<times> recorder_fault option" where
  "recorder_step env (tk, FromRouting e) st = record_routing_event env tk e st"
| "recorder_step env (tk, FromAuth is_login succeeded) st = record_auth_event env tk is_login succeeded st"
| "recorder_step env (tk, FromPi e) st = handle_pi env tk e st"

text \<open>A session: a handler that throws leaves what it has done, and the session goes on.\<close>

fun recorder_session :: "recorder_env \<Rightarrow> (tick \<times> recorder_input) list \<Rightarrow> recorder \<Rightarrow> recorder \<times> recorder_fault option list" where
  "recorder_session env [] st = (st, [])"
| "recorder_session env (i # is) st =
     (let (st1, fault) = recorder_step env i st; (st2, faults) = recorder_session env is st1 in (st2, fault # faults))"

subsection \<open>The store behind the recorder\<close>

lemma track_event_cases:
  assumes "track_event env tk kind payload dedupe decision st = (st', f)"
  obtains (refused) s where "write_event env tk kind payload dedupe decision st = (s, Inl InvalidRunEvent)"
      "st' = st\<lparr>rc_store := s\<rparr>" "f = Some (FaultArtifact InvalidRunEvent)"
    | (tracked) "snd (write_event env tk kind payload dedupe decision st) \<noteq> Inl InvalidRunEvent"
      "st' = track (write_event env tk kind payload dedupe decision st) st" "f = None"
  using assms by (cases "write_event env tk kind payload dedupe decision st")
    (auto simp: track_event_def split: sum.splits artifact_error.splits)

lemma track_event_fault:
  "snd (track_event env tk kind payload dedupe decision st) = None \<or>
   snd (track_event env tk kind payload dedupe decision st) = Some (FaultArtifact InvalidRunEvent)"
  by (cases "track_event env tk kind payload dedupe decision st") (auto elim: track_event_cases)

lemma compaction_over_simps [simp]:
  "snd (compaction_over res) = snd res" "rc_store (fst (compaction_over res)) = rc_store (fst res)"
  "rc_usage (fst (compaction_over res)) = rc_usage (fst res)" "rc_pending (fst (compaction_over res)) = rc_pending (fst res)"
  "rc_served (fst (compaction_over res)) = rc_served (fst res)" "rc_decision (fst (compaction_over res)) = rc_decision (fst res)"
  "rc_error (fst (compaction_over res)) = rc_error (fst res)" "rc_limit (fst (compaction_over res)) = rc_limit (fst res)"
  "rc_final (fst (compaction_over res)) = rc_final (fst res)" "rc_write_error (fst (compaction_over res)) = rc_write_error (fst res)"
  by (simp_all add: compaction_over_def split: prod.splits option.splits)

definition rec_inv :: "(string \<Rightarrow> bool) \<Rightarrow> recorder \<Rightarrow> bool" where
  "rec_inv date_ok st \<longleftrightarrow>
     (case rc_final st of
        None \<Rightarrow> rc_write_error st = None \<longrightarrow> attempt_inv date_ok (rc_store st)
      | Some r \<Rightarrow> attempt_inv date_ok (rc_store st) \<and> af_result (as_files (rc_store st)) = ResultStored r)"

lemma rec_inv_fields [simp]:
  "rec_inv date_ok (st\<lparr>rc_usage := a\<rparr>) = rec_inv date_ok st"
  "rec_inv date_ok (st\<lparr>rc_decision := b\<rparr>) = rec_inv date_ok st"
  "rec_inv date_ok (st\<lparr>rc_observation := c\<rparr>) = rec_inv date_ok st"
  "rec_inv date_ok (st\<lparr>rc_served := d\<rparr>) = rec_inv date_ok st"
  "rec_inv date_ok (st\<lparr>rc_routing_started := e\<rparr>) = rec_inv date_ok st"
  "rec_inv date_ok (st\<lparr>rc_routing_ms := f\<rparr>) = rec_inv date_ok st"
  "rec_inv date_ok (st\<lparr>rc_agent_started := e\<rparr>) = rec_inv date_ok st"
  "rec_inv date_ok (st\<lparr>rc_agent_ms := f\<rparr>) = rec_inv date_ok st"
  "rec_inv date_ok (st\<lparr>rc_error := g\<rparr>) = rec_inv date_ok st"
  "rec_inv date_ok (st\<lparr>rc_limit := g\<rparr>) = rec_inv date_ok st"
  "rec_inv date_ok (st\<lparr>rc_patched := h\<rparr>) = rec_inv date_ok st"
  "rec_inv date_ok (st\<lparr>rc_pending := i\<rparr>) = rec_inv date_ok st"
  "rec_inv date_ok (st\<lparr>rc_compacting := h\<rparr>) = rec_inv date_ok st"
  by (simp_all add: rec_inv_def cong: option.case_cong)

lemma finalized_append:
  assumes "attempt_inv date_ok s" "af_result (as_files s) = ResultStored r"
  shows "append_event ajv date_ok scrub kind payload options s = (s, Inl AppendAfterFinalize)"
  using assms by (simp add: attempt_inv_def append_event_def)

lemma decided_inv: "attempt_inv date_ok (s\<lparr>as_decision := d\<rparr>) = attempt_inv date_ok s"
  by (simp add: attempt_inv_def log_wf_def log_events_def del: upt_Suc cong: result_file.case_cong)

text \<open>Any tracked write keeps the invariant: it appends, fails and is noted, or fails after the end.\<close>

lemma track_inv:
  assumes inv: "rec_inv date_ok st"
    and op: "attempt_step schema_valid date_ok scrub op (rc_store st) = written"
    and frozen: "\<And>r. attempt_inv date_ok (rc_store st) \<Longrightarrow> af_result (as_files (rc_store st)) = ResultStored r \<Longrightarrow>
      attempt_inv date_ok (fst written) \<and> af_result (as_files (fst written)) = ResultStored r"
  shows "rec_inv date_ok (track written st)"
proof (cases "rc_final st")
  case None
  show ?thesis
  proof (cases "snd written")
    case (Inr u)
    then have "attempt_step schema_valid date_ok scrub op (rc_store st) = (fst written, Inr ())" using op by (cases written) simp
    then show ?thesis using attempt_inv_step inv None Inr by (fastforce simp: rec_inv_def track_def)
  qed (simp add: rec_inv_def track_def None)
next
  case (Some r)
  then show ?thesis using inv frozen [of r] by (auto simp: rec_inv_def track_def split: sum.splits)
qed

lemma over_inv [simp]: "rec_inv date_ok (fst (compaction_over res)) = rec_inv date_ok (fst res)"
  by (simp add: rec_inv_def cong: option.case_cong)

lemma track_event_inv:
  assumes ajv: "rv_ajv env = schema_valid" and inv: "rec_inv (rv_date env) st"
    and ok: "\<And>e. snd (track_event env tk kind payload dedupe decision st) \<noteq> Some (FaultArtifact e)"
  shows "rec_inv (rv_date env) (fst (track_event env tk kind payload dedupe decision st))"
proof -
  obtain st' f where t: "track_event env tk kind payload dedupe decision st = (st', f)" by fastforce
  have "rec_inv (rv_date env) (track (write_event env tk kind payload dedupe decision st) st)"
  proof (rule track_inv [OF inv, of "rv_scrub env" "OpAppend kind payload \<lparr>ao_dedupe = dedupe, ao_decision = decision, ao_timestamp = tk_time tk\<rparr>"])
    show "attempt_step schema_valid (rv_date env) (rv_scrub env)
        (OpAppend kind payload \<lparr>ao_dedupe = dedupe, ao_decision = decision, ao_timestamp = tk_time tk\<rparr>) (rc_store st) =
      write_event env tk kind payload dedupe decision st"
      by (simp add: write_event_def ajv)
  qed (simp add: write_event_def finalized_append)
  with t ok show ?thesis by (auto elim!: track_event_cases)
qed

lemma track_decision_inv:
  assumes "rv_ajv env = schema_valid" "rec_inv (rv_date env) st"
  shows "rec_inv (rv_date env)
    (track (record_decision (rv_ajv env) (rv_date env) (rv_scrub env) ts d observed (rc_store st)) st)"
proof (rule track_inv [OF assms(2), of "rv_scrub env" "OpDecision ts d observed"])
  show "attempt_step schema_valid (rv_date env) (rv_scrub env) (OpDecision ts d observed) (rc_store st) =
    record_decision (rv_ajv env) (rv_date env) (rv_scrub env) ts d observed (rc_store st)"
    by (simp add: assms(1))
  show "attempt_inv (rv_date env) (fst (record_decision (rv_ajv env) (rv_date env) (rv_scrub env) ts d observed (rc_store st))) \<and>
      af_result (as_files (fst (record_decision (rv_ajv env) (rv_date env) (rv_scrub env) ts d observed (rc_store st)))) = ResultStored r"
    if "attempt_inv (rv_date env) (rc_store st)" "af_result (as_files (rc_store st)) = ResultStored r" for r
    using that finalized_append [of "rv_date env" "rc_store st\<lparr>as_decision := Some d\<rparr>" r] by (simp add: record_decision_def decided_inv)
qed

lemma take_pending_inv: "take_pending role other st = (call, st1) \<Longrightarrow> rec_inv date_ok st1 = rec_inv date_ok st"
  by (auto simp: take_pending_def split: option.splits prod.splits)

lemma record_call_inv: "record_call call role usage ok st = Inr st1 \<Longrightarrow> rec_inv date_ok st1 = rec_inv date_ok st"
  by (auto simp: record_call_def split: sum.splits)

lemma classifier_end_inv:
  assumes "rv_ajv env = schema_valid" "rec_inv (rv_date env) st"
    and "\<And>e. snd (classifier_end env tk ev call usage ok st) \<noteq> Some (FaultArtifact e)"
  shows "rec_inv (rv_date env) (fst (classifier_end env tk ev call usage ok st))"
  using assms track_event_inv record_call_inv
  by (auto simp: classifier_end_def Let_def split: option.splits sum.splits)

lemma routing_event_inv:
  assumes "rv_ajv env = schema_valid" "rec_inv (rv_date env) st"
    and "\<And>e. snd (record_routing_event env tk ev st) \<noteq> Some (FaultArtifact e)"
  shows "rec_inv (rv_date env) (fst (record_routing_event env tk ev st))"
proof (cases ev)
  case (DecisionEvent action session d)
  then show ?thesis
    using assms track_event_inv [OF assms(1,2)] track_decision_inv [OF assms(1), of "st\<lparr>rc_decision := d, rc_observation := _\<rparr>"]
    by (cases d) (simp_all add: Let_def)
qed (use assms in \<open>simp_all add: track_event_inv classifier_end_inv Let_def\<close>)

lemma assistant_inv:
  assumes "rv_ajv env = schema_valid" "rec_inv (rv_date env) st"
    and "\<And>e. snd (record_assistant env tk m call st) \<noteq> Some (FaultArtifact e)"
  shows "rec_inv (rv_date env) (fst (record_assistant env tk m call st))"
  using assms track_event_inv record_call_inv
  by (auto simp: record_assistant_def Let_def split: option.splits sum.splits)

lemma awaited_inv:
  assumes "rv_ajv env = schema_valid" "rec_inv (rv_date env) st"
    and "write_event env tk kind payload dedupe decision st = (s, Inr u)"
  shows "rec_inv (rv_date env) (st\<lparr>rc_store := s\<rparr>)"
proof -
  have "track_event env tk kind payload dedupe decision st = (st\<lparr>rc_store := s\<rparr>, None)"
    by (simp add: track_event_def track_def assms(3))
  with track_event_inv [OF assms(1,2), of tk kind payload dedupe decision] show ?thesis by simp
qed

lemma settle_inv [simp]: "rec_inv date_ok (settle tk st) = rec_inv date_ok st"
  by (simp add: settle_def split: option.splits)

lemma patch_inv:
  assumes "rv_ajv env = schema_valid" "rec_inv (rv_date env) st" "capture_patch output st = (st', f)" "\<And>e. f \<noteq> Some (FaultArtifact e)"
  shows "rec_inv (rv_date env) st'"
proof (cases "rc_final st = None \<and> (\<exists>patch. output = PatchText patch)")
  case True
  then obtain patch where p: "rc_final st = None" "output = PatchText patch" by blast
  obtain s where w: "write_patch patch (rc_store st) = (s, Inr ())" and st': "st' = st\<lparr>rc_store := s, rc_patched := True\<rparr>"
    using assms(3,4) p by (auto simp: capture_patch_def split: prod.splits sum.splits)
  have "attempt_inv (rv_date env) s" if "attempt_inv (rv_date env) (rc_store st)"
    by (rule attempt_inv_step [of "rv_date env" _ "OpPatch patch", OF _ that]) (simp add: w)
  then show ?thesis using assms(2) p(1) by (simp add: st' rec_inv_def)
next
  case False
  then show ?thesis using assms(2,3) by (auto simp: capture_patch_def split: patch_output.splits if_splits)
qed

lemma note_error_inv:
  assumes "rv_ajv env = schema_valid" "rec_inv (rv_date env) st" "note_error env tk err st = (st', None)"
  shows "rec_inv (rv_date env) st' \<and> rc_final st' = rc_final st \<and> rc_usage st' = rc_usage st"
proof (cases err)
  case None
  then show ?thesis using assms by (simp add: note_error_def)
next
  case (Some e)
  define st1 where "st1 = st\<lparr>rc_limit := (case rc_limit st of Some l \<Rightarrow> Some l
      | None \<Rightarrow> (case e of LimitError limit _ \<Rightarrow> Some (limit_failure limit) | OtherError _ \<Rightarrow> None)),
    rc_error := Some (error_status (final_message e) False)\<rparr>"
  obtain s u where w: "write_event env tk KindError
      (JObj [(''category'', JStr (snd (error_status (final_message e) False))), (''message'', JStr (final_message e))]) None None st1 = (s, Inr u)"
    and st': "st' = st1\<lparr>rc_store := s\<rparr>"
    using assms(3) Some by (auto simp: note_error_def Let_def st1_def [symmetric] split: prod.splits sum.splits)
  have "rec_inv (rv_date env) st1" using assms(2) by (simp add: st1_def)
  then show ?thesis using awaited_inv [OF assms(1) _ w] by (simp add: st') (simp add: st1_def)
qed

lemma finalize_inv:
  assumes "rv_ajv env = schema_valid" "rec_inv (rv_date env) st" "finalize env tk err st = (st', x)" "\<And>e. x \<noteq> Inl (FaultArtifact e)"
  shows "rec_inv (rv_date env) st' \<and> (\<forall>r. x = Inr r \<longrightarrow> rc_final st' = Some r)"
proof (cases "rc_final st")
  case (Some r)
  then show ?thesis using assms by (auto simp: finalize_def)
next
  case None
  obtain st1 f where n: "note_error env tk err (settle tk st) = (st1, f)" by fastforce
  have settled: "rc_final (settle tk st) = None" using None by (simp add: settle_def split: option.splits)
  show ?thesis
  proof (cases f)
    case (Some fault)
    then have x: "x = Inl fault" using assms(3) None n by (simp add: finalize_def)
    then have "\<exists>e. fault = FaultArtifact e"
      using n Some by (auto simp: note_error_def Let_def split: option.splits prod.splits sum.splits)
    then show ?thesis using assms(4) x by blast
  next
    case f: None
    note inv = note_error_inv [OF assms(1) _ n [unfolded f]]
    have i1: "rec_inv (rv_date env) st1" and fin1: "rc_final st1 = None" using inv assms(2) settled by simp_all
    show ?thesis
    proof (cases "rc_write_error st1")
      case (Some e)
      then show ?thesis using assms(3) None n f i1 by (auto simp: finalize_def flush_def)
    next
      case ok: None
      obtain s r where fa: "finalize_attempt (rv_ajv env) (rv_date env) (rv_scrub env) (final_input env tk st1) (rc_store st1) = (s, Inr r)"
        and st': "st' = st1\<lparr>rc_store := s, rc_final := Some r\<rparr>" and x: "x = Inr r"
        using assms(3,4) None n f ok by (auto simp: finalize_def flush_def split: prod.splits sum.splits)
      have "attempt_inv (rv_date env) (rc_store st1)" using i1 fin1 ok by (simp add: rec_inv_def)
      then have "log_wf (rv_date env) (rc_store st1)" by (simp add: attempt_inv_def)
      from finalize_Inr [OF fa [unfolded assms(1)] this] show ?thesis by (simp add: st' x rec_inv_def attempt_inv_def)
    qed
  qed
qed

lemma shutdown_inv:
  assumes "rv_ajv env = schema_valid" "rec_inv (rv_date env) st" "on_shutdown env tk reason output st = (st', f)"
    "\<And>e. f \<noteq> Some (FaultArtifact e)"
  shows "rec_inv (rv_date env) st'"
proof -
  obtain s u where w: "write_event env tk KindLifecycle
      (JObj [(''action'', JStr ''session-shutdown''), (''reason'', JStr reason)]) None None st = (s, Inr u)"
    using assms(3,4) by (auto simp: on_shutdown_def split: prod.splits sum.splits)
  define st1 where "st1 = st\<lparr>rc_store := s\<rparr>"
  have i1: "rec_inv (rv_date env) st1" unfolding st1_def by (rule awaited_inv [OF assms(1,2) w])
  show ?thesis
  proof (cases "flush st1")
    case (Inl fault)
    then show ?thesis using assms(3) w i1 by (simp add: on_shutdown_def Let_def st1_def [symmetric])
  next
    case fl: (Inr u')
    show ?thesis
    proof (cases "reason \<in> {''new'', ''resume'', ''fork''}")
      case False
      then show ?thesis using assms(3) w i1 fl by (simp add: on_shutdown_def Let_def st1_def [symmetric])
    next
      case True
      obtain st2 g where p: "capture_patch output st1 = (st2, g)" by fastforce
      have i2: "rec_inv (rv_date env) st2" if "\<And>e. g \<noteq> Some (FaultArtifact e)" by (rule patch_inv [OF assms(1) i1 p that])
      show ?thesis
      proof (cases g)
        case (Some fault)
        then have "st' = st2" "f = Some fault" using assms(3) w fl True p by (simp_all add: on_shutdown_def Let_def st1_def [symmetric])
        then show ?thesis using i2 assms(4) Some by simp
      next
        case None
        obtain st3 x where z: "finalize env tk None st2 = (st3, x)" by fastforce
        have "st' = st3" "f = (case x of Inl fault \<Rightarrow> Some fault | Inr _ \<Rightarrow> None)"
          using assms(3) w fl True p None z by (auto simp: on_shutdown_def Let_def st1_def [symmetric] split: sum.splits)
        then show ?thesis using finalize_inv [OF assms(1) _ z] i2 None assms(4) by (cases x) auto
      qed
    qed
  qed
qed

lemma pi_event_inv:
  assumes "rv_ajv env = schema_valid" "rec_inv (rv_date env) st" "\<And>e. snd (handle_pi env tk ev st) \<noteq> Some (FaultArtifact e)"
  shows "rec_inv (rv_date env) (fst (handle_pi env tk ev st))"
proof (cases ev)
  case (MessageEnd m)
  show ?thesis
  proof (cases m)
    case (Some msg)
    obtain call st1 where t: "take_pending CodingCall (tk_id tk) st = (call, st1)" by fastforce
    have "rec_inv (rv_date env) st1" using take_pending_inv [OF t] assms(2) by simp
    from assistant_inv [OF assms(1) this, of tk msg call] show ?thesis using assms(3) t by (simp add: MessageEnd Some)
  qed (use assms in \<open>simp add: MessageEnd\<close>)
next
  case (Compacted entry usage)
  obtain call st1 where t: "take_pending CompactionCall (compaction_call entry) st = (call, st1)" by fastforce
  have "rec_inv (rv_date env) st1" using take_pending_inv [OF t] assms(2) by simp
  then show ?thesis
    using assms(1,3) t track_event_inv record_call_inv by (auto simp: Compacted on_compacted_def split: sum.splits)
next
  case (CompactFailed aborted reason message)
  obtain call st1 where t: "take_pending CompactionCall (tk_id tk) st = (call, st1)" by fastforce
  have "rec_inv (rv_date env) st1" using take_pending_inv [OF t] assms(2) by simp
  then show ?thesis
    using assms(1,3) t track_event_inv record_call_inv by (auto simp: CompactFailed on_compact_failed_def split: sum.splits)
next
  case (SessionShutdown reason diff)
  obtain st' f where s: "on_shutdown env tk reason diff st = (st', f)" by fastforce
  then show ?thesis using shutdown_inv [OF assms(1,2) s] assms(3) by (simp add: SessionShutdown)
qed (use assms in \<open>simp_all add: lifecycle_def Let_def track_event_inv\<close>)

lemma step_inv:
  assumes "rv_ajv env = schema_valid" "rec_inv (rv_date env) st" "recorder_step env i st = (st', f)" "\<And>e. f \<noteq> Some (FaultArtifact e)"
  shows "rec_inv (rv_date env) st'"
proof -
  obtain tk input where i: "i = (tk, input)" by fastforce
  show ?thesis
  proof (cases input)
    case (FromRouting ev)
    then show ?thesis using assms(3,4) routing_event_inv [OF assms(1,2), of tk ev] by (simp add: i)
  next
    case (FromAuth l ok)
    have "rec_inv (rv_date env) (fst (record_auth_event env tk l ok st))"
      if "\<And>e. snd (record_auth_event env tk l ok st) \<noteq> Some (FaultArtifact e)"
      using that unfolding record_auth_event_def by (rule track_event_inv [OF assms(1,2)])
    then show ?thesis using assms(3,4) by (simp add: i FromAuth)
  next
    case (FromPi ev)
    then show ?thesis using assms(3,4) pi_event_inv [OF assms(1,2), of tk ev] by (simp add: i)
  qed
qed

lemma session_inv:
  assumes "rv_ajv env = schema_valid" "rec_inv (rv_date env) st" "recorder_session env is st = (st', fs)"
    "\<forall>e. Some (FaultArtifact e) \<notin> set fs"
  shows "rec_inv (rv_date env) st'"
  using assms(2-)
proof (induction "is" arbitrary: st fs)
  case (Cons i "is")
  obtain st1 f where s: "recorder_step env i st = (st1, f)" by fastforce
  obtain fs' where r: "recorder_session env is st1 = (st', fs')" "fs = f # fs'"
    using Cons.prems(2) s by (auto split: prod.splits)
  have "rec_inv (rv_date env) st1" by (rule step_inv [OF assms(1) Cons.prems(1) s]) (use Cons.prems(3) r(2) in auto)
  from Cons.IH [OF this r(1)] show ?case using Cons.prems(3) r(2) by auto
qed simp

lemma started_inv:
  assumes "rv_ajv env = schema_valid" "start_recorder env tk present = Inr st"
  shows "rec_inv (rv_date env) st \<and> rc_final st = None \<and> rc_usage st = [] \<and> rc_pending st = [] \<and>
    rc_error st = None \<and> rc_limit st = None \<and> rc_served st = None \<and> rc_write_error st = None"
proof -
  obtain s s' u where s: "start_attempt (recorder_start_options env (tk_time tk)) present = Inr s"
    and w: "write_event env tk KindStartup (startup_payload (rv_options env)) None None (new_recorder s) = (s', Inr u)"
    and st: "st = new_recorder s'"
    using assms(2) by (auto simp: start_recorder_def lift_error_def split: sum.splits prod.splits)
  have "attempt_inv (rv_date env) s" by (rule start_inv [OF s])
  then have "rec_inv (rv_date env) (new_recorder s)" by (simp add: rec_inv_def new_recorder_def)
  from awaited_inv [OF assms(1) this w] show ?thesis by (simp add: st new_recorder_def rec_inv_def)
qed

subsection \<open>A refused event leaves a gap\<close>

text \<open>A log with a gap: its lines are events, but fewer than the numbers that were given out.\<close>

definition lines_wf :: "(string \<Rightarrow> bool) \<Rightarrow> attempt_store \<Rightarrow> bool" where
  "lines_wf date_ok s \<longleftrightarrow> (\<exists>es. log_events s es \<and> (\<forall>e \<in> set es. event_wf date_ok e)) \<and>
     length (af_lines (as_files s)) \<le> as_sequence s"

definition gapped :: "attempt_store \<Rightarrow> bool" where
  "gapped s \<longleftrightarrow> length (af_lines (as_files s)) < as_sequence s"

definition gap_kept :: "(string \<Rightarrow> bool) \<Rightarrow> attempt_store \<Rightarrow> attempt_store \<Rightarrow> bool \<Rightarrow> bool" where
  "gap_kept date_ok s s' refused \<longleftrightarrow> (lines_wf date_ok s \<longrightarrow> lines_wf date_ok s' \<and> (gapped s \<or> refused \<longrightarrow> gapped s'))"

lemma gap_kept_refl [simp]: "gap_kept date_ok s s False"
  by (simp add: gap_kept_def)

lemma gap_kept_trans: "gap_kept date_ok s s1 False \<Longrightarrow> gap_kept date_ok s1 s' b \<Longrightarrow> gap_kept date_ok s s' b"
  by (auto simp: gap_kept_def)

lemma gap_kept_fields:
  "af_lines (as_files s') = af_lines (as_files s) \<Longrightarrow> af_truncated (as_files s') = af_truncated (as_files s) \<Longrightarrow>
   as_sequence s' = as_sequence s \<Longrightarrow> gap_kept date_ok s s' False"
  by (simp add: gap_kept_def lines_wf_def gapped_def log_events_def)

lemma append_gap:
  assumes "append_event schema_valid date_ok scrub kind payload options s = (s', x)"
  shows "gap_kept date_ok s s' (x = Inl InvalidRunEvent)"
proof (cases "as_finalized s \<or> is_duplicate options s")
  case True
  then have "s' = s \<and> x \<noteq> Inl InvalidRunEvent" using assms by (auto simp: append_event_cases split: if_splits)
  then show ?thesis by simp
next
  case False
  let ?e = "appended_event scrub kind payload options s"
  show ?thesis
  proof (cases "event_wf date_ok ?e")
    case True
    then have s': "s' = s\<lparr>as_sequence := Suc (as_sequence s), as_dedupe := next_dedupe options s,
        as_files := (as_files s)\<lparr>af_lines := af_lines (as_files s) @ [Some (event_json ?e)]\<rparr>\<rparr>" "x = Inr ()"
      using assms False by (simp_all add: append_event_cases Let_def)
    have "\<exists>es. log_events s' es \<and> (\<forall>e \<in> set es. event_wf date_ok e)" if "log_events s es" "\<forall>e \<in> set es. event_wf date_ok e" for es
      using that True by (intro exI [of _ "es @ [?e]"]) (auto simp: log_events_def s')
    then show ?thesis by (auto simp: gap_kept_def lines_wf_def gapped_def s')
  next
    case refused: False
    then have "s' = s\<lparr>as_sequence := Suc (as_sequence s), as_dedupe := next_dedupe options s\<rparr>"
      using assms False by (simp add: append_event_cases Let_def)
    then show ?thesis by (auto simp: gap_kept_def lines_wf_def gapped_def log_events_def)
  qed
qed

lemma decision_gap:
  assumes "record_decision schema_valid date_ok scrub ts d ob s = (s', x)"
  shows "gap_kept date_ok s s' (x = Inl InvalidRunEvent)"
proof (cases "validate_routing_decision schema_valid date_ok (decision_json d) \<noteq> Inr d \<or>
    (case as_decision s of Some d' \<Rightarrow> rd_id d' \<noteq> rd_id d | None \<Rightarrow> False)")
  case True
  then have "s' = s" "x \<noteq> Inl InvalidRunEvent" using assms by (auto simp: record_decision_def split: if_splits)
  then show ?thesis by simp
next
  case False
  have "gap_kept date_ok s (s\<lparr>as_decision := Some d\<rparr>) False" by (rule gap_kept_fields) simp_all
  moreover have "gap_kept date_ok (s\<lparr>as_decision := Some d\<rparr>) s' (x = Inl InvalidRunEvent)"
    using assms False by (auto simp: record_decision_def intro!: append_gap split: if_splits)
  ultimately show ?thesis by (rule gap_kept_trans)
qed

lemma patch_gap: "write_patch patch s = (s', x) \<Longrightarrow> gap_kept date_ok s s' False"
  by (auto simp: write_patch_def intro: gap_kept_fields split: if_splits)

lemma finalize_attempt_gap:
  assumes "finalize_attempt schema_valid date_ok scrub input s = (s', x)"
  shows "gap_kept date_ok s s' (x = Inl InvalidRunEvent)"
proof (cases "as_finalized s")
  case True
  then have "s' = s" "x = Inl AlreadyFinalized" using assms by (simp_all add: finalize_attempt_def)
  then show ?thesis by simp
next
  case False
  define recorded where "recorded = (case fi_decision input of
      Some d \<Rightarrow> if current_decision_id s \<noteq> Some (rd_id d)
        then record_decision schema_valid date_ok scrub (fi_timestamp input) d
          (case fi_observation input of Some ob \<Rightarrow> ob | None \<Rightarrow> ObsPersisted) s
        else (s, Inr ()) | None \<Rightarrow> (s, Inr ()))"
  obtain s1 y where rec: "recorded = (s1, y)" by fastforce
  then have g1: "gap_kept date_ok s s1 (y = Inl InvalidRunEvent)"
    by (auto simp: recorded_def intro: decision_gap split: option.splits if_splits)
  note fin = assms [unfolded finalize_attempt_def Let_def, folded recorded_def, unfolded rec]
  show ?thesis
  proof (cases y)
    case (Inl e)
    then show ?thesis using fin False g1 by auto
  next
    case y: (Inr u)
    show ?thesis
    proof (cases "validate_run_result date_ok (build_result input s1)")
      case (Inl e)
      then have e: "e \<noteq> InvalidRunEvent" by (auto simp: validate_run_result_def split: if_splits)
      have "s' = s1" "x = Inl e" using fin False y Inl by simp_all
      then show ?thesis using g1 y e by simp
    next
      case (Inr r)
      obtain s2 z where app: "append_event schema_valid date_ok scrub KindFinalization
          (JObj [(''status'', JStr (status_string (rs_status r))), (''validationStatus'', JStr ''not-run'')])
          \<lparr>ao_dedupe = None, ao_decision = None, ao_timestamp = fi_timestamp input\<rparr> s1 = (s2, z)" by fastforce
      note g2 = append_gap [OF app]
      have "gap_kept date_ok s2 s' False \<and> (x = Inl InvalidRunEvent \<longleftrightarrow> z = Inl InvalidRunEvent)"
        using fin False y Inr app by (cases z) (auto intro: gap_kept_fields)
      then show ?thesis using g1 g2 y by (auto simp: gap_kept_def)
    qed
  qed
qed

text \<open>A result written beside a log with a gap: the last number is not the place of the last line.\<close>

lemma gapped_finalization:
  assumes "finalize_attempt schema_valid date_ok scrub input s = (s', Inr r)" "lines_wf date_ok s" "gapped s"
  shows "\<exists>k. read_attempt schema_valid date_ok (as_files s') = Inl (SequenceInvalid k)"
proof -
  have g: "lines_wf date_ok s'" "gapped s'" using finalize_attempt_gap [OF assms(1)] assms(2,3) by (auto simp: gap_kept_def)
  obtain s1 s2 u where app: "append_event schema_valid date_ok scrub KindFinalization
      (JObj [(''status'', JStr (status_string (rs_status r))), (''validationStatus'', JStr ''not-run'')])
      \<lparr>ao_dedupe = None, ao_decision = None, ao_timestamp = fi_timestamp input\<rparr> s1 = (s2, Inr u)"
    and s': "s' = s2\<lparr>as_files := (as_files s2)\<lparr>af_result := ResultStored r\<rparr>, as_finalized := True\<rparr>"
    using assms(1) unfolding finalize_attempt_def Let_def by (auto split: if_splits prod.splits sum.splits)
  have open_s1: "\<not> as_finalized s1" using app by (auto simp: append_event_def)
  define e where "e = appended_event scrub KindFinalization
    (JObj [(''status'', JStr (status_string (rs_status r))), (''validationStatus'', JStr ''not-run'')])
    \<lparr>ao_dedupe = None, ao_decision = None, ao_timestamp = fi_timestamp input\<rparr> s1"
  have e: "re_sequence e = as_sequence s'" "af_lines (as_files s') = af_lines (as_files s1) @ [Some (event_json e)]"
    "event_wf date_ok e"
    using app open_s1 unfolding append_event_cases is_duplicate_def Let_def e_def [symmetric]
    by (auto simp: s' split: if_splits) (simp add: e_def appended_event_def)
  obtain es where es: "log_events s' es" "\<forall>e \<in> set es. event_wf date_ok e" using g(1) by (auto simp: lines_wf_def)
  then have lines: "read_lines schema_valid date_ok 1 (af_lines (as_files s')) = Inr es"
    using read_lines_events by (simp add: log_events_def)
  have tail: "map (\<lambda>e. Some (event_json e)) es = af_lines (as_files s1) @ [Some (event_json e)]"
    using es(1) e(2) by (simp add: log_events_def)
  then have "es \<noteq> []" by auto
  have "last (map (\<lambda>e. Some (event_json e)) es) = Some (event_json e)" unfolding tail by simp
  then have "Some (event_json (last es)) = Some (event_json e)" using \<open>es \<noteq> []\<close> by (simp add: last_map)
  then have "assert_event schema_valid date_ok (event_json (last es)) = assert_event schema_valid date_ok (event_json e)" by simp
  then have "last es = e" using es(2) e(3) \<open>es \<noteq> []\<close> by simp
  moreover have "length es < as_sequence s'" using es(1) g(2) by (simp add: gapped_def log_events_def)
  ultimately have "last (map re_sequence es) > length es" using e(1) \<open>es \<noteq> []\<close> by (simp add: last_map)
  then have "map re_sequence es \<noteq> [1..<1 + length es]" using \<open>es \<noteq> []\<close> by auto
  then have "check_sequence 1 es \<noteq> Inr u" for u using check_sequence_upto [of 1 es u] by blast
  moreover have "check_sequence n xs = Inr u \<or> (\<exists>k. check_sequence n xs = Inl (SequenceInvalid k))" for n xs and u :: unit
    by (induction n xs rule: check_sequence.induct) auto
  ultimately obtain k where "check_sequence 1 es = Inl (SequenceInvalid k)" by metis
  then show ?thesis using lines by (simp add: read_attempt_def)
qed

text \<open>What any handler does to the store: a gap stays, a refused event makes one, a lost write stays noted.\<close>

definition store_step :: "recorder_env \<Rightarrow> recorder \<Rightarrow> recorder \<times> recorder_fault option \<Rightarrow> bool" where
  "store_step env st res \<longleftrightarrow>
     gap_kept (rv_date env) (rc_store st) (rc_store (fst res)) (snd res = Some (FaultArtifact InvalidRunEvent)) \<and>
     (rc_write_error (fst res) = None \<longrightarrow> rc_write_error st = None)"

lemma store_step_same:
  "rc_store st1 = rc_store st \<Longrightarrow> rc_write_error st1 = rc_write_error st \<Longrightarrow> f \<noteq> Some (FaultArtifact InvalidRunEvent) \<Longrightarrow>
     store_step env st (st1, f)"
  by (simp add: store_step_def)

lemma store_step_trans: "store_step env st (st1, None) \<Longrightarrow> store_step env st1 res \<Longrightarrow> store_step env st res"
  by (auto simp: store_step_def intro: gap_kept_trans)

lemma write_event_gap:
  "rv_ajv env = schema_valid \<Longrightarrow> write_event env tk kind payload dedupe decision st = (s, x) \<Longrightarrow>
     gap_kept (rv_date env) (rc_store st) s (x = Inl InvalidRunEvent)"
  unfolding write_event_def by (rule append_gap) simp

lemma track_event_step:
  assumes "rv_ajv env = schema_valid" "rc_store st1 = rc_store st" "rc_write_error st1 = rc_write_error st"
  shows "store_step env st (track_event env tk kind payload dedupe decision st1)"
proof -
  obtain st' f where t: "track_event env tk kind payload dedupe decision st1 = (st', f)" by fastforce
  obtain s x where w: "write_event env tk kind payload dedupe decision st1 = (s, x)" by fastforce
  note g = write_event_gap [OF assms(1) w]
  from t show ?thesis
    by (cases rule: track_event_cases) (use g t w assms(2,3) in \<open>auto simp: store_step_def track_def split: sum.splits\<close>)
qed

lemma over_step: "store_step env st res \<Longrightarrow> store_step env st (compaction_over res)"
  by (simp add: store_step_def)

lemma take_pending_store:
  "take_pending role other st = (call, st1) \<Longrightarrow> rc_store st1 = rc_store st \<and> rc_write_error st1 = rc_write_error st"
  by (auto simp: take_pending_def split: option.splits prod.splits)

lemma record_call_store: "record_call call role usage ok st = Inr st1 \<Longrightarrow>
    rc_store st1 = rc_store st \<and> rc_write_error st1 = rc_write_error st"
  by (auto simp: record_call_def split: sum.splits)

lemma record_call_fault [simp]: "record_call call role usage ok st \<noteq> Inl (FaultArtifact InvalidRunEvent)"
  by (auto simp: record_call_def split: sum.splits)

text \<open>A call that is recorded and then logged.\<close>

lemma recorded_step:
  assumes "rv_ajv env = schema_valid" "rc_store st1 = rc_store st" "rc_write_error st1 = rc_write_error st"
    and "\<And>st2. rc_store st2 = rc_store st \<Longrightarrow> rc_write_error st2 = rc_write_error st \<Longrightarrow> store_step env st (rest st2)"
  shows "store_step env st (case record_call call role usage ok st1 of Inl fault \<Rightarrow> (st1, Some fault) | Inr st2 \<Rightarrow> rest st2)"
proof (cases "record_call call role usage ok st1")
  case (Inl fault)
  then have "fault \<noteq> FaultArtifact InvalidRunEvent" by (metis record_call_fault)
  then show ?thesis using Inl assms(2,3) by (auto intro: store_step_same)
next
  case (Inr st2)
  then show ?thesis using record_call_store [OF Inr] assms(2-4) by simp
qed

lemma classifier_end_step:
  assumes "rv_ajv env = schema_valid"
  shows "store_step env st (classifier_end env tk e call usage ok st)"
proof -
  define st1 where "st1 = (case rc_routing_started st of
    None \<Rightarrow> st | Some started \<Rightarrow> st\<lparr>rc_routing_ms := Some (elapsed (tk_now tk) started)\<rparr>)"
  have same: "rc_store st1 = rc_store st" "rc_write_error st1 = rc_write_error st" by (simp_all add: st1_def split: option.split)
  show ?thesis
  proof (cases usage)
    case (Inl err)
    then show ?thesis using same by (simp add: classifier_end_def st1_def [symmetric] Let_def store_step_same)
  next
    case (Inr u)
    show ?thesis unfolding classifier_end_def st1_def [symmetric] Let_def Inr sum.case
      by (rule recorded_step [OF assms same]) (simp add: track_event_step [OF assms])
  qed
qed

lemma assistant_step:
  assumes "rv_ajv env = schema_valid"
  shows "store_step env st (record_assistant env tk m call st)"
proof -
  have rest: "store_step env st (case normalize_usage (am_usage m) of
      Inl e \<Rightarrow> (st1, Some (FaultUsage e))
    | Inr usage \<Rightarrow> (case record_call call UCoding (Some usage) (\<not> ended_incomplete m) st1 of
        Inl fault \<Rightarrow> (st1, Some fault)
      | Inr st2 \<Rightarrow>
          let st3 = (case error_text (am_error m) of
                Some s \<Rightarrow> if ended_incomplete m then st2\<lparr>rc_error := Some (error_status s True)\<rparr> else st2
              | None \<Rightarrow> st2)
          in track_event env tk KindModelCall (message_payload m call usage) (Some call) (decision_ref st3) st3))"
    if "rc_store st1 = rc_store st" "rc_write_error st1 = rc_write_error st" for st1
  proof (cases "normalize_usage (am_usage m)")
    case (Inl e)
    then show ?thesis using that by (simp add: store_step_same)
  next
    case (Inr usage)
    show ?thesis unfolding Inr sum.case
      by (rule recorded_step [OF assms that])
        (auto simp: Let_def intro!: track_event_step [OF assms] split: option.split)
  qed
  show ?thesis unfolding record_assistant_def Let_def
    using rest [unfolded Let_def] by (simp add: store_step_same)
qed

lemma compacted_step:
  assumes "rv_ajv env = schema_valid"
  shows "store_step env st (on_compacted env tk entry usage st)"
proof -
  obtain call st1 where t: "take_pending CompactionCall (compaction_call entry) st = (call, st1)" by fastforce
  note same = take_pending_store [OF t]
  show ?thesis
  proof (cases "compaction_usage usage")
    case (Inl e)
    then show ?thesis using same by (simp add: on_compacted_def t store_step_same)
  next
    case (Inr u)
    show ?thesis unfolding on_compacted_def t Let_def prod.case Inr sum.case
      by (rule recorded_step [OF assms]) (use same in \<open>auto intro: over_step track_event_step [OF assms]\<close>)
  qed
qed

lemma compact_failed_step:
  assumes "rv_ajv env = schema_valid"
  shows "store_step env st (on_compact_failed env tk aborted reason message st)"
proof -
  obtain call st1 where t: "take_pending CompactionCall (tk_id tk) st = (call, st1)" by fastforce
  note same = take_pending_store [OF t]
  show ?thesis unfolding on_compact_failed_def t Let_def prod.case
    by (rule recorded_step [OF assms]) (use same in \<open>auto intro: over_step track_event_step [OF assms]\<close>)
qed

lemma capture_patch_step: "store_step env st (capture_patch output st)"
proof (cases "rc_final st = None \<and> (\<exists>patch. output = PatchText patch)")
  case True
  then obtain patch where p: "output = PatchText patch" "rc_final st = None" by blast
  obtain s x where w: "write_patch patch (rc_store st) = (s, x)" by fastforce
  then have "x \<noteq> Inl InvalidRunEvent" by (auto simp: write_patch_def split: if_splits)
  then show ?thesis using patch_gap [OF w] w
    by (cases x) (auto simp: capture_patch_def p store_step_def)
next
  case False
  then show ?thesis by (auto simp: capture_patch_def intro: store_step_same split: patch_output.split)
qed

lemma note_error_step:
  assumes "rv_ajv env = schema_valid"
  shows "store_step env st (note_error env tk err st)"
proof (cases err)
  case (Some e)
  define st1 where "st1 = st\<lparr>rc_limit := (case rc_limit st of Some l \<Rightarrow> Some l
      | None \<Rightarrow> (case e of LimitError limit _ \<Rightarrow> Some (limit_failure limit) | OtherError _ \<Rightarrow> None)),
    rc_error := Some (error_status (final_message e) False)\<rparr>"
  obtain s x where w: "write_event env tk KindError
      (JObj [(''category'', JStr (snd (error_status (final_message e) False))), (''message'', JStr (final_message e))]) None None st1 = (s, x)"
    by fastforce
  have same: "rc_store st1 = rc_store st" "rc_write_error st1 = rc_write_error st" by (simp_all add: st1_def)
  have "note_error env tk err st = (st1\<lparr>rc_store := s\<rparr>, case x of Inl fault \<Rightarrow> Some (FaultArtifact fault) | Inr _ \<Rightarrow> None)"
    using w by (simp add: note_error_def Some Let_def st1_def [symmetric] split: sum.split)
  with write_event_gap [OF assms w] show ?thesis by (auto simp: store_step_def same split: sum.splits)
qed (simp add: note_error_def store_step_same)

definition thrown :: "recorder_fault + 'a \<Rightarrow> recorder_fault option" where
  "thrown x = (case x of Inl fault \<Rightarrow> Some fault | Inr _ \<Rightarrow> None)"

lemma finalize_step:
  assumes "rv_ajv env = schema_valid" "finalize env tk err st = (st', x)"
  shows "store_step env st (st', thrown x)"
proof (cases "rc_final st")
  case (Some r)
  then show ?thesis using assms(2) by (auto simp: finalize_def thrown_def intro: store_step_same)
next
  case None
  obtain st1 f where n: "note_error env tk err (settle tk st) = (st1, f)" by fastforce
  have "store_step env st (settle tk st, None)" by (rule store_step_same) (simp_all add: settle_def split: option.splits)
  then have s1: "store_step env st (st1, f)" using store_step_trans note_error_step [OF assms(1)] n by metis
  show ?thesis
  proof (cases "f = None \<and> rc_write_error st1 = None")
    case False
    then show ?thesis using s1 assms(2) None n
      by (cases f) (auto simp: finalize_def flush_def thrown_def store_step_def split: if_splits)
  next
    case True
    obtain s y where fa: "finalize_attempt (rv_ajv env) (rv_date env) (rv_scrub env) (final_input env tk st1) (rc_store st1) = (s, y)"
      by fastforce
    have "store_step env st1 (st', thrown x)"
      using finalize_attempt_gap [OF fa [unfolded assms(1)]] assms(2) None n True fa
      by (cases y) (auto simp: finalize_def flush_def store_step_def thrown_def)
    with s1 True show ?thesis by (metis store_step_trans)
  qed
qed

lemma shutdown_step:
  assumes "rv_ajv env = schema_valid"
  shows "store_step env st (on_shutdown env tk reason output st)"
proof -
  obtain s x where w: "write_event env tk KindLifecycle
      (JObj [(''action'', JStr ''session-shutdown''), (''reason'', JStr reason)]) None None st = (s, x)" by fastforce
  define st1 where "st1 = st\<lparr>rc_store := s\<rparr>"
  have s1: "store_step env st (st1, case x of Inl e \<Rightarrow> Some (FaultArtifact e) | Inr _ \<Rightarrow> None)"
    using write_event_gap [OF assms w] by (auto simp: store_step_def st1_def split: sum.splits)
  obtain st2 f where p: "capture_patch output st1 = (st2, f)" by fastforce
  obtain st3 z where z: "finalize env tk None st2 = (st3, z)" by fastforce
  show ?thesis
  proof (cases "(\<exists>u. x = Inr u) \<and> rc_write_error st1 = None \<and> reason \<in> {''new'', ''resume'', ''fork''}")
    case False
    then show ?thesis using s1 w
      by (cases x) (auto simp: on_shutdown_def Let_def st1_def flush_def store_step_def)
  next
    case True
    then have s1: "store_step env st (st1, None)" using s1 by auto
    have "store_step env st1 (st2, f)" using capture_patch_step p by metis
    with s1 have s2: "store_step env st (st2, f)" by (rule store_step_trans)
    have res: "on_shutdown env tk reason output st = (case f of Some fault \<Rightarrow> (st2, Some fault) | None \<Rightarrow> (st3, thrown z))"
      using True w p z by (auto simp: on_shutdown_def Let_def st1_def flush_def thrown_def split: option.splits sum.splits)
    show ?thesis
    proof (cases f)
      case None
      then show ?thesis using res store_step_trans s2 finalize_step [OF assms z] by fastforce
    qed (use res s2 in simp)
  qed
qed

text \<open>The decision an input brings is rejected by the store: another one, or not a decision.\<close>

fun decision_lost :: "recorder_env \<Rightarrow> tick \<times> recorder_input \<Rightarrow> recorder \<Rightarrow> bool" where
  "decision_lost env (tk, FromRouting (DecisionEvent action session (Some d))) st =
     (\<exists>e. snd (record_decision (rv_ajv env) (rv_date env) (rv_scrub env) (tk_time tk) d
        (if action = DRestored then ObsResumed else ObsPersisted) (rc_store st)) = Inl e)"
| "decision_lost env _ st = False"

lemma step_store:
  assumes "rv_ajv env = schema_valid"
  shows "store_step env st (recorder_step env i st)"
    "rc_write_error (fst (recorder_step env i st)) = None \<Longrightarrow> \<not> decision_lost env i st"
proof -
  obtain tk input where i: "i = (tk, input)" by fastforce
  show "rc_write_error (fst (recorder_step env i st)) = None \<Longrightarrow> \<not> decision_lost env i st"
    by (cases "(env, i, st)" rule: decision_lost.cases) (auto simp: Let_def track_def)
  show "store_step env st (recorder_step env i st)"
  proof (cases input)
    case (FromRouting e)
    show ?thesis
    proof (cases e)
      case (DecisionEvent action session d)
      show ?thesis
      proof (cases d)
        case None
        then show ?thesis by (simp add: i FromRouting DecisionEvent track_event_step [OF assms])
      next
        case (Some d')
        obtain s x where r: "record_decision (rv_ajv env) (rv_date env) (rv_scrub env) (tk_time tk) d'
            (if action = DRestored then ObsResumed else ObsPersisted) (rc_store st) = (s, x)" by fastforce
        from decision_gap [OF r [unfolded assms]] show ?thesis using r
          by (auto simp: i FromRouting DecisionEvent Some Let_def store_step_def track_def gap_kept_def split: sum.splits)
      qed
    next
      case (ExecutionStart session)
      then show ?thesis by (simp add: i FromRouting store_step_same)
    qed (simp_all add: i FromRouting Let_def track_event_step [OF assms] classifier_end_step [OF assms])
  next
    case (FromAuth l ok)
    then show ?thesis by (simp add: i record_auth_event_def track_event_step [OF assms])
  next
    case (FromPi e)
    show ?thesis
    proof (cases e)
      case (MessageEnd m)
      show ?thesis
      proof (cases m)
        case None
        then show ?thesis by (simp add: i FromPi MessageEnd store_step_same)
      next
        case (Some msg)
        obtain call st1 where t: "take_pending CodingCall (tk_id tk) st = (call, st1)" by fastforce
        have "store_step env st (st1, None)" using take_pending_store [OF t] by (auto intro: store_step_same)
        with assistant_step [OF assms] show ?thesis by (simp add: i FromPi MessageEnd Some t) (metis store_step_trans)
      qed
    qed (simp_all add: i FromPi Let_def lifecycle_def settle_def track_event_step [OF assms] compacted_step [OF assms]
        compact_failed_step [OF assms] shutdown_step [OF assms] split: option.split)
  qed
qed

text \<open>A whole session: an event that was refused leaves a gap, and a decision that was lost is noted.\<close>

lemma session_store:
  assumes "rv_ajv env = schema_valid" "recorder_session env is st = (st', fs)"
  shows "gap_kept (rv_date env) (rc_store st) (rc_store st') (Some (FaultArtifact InvalidRunEvent) \<in> set fs)"
    "rc_write_error st' = None \<Longrightarrow> rc_write_error st = None \<and>
       (\<forall>n < length is. \<not> decision_lost env (is ! n) (fst (recorder_session env (take n is) st)))"
proof -
  have "gap_kept (rv_date env) (rc_store st) (rc_store st') (Some (FaultArtifact InvalidRunEvent) \<in> set fs) \<and>
    (rc_write_error st' = None \<longrightarrow> rc_write_error st = None \<and>
       (\<forall>n < length is. \<not> decision_lost env (is ! n) (fst (recorder_session env (take n is) st))))"
    using assms(2)
  proof (induction "is" arbitrary: st fs)
    case (Cons i "is")
    obtain st1 f where s: "recorder_step env i st = (st1, f)" by fastforce
    obtain fs' where r: "recorder_session env is st1 = (st', fs')" "fs = f # fs'"
      using Cons.prems s by (auto split: prod.splits)
    note step = step_store [OF assms(1), where st = st and i = i, unfolded s, simplified]
    have gap: "gap_kept (rv_date env) (rc_store st) (rc_store st') (Some (FaultArtifact InvalidRunEvent) \<in> set fs)"
      using step(1) Cons.IH [OF r(1)] by (auto simp: r(2) store_step_def gap_kept_def)
    have "rc_write_error st = None \<and> (\<forall>n < length (i # is). \<not> decision_lost env ((i # is) ! n)
        (fst (recorder_session env (take n (i # is)) st)))" if "rc_write_error st' = None"
    proof -
      have rest: "rc_write_error st1 = None"
        "\<forall>n < length is. \<not> decision_lost env (is ! n) (fst (recorder_session env (take n is) st1))"
        using Cons.IH [OF r(1)] that by blast+
      have "\<not> decision_lost env ((i # is) ! n) (fst (recorder_session env (take n (i # is)) st))" if "n < length (i # is)" for n
        using that rest step(2) s by (cases n) (simp_all add: Let_def case_prod_unfold)
      with rest(1) step(1) show ?thesis by (auto simp: store_step_def)
    qed
    with gap show ?case by blast
  qed simp
  then show "gap_kept (rv_date env) (rc_store st) (rc_store st') (Some (FaultArtifact InvalidRunEvent) \<in> set fs)"
    "rc_write_error st' = None \<Longrightarrow> rc_write_error st = None \<and>
       (\<forall>n < length is. \<not> decision_lost env (is ! n) (fst (recorder_session env (take n is) st)))" by blast+
qed

lemma finalize_gap:
  assumes "rv_ajv env = schema_valid" "finalize env tk err st = (st', Inr r)" "rc_final st = None"
    "lines_wf (rv_date env) (rc_store st)" "gapped (rc_store st)"
  shows "\<exists>k. read_attempt schema_valid (rv_date env) (as_files (rc_store st')) = Inl (SequenceInvalid k)"
proof -
  obtain st1 where n: "note_error env tk err (settle tk st) = (st1, None)"
    and f: "\<exists>s. finalize_attempt (rv_ajv env) (rv_date env) (rv_scrub env) (final_input env tk st1) (rc_store st1) = (s, Inr r) \<and>
      rc_store st' = s"
    using assms(2,3) by (auto simp: finalize_def flush_def split: prod.splits option.splits sum.splits if_splits)
  have "rc_store (settle tk st) = rc_store st" by (simp add: settle_def split: option.splits)
  then have "lines_wf (rv_date env) (rc_store st1)" "gapped (rc_store st1)"
    using note_error_step [OF assms(1), of "settle tk st" tk err] n assms(4,5) by (auto simp: store_step_def gap_kept_def)
  with f gapped_finalization show ?thesis unfolding assms(1) by blast
qed

lemma log_wf_lines: "log_wf date_ok s \<Longrightarrow> lines_wf date_ok s"
  by (auto simp: log_wf_def lines_wf_def log_events_def)

subsection \<open>Every call is counted once\<close>

text \<open>The identities an input brings into the ledger or the open requests.\<close>

fun input_ids :: "tick \<times> recorder_input \<Rightarrow> string list" where
  "input_ids (tk, FromRouting (ClassifierSucceeded call usage identity)) = [call]"
| "input_ids (tk, FromRouting (ClassifierFailed call)) = [call]"
| "input_ids (tk, FromPi (BeforeProviderRequest model)) = [tk_id tk]"
| "input_ids (tk, FromPi (MessageEnd (Some m))) = [tk_id tk]"
| "input_ids (tk, FromPi (Compacted entry usage)) = [compaction_call entry]"
| "input_ids (tk, FromPi (CompactFailed aborted reason message)) = [tk_id tk]"
| "input_ids _ = []"

text \<open>The inputs that end a call of a provider.\<close>

fun ends_call :: "recorder_input \<Rightarrow> bool" where
  "ends_call (FromRouting (ClassifierSucceeded call usage identity)) = True"
| "ends_call (FromRouting (ClassifierFailed call)) = True"
| "ends_call (FromPi (MessageEnd (Some m))) = True"
| "ends_call (FromPi (Compacted entry usage)) = True"
| "ends_call (FromPi (CompactFailed aborted reason message)) = True"
| "ends_call _ = False"

text \<open>The calls that reported their usage, and the faults that keep a call out of the ledger.\<close>

definition whole_report :: "bridge_usage \<Rightarrow> bool" where
  "whole_report u \<longleftrightarrow> bu_input u \<noteq> None \<and> bu_output u \<noteq> None \<and> bu_cache_read u \<noteq> None \<and> bu_cache_write u \<noteq> None \<and>
     bu_total u \<noteq> None"

fun reports_usage :: "recorder_input \<Rightarrow> bool" where
  "reports_usage (FromRouting (ClassifierSucceeded call usage identity)) \<longleftrightarrow> usage \<noteq> None \<and> pred_option whole_report usage"
| "reports_usage (FromPi (MessageEnd (Some m))) = True"
| "reports_usage (FromPi (Compacted entry usage)) \<longleftrightarrow> usage \<noteq> None"
| "reports_usage _ = False"

fun refused_call :: "recorder_fault option \<Rightarrow> bool" where
  "refused_call (Some (FaultUsage e)) = True"
| "refused_call (Some FaultOutsideSelection) = True"
| "refused_call (Some FaultSeveralModels) = True"
| "refused_call _ = False"

definition reported :: "usage_ledger \<Rightarrow> bool list" where
  "reported calls = map (\<lambda>(call, r). ru_usage r \<noteq> None) calls"

definition ids_inv :: "string set \<Rightarrow> recorder \<Rightarrow> bool" where
  "ids_inv used st \<longleftrightarrow> distinct (map fst (rc_usage st) @ map fst (rc_pending st)) \<and>
     fst ` set (rc_usage st) \<union> fst ` set (rc_pending st) \<subseteq> used"

lemma track_fields [simp]:
  "rc_usage (track written st) = rc_usage st" "rc_pending (track written st) = rc_pending st"
  "rc_served (track written st) = rc_served st" "rc_error (track written st) = rc_error st"
  "rc_limit (track written st) = rc_limit st" "rc_final (track written st) = rc_final st"
  "rc_decision (track written st) = rc_decision st"
  by (simp_all add: track_def)

lemma track_event_fields [simp]:
  "rc_usage (fst (track_event env tk kind payload dedupe decision st)) = rc_usage st"
  "rc_pending (fst (track_event env tk kind payload dedupe decision st)) = rc_pending st"
  "rc_served (fst (track_event env tk kind payload dedupe decision st)) = rc_served st"
  "rc_decision (fst (track_event env tk kind payload dedupe decision st)) = rc_decision st"
  "rc_error (fst (track_event env tk kind payload dedupe decision st)) = rc_error st"
  "rc_limit (fst (track_event env tk kind payload dedupe decision st)) = rc_limit st"
  "rc_final (fst (track_event env tk kind payload dedupe decision st)) = rc_final st"
  by (cases "track_event env tk kind payload dedupe decision st"; auto elim!: track_event_cases)+

lemma settle_fields [simp]:
  "rc_usage (settle tk st) = rc_usage st" "rc_pending (settle tk st) = rc_pending st"
  "rc_served (settle tk st) = rc_served st" "rc_error (settle tk st) = rc_error st"
  "rc_limit (settle tk st) = rc_limit st" "rc_final (settle tk st) = rc_final st"
  by (simp_all add: settle_def split: option.splits)

lemma decision_fields [simp]:
  "rc_decision (settle tk st) = rc_decision st"
  by (simp_all add: settle_def split: option.splits)

lemma note_error_fields: "note_error env tk err st = (st', f) \<Longrightarrow>
    rc_usage st' = rc_usage st \<and> rc_pending st' = rc_pending st \<and> rc_served st' = rc_served st \<and> rc_decision st' = rc_decision st \<and>
    rc_final st' = rc_final st \<and> (err = None \<longrightarrow> st' = st)"
  by (auto simp: note_error_def Let_def split: option.splits prod.splits sum.splits)

lemma finalize_fields: "finalize env tk err st = (st', x) \<Longrightarrow>
    rc_usage st' = rc_usage st \<and> rc_pending st' = rc_pending st \<and> rc_served st' = rc_served st \<and>
    rc_decision st' = rc_decision st \<and>
    (err = None \<longrightarrow> rc_error st' = rc_error st \<and> rc_limit st' = rc_limit st)"
  by (auto simp: finalize_def dest: note_error_fields split: option.splits prod.splits sum.splits)

lemma capture_patch_fields: "capture_patch output st = (st', f) \<Longrightarrow>
    rc_usage st' = rc_usage st \<and> rc_pending st' = rc_pending st \<and> rc_served st' = rc_served st \<and>
    rc_decision st' = rc_decision st \<and>
    rc_error st' = rc_error st \<and> rc_limit st' = rc_limit st"
  by (auto simp: capture_patch_def split: option.splits prod.splits sum.splits patch_output.splits if_splits)

lemma shutdown_fields: "on_shutdown env tk reason output st = (st', f) \<Longrightarrow>
    rc_usage st' = rc_usage st \<and> rc_pending st' = rc_pending st \<and> rc_served st' = rc_served st \<and>
    rc_decision st' = rc_decision st \<and>
    rc_error st' = rc_error st \<and> rc_limit st' = rc_limit st"
  by (auto simp: on_shutdown_def Let_def dest!: capture_patch_fields finalize_fields
      split: prod.splits sum.splits if_splits option.splits)

text \<open>Taking an open request, or another fresh identity, gives one the ledger does not have.\<close>

lemma take_first_split: "take_first p xs = (Some x, ys) \<Longrightarrow> \<exists>as bs. xs = as @ x # bs \<and> ys = as @ bs \<and> p x"
proof (induction xs arbitrary: ys)
  case (Cons a xs)
  show ?case
  proof (cases "p a")
    case True
    then show ?thesis using Cons.prems by (intro exI [of _ "[]"] exI [of _ xs]) auto
  next
    case False
    then obtain zs where "take_first p xs = (Some x, zs)" "ys = a # zs" using Cons.prems by (auto split: prod.splits)
    with Cons.IH obtain as bs where "xs = as @ x # bs" "zs = as @ bs" "p x" by blast
    with \<open>ys = a # zs\<close> show ?thesis by (intro exI [of _ "a # as"] exI [of _ bs]) auto
  qed
qed simp

lemma take_pending_fresh:
  assumes "take_pending role other st = (call, st1)" "ids_inv used st" "other \<notin> used"
  shows "ids_inv (insert other used) st1" "call \<notin> fst ` set (rc_usage st1)" "call \<notin> fst ` set (rc_pending st1)"
    "call \<in> insert other used" "rc_usage st1 = rc_usage st" "[] \<notin> insert other used \<Longrightarrow> call \<noteq> []"
proof -
  have "ids_inv (insert other used) st1 \<and> call \<notin> fst ` set (rc_usage st1) \<and> call \<notin> fst ` set (rc_pending st1) \<and>
      call \<in> insert other used \<and> rc_usage st1 = rc_usage st"
  proof (cases "fst (take_first (\<lambda>call. snd call = role) (rc_pending st))")
    case None
    then have "call = other" "st1 = st" using assms(1) by (auto simp: take_pending_def split: prod.splits)
    then show ?thesis using assms(2,3) by (auto simp: ids_inv_def)
  next
    case (Some c)
    then obtain rest where t: "take_first (\<lambda>call. snd call = role) (rc_pending st) = (Some c, rest)" by (cases "take_first (\<lambda>call. snd call = role) (rc_pending st)") auto
    then have st1: "call = fst c" "st1 = st\<lparr>rc_pending := rest\<rparr>" using assms(1) by (auto simp: take_pending_def)
    obtain as bs where "rc_pending st = as @ c # bs" "rest = as @ bs" using take_first_split [OF t] by blast
    then show ?thesis using assms(2) by (auto simp: st1 ids_inv_def)
  qed
  then show "ids_inv (insert other used) st1" "call \<notin> fst ` set (rc_usage st1)" "call \<notin> fst ` set (rc_pending st1)"
    "call \<in> insert other used" "rc_usage st1 = rc_usage st" "[] \<notin> insert other used \<Longrightarrow> call \<noteq> []" by auto
qed

lemma record_call_fresh:
  assumes "call \<notin> fst ` set (rc_usage st)" "call \<notin> fst ` set (rc_pending st)" "call \<noteq> []" "ids_inv used st"
  obtains entry where "record_call call role usage ok st = Inr (st\<lparr>rc_usage := rc_usage st @ [(call, entry)]\<rparr>)"
    "ids_inv (insert call used) (st\<lparr>rc_usage := rc_usage st @ [(call, entry)]\<rparr>)" "ru_usage entry = usage"
proof -
  have "map_of (rc_usage st) call = None" using assms(1) by (simp add: map_of_eq_None_iff)
  then have "record_call call role usage ok st =
      Inr (st\<lparr>rc_usage := rc_usage st @ [(call, \<lparr>ru_role = role, ru_usage = usage, ru_complete = ok\<rparr>)]\<rparr>)"
    using assms(3) by (simp add: record_call_def ledger_record_def Let_def)
  then show thesis by (rule that) (use assms in \<open>auto simp: ids_inv_def\<close>)
qed

lemma ids_inv_fields [simp]:
  "ids_inv used (fst (track_event env tk kind payload dedupe decision st)) = ids_inv used st"
  "ids_inv used (fst (compaction_over res)) = ids_inv used (fst res)"
  "ids_inv used (track written st) = ids_inv used st"
  "ids_inv used (settle tk st) = ids_inv used st"
  "ids_inv used (st\<lparr>rc_routing_ms := a\<rparr>) = ids_inv used st"
  "ids_inv used (st\<lparr>rc_routing_started := b\<rparr>) = ids_inv used st"
  "ids_inv used (st\<lparr>rc_agent_started := b\<rparr>) = ids_inv used st"
  "ids_inv used (st\<lparr>rc_error := c\<rparr>) = ids_inv used st"
  "ids_inv used (st\<lparr>rc_limit := c\<rparr>) = ids_inv used st"
  "ids_inv used (st\<lparr>rc_served := d\<rparr>) = ids_inv used st"
  "ids_inv used (st\<lparr>rc_decision := e\<rparr>) = ids_inv used st"
  "ids_inv used (st\<lparr>rc_observation := f\<rparr>) = ids_inv used st"
  "ids_inv used (st\<lparr>rc_compacting := g\<rparr>) = ids_inv used st"
  by (simp_all add: ids_inv_def)

lemma ids_inv_mono: "ids_inv used st \<Longrightarrow> used \<subseteq> used' \<Longrightarrow> ids_inv used' st"
  by (auto simp: ids_inv_def)

text \<open>One call with a fresh identity: it is recorded unless its usage or its model is refused.\<close>

definition one_call :: "string set \<Rightarrow> bool \<Rightarrow> recorder \<Rightarrow> recorder \<times> recorder_fault option \<Rightarrow> bool" where
  "one_call used reports st res \<longleftrightarrow> ids_inv used (fst res) \<and>
     reported (rc_usage (fst res)) = reported (rc_usage st) @ (if refused_call (snd res) then [] else [reports])"

lemma track_event_counted [simp]: "\<not> refused_call (snd (track_event env tk kind payload dedupe decision st))"
  using track_event_fault [of env tk kind payload dedupe decision st] by auto

lemma reported_snoc [simp]: "reported (calls @ [(call, r)]) = reported calls @ [ru_usage r \<noteq> None]"
  by (simp add: reported_def)

lemma classifier_one:
  assumes "ids_inv used st" "call \<notin> fst ` set (rc_usage st)" "call \<notin> fst ` set (rc_pending st)" "call \<noteq> []" "call \<in> used"
    and "\<And>u. usage = Inr u \<Longrightarrow> u \<noteq> None \<longleftrightarrow> reports"
  shows "one_call used reports st (classifier_end env tk e call usage ok st)"
proof -
  define st1 where "st1 = (case rc_routing_started st of
    None \<Rightarrow> st | Some started \<Rightarrow> st\<lparr>rc_routing_ms := Some (elapsed (tk_now tk) started)\<rparr>)"
  have st1: "rc_usage st1 = rc_usage st" "rc_pending st1 = rc_pending st" "ids_inv used st1"
    using assms(1) by (simp_all add: st1_def split: option.splits)
  show ?thesis
  proof (cases usage)
    case (Inl err)
    then show ?thesis using st1 by (simp add: classifier_end_def st1_def [symmetric] Let_def one_call_def)
  next
    case (Inr u)
    obtain entry where "record_call call UClassifier u ok st1 = Inr (st1\<lparr>rc_usage := rc_usage st1 @ [(call, entry)]\<rparr>)"
      "ids_inv (insert call used) (st1\<lparr>rc_usage := rc_usage st1 @ [(call, entry)]\<rparr>)" "ru_usage entry = u"
      by (rule record_call_fresh [of call st1 used UClassifier u ok]) (use assms(2-4) st1 in auto)
    then show ?thesis using st1 assms(5) assms(6) [OF Inr] Inr
      by (simp add: classifier_end_def st1_def [symmetric] Let_def one_call_def insert_absorb)
  qed
qed

lemma assistant_one:
  assumes "ids_inv used st" "call \<notin> fst ` set (rc_usage st)" "call \<notin> fst ` set (rc_pending st)" "call \<noteq> []" "call \<in> used"
  shows "one_call used True st (record_assistant env tk m call st)"
proof -
  define st1 where "st1 = st\<lparr>rc_served := Some
      \<lparr>mi_provider = am_provider m, mi_model = am_model m, mi_reported = am_response_model m\<rparr>\<rparr>"
  have st1: "rc_usage st1 = rc_usage st" "rc_pending st1 = rc_pending st" "ids_inv used st1"
    using assms(1) by (simp_all add: st1_def)
  show ?thesis
  proof (cases "normalize_usage (am_usage m)")
    case (Inl err)
    then show ?thesis using st1 assms(1) by (simp add: record_assistant_def st1_def [symmetric] Let_def one_call_def)
  next
    case (Inr u)
    obtain entry where "record_call call UCoding (Some u) (\<not> ended_incomplete m) st1 = Inr (st1\<lparr>rc_usage := rc_usage st1 @ [(call, entry)]\<rparr>)"
      "ids_inv (insert call used) (st1\<lparr>rc_usage := rc_usage st1 @ [(call, entry)]\<rparr>)" "ru_usage entry = Some u"
      by (rule record_call_fresh [of call st1 used UCoding "Some u" "\<not> ended_incomplete m"]) (use assms(2-4) st1 in auto)
    then show ?thesis using st1 assms(1,5) Inr
      by (simp add: record_assistant_def st1_def [symmetric] Let_def one_call_def insert_absorb split: option.split)
  qed
qed

lemma compacted_one:
  assumes "ids_inv used st" "compaction_call entry \<notin> used" "[] \<notin> used"
  shows "one_call (insert (compaction_call entry) used) (usage \<noteq> None) st (on_compacted env tk entry usage st)"
proof -
  obtain call st1 where t: "take_pending CompactionCall (compaction_call entry) st = (call, st1)" by fastforce
  note fresh = take_pending_fresh [OF t assms(1,2)]
  have ne: "call \<noteq> []" by (rule fresh(6)) (use assms(3) in \<open>simp add: compaction_call_def\<close>)
  show ?thesis
  proof (cases "compaction_usage usage")
    case (Inl e)
    then show ?thesis using fresh by (simp add: on_compacted_def t one_call_def)
  next
    case (Inr u)
    then have u: "u \<noteq> None \<longleftrightarrow> usage \<noteq> None" by (auto simp: compaction_usage_def split: option.splits)
    obtain x where "record_call call UCompaction u True st1 = Inr (st1\<lparr>rc_usage := rc_usage st1 @ [(call, x)]\<rparr>)"
      "ids_inv (insert call (insert (compaction_call entry) used)) (st1\<lparr>rc_usage := rc_usage st1 @ [(call, x)]\<rparr>)" "ru_usage x = u"
      using record_call_fresh [OF fresh(2,3) ne fresh(1)] by blast
    then show ?thesis using fresh(4,5) Inr u by (simp add: on_compacted_def t one_call_def insert_absorb)
  qed
qed

lemma compact_failed_one:
  assumes "ids_inv used st" "tk_id tk \<notin> used" "[] \<notin> insert (tk_id tk) used"
  shows "one_call (insert (tk_id tk) used) False st (on_compact_failed env tk aborted reason message st)"
proof -
  obtain call st1 where t: "take_pending CompactionCall (tk_id tk) st = (call, st1)" by fastforce
  note fresh = take_pending_fresh [OF t assms(1,2)]
  have ne: "call \<noteq> []" by (rule fresh(6)) (rule assms(3))
  obtain x where "record_call call UCompaction None False st1 = Inr (st1\<lparr>rc_usage := rc_usage st1 @ [(call, x)]\<rparr>)"
    "ids_inv (insert call (insert (tk_id tk) used)) (st1\<lparr>rc_usage := rc_usage st1 @ [(call, x)]\<rparr>)" "ru_usage x = None"
    using record_call_fresh [OF fresh(2,3) ne fresh(1)] by blast
  then show ?thesis using fresh(4,5) by (simp add: on_compact_failed_def t one_call_def insert_absorb)
qed

lemma message_one:
  assumes "ids_inv used st" "tk_id tk \<notin> used" "[] \<notin> insert (tk_id tk) used"
  shows "one_call (insert (tk_id tk) used) True st (handle_pi env tk (MessageEnd (Some m)) st)"
proof -
  obtain call st1 where t: "take_pending CodingCall (tk_id tk) st = (call, st1)" by fastforce
  note fresh = take_pending_fresh [OF t assms(1,2)]
  have ne: "call \<noteq> []" by (rule fresh(6)) (rule assms(3))
  from assistant_one [OF fresh(1,2,3) ne fresh(4), of env tk m] show ?thesis using fresh(5) by (simp add: t one_call_def)
qed

text \<open>The calls an input brings into the ledger.\<close>

definition recorded_by :: "recorder_input \<Rightarrow> recorder_fault option \<Rightarrow> bool list" where
  "recorded_by input f = (if ends_call input \<and> \<not> refused_call f then [reports_usage input] else [])"

definition call_step :: "string set \<Rightarrow> tick \<times> recorder_input \<Rightarrow> recorder \<Rightarrow> recorder \<times> recorder_fault option \<Rightarrow> bool" where
  "call_step used i st res \<longleftrightarrow> ids_inv (used \<union> set (input_ids i)) (fst res) \<and>
     reported (rc_usage (fst res)) = reported (rc_usage st) @ recorded_by (snd i) (snd res)"

lemma call_step_one:
  "one_call (insert x used) (reports_usage (snd i)) st res \<Longrightarrow> input_ids i = [x] \<Longrightarrow> ends_call (snd i) \<Longrightarrow> call_step used i st res"
  by (simp add: one_call_def call_step_def recorded_by_def)

lemma bridge_usage_whole: "bridge_usage_of usage = Inr u \<Longrightarrow> u \<noteq> None \<longleftrightarrow> usage \<noteq> None \<and> pred_option whole_report usage"
  by (auto simp: bridge_usage_of_def whole_report_def split: option.splits)

lemma routing_calls:
  assumes "ids_inv used st" "set (input_ids (tk, FromRouting e)) \<inter> used = {}" "[] \<notin> set (input_ids (tk, FromRouting e))"
  shows "call_step used (tk, FromRouting e) st (record_routing_event env tk e st)"
proof -
  have classifier: "one_call (insert call used) reports st (classifier_end env tk e' call usage ok st)"
    if fresh: "call \<notin> used" "call \<noteq> []" and r: "\<And>u. usage = Inr u \<Longrightarrow> u \<noteq> None \<longleftrightarrow> reports" for e' call usage ok reports
  proof (rule classifier_one)
    show "ids_inv (insert call used) st" by (rule ids_inv_mono [OF assms(1)]) blast
    show "call \<notin> fst ` set (rc_usage st)" "call \<notin> fst ` set (rc_pending st)"
      using assms(1) fresh(1) unfolding ids_inv_def by blast+
  qed (use fresh r in simp_all)
  show ?thesis
  proof (cases e)
    case (ClassifierSucceeded call usage identity)
    have "one_call (insert call used) (reports_usage (FromRouting e)) st (classifier_end env tk e call (bridge_usage_of usage) True st)"
      by (rule classifier) (use assms(2,3) bridge_usage_whole [of usage] in \<open>simp_all add: ClassifierSucceeded\<close>)
    then show ?thesis unfolding ClassifierSucceeded record_routing_event.simps by (rule_tac call_step_one) simp_all
  next
    case (ClassifierFailed call)
    have "one_call (insert call used) (reports_usage (FromRouting e)) st (classifier_end env tk e call (Inr None) False st)"
      by (rule classifier) (use assms(2,3) in \<open>simp_all add: ClassifierFailed\<close>)
    then show ?thesis unfolding ClassifierFailed record_routing_event.simps by (rule_tac call_step_one) simp_all
  next
    case (DecisionEvent action session d)
    then show ?thesis using assms(1) by (cases d) (simp_all add: call_step_def recorded_by_def Let_def)
  qed (use assms(1) in \<open>simp_all add: call_step_def recorded_by_def Let_def\<close>)
qed

lemma pi_calls:
  assumes "ids_inv used st" "set (input_ids (tk, FromPi e)) \<inter> used = {}" "[] \<notin> used \<union> set (input_ids (tk, FromPi e))"
  shows "call_step used (tk, FromPi e) st (handle_pi env tk e st)"
proof (cases e)
  case (BeforeProviderRequest model)
  then show ?thesis using assms(1,2) by (auto simp: call_step_def recorded_by_def Let_def ids_inv_def)
next
  case (MessageEnd m)
  show ?thesis
  proof (cases m)
    case (Some msg)
    have "one_call (insert (tk_id tk) used) True st (handle_pi env tk (MessageEnd (Some msg)) st)"
      by (rule message_one) (use assms in \<open>simp_all add: MessageEnd Some\<close>)
    then show ?thesis unfolding MessageEnd Some by (rule_tac call_step_one) simp_all
  qed (use assms(1) in \<open>simp add: MessageEnd call_step_def recorded_by_def\<close>)
next
  case (Compacted entry usage)
  have "one_call (insert (compaction_call entry) used) (usage \<noteq> None) st (on_compacted env tk entry usage st)"
    by (rule compacted_one) (use assms in \<open>simp_all add: Compacted\<close>)
  then show ?thesis unfolding Compacted handle_pi.simps by (rule_tac call_step_one) simp_all
next
  case (CompactFailed aborted reason message)
  have "one_call (insert (tk_id tk) used) False st (on_compact_failed env tk aborted reason message st)"
    by (rule compact_failed_one) (use assms in \<open>simp_all add: CompactFailed\<close>)
  then show ?thesis unfolding CompactFailed handle_pi.simps by (rule_tac call_step_one) simp_all
next
  case (SessionShutdown reason diff)
  obtain st' f where s: "on_shutdown env tk reason diff st = (st', f)" by fastforce
  from shutdown_fields [OF s] assms(1) show ?thesis by (simp add: SessionShutdown s call_step_def recorded_by_def ids_inv_def)
qed (use assms(1) in \<open>simp_all add: call_step_def recorded_by_def lifecycle_def\<close>)

lemma step_calls:
  assumes "ids_inv used st" "set (input_ids i) \<inter> used = {}" "[] \<notin> used \<union> set (input_ids i)"
  shows "call_step used i st (recorder_step env i st)"
proof (cases i)
  case (Pair tk input)
  show ?thesis
  proof (cases input)
    case (FromAuth l ok)
    then show ?thesis using Pair assms(1) by (simp add: call_step_def recorded_by_def record_auth_event_def)
  qed (use Pair assms routing_calls pi_calls in simp_all)
qed

text \<open>The calls a session ended, those it brought into the ledger and those it refused.\<close>

definition calls_ended :: "(tick \<times> recorder_input) list \<Rightarrow> nat" where
  "calls_ended is = length (filter (\<lambda>i. ends_call (snd i)) is)"

definition calls_recorded :: "(tick \<times> recorder_input) list \<Rightarrow> recorder_fault option list \<Rightarrow> bool list" where
  "calls_recorded is fs = concat (map (\<lambda>(i, f). recorded_by (snd i) f) (zip is fs))"

definition calls_refused :: "(tick \<times> recorder_input) list \<Rightarrow> recorder_fault option list \<Rightarrow> nat" where
  "calls_refused is fs = length (filter (\<lambda>(i, f). ends_call (snd i) \<and> refused_call f) (zip is fs))"

lemma calls_partition:
  "length fs = length is \<Longrightarrow> length (calls_recorded is fs) + calls_refused is fs = calls_ended is"
  by (induction fs "is" rule: list_induct2) (auto simp: calls_recorded_def calls_refused_def calls_ended_def recorded_by_def)

lemma session_length: "recorder_session env is st = (st', fs) \<Longrightarrow> length fs = length is"
  by (induction "is" arbitrary: st fs) (auto split: prod.splits)

lemma session_calls:
  assumes "recorder_session env is st = (st', fs)" "ids_inv used st"
    "distinct (concat (map input_ids is))" "set (concat (map input_ids is)) \<inter> used = {}" "[] \<notin> used \<union> set (concat (map input_ids is))"
  shows "distinct (map fst (rc_usage st')) \<and> reported (rc_usage st') = reported (rc_usage st) @ calls_recorded is fs"
  using assms
proof (induction "is" arbitrary: st fs used)
  case Nil
  then show ?case by (simp add: calls_recorded_def ids_inv_def)
next
  case (Cons i "is")
  obtain st1 f where s: "recorder_step env i st = (st1, f)" by fastforce
  obtain fs' where r: "recorder_session env is st1 = (st', fs')" "fs = f # fs'"
    using Cons.prems(1) s by (auto split: prod.splits)
  have step: "call_step used i st (recorder_step env i st)"
    by (rule step_calls) (use Cons.prems(2-5) in auto)
  then have inv: "ids_inv (used \<union> set (input_ids i)) st1"
    and rep: "reported (rc_usage st1) = reported (rc_usage st) @ recorded_by (snd i) f"
    by (simp_all add: call_step_def s)
  have "distinct (map fst (rc_usage st')) \<and> reported (rc_usage st') = reported (rc_usage st1) @ calls_recorded is fs'"
    by (rule Cons.IH [OF r(1) inv]) (use Cons.prems(3-5) in auto)
  then show ?case using rep by (simp add: r(2) calls_recorded_def)
qed

lemma summary_reported:
  "us_observed (summarize (map snd calls)) = length (filter id (reported calls)) \<and>
   us_missing (summarize (map snd calls)) = length (filter Not (reported calls))"
proof -
  have "length (usages (map snd calls)) = length (filter id (reported calls))"
    by (induction calls) (auto simp: reported_def split: option.splits)
  moreover have "length (filter id (reported calls)) + length (filter Not (reported calls)) = length calls"
    by (induction calls) (auto simp: reported_def)
  ultimately show ?thesis using summarize_counts [of "map snd calls"] by simp
qed

subsection \<open>The model that served\<close>

definition same_model :: "model_identity option \<Rightarrow> string \<Rightarrow> string \<Rightarrow> bool" where
  "same_model served provider model \<longleftrightarrow>
     (\<exists>s. served = Some s \<and> mi_provider s = provider \<and> mi_model s = model)"

lemma assistant_served:
  assumes "record_assistant env tk m call st = (st', f)"
  shows "f = None \<Longrightarrow> same_model (rc_served st') (am_provider m) (am_model m)"
    "same_model (rc_served st) p q \<Longrightarrow> same_model (rc_served st') p q"
    "f = None \<Longrightarrow> expected_model env st = Some model \<Longrightarrow> am_provider m = pm_provider model \<and> am_model m = pm_id model"
    "rc_decision st' = rc_decision st"
proof -
  let ?res = "record_assistant env tk m call st"
  have "snd ?res = None \<longrightarrow> same_model (rc_served (fst ?res)) (am_provider m) (am_model m)"
    by (auto simp: record_assistant_def Let_def same_model_def record_call_def split: option.splits sum.splits if_splits)
  moreover have "same_model (rc_served st) p q \<longrightarrow> same_model (rc_served (fst ?res)) p q"
    by (auto simp: record_assistant_def Let_def same_model_def record_call_def split: option.splits sum.splits if_splits)
  moreover have "snd ?res = None \<longrightarrow> expected_model env st = Some model \<longrightarrow>
      am_provider m = pm_provider model \<and> am_model m = pm_id model"
    by (auto simp: record_assistant_def split: if_splits)
  moreover have "rc_decision (fst ?res) = rc_decision st"
    by (auto simp: record_assistant_def Let_def record_call_def split: option.splits sum.splits)
  ultimately show "f = None \<Longrightarrow> same_model (rc_served st') (am_provider m) (am_model m)"
    "same_model (rc_served st) p q \<Longrightarrow> same_model (rc_served st') p q"
    "f = None \<Longrightarrow> expected_model env st = Some model \<Longrightarrow> am_provider m = pm_provider model \<and> am_model m = pm_id model"
    "rc_decision st' = rc_decision st"
    by (simp_all add: assms)
qed

lemma take_pending_fields: "take_pending role other st = (call, st1) \<Longrightarrow>
    rc_served st1 = rc_served st \<and> rc_decision st1 = rc_decision st \<and> rc_error st1 = rc_error st \<and> rc_limit st1 = rc_limit st"
  by (auto simp: take_pending_def split: option.splits prod.splits)

lemma record_call_fields: "record_call call role usage ok st = Inr st1 \<Longrightarrow>
    rc_served st1 = rc_served st \<and> rc_decision st1 = rc_decision st \<and> rc_error st1 = rc_error st \<and> rc_limit st1 = rc_limit st"
  by (auto simp: record_call_def split: sum.splits)

lemma track_event_same: "track_event env tk kind payload dedupe decision st = (st', f) \<Longrightarrow>
    rc_served st' = rc_served st \<and> rc_decision st' = rc_decision st \<and> rc_error st' = rc_error st \<and> rc_limit st' = rc_limit st"
  by (erule track_event_cases) simp_all

lemma over_same: "compaction_over (track_event env tk kind payload dedupe decision st) = (st', f) \<Longrightarrow>
    rc_served st' = rc_served st \<and> rc_decision st' = rc_decision st \<and> rc_error st' = rc_error st \<and> rc_limit st' = rc_limit st"
  using compaction_over_simps [of "track_event env tk kind payload dedupe decision st"] by simp

lemma classifier_end_fields: "classifier_end env tk e call usage ok st = (st', f) \<Longrightarrow>
    rc_served st' = rc_served st \<and> rc_decision st' = rc_decision st \<and> rc_error st' = rc_error st \<and> rc_limit st' = rc_limit st"
  by (auto simp: classifier_end_def Let_def dest!: record_call_fields track_event_same split: option.splits sum.splits)

lemma compacted_fields: "on_compacted env tk entry usage st = (st', f) \<Longrightarrow>
    rc_served st' = rc_served st \<and> rc_decision st' = rc_decision st \<and> rc_error st' = rc_error st \<and> rc_limit st' = rc_limit st"
  by (auto simp: on_compacted_def dest!: record_call_fields take_pending_fields over_same split: prod.splits sum.splits)

lemma compact_failed_fields: "on_compact_failed env tk aborted reason message st = (st', f) \<Longrightarrow>
    rc_served st' = rc_served st \<and> rc_decision st' = rc_decision st \<and> rc_error st' = rc_error st \<and> rc_limit st' = rc_limit st"
  by (auto simp: on_compact_failed_def dest!: record_call_fields take_pending_fields over_same split: prod.splits sum.splits)

fun input_decision :: "recorder_input \<Rightarrow> routing_decision option" where
  "input_decision (FromRouting (DecisionEvent action session d)) = d"
| "input_decision _ = None"

fun input_message :: "recorder_input \<Rightarrow> assistant_message option" where
  "input_message (FromPi (MessageEnd m)) = m"
| "input_message _ = None"

text \<open>Every other input leaves the served model, the decision and the failures alone.\<close>

lemma quiet_step:
  assumes "recorder_step env i st = (st', f)" "input_message (snd i) = None"
  shows "rc_served st' = rc_served st"
    "rc_decision st' = (case input_decision (snd i) of Some d \<Rightarrow> Some d | None \<Rightarrow> rc_decision st)"
    "(\<forall>session err limit. snd i \<noteq> FromRouting (RoutingErrorEvent session err limit)) \<Longrightarrow>
       rc_error st' = rc_error st \<and> rc_limit st' = rc_limit st"
proof -
  obtain tk input where i: "i = (tk, input)" by fastforce
  have "rc_served st' = rc_served st \<and>
    rc_decision st' = (case input_decision input of Some d \<Rightarrow> Some d | None \<Rightarrow> rc_decision st) \<and>
    ((\<forall>session err limit. input \<noteq> FromRouting (RoutingErrorEvent session err limit)) \<longrightarrow>
       rc_error st' = rc_error st \<and> rc_limit st' = rc_limit st)"
  proof (cases input)
    case (FromRouting e)
    have step: "record_routing_event env tk e st = (st', f)" using assms(1) by (simp add: i FromRouting)
    show ?thesis
    proof (cases e)
      case (DecisionEvent action session d)
      then show ?thesis using step by (cases d) (auto simp: FromRouting Let_def dest!: track_event_same)
    next
      case (ClassifierSucceeded call usage identity)
      then show ?thesis using step classifier_end_fields by (simp add: FromRouting)
    next
      case (ClassifierFailed call)
      then show ?thesis using step classifier_end_fields by (simp add: FromRouting)
    next
      case (RoutingErrorEvent session err limit)
      then show ?thesis using step by (auto simp: FromRouting Let_def dest!: track_event_same)
    qed (use step in \<open>auto simp: FromRouting dest!: track_event_same\<close>)
  next
    case (FromAuth l ok)
    then show ?thesis using assms(1) by (auto simp: i record_auth_event_def dest!: track_event_same)
  next
    case (FromPi e)
    have step: "handle_pi env tk e st = (st', f)" using assms(1) by (simp add: i FromPi)
    show ?thesis
    proof (cases e)
      case (MessageEnd m)
      then show ?thesis using step assms(2) by (simp add: i FromPi)
    next
      case (Compacted entry usage)
      then show ?thesis using step compacted_fields by (simp add: FromPi)
    next
      case (CompactFailed aborted reason message)
      then show ?thesis using step compact_failed_fields by (simp add: FromPi)
    next
      case (SessionShutdown reason diff)
      then show ?thesis using step shutdown_fields [of env tk reason diff st st' f] by (simp add: FromPi)
    qed (use step in \<open>auto simp: FromPi Let_def lifecycle_def dest!: track_event_same\<close>)
  qed
  then show "rc_served st' = rc_served st"
    "rc_decision st' = (case input_decision (snd i) of Some d \<Rightarrow> Some d | None \<Rightarrow> rc_decision st)"
    "(\<forall>session err limit. snd i \<noteq> FromRouting (RoutingErrorEvent session err limit)) \<Longrightarrow>
       rc_error st' = rc_error st \<and> rc_limit st' = rc_limit st"
    by (simp_all add: i)
qed

lemma message_step:
  assumes "recorder_step env i st = (st', f)" "input_message (snd i) = Some m"
  obtains call st1 where "rc_served st1 = rc_served st" "rc_decision st1 = rc_decision st" "rc_error st1 = rc_error st"
    "rc_limit st1 = rc_limit st" "record_assistant env (fst i) m call st1 = (st', f)"
proof -
  have i: "i = (fst i, FromPi (MessageEnd (Some m)))"
    using assms(2) by (cases "snd i" rule: input_message.cases) (auto simp: prod_eq_iff)
  obtain call st1 where t: "take_pending CodingCall (tk_id (fst i)) st = (call, st1)" by fastforce
  have "record_assistant env (fst i) m call st1 = (st', f)" using assms(1) t by (subst (asm) i) simp
  with take_pending_fields [OF t] that show thesis by blast
qed

lemma step_served:
  assumes "recorder_step env i st = (st', f)"
  shows "same_model (rc_served st) p q \<Longrightarrow> same_model (rc_served st') p q"
    "input_message (snd i) = Some m \<Longrightarrow> f = None \<Longrightarrow> same_model (rc_served st') (am_provider m) (am_model m)"
    "rc_decision st' = (case input_decision (snd i) of Some d \<Rightarrow> Some d | None \<Rightarrow> rc_decision st)"
    "input_message (snd i) = Some m \<Longrightarrow> f = None \<Longrightarrow> expected_model env st = Some model \<Longrightarrow>
       am_provider m = pm_provider model \<and> am_model m = pm_id model"
proof -
  show "same_model (rc_served st') p q" if "same_model (rc_served st) p q"
  proof (cases "input_message (snd i)")
    case None
    then show ?thesis using quiet_step(1) [OF assms] that by simp
  next
    case (Some m)
    then show ?thesis using that by (rule_tac message_step [OF assms]) (auto dest: assistant_served(2))
  qed
  show "same_model (rc_served st') (am_provider m) (am_model m)" if "input_message (snd i) = Some m" "f = None"
    using that(2) by (rule_tac message_step [OF assms that(1)]) (auto dest: assistant_served(1))
  show "rc_decision st' = (case input_decision (snd i) of Some d \<Rightarrow> Some d | None \<Rightarrow> rc_decision st)"
  proof (cases "input_message (snd i)")
    case None
    then show ?thesis using quiet_step(2) [OF assms] by simp
  next
    case (Some m)
    then have "input_decision (snd i) = None" by (cases "snd i" rule: input_message.cases) simp_all
    then show ?thesis using Some by (rule_tac message_step [OF assms]) (auto dest: assistant_served(4))
  qed
  show "am_provider m = pm_provider model \<and> am_model m = pm_id model"
    if "input_message (snd i) = Some m" "f = None" "expected_model env st = Some model"
  proof (rule message_step [OF assms that(1)])
    fix call st1
    assume "rc_decision st1 = rc_decision st" "record_assistant env (fst i) m call st1 = (st', f)"
    then show ?thesis using assistant_served(3) [of env "fst i" m call st1 st' f model] that by (simp add: expected_model_def)
  qed
qed

lemma session_keeps_served:
  assumes "recorder_session env is st = (st', fs)" "same_model (rc_served st) p q"
  shows "same_model (rc_served st') p q"
  using assms
proof (induction "is" arbitrary: st fs)
  case (Cons i "is")
  obtain st1 f where s: "recorder_step env i st = (st1, f)" by fastforce
  then obtain fs' where r: "recorder_session env is st1 = (st', fs')" using Cons.prems(1) by (auto split: prod.splits)
  show ?case by (rule Cons.IH [OF r step_served(1) [OF s Cons.prems(2)]])
qed simp

lemma session_served:
  assumes "recorder_session env is st = (st', fs)"
    "j < length is" "input_message (snd (is ! j)) = Some m" "fs ! j = None"
  shows "same_model (rc_served st') (am_provider m) (am_model m)"
  using assms
proof (induction "is" arbitrary: st fs j)
  case (Cons i "is")
  obtain st1 f where s: "recorder_step env i st = (st1, f)" by fastforce
  then obtain fs' where r: "recorder_session env is st1 = (st', fs')" "fs = f # fs'" using Cons.prems(1) by (auto split: prod.splits)
  show ?case
  proof (cases j)
    case 0
    then have "same_model (rc_served st1) (am_provider m) (am_model m)" using Cons.prems r(2) step_served(2) [OF s] by simp
    then show ?thesis by (rule session_keeps_served [OF r(1)])
  next
    case (Suc k)
    then show ?thesis using Cons.prems r Cons.IH [OF r(1), of k] by simp
  qed
qed simp

subsection \<open>The outcome\<close>

lemma error_status_bad: "fst (error_status message p) \<noteq> StCompleted"
  by (simp add: error_status_def)

lemma limit_failure_bad: "fst (limit_failure l) \<noteq> StCompleted"
  by (cases l) simp_all

text \<open>
  The failures that are noted for the outcome, and how each is classified: an error of the routing
  controller, a message of another model, and a message that ended incomplete with an error text. Nothing
  else is: not a usage that is refused, an event that is refused, a compaction that failed, nor a message
  that ended incomplete without a text.
\<close>

fun noted_failure :: "recorder_env \<Rightarrow> recorder_input \<Rightarrow> recorder_fault option \<Rightarrow> failure option" where
  "noted_failure env (FromRouting (RoutingErrorEvent session err limit)) fault = Some (error_status (rv_text env err) False)"
| "noted_failure env (FromPi (MessageEnd (Some m))) fault =
     (if fault = Some FaultOutsideSelection \<or> fault = Some FaultSeveralModels then Some mismatch
      else if \<not> refused_call fault \<and> ended_incomplete m
      then map_option (\<lambda>text. error_status text True) (error_text (am_error m))
      else None)"
| "noted_failure env input fault = None"

definition noted_failures :: "recorder_env \<Rightarrow> (tick \<times> recorder_input) list \<Rightarrow> recorder_fault option list \<Rightarrow> failure list" where
  "noted_failures env is fs = List.map_filter (\<lambda>(i, f). noted_failure env (snd i) f) (zip is fs)"

fun input_limit :: "recorder_input \<Rightarrow> limit_status option" where
  "input_limit (FromRouting (RoutingErrorEvent session err limit)) = limit"
| "input_limit _ = None"

text \<open>A later failure replaces an earlier one; the first limit stays.\<close>

lemma assistant_failure:
  assumes "record_assistant env tk m call st = (st', f)"
  shows "rc_error st' = (case noted_failure env (FromPi (MessageEnd (Some m))) f of Some x \<Rightarrow> Some x | None \<Rightarrow> rc_error st) \<and>
    rc_limit st' = rc_limit st"
proof -
  have counted: "\<not> refused_call (snd (track_event env tk KindModelCall payload dedupe decision st''))"
    "snd (track_event env tk KindModelCall payload dedupe decision st'') \<noteq> Some FaultOutsideSelection"
    "snd (track_event env tk KindModelCall payload dedupe decision st'') \<noteq> Some FaultSeveralModels" for payload dedupe decision st''
    using track_event_fault [of env tk KindModelCall payload dedupe decision st''] by auto
  have "rc_error (fst (record_assistant env tk m call st)) =
      (case noted_failure env (FromPi (MessageEnd (Some m))) (snd (record_assistant env tk m call st)) of
         Some x \<Rightarrow> Some x | None \<Rightarrow> rc_error st) \<and>
    rc_limit (fst (record_assistant env tk m call st)) = rc_limit st"
    using counted by (auto simp: record_assistant_def Let_def record_call_def split: option.splits sum.splits)
  then show ?thesis by (simp add: assms)
qed

lemma step_failure:
  assumes "recorder_step env i st = (st', f)"
  shows "rc_error st' = (case noted_failure env (snd i) f of Some x \<Rightarrow> Some x | None \<Rightarrow> rc_error st)"
    "rc_limit st' = (case rc_limit st of Some l \<Rightarrow> Some l | None \<Rightarrow> map_option limit_failure (input_limit (snd i)))"
proof -
  have "rc_error st' = (case noted_failure env (snd i) f of Some x \<Rightarrow> Some x | None \<Rightarrow> rc_error st) \<and>
    rc_limit st' = (case rc_limit st of Some l \<Rightarrow> Some l | None \<Rightarrow> map_option limit_failure (input_limit (snd i)))"
  proof (cases "\<exists>session err limit. snd i = FromRouting (RoutingErrorEvent session err limit)")
    case True
    then obtain session err limit where i: "i = (fst i, FromRouting (RoutingErrorEvent session err limit))" by (metis prod.collapse)
    then have snd_i: "snd i = FromRouting (RoutingErrorEvent session err limit)" by (metis snd_conv)
    have "st' = fst (recorder_step env (fst i, FromRouting (RoutingErrorEvent session err limit)) st)"
      using assms i by (metis fst_conv)
    then show ?thesis by (simp add: snd_i Let_def split: option.split)
  next
    case False
    show ?thesis
    proof (cases "input_message (snd i)")
      case None
      moreover have "noted_failure env (snd i) f = None" "input_limit (snd i) = None"
        using None False by (cases "(env, snd i, f)" rule: noted_failure.cases, auto)+
      ultimately show ?thesis using quiet_step(3) [OF assms] False by (auto split: option.splits)
    next
      case (Some m)
      have m: "snd i = FromPi (MessageEnd (Some m))" using Some by (cases "snd i" rule: input_message.cases) auto
      show ?thesis
        by (rule message_step [OF assms Some], drule assistant_failure) (simp add: m split: option.split)
    qed
  qed
  then show "rc_error st' = (case noted_failure env (snd i) f of Some x \<Rightarrow> Some x | None \<Rightarrow> rc_error st)"
    "rc_limit st' = (case rc_limit st of Some l \<Rightarrow> Some l | None \<Rightarrow> map_option limit_failure (input_limit (snd i)))" by blast+
qed

definition first_of :: "'a list \<Rightarrow> 'a option" where
  "first_of xs = (case xs of [] \<Rightarrow> None | x # _ \<Rightarrow> Some x)"

definition session_limits :: "(tick \<times> recorder_input) list \<Rightarrow> limit_status list" where
  "session_limits is = List.map_filter (\<lambda>i. input_limit (snd i)) is"

lemma first_of_simps [simp]: "first_of [] = None" "first_of (x # xs) = Some x"
  by (simp_all add: first_of_def)

lemma first_of_append: "first_of (xs @ ys) = (case first_of xs of Some x \<Rightarrow> Some x | None \<Rightarrow> first_of ys)"
  by (cases xs) simp_all

lemma session_failure:
  assumes "recorder_session env is st = (st', fs)"
  shows "rc_error st' = (case first_of (rev (noted_failures env is fs)) of Some x \<Rightarrow> Some x | None \<Rightarrow> rc_error st) \<and>
    rc_limit st' = (case rc_limit st of Some l \<Rightarrow> Some l | None \<Rightarrow> map_option limit_failure (first_of (session_limits is)))"
  using assms
proof (induction "is" arbitrary: st fs)
  case Nil
  then show ?case by (auto simp: session_limits_def noted_failures_def map_filter_simps split: option.splits)
next
  case (Cons i "is")
  obtain st1 f where s: "recorder_step env i st = (st1, f)" by fastforce
  then obtain fs' where r: "recorder_session env is st1 = (st', fs')" "fs = f # fs'" using Cons.prems(1) by (auto split: prod.splits)
  show ?case
    using Cons.IH [OF r(1)] step_failure [OF s]
    by (auto simp: r(2) session_limits_def noted_failures_def map_filter_simps first_of_append split: option.splits)
qed

lemma finalize_status:
  assumes "finalize_attempt ajv date_ok scrub input s = (s', Inr r)"
  shows "rs_status r = fi_status input" "rs_error_category r = fi_error_category input" "rs_usage r = fi_usage input" "rs_served r = fi_served input" "rs_decision r = fi_decision input"
proof -
  obtain s1 where "validate_run_result date_ok (build_result input s1) = Inr r"
    using assms unfolding finalize_attempt_def Let_def by (auto split: if_splits prod.splits sum.splits)
  then have "r = build_result input s1" by (rule validate_same)
  then show "rs_status r = fi_status input" "rs_error_category r = fi_error_category input" "rs_usage r = fi_usage input" "rs_served r = fi_served input" "rs_decision r = fi_decision input"
    by (simp_all add: build_result_def)
qed

lemma finalized_result:
  assumes "finalize env tk err st = (st', Inr r)" "rc_final st = None"
  obtains st1 where "note_error env tk err (settle tk st) = (st1, None)" "rc_write_error st1 = None"
    "rs_status r = fi_status (final_input env tk st1)" "rs_error_category r = fi_error_category (final_input env tk st1)"
    "rs_usage r = ledger_summaries (rc_usage st)"
    "rs_served r = rc_served st" "rs_decision r = rc_decision st"
proof -
  obtain st1 where n: "note_error env tk err (settle tk st) = (st1, None)" and w: "rc_write_error st1 = None"
    and f: "\<exists>s. finalize_attempt (rv_ajv env) (rv_date env) (rv_scrub env) (final_input env tk st1) (rc_store st1) = (s, Inr r)"
    using assms by (auto simp: finalize_def flush_def split: prod.splits option.splits sum.splits if_splits)
  from f obtain s where f: "finalize_attempt (rv_ajv env) (rv_date env) (rv_scrub env) (final_input env tk st1) (rc_store st1) = (s, Inr r)" ..
  have "rc_usage st1 = rc_usage st" "rc_served st1 = rc_served st" "rc_decision st1 = rc_decision st"
    using note_error_fields [OF n] by simp_all
  then show thesis using that [OF n w] finalize_status [OF f] by (simp add: final_input_def)
qed

lemma first_of_map: "first_of (map f xs) = map_option f (first_of xs)"
  by (cases xs) simp_all

lemma recorded_split:
  "length (filter id (calls_recorded is fs)) =
     length (filter (\<lambda>(i, f). ends_call (snd i) \<and> \<not> refused_call f \<and> reports_usage (snd i)) (zip is fs))"
  "length (filter Not (calls_recorded is fs)) =
     length (filter (\<lambda>(i, f). ends_call (snd i) \<and> \<not> refused_call f \<and> \<not> reports_usage (snd i)) (zip is fs))"
  by (induction "is" fs rule: list_induct2') (auto simp: calls_recorded_def recorded_by_def)

text \<open>A limit is only ever reported with an error.\<close>

lemma limit_noted:
  assumes "length fs = length is" "noted_failures env is fs = []"
  shows "session_limits is = []"
  using assms
proof (induction fs "is" rule: list_induct2)
  case (Cons f fs i "is")
  have none: "noted_failure env (snd i) f = None" "noted_failures env is fs = []"
    using Cons.prems by (auto simp: noted_failures_def map_filter_simps split: option.splits)
  have "input_limit (snd i) = None" using none(1) by (cases "snd i" rule: input_limit.cases) auto
  with Cons.IH [OF none(2)] show ?case by (simp add: session_limits_def map_filter_simps)
qed (simp add: session_limits_def map_filter_simps)

definition final_limit :: "final_error option \<Rightarrow> limit_status list" where
  "final_limit err = (case err of Some (LimitError limit text) \<Rightarrow> [limit] | _ \<Rightarrow> [])"

definition final_failure :: "final_error option \<Rightarrow> failure list" where
  "final_failure err = (case err of None \<Rightarrow> [] | Some e \<Rightarrow> [error_status (final_message e) False])"

lemma note_error_failure:
  assumes "note_error env tk err st = (st', None)"
  shows "rc_error st' = (case first_of (final_failure err) of Some x \<Rightarrow> Some x | None \<Rightarrow> rc_error st)"
    "rc_limit st' = (case rc_limit st of Some l \<Rightarrow> Some l | None \<Rightarrow> map_option limit_failure (first_of (final_limit err)))"
  using assms
  by (auto simp: note_error_def Let_def final_failure_def final_limit_def split: option.splits prod.splits sum.splits final_error.splits)

lemma map_filter_empty: "List.map_filter f xs = [] \<longleftrightarrow> (\<forall>x \<in> set xs. f x = None)"
  by (induction xs) (auto simp: map_filter_simps split: option.splits)

lemma noted_failures_bad: "x \<in> set (noted_failures env is fs) \<Longrightarrow> fst x \<noteq> StCompleted"
proof -
  have "fst x \<noteq> StCompleted" if "noted_failure env input f = Some x" for input f
    using that error_status_bad by (cases "(env, input, f)" rule: noted_failure.cases) (auto simp: mismatch_def split: if_splits)
  then show "x \<in> set (noted_failures env is fs) \<Longrightarrow> fst x \<noteq> StCompleted"
    by (auto simp: noted_failures_def map_filter_def)
qed

text \<open>A request that was never answered leaves no trace in the usage: the total is complete, with no call.\<close>

lemma open_requests_uncounted:
  assumes "json_validator (rv_ajv env)" "start_recorder env tk present = Inr st"
    and "recorder_session env is st = (st', fs)" "\<forall>i \<in> set is. \<not> ends_call (snd i)"
    and "distinct (concat (map input_ids is))" "[] \<notin> set (concat (map input_ids is))"
    and "rc_final st' = None" "finalize env tk' err st' = (st'', Inr r)"
  shows "sum_total (rs_usage r) = summarize [] \<and> us_status (sum_total (rs_usage r)) = Complete \<and>
    us_total (sum_total (rs_usage r)) = Some 0"
proof -
  have ajv: "rv_ajv env = schema_valid" by (rule json_validator_eq [OF assms(1)])
  note started = started_inv [OF ajv assms(2)]
  have "ids_inv {} st" using started by (simp add: ids_inv_def)
  then have "reported (rc_usage st') = calls_recorded is fs"
    using session_calls [OF assms(3), of "{}"] assms(5,6) started by (simp add: reported_def)
  also have "\<dots> = []" using assms(4) by (fastforce simp: calls_recorded_def recorded_by_def dest: set_zip_leftD)
  finally have "rc_usage st' = []" by (simp add: reported_def)
  moreover have "rs_usage r = ledger_summaries (rc_usage st')" by (rule finalized_result [OF assms(8,7)])
  ultimately show ?thesis by (simp add: ledger_summaries_def summarize_def)
qed

subsection \<open>An example\<close>

definition example_recorder_options :: recorder_options where
  "example_recorder_options =
     \<lparr>ro_project = ''p'', ro_session = ''s1'', ro_run = ''r1'', ro_mode = Routed, ro_evidence = MockEvidence,
      ro_profile = ''default'',
      ro_config = example_config\<lparr>models := (\<lambda>_. example_role\<lparr>lr_billing := BUnknown, lr_pricing := None\<rparr>)\<rparr>,
      ro_roles = (\<lambda>_. example_model), ro_prices = (\<lambda>_. (0, 0, 0, 0)), ro_config_hash = example_hash,
      ro_capability_hash = example_hash, ro_metadata_hash = example_hash, ro_provider_hash = example_hash,
      ro_environment = (\<lambda>_. None), ro_setup = 0, ro_experiment = None, ro_task = None, ro_repetition = None,
      ro_task_hash = None, ro_source_hash = None, ro_validator_hash = None\<rparr>"

definition example_recorder_env :: recorder_env where
  "example_recorder_env = \<lparr>rv_ajv = schema_valid, rv_date = (\<lambda>_. True), rv_scrub = id, rv_digest = (\<lambda>_. example_hash),
     rv_text = (\<lambda>_. ''routing failed''), rv_options = example_recorder_options\<rparr>"

definition example_tick :: tick where
  "example_tick = \<lparr>tk_now = 0, tk_time = ''t'', tk_id = ''c1''\<rparr>"

definition example_message :: assistant_message where
  "example_message = \<lparr>am_provider = ''acme'', am_model = ''m1'', am_response_model = None, am_stop = ''stop'',
     am_usage = \<lparr>pu_input = Fin 3, pu_output = Fin 4, pu_cache_read = Fin 0, pu_cache_write = Fin 0,
       pu_reasoning = None, pu_total = Fin 7\<rparr>, am_error = None\<rparr>"

definition example_counts :: normalized_usage where
  "example_counts = \<lparr>nu_input = 3, nu_output = 4, nu_cache_read = 0, nu_cache_write = 0, nu_reasoning = None, nu_total = 7\<rparr>"

definition example_session :: "(tick \<times> recorder_input) list" where
  "example_session = [(example_tick, FromPi (MessageEnd (Some example_message)))]"

lemma example_message_usage: "normalize_usage (am_usage example_message) = Inr example_counts"
  by (simp add: example_message_def example_counts_def normalize_usage_def optional_count_def is_count_def
      nonnegative_integer_def js_sum_def js_add_def js_round_exact)

text \<open>An object with no sensitive and no numeric key is redacted member by member.\<close>

definition plain_key :: "string \<Rightarrow> bool" where
  "plain_key k \<longleftrightarrow> \<not> sensitive_key k \<and> \<not> is_array_index k"

lemma redact_plain:
  assumes "list_all (\<lambda>(k, v). plain_key k \<and> redact_sensitive scrub v = v) kvs"
  shows "redact_sensitive scrub (JObj kvs) = JObj kvs"
proof -
  have "map (\<lambda>(k, child). (k, if sensitive_key k then redacted else redact_sensitive scrub child)) kvs = kvs"
    using assms by (induction kvs) (auto simp: plain_key_def)
  moreover have "filter (\<lambda>(k, _). is_array_index k) kvs = []" "filter (\<lambda>(k, _). \<not> is_array_index k) kvs = kvs"
    using assms by (auto simp: filter_empty_conv filter_id_conv list_all_iff plain_key_def)
  ultimately show ?thesis by (simp add: from_entries_def)
qed

lemma example_keys:
  "plain_key ''action''" "plain_key ''role''" "plain_key ''callId''" "plain_key ''outcome''" "plain_key ''servedModel''"
  "plain_key ''usage''" "plain_key ''provider''" "plain_key ''model''" "plain_key ''providerReportedModelId''"
  "plain_key ''inputTokens''" "plain_key ''outputTokens''" "plain_key ''cacheReadTokens''" "plain_key ''cacheWriteTokens''"
  "plain_key ''reasoningTokens''" "plain_key ''totalTokens''" "plain_key ''semantics''" "plain_key ''status''"
  "plain_key ''validationStatus''" "plain_key ''mode''" "plain_key ''evidenceKind''" "plain_key ''authProfile''"
  "plain_key ''configHash''"
  by code_simp+

text \<open>A store of the example's recorder that can still be written.\<close>

definition example_open :: "attempt_store \<Rightarrow> bool" where
  "example_open s \<longleftrightarrow> as_options s = recorder_start_options example_recorder_env ''t'' \<and> \<not> as_finalized s \<and>
     as_decision s = None"

lemma example_append:
  assumes "example_open s" "redact_sensitive id payload = JObj kvs" "schema_valid (payload_schema (\<lambda>_. True) kind) (JObj kvs)"
    and "dedupe = None \<or> dedupe = Some ''c1'' \<and> as_dedupe s ''c1'' = None" "decision = None \<or> decision = Some None"
  shows "\<exists>s'. append_event schema_valid (\<lambda>_. True) id kind payload
      \<lparr>ao_dedupe = dedupe, ao_decision = decision, ao_timestamp = ''t''\<rparr> s = (s', Inr ()) \<and>
    example_open s' \<and> (dedupe = None \<longrightarrow> as_dedupe s' = as_dedupe s)"
proof -
  have "identity_wf (store_identity s None)"
    using assms(1) by (simp add: example_open_def store_identity_def recorder_start_options_def Let_def example_recorder_env_def
        example_recorder_options_def identity_wf_def)
  moreover have "(case decision of None \<Rightarrow> current_decision_id s | Some d \<Rightarrow> d) = None"
    using assms(1,5) by (auto simp: example_open_def current_decision_id_def)
  ultimately have "event_wf (\<lambda>_. True)
      (appended_event id kind payload \<lparr>ao_dedupe = dedupe, ao_decision = decision, ao_timestamp = ''t''\<rparr> s)"
    using assms(2,3) by (simp add: event_wf_def appended_event_def)
  then show ?thesis
    using assms(1,4) by (auto simp: append_event_cases is_duplicate_def next_dedupe_def Let_def example_open_def)
qed

lemma example_startup:
  "\<exists>st. start_recorder example_recorder_env example_tick False = Inr st \<and> example_open (rc_store st) \<and>
    as_dedupe (rc_store st) = Map.empty \<and> st = new_recorder (rc_store st)"
proof -
  let ?s = "\<lparr>as_options = recorder_start_options example_recorder_env ''t'', as_sequence = 0, as_dedupe = Map.empty, as_decision = None,
    as_finalized = False, as_files = \<lparr>af_lines = [], af_truncated = False, af_patch = [], af_result = ResultMissing\<rparr>\<rparr>"
  have start: "start_attempt (recorder_start_options example_recorder_env ''t'') False = Inr ?s"
    by (simp add: start_attempt_def recorder_start_options_def Let_def example_recorder_env_def example_recorder_options_def
        is_run_id_def is_alnum_def is_lower_def is_path_char_def is_digit_def)
  have "redact_sensitive id (startup_payload example_recorder_options) = startup_payload example_recorder_options"
    unfolding startup_payload_def by (rule redact_plain) (simp add: example_keys)
  moreover have "schema_valid startup_schema (startup_payload example_recorder_options)"
    by (simp add: startup_schema_def startup_payload_def example_recorder_options_def enum_strings_def any_string_def)
  ultimately obtain s' where "append_event schema_valid (\<lambda>_. True) id KindStartup (startup_payload example_recorder_options)
      \<lparr>ao_dedupe = None, ao_decision = None, ao_timestamp = ''t''\<rparr> ?s = (s', Inr ())" "example_open s'" "as_dedupe s' = Map.empty"
    using example_append [of ?s "startup_payload example_recorder_options" _ KindStartup None None]
    by (auto simp: startup_payload_def example_open_def)
  then show ?thesis
    using start by (simp add: start_recorder_def lift_error_def write_event_def example_tick_def new_recorder_def)
      (simp add: example_recorder_env_def)
qed

definition example_coding_call :: json where
  "example_coding_call = message_payload example_message ''c1'' example_counts"

lemma example_usage_ok:
  "redact_sensitive id (usage_json example_counts) = usage_json example_counts"
  "schema_valid call_usage_schema (usage_json example_counts)"
  unfolding usage_json_def example_counts_def
  by (rule redact_plain, simp add: example_keys nullable_def)
    (simp add: call_usage_schema_def nullable_def count_schema_def nullable_count_def)

definition example_served :: json where
  "example_served = JObj [(''provider'', JStr ''acme''), (''model'', JStr ''m1''), (''providerReportedModelId'', JNull)]"

lemma example_served_ok:
  "redact_sensitive id example_served = example_served" "schema_valid served_model_schema example_served"
  unfolding example_served_def
  by (rule redact_plain, simp add: example_keys)
    (simp add: served_model_schema_def any_string_def nullable_string_def)

lemma example_coding_call_fields:
  "example_coding_call = JObj [(''action'', JStr ''end''), (''role'', JStr ''coding''), (''callId'', JStr ''c1''),
     (''outcome'', JStr ''success''), (''servedModel'', example_served), (''usage'', usage_json example_counts)]"
  by (simp add: example_coding_call_def message_payload_def example_message_def ended_incomplete_def error_text_def
      example_served_def nullable_def)

lemma example_coding_call_ok:
  "redact_sensitive id example_coding_call = example_coding_call" "schema_valid model_call_schema example_coding_call"
proof -
  show "redact_sensitive id example_coding_call = example_coding_call"
    unfolding example_coding_call_fields by (rule redact_plain) (simp add: example_keys example_usage_ok example_served_ok)
  show "schema_valid model_call_schema example_coding_call"
    unfolding example_coding_call_fields
    by (simp add: model_call_schema_def enum_strings_def any_string_def nonempty_string_def example_usage_ok example_served_ok)
qed

lemma example_opts:
  defines "opts \<equiv> recorder_start_options example_recorder_env ''t''"
  shows "provenance_schema (so_provenance opts)" "identity_wf (so_identity opts\<lparr>ai_decision := None\<rparr>)" "so_started opts = ''t''"
    "so_setup opts = 0" "pv_task_hash (so_provenance opts) = None" "pv_source_hash (so_provenance opts) = None"
    "pv_validator_hash (so_provenance opts) = None"
  unfolding opts_def
  by (simp_all add: recorder_start_options_def Let_def example_recorder_env_def example_recorder_options_def provenance_of_def
      provenance_schema_def optional_def is_revision_def list_all_iff is_lower_hex_def is_profile_def is_slug_def
      is_lower_def is_digit_def limits_schema_def example_config_def role_provenance_schema_def role_identity_def
      metadata_hash_def
      example_model_def identity_wf_def)

definition example_ending :: json where
  "example_ending = JObj [(''status'', JStr ''completed''), (''validationStatus'', JStr ''not-run'')]"

lemma example_ending_ok:
  "redact_sensitive id example_ending = example_ending" "schema_valid finalization_schema example_ending"
  unfolding example_ending_def
  by (rule redact_plain, simp add: example_keys) (simp add: finalization_schema_def any_string_def)

lemma example_finishes:
  assumes st0: "st = new_recorder s0" "example_open s0" "as_dedupe s0 ''c1'' = None"
  obtains st' st'' r where "recorder_session example_recorder_env example_session st = (st', [None])" "rc_final st' = None"
    "finalize example_recorder_env example_tick None st' = (st'', Inr r)"
proof -
  have payload: "\<exists>kvs. example_coding_call = JObj kvs" by (simp add: example_coding_call_def message_payload_def)
  obtain s1 where app: "append_event schema_valid (\<lambda>_. True) id KindModelCall example_coding_call
      \<lparr>ao_dedupe = Some ''c1'', ao_decision = Some None, ao_timestamp = ''t''\<rparr> s0 = (s1, Inr ())"
    and s1: "example_open s1"
    using example_append [of s0 example_coding_call _ KindModelCall "Some ''c1''" "Some None"] payload st0(2,3) example_coding_call_ok
    by auto
  define st1 where "st1 = st\<lparr>rc_store := s1, rc_usage := [(''c1'', \<lparr>ru_role = UCoding, ru_usage = Some example_counts, ru_complete = True\<rparr>)],
     rc_served := Some \<lparr>mi_provider = ''acme'', mi_model = ''m1'', mi_reported = None\<rparr>\<rparr>"
  have step: "recorder_session example_recorder_env example_session st = (st1, [None])"
    using app
    by (simp add: example_session_def take_pending_def st0(1) new_recorder_def record_assistant_def expected_model_def
        example_message_usage record_call_def ledger_record_def track_event_def track_def write_event_def decision_ref_def
        example_coding_call_def example_tick_def example_recorder_env_def st1_def Let_def)
      (simp add: example_message_def ended_incomplete_def error_text_def)
  have fin: "rc_final st1 = None" by (simp add: st1_def st0(1) new_recorder_def)
  define input where "input = final_input example_recorder_env example_tick st1"
  have input: "input = \<lparr>fi_status = StCompleted, fi_ended = Some ''t'', fi_error_category = None, fi_decision = None,
      fi_observation = None, fi_served = Some \<lparr>mi_provider = ''acme'', mi_model = ''m1'', mi_reported = None\<rparr>,
      fi_routing_ms = None, fi_agent_ms = None, fi_usage = ledger_summaries (rc_usage st1),
      fi_costs = recorded_costs example_recorder_env st1, fi_reasons = [reason_no_patch], fi_timestamp = ''t''\<rparr>"
    by (simp add: input_def final_input_def st1_def st0(1) new_recorder_def example_tick_def)
  have "costs_schema (recorded_costs example_recorder_env st1)"
    by (simp add: recorded_costs_def Let_def example_recorder_env_def example_recorder_options_def calculate_role_cost_def
        costs_schema_def role_cost_schema_def optional_def sum_both_def reference_pricing_def)
  then have v: "validate_run_result (\<lambda>_. True) (build_result input s1) = Inr (build_result input s1)"
    using s1 example_opts
    by (simp add: validate_run_result_def build_result_def input example_open_def run_result_schema_def store_identity_def
        optional_def durations_schema_def finalize_reasons_def reason_no_patch_def reason_not_validated_def
        reason_no_task_hash_def reason_no_source_hash_def reason_no_validator_hash_def)
  have "redact_sensitive id example_ending = example_ending" "schema_valid finalization_schema example_ending"
    by (simp_all add: example_ending_ok)
  then obtain s2 where "append_event schema_valid (\<lambda>_. True) id KindFinalization example_ending
      \<lparr>ao_dedupe = None, ao_decision = None, ao_timestamp = ''t''\<rparr> s1 = (s2, Inr ())"
    using example_append [of s1 example_ending _ KindFinalization None None] s1 by (auto simp: example_ending_def)
  then have "\<exists>s r. finalize_attempt schema_valid (\<lambda>_. True) id input s1 = (s, Inr r)"
    using v s1 by (simp add: finalize_attempt_def Let_def example_open_def example_ending_def)
      (simp add: input build_result_def)
  then obtain s r where f: "finalize_attempt schema_valid (\<lambda>_. True) id input s1 = (s, Inr r)" by blast
  have "finalize example_recorder_env example_tick None st1 = (st1\<lparr>rc_store := s, rc_final := Some r\<rparr>, Inr r)"
    using f by (simp add: finalize_def fin note_error_def settle_def flush_def st1_def st0(1) new_recorder_def input_def)
      (simp add: example_recorder_env_def)
  then show thesis by (rule that [OF step fin])
qed

lemma example_recorded:
  obtains st st' st'' r where "start_recorder example_recorder_env example_tick False = Inr st"
    "recorder_session example_recorder_env example_session st = (st', [None])" "rc_final st' = None"
    "finalize example_recorder_env example_tick None st' = (st'', Inr r)"
proof -
  obtain st where st: "start_recorder example_recorder_env example_tick False = Inr st" "example_open (rc_store st)"
    "as_dedupe (rc_store st) = Map.empty" "st = new_recorder (rc_store st)"
    using example_startup by blast
  then show thesis using that example_finishes [OF st(4,2)] by (metis (no_types))
qed

text \<open>The same session after a tool call without an identity, whose event the schema refuses.\<close>

definition refused_session :: "(tick \<times> recorder_input) list" where
  "refused_session = (example_tick, FromPi (ToolStart [] ''t'')) # example_session"

lemma session_Cons: "recorder_step env i st = (st1, f) \<Longrightarrow> recorder_session env is st1 = (st2, fs) \<Longrightarrow>
    recorder_session env (i # is) st = (st2, f # fs)"
  by simp

lemma refused_recorded:
  obtains st st' st'' r where "start_recorder example_recorder_env example_tick False = Inr st"
    "recorder_session example_recorder_env refused_session st = (st', [Some (FaultArtifact InvalidRunEvent), None])"
    "rc_final st' = None" "finalize example_recorder_env example_tick None st' = (st'', Inr r)"
proof -
  obtain st where st: "start_recorder example_recorder_env example_tick False = Inr st" "example_open (rc_store st)"
    "as_dedupe (rc_store st) = Map.empty" "st = new_recorder (rc_store st)"
    using example_startup by blast
  define payload where "payload = JObj [(''action'', JStr ''start''), (''toolCallId'', JStr []), (''toolName'', JStr ''t'')]"
  define options where "options = \<lparr>ao_dedupe = Some ''tool::start'', ao_decision = None, ao_timestamp = ''t''\<rparr>"
  have keys: "plain_key ''action''" "plain_key ''toolCallId''" "plain_key ''toolName''" by code_simp+
  have "redact_sensitive id payload = payload" unfolding payload_def by (rule redact_plain) (simp add: keys)
  then have "\<not> event_wf (\<lambda>_. True) (appended_event id KindTool payload options s)" for s
    by (simp add: event_wf_def appended_event_def) (simp add: payload_def tool_schema_def nonempty_string_def)
  then have app: "append_event schema_valid (\<lambda>_. True) id KindTool payload options (rc_store st) =
      ((rc_store st)\<lparr>as_sequence := Suc (as_sequence (rc_store st)), as_dedupe := next_dedupe options (rc_store st)\<rparr>, Inl InvalidRunEvent)"
    using st(2,3) by (simp add: append_event_cases example_open_def is_duplicate_def options_def Let_def)
  define s0 where "s0 = (rc_store st)\<lparr>as_sequence := Suc (as_sequence (rc_store st)), as_dedupe := next_dedupe options (rc_store st)\<rparr>"
  have step: "recorder_step example_recorder_env (example_tick, FromPi (ToolStart [] ''t'')) st =
      (st\<lparr>rc_store := s0\<rparr>, Some (FaultArtifact InvalidRunEvent))"
    using app by (simp add: track_event_def write_event_def payload_def options_def s0_def)
      (simp add: example_recorder_env_def example_tick_def)
  have "st\<lparr>rc_store := s0\<rparr> = new_recorder s0" by (subst st(4)) (simp add: new_recorder_def)
  moreover have "example_open s0" "as_dedupe s0 ''c1'' = None"
    using st(2,3) by (simp_all add: s0_def example_open_def next_dedupe_def options_def)
  ultimately obtain st' st'' r where rest: "recorder_session example_recorder_env example_session (st\<lparr>rc_store := s0\<rparr>) = (st', [None])"
    and fin: "rc_final st' = None" "finalize example_recorder_env example_tick None st' = (st'', Inr r)"
    by (metis example_finishes)
  have "recorder_session example_recorder_env refused_session st = (st', [Some (FaultArtifact InvalidRunEvent), None])"
    unfolding refused_session_def by (rule session_Cons [OF step rest])
  then show thesis by (rule that [OF st(1) _ fin])
qed

lemma example_logged:
  assumes "rc_store st = example_new"
  shows "snd (track_event example_recorder_env example_tick KindModelCall example_coding_call (Some ''c1'')
    (Some (Some (rd_id example_created))) st) = None"
proof -
  have payload: "\<exists>kvs. example_coding_call = JObj kvs" by (simp add: example_coding_call_def message_payload_def)
  have "event_wf (\<lambda>_. True) (appended_event id KindModelCall example_coding_call
      \<lparr>ao_dedupe = Some ''c1'', ao_decision = Some (Some (rd_id example_created)), ao_timestamp = ''t''\<rparr> example_new)"
    using example_coding_call_ok payload
    by (simp add: event_wf_def appended_event_def example_new_def store_identity_def example_options_def example_identity_def
        identity_wf_def example_created_def build_decision_def example_inputs_def Let_def example_fallback_def example_controller_def)
  then have "\<exists>s. write_event example_recorder_env example_tick KindModelCall example_coding_call (Some ''c1'')
      (Some (Some (rd_id example_created))) st = (s, Inr ())"
    by (simp add: write_event_def example_recorder_env_def example_tick_def assms append_event_cases Let_def is_duplicate_def)
      (simp add: example_new_def)
  then show ?thesis by (auto simp: track_event_def)
qed

lemma example_env_validator: "json_validator (rv_ajv example_recorder_env)"
  using standard.json_validator_axioms by (simp add: example_recorder_env_def)

subsection \<open>Properties\<close>

text \<open>C8: An attempt a recorder finalizes can be read back exactly if no event was refused: when no handler of the
  session threw an artifact error, the result that is returned is the result in the files of the attempt,
  beside a log that is in order; when a handler threw because an event was refused, a result is returned and
  written all the same, but the attempt cannot be read. And a decision the store rejected, a write that is
  not awaited, is never lost: if any was, finalizing does not return a result.\<close>

theorem recorded_attempt_reads_back:
  assumes "json_validator (rv_ajv env)" "start_recorder env tk present = Inr st"
    and "recorder_session env is st = (st', fs)" "finalize env tk' err st' = (st'', Inr r)"
  shows "((\<forall>e. Some (FaultArtifact e) \<notin> set fs) \<longrightarrow>
      (\<exists>es. read_attempt (rv_ajv env) (rv_date env) (as_files (rc_store st'')) =
        Inr \<lparr>ar_result = Some r, ar_events = es, ar_truncated = False\<rparr>)) \<and>
    (Some (FaultArtifact InvalidRunEvent) \<in> set fs \<and> rc_final st' = None \<longrightarrow>
      (\<exists>k. read_attempt (rv_ajv env) (rv_date env) (as_files (rc_store st'')) = Inl (SequenceInvalid k))) \<and>
    (rc_final st' = None \<longrightarrow>
      (\<forall>n < length is. \<not> decision_lost env (is ! n) (fst (recorder_session env (take n is) st))))"
proof (intro conjI impI)
  have ajv: "rv_ajv env = schema_valid" by (rule json_validator_eq [OF assms(1)])
  have inv: "rec_inv (rv_date env) st" "rc_final st = None" using started_inv [OF ajv assms(2)] by blast+
  show "\<exists>es. read_attempt (rv_ajv env) (rv_date env) (as_files (rc_store st'')) =
      Inr \<lparr>ar_result = Some r, ar_events = es, ar_truncated = False\<rparr>" if "\<forall>e. Some (FaultArtifact e) \<notin> set fs"
  proof -
    from session_inv [OF ajv inv(1) assms(3) that] have "rec_inv (rv_date env) st'" .
    from finalize_inv [OF ajv this assms(4)] have stored: "attempt_inv (rv_date env) (rc_store st'')"
      "af_result (as_files (rc_store st'')) = ResultStored r" by (auto simp: rec_inv_def)
    then have "log_wf (rv_date env) (rc_store st'')" "validate_run_result (rv_date env) r = Inr r"
      by (auto simp: attempt_inv_def)
    with log_wf_read [of "rv_date env" "rc_store st''"] stored(2) show ?thesis by (auto simp: ajv)
  qed
  show "\<exists>k. read_attempt (rv_ajv env) (rv_date env) (as_files (rc_store st'')) = Inl (SequenceInvalid k)"
    if "Some (FaultArtifact InvalidRunEvent) \<in> set fs \<and> rc_final st' = None"
  proof -
    have "rc_write_error st = None" using started_inv [OF ajv assms(2)] by blast
    then have "lines_wf (rv_date env) (rc_store st)" using inv by (auto simp: rec_inv_def attempt_inv_def intro: log_wf_lines)
    then have "lines_wf (rv_date env) (rc_store st')" "gapped (rc_store st')"
      using session_store(1) [OF ajv assms(3)] that by (auto simp: gap_kept_def)
    from finalize_gap [OF ajv assms(4) _ this] that show ?thesis by (simp add: ajv)
  qed
  show "\<forall>n < length is. \<not> decision_lost env (is ! n) (fst (recorder_session env (take n is) st))" if open_end: "rc_final st' = None"
  proof -
    obtain st1 where n: "note_error env tk' err (settle tk' st') = (st1, None)" "rc_write_error st1 = None"
      by (rule finalized_result [OF assms(4) open_end])
    then have "rc_write_error (settle tk' st') = None"
      using note_error_step [OF ajv, of "settle tk' st'" tk' err] by (auto simp: store_step_def)
    then have "rc_write_error st' = None" by (simp add: settle_def split: option.splits)
    with session_store(2) [OF ajv assms(3)] show ?thesis by blast
  qed
qed

theorem recorded_attempt_reads_back_witness:
  "(\<exists>st st' st'' r es. start_recorder example_recorder_env example_tick False = Inr st \<and>
    recorder_session example_recorder_env example_session st = (st', [None]) \<and>
    finalize example_recorder_env example_tick None st' = (st'', Inr r) \<and>
    read_attempt (rv_ajv example_recorder_env) (rv_date example_recorder_env) (as_files (rc_store st'')) =
      Inr \<lparr>ar_result = Some r, ar_events = es, ar_truncated = False\<rparr>) \<and>
   (\<exists>st st' st'' r k. start_recorder example_recorder_env example_tick False = Inr st \<and>
    recorder_session example_recorder_env refused_session st = (st', [Some (FaultArtifact InvalidRunEvent), None]) \<and>
    finalize example_recorder_env example_tick None st' = (st'', Inr r) \<and>
    read_attempt (rv_ajv example_recorder_env) (rv_date example_recorder_env) (as_files (rc_store st'')) =
      Inl (SequenceInvalid k))"
proof
  obtain st st' st'' r where e: "start_recorder example_recorder_env example_tick False = Inr st"
    "recorder_session example_recorder_env example_session st = (st', [None])" "rc_final st' = None"
    "finalize example_recorder_env example_tick None st' = (st'', Inr r)"
    by (rule example_recorded)
  have "\<forall>e. Some (FaultArtifact e) \<notin> set [None]" by simp
  with recorded_attempt_reads_back [OF example_env_validator e(1,2,4)] e
  show "\<exists>st st' st'' r es. start_recorder example_recorder_env example_tick False = Inr st \<and>
    recorder_session example_recorder_env example_session st = (st', [None]) \<and>
    finalize example_recorder_env example_tick None st' = (st'', Inr r) \<and>
    read_attempt (rv_ajv example_recorder_env) (rv_date example_recorder_env) (as_files (rc_store st'')) =
      Inr \<lparr>ar_result = Some r, ar_events = es, ar_truncated = False\<rparr>" by blast
next
  obtain st st' st'' r where e: "start_recorder example_recorder_env example_tick False = Inr st"
    "recorder_session example_recorder_env refused_session st = (st', [Some (FaultArtifact InvalidRunEvent), None])"
    "rc_final st' = None" "finalize example_recorder_env example_tick None st' = (st'', Inr r)"
    by (rule refused_recorded)
  have "Some (FaultArtifact InvalidRunEvent) \<in> set [Some (FaultArtifact InvalidRunEvent), None]" by simp
  with recorded_attempt_reads_back [OF example_env_validator e(1,2,4)] e
  show "\<exists>st st' st'' r k. start_recorder example_recorder_env example_tick False = Inr st \<and>
    recorder_session example_recorder_env refused_session st = (st', [Some (FaultArtifact InvalidRunEvent), None]) \<and>
    finalize example_recorder_env example_tick None st' = (st'', Inr r) \<and>
    read_attempt (rv_ajv example_recorder_env) (rv_date example_recorder_env) (as_files (rc_store st'')) =
      Inl (SequenceInvalid k)" by blast
qed

text \<open>C9: Every call of a provider that ended is accounted for once: when the identities of a session are fresh, the
  total of the finalized result observes exactly the calls that ended with a usage the recorder accepted,
  and counts as missing exactly those that ended without one. A call whose usage is not valid, or that
  was served by a model outside the measurement, is in neither count: the calls that ended are those
  observed, those missing and those refused.\<close>

theorem recorded_calls_counted:
  assumes "json_validator (rv_ajv env)" "start_recorder env tk present = Inr st"
    and "recorder_session env is st = (st', fs)"
    and "distinct (concat (map input_ids is))" "[] \<notin> set (concat (map input_ids is))"
    and "rc_final st' = None" "finalize env tk' err st' = (st'', Inr r)"
  shows "distinct (map fst (rc_usage st')) \<and>
    us_observed (sum_total (rs_usage r)) =
      length (filter (\<lambda>(i, f). ends_call (snd i) \<and> \<not> refused_call f \<and> reports_usage (snd i)) (zip is fs)) \<and>
    us_missing (sum_total (rs_usage r)) =
      length (filter (\<lambda>(i, f). ends_call (snd i) \<and> \<not> refused_call f \<and> \<not> reports_usage (snd i)) (zip is fs)) \<and>
    us_observed (sum_total (rs_usage r)) + us_missing (sum_total (rs_usage r)) + calls_refused is fs = calls_ended is"
proof -
  have ajv: "rv_ajv env = schema_valid" by (rule json_validator_eq [OF assms(1)])
  note started = started_inv [OF ajv assms(2)]
  have "ids_inv {} st" using started by (simp add: ids_inv_def)
  then have keys: "distinct (map fst (rc_usage st'))" "reported (rc_usage st') = calls_recorded is fs"
    using session_calls [OF assms(3), of "{}"] assms(4,5) started by (simp_all add: reported_def)
  have total: "us_observed (sum_total (rs_usage r)) = length (filter id (calls_recorded is fs))"
    "us_missing (sum_total (rs_usage r)) = length (filter Not (calls_recorded is fs))"
    using finalized_result [OF assms(7,6)] summary_reported [of "rc_usage st'"] keys(2) by (metis ledger_summaries_def usage_summaries.select_convs(4))+
  show ?thesis
    using keys(1) total recorded_split [of "is" fs] calls_partition [OF session_length [OF assms(3)]]
      sum_length_filter_compl [of id "calls_recorded is fs"] by (simp add: comp_def)
qed

theorem recorded_calls_counted_witness:
  "\<exists>st st' st'' r. start_recorder example_recorder_env example_tick False = Inr st \<and>
    recorder_session example_recorder_env example_session st = (st', [None]) \<and>
    finalize example_recorder_env example_tick None st' = (st'', Inr r) \<and>
    us_observed (sum_total (rs_usage r)) = 1 \<and> us_missing (sum_total (rs_usage r)) = 0"
proof -
  obtain st st' st'' r where e: "start_recorder example_recorder_env example_tick False = Inr st"
    "recorder_session example_recorder_env example_session st = (st', [None])" "rc_final st' = None"
    "finalize example_recorder_env example_tick None st' = (st'', Inr r)"
    by (rule example_recorded)
  have "distinct (concat (map input_ids example_session))" "[] \<notin> set (concat (map input_ids example_session))"
    by (simp_all add: example_session_def example_tick_def)
  from recorded_calls_counted [OF example_env_validator e(1,2) this e(3,4)] e show ?thesis
    by (auto simp: example_session_def)
qed

text \<open>C16: A measurement is of one model: every message of the coding model that a recorder accepts was served by
  the provider and model the finalized result names. A message of another model throws and fails the attempt.\<close>

theorem recorded_model_fixed:
  assumes "recorder_session env is st = (st', fs)" "rc_final st' = None" "finalize env tk' err st' = (st'', Inr r)"
    and "j < length is" "input_message (snd (is ! j)) = Some m" "fs ! j = None"
  shows "same_model (rs_served r) (am_provider m) (am_model m)"
proof -
  have "rs_served r = rc_served st'" by (rule finalized_result [OF assms(3,2)])
  then show ?thesis using session_served [OF assms(1,4,5,6)] by simp
qed

theorem recorded_model_fixed_witness:
  "\<exists>st st' st'' r. start_recorder example_recorder_env example_tick False = Inr st \<and>
    recorder_session example_recorder_env example_session st = (st', [None]) \<and>
    finalize example_recorder_env example_tick None st' = (st'', Inr r) \<and> same_model (rs_served r) ''acme'' ''m1''"
proof -
  obtain st st' st'' r where e: "start_recorder example_recorder_env example_tick False = Inr st"
    "recorder_session example_recorder_env example_session st = (st', [None])" "rc_final st' = None"
    "finalize example_recorder_env example_tick None st' = (st'', Inr r)"
    by (rule example_recorded)
  have "same_model (rs_served r) (am_provider example_message) (am_model example_message)"
    by (rule recorded_model_fixed [OF e(2-4), of 0]) (simp_all add: example_session_def)
  with e show ?thesis by (auto simp: example_message_def)
qed

text \<open>C17: Only the selected model is measured: once a decision is in force, and as long as later decisions are of
  its tier, every message a recorder accepts was served by the model configured for that tier. A message of
  another model throws.\<close>

theorem selected_model_kept:
  assumes "recorder_session env is st = (st', fs)" "rc_decision st = Some d"
    "\<forall>i \<in> set is. pred_option (\<lambda>d'. rd_tier d' = rd_tier d) (input_decision (snd i))"
    "j < length is" "input_message (snd (is ! j)) = Some m" "fs ! j = None"
  shows "am_provider m = pm_provider (ro_roles (rv_options env) (case rd_tier d of TierWeak \<Rightarrow> Weak | TierStrong \<Rightarrow> Strong)) \<and>
    am_model m = pm_id (ro_roles (rv_options env) (case rd_tier d of TierWeak \<Rightarrow> Weak | TierStrong \<Rightarrow> Strong))"
  using assms
proof (induction "is" arbitrary: st fs j d)
  case (Cons i "is")
  obtain st1 f where s: "recorder_step env i st = (st1, f)" by fastforce
  then obtain fs' where r: "recorder_session env is st1 = (st', fs')" "fs = f # fs'" using Cons.prems(1) by (auto split: prod.splits)
  show ?case
  proof (cases j)
    case 0
    then show ?thesis using Cons.prems r(2) step_served(4) [OF s, of m] by (simp add: expected_model_def)
  next
    case (Suc k)
    obtain d1 where d1: "rc_decision st1 = Some d1" "rd_tier d1 = rd_tier d"
      using step_served(3) [OF s] Cons.prems(2,3) by (cases "input_decision (snd i)") auto
    have "\<forall>i \<in> set is. pred_option (\<lambda>d'. rd_tier d' = rd_tier d1) (input_decision (snd i))" using Cons.prems(3) d1(2) by simp
    from Cons.IH [OF r(1) d1(1) this, of k] show ?thesis using Suc Cons.prems(4-6) r(2) d1(2) by simp
  qed
qed simp

theorem selected_model_kept_witness:
  "am_provider example_message = pm_provider (ro_roles (rv_options example_recorder_env)
     (case rd_tier example_created of TierWeak \<Rightarrow> Weak | TierStrong \<Rightarrow> Strong)) \<and>
   am_model example_message = pm_id (ro_roles (rv_options example_recorder_env)
     (case rd_tier example_created of TierWeak \<Rightarrow> Weak | TierStrong \<Rightarrow> Strong))"
proof -
  have message: "am_provider example_message = ''acme''" "am_model example_message = ''m1''" "am_error example_message = None"
    "tk_id example_tick = ''c1''"
    by (simp_all add: example_message_def example_tick_def)
  let ?st = "(new_recorder example_new)\<lparr>rc_decision := Some example_created\<rparr>"
  have expected: "expected_model example_recorder_env ?st = Some example_model"
    by (simp add: expected_model_def example_recorder_env_def example_recorder_options_def)
  define st1 where "st1 = ?st\<lparr>rc_served := Some \<lparr>mi_provider = ''acme'', mi_model = ''m1'', mi_reported = am_response_model example_message\<rparr>,
    rc_usage := [(''c1'', \<lparr>ru_role = UCoding, ru_usage = Some example_counts, ru_complete = \<not> ended_incomplete example_message\<rparr>)]\<rparr>"
  have "snd (track_event example_recorder_env example_tick KindModelCall example_coding_call (Some ''c1'') (decision_ref st1) st1) = None"
    using example_logged by (simp add: st1_def new_recorder_def decision_ref_def)
  then obtain st' where "recorder_session example_recorder_env example_session ?st = (st', [None])"
    using message expected
    by (simp add: example_session_def take_pending_def new_recorder_def record_assistant_def example_message_usage
        record_call_def ledger_record_def Let_def error_text_def example_model_def st1_def example_coding_call_def case_prod_unfold)
  then show ?thesis by (rule selected_model_kept [of _ _ _ _ _ _ 0]) (simp_all add: example_session_def)
qed

text \<open>C7: What a result says of the execution is exactly what the session noted, status and category: the first
  limit that was hit, in the session or by the error it ended with, whatever failed besides; else that
  error, classified; else the last failure noted in the session, which are the errors of the routing
  controller, the messages of another model and the messages that ended incomplete with an error text; else
  the attempt is completed. So it is completed exactly when nothing of these happened. Usage that was
  refused, events that were refused, a failed compaction and a message that ended incomplete without a text
  are not noted and do not change the outcome.\<close>

theorem recorded_outcome_exact:
  assumes "json_validator (rv_ajv env)" "start_recorder env tk present = Inr st"
    and "recorder_session env is st = (st', fs)" "rc_final st' = None" "finalize env tk' err st' = (st'', Inr r)"
  shows "(rs_status r, rs_error_category r) =
      (case map limit_failure (session_limits is @ final_limit err) @ final_failure err @ rev (noted_failures env is fs) of
         [] \<Rightarrow> (StCompleted, None)
       | failure # _ \<Rightarrow> (fst failure, Some (snd failure))) \<and>
    (rs_status r = StCompleted \<longleftrightarrow> err = None \<and> (\<forall>(i, f) \<in> set (zip is fs). noted_failure env (snd i) f = None))"
proof -
  have ajv: "rv_ajv env = schema_valid" by (rule json_validator_eq [OF assms(1)])
  have "rc_error st = None" "rc_limit st = None" using started_inv [OF ajv assms(2)] by blast+
  then have s: "rc_error st' = first_of (rev (noted_failures env is fs))"
    "rc_limit st' = map_option limit_failure (first_of (session_limits is))"
    using session_failure [OF assms(3)] by (simp_all split: option.split)
  obtain st1 where n: "note_error env tk' err (settle tk' st') = (st1, None)"
    and r: "rs_status r = fi_status (final_input env tk' st1)" "rs_error_category r = fi_error_category (final_input env tk' st1)"
    by (rule finalized_result [OF assms(5,4)])
  define limits where "limits = map limit_failure (session_limits is @ final_limit err)"
  define failures where "failures = final_failure err @ rev (noted_failures env is fs)"
  have "rc_limit st1 = first_of limits" "rc_error st1 = first_of failures"
    using note_error_failure [OF n] s
    by (simp_all add: limits_def failures_def first_of_append first_of_map split: option.split)
  then have outcome: "(rs_status r, rs_error_category r) = (case limits @ failures of
      [] \<Rightarrow> (StCompleted, None) | failure # _ \<Rightarrow> (fst failure, Some (snd failure)))"
    by (simp add: r final_input_def first_of_def split: list.split)
  have bad: "fst x \<noteq> StCompleted" if "x \<in> set (limits @ failures)" for x
  proof -
    from that consider (limit) l where "x = limit_failure l" | (final) e where "x = error_status (final_message e) False"
      | (noted) "x \<in> set (noted_failures env is fs)"
      by (auto simp: limits_def failures_def final_failure_def split: option.splits)
    then show ?thesis by cases (use limit_failure_bad error_status_bad noted_failures_bad in simp_all)
  qed
  have "rs_status r = StCompleted \<longleftrightarrow> limits @ failures = []"
    using outcome bad by (cases "limits @ failures") auto
  also have "\<dots> \<longleftrightarrow> err = None \<and> noted_failures env is fs = []"
    using limit_noted [of fs "is" env] session_length [OF assms(3)]
    by (cases err) (auto simp: limits_def failures_def final_failure_def final_limit_def)
  also have "noted_failures env is fs = [] \<longleftrightarrow> (\<forall>(i, f) \<in> set (zip is fs). noted_failure env (snd i) f = None)"
    by (simp add: noted_failures_def map_filter_empty case_prod_unfold)
  finally show ?thesis using outcome by (simp add: limits_def failures_def)
qed

theorem recorded_outcome_exact_witness:
  "\<exists>st st' st'' r. start_recorder example_recorder_env example_tick False = Inr st \<and>
    recorder_session example_recorder_env example_session st = (st', [None]) \<and>
    finalize example_recorder_env example_tick None st' = (st'', Inr r) \<and> rs_status r = StCompleted"
proof -
  obtain st st' st'' r where e: "start_recorder example_recorder_env example_tick False = Inr st"
    "recorder_session example_recorder_env example_session st = (st', [None])" "rc_final st' = None"
    "finalize example_recorder_env example_tick None st' = (st'', Inr r)"
    by (rule example_recorded)
  have "noted_failure example_recorder_env (FromPi (MessageEnd (Some example_message))) None = None"
    by (simp add: example_message_def ended_incomplete_def)
  with recorded_outcome_exact [OF example_env_validator e] e show ?thesis by (auto simp: example_session_def)
qed

end
