(* ===== verification/Evaluation_Budget.thy ===== *)
theory Evaluation_Budget
  imports Schedule Usage_Ledger
begin

section \<open>Plans and monetary bounds of an experiment (src/evaluation/smoke.ts)\<close>

text \<open>
  The plan of an experiment and the bound on what one trial may cost, which decides whether the next
  trial still fits the monetary cap. Amounts are exact reals, the doubles of the program round.
  The hash of a schedule is the parameter \<open>digest\<close>.
\<close>

subsection \<open>When a monetary limit is possible\<close>

datatype limit_reason =
    NotPerToken model_role billing
  | NoCachePricing model_role

definition role_limit_reason :: "lab_config \<Rightarrow> model_role \<Rightarrow> limit_reason option" where
  "role_limit_reason config role =
     (let model = models config role
      in case lr_pricing model of
           None \<Rightarrow> Some (NotPerToken role (lr_billing model))
         | Some pricing \<Rightarrow>
             if lr_billing model \<noteq> BPerToken then Some (NotPerToken role (lr_billing model))
             else if p_cache_read pricing = None \<or> p_cache_write pricing = None
             then Some (NoCachePricing role) else None)"

fun first_reason :: "lab_config \<Rightarrow> model_role list \<Rightarrow> limit_reason option" where
  "first_reason config [] = None"
| "first_reason config (role # roles) =
     (case role_limit_reason config role of Some r \<Rightarrow> Some r | None \<Rightarrow> first_reason config roles)"

definition monetary_limit_reason :: "lab_config \<Rightarrow> limit_reason option" where
  "monetary_limit_reason config = first_reason config model_roles"

subsection \<open>The bound of a trial\<close>

text \<open>\<open>pricing!\<close> and the cache prices are defined once no reason was found.\<close>

definition request_bound :: "lab_config \<Rightarrow> model_role \<Rightarrow> real" where
  "request_bound config role =
     (case lr_pricing (models config role) of
        None \<Rightarrow> 0
      | Some pricing \<Rightarrow>
          let input_rate = max (p_input pricing)
                (max (price_or_zero (p_cache_read pricing)) (price_or_zero (p_cache_write pricing)))
          in (real (context_token_cap (execution config)) * input_rate +
              real (max_output_tokens (execution config)) * p_output pricing) / 1000000)"

definition conservative_trial_cost_bound :: "lab_config \<Rightarrow> session_mode \<Rightarrow> limit_reason + real" where
  "conservative_trial_cost_bound config mode =
     (case monetary_limit_reason config of
        Some reason \<Rightarrow> Inl reason
      | None \<Rightarrow>
          let coding = (if mode = WeakOnly then request_bound config Weak
                else if mode = StrongOnly then request_bound config Strong
                else max (request_bound config Weak) (request_bound config Strong))
          in Inr (coding * real (max_agent_turns (execution config)) +
               (if mode = Routed then request_bound config Classifier else 0)))"

subsection \<open>The plan\<close>

record plan_options =
  po_suite :: evaluation_suite
  po_repetitions :: jsnum
  po_seed :: nat
  po_corpus :: "string option"
  po_mean_agent_ms :: "real option"

record evaluation_plan =
  pl_suite :: evaluation_suite
  pl_corpus :: string
  pl_maximum_seconds :: nat
  pl_projected_seconds :: "real option"
  pl_available :: bool
  pl_task_count :: nat
  pl_modes :: "session_mode list"
  pl_repetitions :: jsnum
  pl_trials :: nat
  pl_classifier_calls :: nat
  pl_seed :: nat
  pl_roles :: "model_role \<Rightarrow> lab_role"
  pl_limits :: execution_config
  pl_limit_reason :: "limit_reason option"
  pl_schedule_hash :: "string option"

text \<open>\<open>monetaryLimitSupported\<close> is \<open>pl_limit_reason = None\<close>.\<close>

definition create_evaluation_plan :: "(scheduled_trial list \<Rightarrow> string) \<Rightarrow> lab_config \<Rightarrow> plan_options
    \<Rightarrow> schedule_error + evaluation_plan" where
  "create_evaluation_plan digest config options =
     (let corpus = (case po_corpus options of None \<Rightarrow> ''core'' | Some c \<Rightarrow> c)
      in bind_result (corpus_tasks corpus (po_suite options)) (\<lambda>tasks.
         let available = tasks \<noteq> []
         in bind_result (if available then evaluation_schedule tasks (po_seed options) (po_repetitions options)
              else Inr []) (\<lambda>schedule.
            Inr \<lparr>pl_suite = po_suite options, pl_corpus = corpus,
              pl_maximum_seconds = length schedule * timeout_seconds (execution config),
              pl_projected_seconds = map_option (\<lambda>ms. real (length schedule) * ms / 1000) (po_mean_agent_ms options),
              pl_available = available,
              pl_task_count = (if available then length tasks else 0),
              pl_modes = evaluation_modes,
              pl_repetitions = po_repetitions options,
              pl_trials = length schedule,
              pl_classifier_calls = (if available then length tasks * js_nat (po_repetitions options) else 0),
              pl_seed = po_seed options,
              pl_roles = models config,
              pl_limits = execution config,
              pl_limit_reason = monetary_limit_reason config,
              pl_schedule_hash = (if available then Some (digest schedule) else None)\<rparr>)))"

subsection \<open>What a bounded configuration has\<close>

lemma first_reason_None: "first_reason config roles = None \<longleftrightarrow> (\<forall>r \<in> set roles. role_limit_reason config r = None)"
  by (induction roles) (auto split: option.splits)

lemma role_limit_None:
  "role_limit_reason config role = None \<longleftrightarrow> lr_billing (models config role) = BPerToken \<and>
     (\<exists>p. lr_pricing (models config role) = Some p \<and> p_cache_read p \<noteq> None \<and> p_cache_write p \<noteq> None)"
  by (cases "lr_pricing (models config role)") (auto simp: role_limit_reason_def Let_def)

lemma no_reason_role:
  assumes "monetary_limit_reason config = None"
  obtains pricing read_price write_price where "lr_pricing (models config role) = Some pricing"
    "lr_billing (models config role) = BPerToken"
    "p_cache_read pricing = Some read_price" "p_cache_write pricing = Some write_price"
proof -
  have "role_limit_reason config role = None"
    using assms by (cases role) (simp_all add: monetary_limit_reason_def first_reason_None model_roles_def del: first_reason.simps)
  then show thesis
    using that by (auto simp: role_limit_reason_def Let_def split: option.splits if_splits)
qed

lemma bound_Inr:
  "conservative_trial_cost_bound config mode = Inr b \<Longrightarrow> monetary_limit_reason config = None"
  by (auto simp: conservative_trial_cost_bound_def split: option.splits)

lemma bound_modes:
  assumes "conservative_trial_cost_bound config mode = Inr b"
  shows "b = (case mode of
      WeakOnly \<Rightarrow> request_bound config Weak * real (max_agent_turns (execution config))
    | StrongOnly \<Rightarrow> request_bound config Strong * real (max_agent_turns (execution config))
    | Routed \<Rightarrow> max (request_bound config Weak) (request_bound config Strong) * real (max_agent_turns (execution config))
        + request_bound config Classifier)"
  using assms by (cases mode) (auto simp: conservative_trial_cost_bound_def Let_def split: option.splits)

text \<open>
  A call within the limits of one request: everything that goes in, cached or not, fits the context
  cap, and the output fits its cap.
\<close>

definition call_within :: "lab_config \<Rightarrow> normalized_usage \<Rightarrow> bool" where
  "call_within config u \<longleftrightarrow>
     nu_input u + nu_cache_read u + nu_cache_write u \<le> context_token_cap (execution config) \<and>
     nu_output u \<le> max_output_tokens (execution config)"

lemma call_price_bound:
  assumes "call_within config u" and "lr_pricing (models config role) = Some pricing" "pricing_wf pricing"
  shows "call_price (prices_of pricing) u \<le> request_bound config role * 1000000"
proof -
  define m where "m = max (p_input pricing)
    (max (price_or_zero (p_cache_read pricing)) (price_or_zero (p_cache_write pricing)))"
  have m: "p_input pricing \<le> m" "price_or_zero (p_cache_read pricing) \<le> m" "price_or_zero (p_cache_write pricing) \<le> m"
    by (simp_all add: m_def)
  have nonneg: "0 \<le> m" "0 \<le> p_output pricing" using assms(3) m(1) by (auto simp: pricing_wf_def)
  have "call_price (prices_of pricing) u \<le>
      real (nu_input u) * m + real (nu_cache_read u) * m + real (nu_cache_write u) * m + real (nu_output u) * p_output pricing"
    using mult_left_mono [OF m(1), of "real (nu_input u)"] mult_left_mono [OF m(2), of "real (nu_cache_read u)"]
      mult_left_mono [OF m(3), of "real (nu_cache_write u)"]
    by (simp add: call_price_def prices_of_def)
  also have "\<dots> = real (nu_input u + nu_cache_read u + nu_cache_write u) * m + real (nu_output u) * p_output pricing"
    by (simp add: algebra_simps)
  also have "\<dots> \<le> real (context_token_cap (execution config)) * m +
      real (max_output_tokens (execution config)) * p_output pricing"
    using assms(1) nonneg unfolding call_within_def
    by (intro add_mono mult_right_mono) (simp_all only: of_nat_le_iff)
  also have "\<dots> = request_bound config role * 1000000"
    by (simp add: request_bound_def assms(2) m_def Let_def)
  finally show ?thesis .
qed

lemma calls_price_bound:
  assumes "\<forall>u \<in> set us. call_within config u" and "lr_pricing (models config role) = Some pricing" "pricing_wf pricing"
  shows "sum_list (map (call_price (prices_of pricing)) us) / 1000000 \<le> request_bound config role * real (length us)"
  using assms(1)
proof (induction us)
  case (Cons u us)
  then show ?case using call_price_bound [of config u role pricing] assms(2,3) by (simp add: algebra_simps)
qed simp

lemma request_bound_nonneg:
  assumes "lr_pricing (models config role) = Some pricing" "pricing_wf pricing"
  shows "0 \<le> request_bound config role"
  using assms by (auto simp: request_bound_def Let_def pricing_wf_def intro!: divide_nonneg_nonneg add_nonneg_nonneg mult_nonneg_nonneg)

lemma role_cost_bound:
  assumes "calculate_role_cost (models config role) (summarize records) prices = rc" "rc_estimated rc = Some cost"
    and "token_total nu_total records < 2 ^ 53" "\<forall>u \<in> set (usages records). usage_wf u \<and> call_within config u"
    and "length records \<le> n" "role_wf (models config role)"
  shows "cost \<le> request_bound config role * real n"
proof -
  obtain pricing where p: "lr_pricing (models config role) = Some pricing"
    and cost: "calculate_with_pricing (summarize records) (prices_of pricing) = Some cost"
    using assms(1,2) by (auto simp: calculate_role_cost_def Let_def split: option.splits if_splits)
  have wf: "pricing_wf pricing" using assms(6) p by (simp add: role_wf_def)
  have "cost = sum_list (map (call_price (prices_of pricing)) (usages records)) / 1000000"
    using cost price_of_summary [of records "prices_of pricing"] assms(3,4) by (auto split: if_splits)
  also have "\<dots> \<le> request_bound config role * real (length (usages records))"
    using assms(4) by (intro calls_price_bound [OF _ p wf]) blast
  also have "\<dots> \<le> request_bound config role * real n"
    using usages_le [of records] assms(5) request_bound_nonneg [OF p wf]
    by (intro mult_left_mono) simp_all
  finally show ?thesis .
qed

text \<open>The role whose model codes in a trial, as \<open>selectedTier\<close> of the recorder.\<close>

definition coding_role :: "session_mode \<Rightarrow> model_role \<Rightarrow> bool" where
  "coding_role mode role \<longleftrightarrow> role \<noteq> Classifier \<and> (mode = WeakOnly \<longrightarrow> role = Weak) \<and>
     (mode = StrongOnly \<longrightarrow> role = Strong)"

definition coding_records :: "usage_ledger \<Rightarrow> recorded_usage list" where
  "coding_records calls = filter (\<lambda>r. ru_role r \<in> set [UCoding, UCompaction]) (map snd calls)"

lemma coding_total: "token_total f (coding_records calls) \<le> token_total f (map snd calls)"
  by (induction calls) (auto simp: coding_records_def token_total_def split: option.splits)

lemma classifier_total: "token_total f (records_of_role calls role) \<le> token_total f (map snd calls)"
  by (induction calls) (auto simp: records_of_role_def token_total_def split: option.splits)

lemma records_within:
  assumes "ledger_wf calls" "\<forall>u \<in> set (usages (map snd calls)). call_within config u"
    and "set records \<subseteq> set (map snd calls)"
  shows "\<forall>u \<in> set (usages records). usage_wf u \<and> call_within config u"
proof
  fix u assume "u \<in> set (usages records)"
  then have "u \<in> set (usages (map snd calls))" using assms(3) unfolding usages_set by blast
  with assms(1,2) show "usage_wf u \<and> call_within config u" by (simp add: ledger_wf_def)
qed

subsection \<open>Properties\<close>

text \<open>C25: The bound is conservative for a trial whose provider calls, compaction included, are at most
  \<open>maxAgentTurns\<close> coding calls and, in routed mode, one classifier call, each within the context
  and output caps: the estimated cost of the trial never exceeds it.\<close>

theorem trial_cost_bounded:
  assumes "conservative_trial_cost_bound config mode = Inr bound" and "config_wf config"
    and "coding_role mode role" and "ledger_wf calls" and "token_total nu_total (map snd calls) < 2 ^ 53"
    and "\<forall>u \<in> set (usages (map snd calls)). call_within config u"
    and "length (coding_records calls) \<le> max_agent_turns (execution config)"
    and "length (records_of_role calls UClassifier) \<le> (if mode = Routed then 1 else 0)"
    and "rc_estimated (calculate_role_cost (models config role) (summary_for_roles calls [UCoding, UCompaction]) prices) = Some coding"
    and "rc_estimated (calculate_role_cost (models config Classifier) (sum_classifier (ledger_summaries calls)) prices') = Some classifier"
  shows "classifier + coding \<le> bound"
proof -
  have wf: "role_wf (models config r)" for r
    using assms(2) by (cases r) (simp_all add: config_wf_def model_roles_def)
  have nonneg: "0 \<le> request_bound config r" for r
  proof -
    obtain p where p: "lr_pricing (models config r) = Some p"
      by (rule no_reason_role [OF bound_Inr [OF assms(1)], of r])
    have "pricing_wf p" using wf [of r] by (simp add: role_wf_def p)
    with p show ?thesis by (rule request_bound_nonneg)
  qed
  have "coding \<le> request_bound config role * real (max_agent_turns (execution config))"
  proof (rule role_cost_bound [OF _ assms(9)])
    show "calculate_role_cost (models config role) (summarize (coding_records calls)) prices =
        calculate_role_cost (models config role) (summary_for_roles calls [UCoding, UCompaction]) prices"
      by (simp only: summary_for_roles_def coding_records_def)
    show "token_total nu_total (coding_records calls) < 2 ^ 53"
      using coding_total [of nu_total calls] assms(5) by (rule order_le_less_trans)
    show "\<forall>u \<in> set (usages (coding_records calls)). usage_wf u \<and> call_within config u"
      by (rule records_within [OF assms(4,6)]) (auto simp: coding_records_def)
  qed (use assms(7) wf in simp_all)
  also have "\<dots> \<le> (case mode of WeakOnly \<Rightarrow> request_bound config Weak | StrongOnly \<Rightarrow> request_bound config Strong
      | Routed \<Rightarrow> max (request_bound config Weak) (request_bound config Strong)) * real (max_agent_turns (execution config))"
    using assms(3) by (intro mult_right_mono) (cases role; cases mode; simp add: coding_role_def; fail)+
  finally have code: "coding \<le> \<dots>" .
  have "classifier \<le> request_bound config Classifier * real (if mode = Routed then 1 else 0)"
  proof (rule role_cost_bound [OF _ assms(10)])
    show "calculate_role_cost (models config Classifier) (summarize (records_of_role calls UClassifier)) prices' =
        calculate_role_cost (models config Classifier) (sum_classifier (ledger_summaries calls)) prices'"
      by (simp add: ledger_summaries_def)
    show "token_total nu_total (records_of_role calls UClassifier) < 2 ^ 53"
      using classifier_total [of nu_total calls] assms(5) by (rule order_le_less_trans)
    show "\<forall>u \<in> set (usages (records_of_role calls UClassifier)). usage_wf u \<and> call_within config u"
      by (rule records_within [OF assms(4,6)]) (auto simp: records_of_role_def)
  qed (use assms(8) wf in simp_all)
  with code show ?thesis by (cases mode) (simp_all add: bound_modes [OF assms(1)])
qed

definition bounded_role :: lab_role where
  "bounded_role = \<lparr>lr_provider = ''acme'', lr_model = ''m1'', lr_billing = BPerToken,
     lr_pricing = Some \<lparr>p_input = 1, p_output = 1, p_cache_read = Some 1, p_cache_write = Some 1, p_as_of = ''2026-01-31''\<rparr>\<rparr>"

definition bounded_config :: lab_config where
  "bounded_config = example_config\<lparr>models := (\<lambda>_. bounded_role),
     execution := (execution example_config)\<lparr>max_agent_turns := 1, context_token_cap := 100, max_output_tokens := 100\<rparr>\<rparr>"

lemma bounded_config_wf: "config_wf bounded_config"
  using example_config_wf
  by (simp add: config_wf_def bounded_config_def bounded_role_def role_wf_def pricing_wf_def execution_wf_def
      int32_positive_def has_nonspace_def is_space_def is_date_def is_digit_def example_config_def)

lemma bounded_bound: "conservative_trial_cost_bound bounded_config WeakOnly = Inr (200 / 1000000)"
  by (simp add: conservative_trial_cost_bound_def monetary_limit_reason_def model_roles_def role_limit_reason_def
      bounded_config_def bounded_role_def request_bound_def price_or_zero_def Let_def)

definition full_usage :: normalized_usage where
  "full_usage = \<lparr>nu_input = 100, nu_output = 100, nu_cache_read = 0, nu_cache_write = 0,
     nu_reasoning = None, nu_total = 200\<rparr>"

definition full_call :: "usage_role \<Rightarrow> recorded_usage" where
  "full_call role = \<lparr>ru_role = role, ru_usage = Some full_usage, ru_complete = True\<rparr>"

lemma full_cost:
  "rc_estimated (calculate_role_cost bounded_role (summarize [full_call UCoding]) None) = Some (200 / 1000000)"
  "rc_estimated (calculate_role_cost bounded_role (summarize [full_call UCoding, full_call UCompaction]) None) =
     Some (400 / 1000000)"
  "rc_estimated (calculate_role_cost bounded_role (summarize []) None) = Some 0"
  by (simp_all add: calculate_role_cost_def bounded_role_def summarize_def full_call_def full_usage_def Let_def
      calculate_with_pricing_def prices_of_def js_sum_def js_add_exact price_or_zero_def usages_def)

theorem trial_cost_bounded_witness: "0 + 200 / 1000000 \<le> (200 / 1000000 :: real)"
proof (rule trial_cost_bounded [OF bounded_bound bounded_config_wf,
      where role = Weak and calls = "[(''c1'', full_call UCoding)]" and prices = None and prices' = None])
  show "rc_estimated (calculate_role_cost (models bounded_config Weak)
      (summary_for_roles [(''c1'', full_call UCoding)] [UCoding, UCompaction]) None) = Some (200 / 1000000)"
    using full_cost(1) by (simp add: bounded_config_def summary_for_roles_def full_call_def)
  show "rc_estimated (calculate_role_cost (models bounded_config Classifier)
      (sum_classifier (ledger_summaries [(''c1'', full_call UCoding)])) None) = Some 0"
    using full_cost(3) by (simp add: bounded_config_def ledger_summaries_def records_of_role_def full_call_def)
qed (simp_all add: coding_role_def ledger_wf_def full_call_def usage_wf_def full_usage_def token_total_def
    call_within_def bounded_config_def coding_records_def records_of_role_def)

text \<open>C26: The bound does not cover compaction: its requests are not agent turns but are priced with the
  coding calls, so a weak-only trial that stays within \<open>maxAgentTurns\<close> turns and within the caps of
  every request can cost more than the amount reserved for it.\<close>

theorem compaction_exceeds_bound:
  "\<exists>config calls bound cost. config_wf config \<and> conservative_trial_cost_bound config WeakOnly = Inr bound \<and>
    length (records_of_role calls UCoding) \<le> max_agent_turns (execution config) \<and> ledger_wf calls \<and>
    list_all (call_within config) (usages (map snd calls)) \<and>
    rc_estimated (calculate_role_cost (models config Weak) (summary_for_roles calls [UCoding, UCompaction]) None) = Some cost \<and>
    bound < cost"
proof (intro exI conjI)
  let ?calls = "[(''c1'', full_call UCoding), (''c2'', full_call UCompaction)]"
  show "config_wf bounded_config" by (rule bounded_config_wf)
  show "conservative_trial_cost_bound bounded_config WeakOnly = Inr (200 / 1000000)" by (rule bounded_bound)
  show "rc_estimated (calculate_role_cost (models bounded_config Weak) (summary_for_roles ?calls [UCoding, UCompaction]) None) =
      Some (400 / 1000000)"
    using full_cost(2) by (simp add: bounded_config_def summary_for_roles_def full_call_def)
qed (simp_all add: records_of_role_def full_call_def ledger_wf_def usage_wf_def full_usage_def call_within_def
    bounded_config_def)

text \<open>The plan of an experiment counts what the schedule holds: three trials for every task and
  repetition, one classifier call for each, the longest agent time, and a monetary limit exactly
  when every role is billed per token with all its cache prices.\<close>

theorem plan_exact:
  assumes "create_evaluation_plan digest config options = Inr plan"
    and "corpus_tasks (case po_corpus options of None \<Rightarrow> ''core'' | Some c \<Rightarrow> c) (po_suite options) = Inr tasks"
    and "tasks \<noteq> []"
  shows "pl_trials plan = length tasks * js_nat (po_repetitions options) * 3 \<and>
    pl_trials plan = 3 * pl_classifier_calls plan \<and>
    pl_maximum_seconds plan = pl_trials plan * timeout_seconds (execution config) \<and>
    (pl_limit_reason plan = None \<longleftrightarrow> (\<forall>role. lr_billing (models config role) = BPerToken \<and>
      (\<exists>p. lr_pricing (models config role) = Some p \<and> p_cache_read p \<noteq> None \<and> p_cache_write p \<noteq> None)))"
proof -
  obtain sched where sched: "evaluation_schedule tasks (po_seed options) (po_repetitions options) = Inr sched"
    and plan: "pl_trials plan = length sched" "pl_classifier_calls plan = length tasks * js_nat (po_repetitions options)"
      "pl_maximum_seconds plan = length sched * timeout_seconds (execution config)"
      "pl_limit_reason plan = monetary_limit_reason config"
    using assms by (auto simp: create_evaluation_plan_def Let_def)
  have "monetary_limit_reason config = None \<longleftrightarrow> (\<forall>role \<in> set model_roles. role_limit_reason config role = None)"
    by (simp add: monetary_limit_reason_def first_reason_None)
  also have "\<dots> \<longleftrightarrow> (\<forall>role. role_limit_reason config role = None)"
    by (simp add: model_roles_def) (metis model_role.exhaust)
  also have "\<dots> \<longleftrightarrow> (\<forall>role. lr_billing (models config role) = BPerToken \<and>
      (\<exists>p. lr_pricing (models config role) = Some p \<and> p_cache_read p \<noteq> None \<and> p_cache_write p \<noteq> None))"
    by (simp only: role_limit_None)
  finally show ?thesis using schedule_length [OF sched] plan by simp
qed

definition example_plan_options :: plan_options where
  "example_plan_options = \<lparr>po_suite = SuiteSmoke, po_repetitions = Fin 1, po_seed = 7, po_corpus = None,
     po_mean_agent_ms = None\<rparr>"

theorem plan_exact_witness:
  "\<exists>plan. create_evaluation_plan (\<lambda>_. ''h'') bounded_config example_plan_options = Inr plan \<and> pl_trials plan = 9"
proof -
  have tasks: "corpus_tasks ''core'' SuiteSmoke = Inr [''01-null-summary'', ''02-create-validation'', ''03-stable-filter'']"
    by code_simp
  obtain plan where plan: "create_evaluation_plan (\<lambda>_. ''h'') bounded_config example_plan_options = Inr plan"
    using tasks by (simp add: create_evaluation_plan_def example_plan_options_def evaluation_schedule_def
        repetitions_ok_def split_def Let_def)
  from plan_exact [OF plan, of "[''01-null-summary'', ''02-create-validation'', ''03-stable-filter'']"] tasks
  have "pl_trials plan = 9" by (simp add: example_plan_options_def)
  with plan show ?thesis by blast
qed

end
