(* ===== verification/Evaluation_Manifest.thy ===== *)
theory Evaluation_Manifest
  imports Evaluation_Budget Benchmark Run_Artifacts
begin

section \<open>The manifest of an experiment (src/evaluation/smoke.ts)\<close>

text \<open>
  What an experiment is fixed to before its first trial: the schema of a manifest in its two versions,
  its validation and its creation from a configuration, the result of the configuration check and
  the loaded tasks. A manifest is JSON, since it is hashed as it is written; \<open>digest\<close> is the
  SHA-256 of \<open>JSON.stringify\<close> and \<open>sha\<close> that of the contents of a file.
\<close>

subsection \<open>The schema\<close>

text \<open>\<open>^\d{4}-\d{2}-\d{2}T\<close>.\<close>

definition is_timestamp :: "string \<Rightarrow> bool" where
  "is_timestamp s \<longleftrightarrow> 10 < length s \<and> is_date (take 10 s) \<and> s ! 10 = CHR ''T''"

definition seed_schema :: schema where
  "seed_schema = Schema [KType [TInteger], KMinimum 0, KMaximum 4294967295]"

definition slug_schema :: schema where
  "slug_schema = Schema [KType [TString], KPattern is_attempt_slug]"

definition task_id_schema :: schema where
  "task_id_schema = Schema [KEnum (map JStr all_task_ids)]"

definition mode_schema :: schema where
  "mode_schema = Schema [KEnum [JStr ''weak-only'', JStr ''strong-only'', JStr ''routed'']]"

definition fingerprints_schema :: schema where
  "fingerprints_schema = Schema
     [KType [TObject],
      KRequired [''value'', ''configHash'', ''capabilityCardHash'', ''modelMetadataHash'', ''providerConfigHash''],
      KClosed
        [(''value'', task_hash_string), (''configHash'', task_hash_string), (''capabilityCardHash'', task_hash_string),
         (''modelMetadataHash'', task_hash_string), (''providerConfigHash'', task_hash_string)]]"

definition manifest_role_schema :: schema where
  "manifest_role_schema = Schema
     [KType [TObject], KRequired [''provider'', ''model''],
      KProperties
        [(''provider'', task_text), (''model'', task_text),
         (''billing'', Schema [KEnum [JStr ''unknown'', JStr ''subscription'', JStr ''per-token'']])]]"

definition manifest_roles_schema :: schema where
  "manifest_roles_schema = Schema
     [KType [TObject], KRequired [''classifier'', ''weak'', ''strong''],
      KClosed [(''classifier'', manifest_role_schema), (''weak'', manifest_role_schema),
        (''strong'', manifest_role_schema)]]"

definition source_schema :: schema where
  "source_schema = Schema
     [KType [TObject], KRequired [''revision'', ''dirty''],
      KClosed [(''revision'', Schema [KType [TString, TNull], KPattern is_revision]),
        (''dirty'', Schema [KType [TBool, TNull]])]]"

definition images_schema :: schema where
  "images_schema = Schema
     [KType [TObject], KRequired [''agent'', ''evaluator'', ''mock''],
      KClosed [(''agent'', task_text), (''evaluator'', task_text),
        (''mock'', Schema [KType [TString, TNull], KMinLength 1])]]"

definition pi_version :: string where
  "pi_version = ''0.85.0''"

definition switchyard_revision :: string where
  "switchyard_revision = ''2dd67d76ad12961f92359153e03686773e3e8761''"

definition upstream_schema :: schema where
  "upstream_schema = Schema
     [KType [TObject], KRequired [''piVersion'', ''switchyardRevision'', ''pnpmLockHash'', ''cargoLockHash''],
      KClosed
        [(''piVersion'', Schema [KConst (JStr pi_version)]),
         (''switchyardRevision'', Schema [KConst (JStr switchyard_revision)]),
         (''pnpmLockHash'', task_hash_string), (''cargoLockHash'', task_hash_string)]]"

definition manifest_tasks_schema :: schema where
  "manifest_tasks_schema = Schema
     [KType [TArray], KMinItems 3, KMaxItems 42,
      KItems (Schema
        [KType [TObject], KRequired [''id'', ''taskHash'', ''sourceHash'', ''validatorHash'', ''publicPrompt''],
         KClosed
           [(''id'', task_id_schema), (''taskHash'', task_hash_string), (''sourceHash'', task_hash_string),
            (''validatorHash'', task_hash_string), (''publicPrompt'', task_text)]])]"

definition manifest_trial_schema :: schema where
  "manifest_trial_schema = Schema
     [KType [TObject],
      KRequired [''order'', ''trialId'', ''attemptId'', ''attemptIds'', ''taskId'', ''repetition'', ''mode'', ''seed''],
      KClosed
        [(''order'', Schema [KType [TInteger], KMinimum 0]),
         (''trialId'', slug_schema), (''attemptId'', slug_schema),
         (''attemptIds'', Schema [KType [TArray], KMinItems max_attempts_per_trial, KMaxItems max_attempts_per_trial,
            KUniqueItems, KItems slug_schema]),
         (''taskId'', task_id_schema),
         (''repetition'', Schema [KType [TInteger], KMinimum 0, KMaximum 99]),
         (''mode'', mode_schema),
         (''seed'', seed_schema)]]"

definition any_object :: schema where
  "any_object = Schema [KType [TObject]]"

definition manifest_required :: "string list" where
  "manifest_required =
     [''schemaVersion'', ''manifestHash'', ''experimentId'', ''createdAt'', ''evidenceKind'', ''suite'',
      ''seed'', ''repetitions'', ''maxCostUsd'', ''authProfile'', ''threshold'', ''fingerprints'', ''roles'',
      ''limits'', ''source'', ''images'', ''upstream'', ''configuration'', ''tasks'', ''schedule'']"

definition manifest_properties :: "nat \<Rightarrow> (string \<times> schema) list" where
  "manifest_properties version =
     [(''schemaVersion'', Schema [KConst (JNum (real version))]),
      (''manifestHash'', task_hash_string),
      (''experimentId'', Schema [KType [TString], KPattern is_run_id]),
      (''createdAt'', Schema [KType [TString], KPattern is_timestamp]),
      (''evidenceKind'', Schema [KEnum [JStr ''mock'', JStr ''live'']]),
      (''suite'', Schema [KEnum [JStr ''smoke'', JStr ''dev'', JStr ''heldout'', JStr ''full'']]),
      (''seed'', seed_schema),
      (''repetitions'', Schema [KType [TInteger], KMinimum 1, KMaximum 100]),
      (''maxCostUsd'', Schema [KType [TNumber, TNull], KExclusiveMinimum 0]),
      (''authProfile'', Schema [KType [TString], KPattern is_profile]),
      (''threshold'', Schema [KType [TNumber], KMinimum 0, KMaximum 1]),
      (''fingerprints'', fingerprints_schema),
      (''roles'', manifest_roles_schema),
      (''limits'', any_object),
      (''source'', source_schema),
      (''images'', images_schema),
      (''upstream'', upstream_schema),
      (''configuration'', any_object),
      (''tasks'', manifest_tasks_schema),
      (''schedule'', Schema [KType [TArray], KMinItems 9, KMaxItems 12600, KItems manifest_trial_schema])]"

definition manifest_schema_v1 :: schema where
  "manifest_schema_v1 = Schema [KType [TObject], KRequired manifest_required, KClosed (manifest_properties 1)]"

definition manifest_schema_v2 :: schema where
  "manifest_schema_v2 = Schema
     [KType [TObject],
      KRequired (manifest_required @ [''corpus'', ''corpusHash'', ''sourceContentHash'', ''benchmark'']),
      KClosed (manifest_properties 2 @
        [(''corpus'', any_object), (''corpusHash'', task_hash_string), (''sourceContentHash'', task_hash_string),
         (''benchmark'', Schema [KType [TObject, TNull]])])]"

subsection \<open>Reading a manifest\<close>

record manifest_task =
  mt_id :: string
  mt_hash :: string
  mt_source :: string
  mt_validator :: string
  mt_prompt :: string

text \<open>The manifest as the later steps read it, with the JSON it stands for.\<close>

record smoke_manifest =
  mf_json :: json
  mf_version2 :: bool
  mf_corpus :: string
  mf_hash :: string
  mf_experiment :: string
  mf_evidence :: evidence_kind
  mf_suite :: evaluation_suite
  mf_seed :: nat
  mf_repetitions :: nat
  mf_max_cost :: "real option"
  mf_auth_profile :: string
  mf_threshold :: real
  mf_fingerprint :: fingerprint
  mf_config :: lab_config
  mf_tasks :: "manifest_task list"
  mf_schedule :: "scheduled_trial list"

definition decode_manifest_task :: "json \<Rightarrow> manifest_task" where
  "decode_manifest_task j =
     \<lparr>mt_id = json_str (json_get ''id'' j), mt_hash = json_str (json_get ''taskHash'' j),
      mt_source = json_str (json_get ''sourceHash'' j), mt_validator = json_str (json_get ''validatorHash'' j),
      mt_prompt = json_str (json_get ''publicPrompt'' j)\<rparr>"

definition decode_mode :: "json \<Rightarrow> session_mode" where
  "decode_mode j = (if j = JStr ''weak-only'' then WeakOnly else if j = JStr ''strong-only'' then StrongOnly else Routed)"

definition decode_trial :: "json \<Rightarrow> scheduled_trial" where
  "decode_trial j =
     \<lparr>se_order = json_nat (json_get ''order'' j), se_trial = json_str (json_get ''trialId'' j),
      se_attempt = json_str (json_get ''attemptId'' j), se_attempts = json_strs (json_get ''attemptIds'' j),
      se_task = json_str (json_get ''taskId'' j), se_repetition = json_nat (json_get ''repetition'' j),
      se_mode = decode_mode (json_get ''mode'' j), se_seed = json_nat (json_get ''seed'' j)\<rparr>"

definition decode_suite :: "json \<Rightarrow> evaluation_suite" where
  "decode_suite j = (if j = JStr ''smoke'' then SuiteSmoke else if j = JStr ''dev'' then SuiteDev
     else if j = JStr ''heldout'' then SuiteHeldout else SuiteFull)"

definition decode_fingerprint :: "json \<Rightarrow> fingerprint" where
  "decode_fingerprint j =
     \<lparr>fp_value = json_str (json_get ''value'' j), fp_config = json_str (json_get ''configHash'' j),
      fp_models = json_str (json_get ''modelMetadataHash'' j),
      fp_providers = json_str (json_get ''providerConfigHash'' j),
      fp_capability = json_str (json_get ''capabilityCardHash'' j)\<rparr>"

definition manifest_corpus :: "json \<Rightarrow> string" where
  "manifest_corpus m = (case json_field ''corpus'' m of
     None \<Rightarrow> ''core'' | Some c \<Rightarrow> json_str (json_get ''id'' c))"

definition decode_manifest :: "json \<Rightarrow> lab_config \<Rightarrow> smoke_manifest" where
  "decode_manifest m config =
     \<lparr>mf_json = m,
      mf_version2 = (json_get ''schemaVersion'' m = JNum 2),
      mf_corpus = manifest_corpus m,
      mf_hash = json_str (json_get ''manifestHash'' m),
      mf_experiment = json_str (json_get ''experimentId'' m),
      mf_evidence = (if json_get ''evidenceKind'' m = JStr ''mock'' then MockEvidence else LiveEvidence),
      mf_suite = decode_suite (json_get ''suite'' m),
      mf_seed = json_nat (json_get ''seed'' m),
      mf_repetitions = json_nat (json_get ''repetitions'' m),
      mf_max_cost = (case json_get ''maxCostUsd'' m of JNum r \<Rightarrow> Some r | _ \<Rightarrow> None),
      mf_auth_profile = json_str (json_get ''authProfile'' m),
      mf_threshold = json_num (json_get ''threshold'' m),
      mf_fingerprint = decode_fingerprint (json_get ''fingerprints'' m),
      mf_config = config,
      mf_tasks = map decode_manifest_task (json_items (json_get ''tasks'' m)),
      mf_schedule = map decode_trial (json_items (json_get ''schedule'' m))\<rparr>"

definition trial_json :: "scheduled_trial \<Rightarrow> json" where
  "trial_json e = JObj
     [(''order'', JNum (real (se_order e))), (''trialId'', JStr (se_trial e)), (''attemptId'', JStr (se_attempt e)),
      (''attemptIds'', JArr (map JStr (se_attempts e))), (''taskId'', JStr (se_task e)),
      (''repetition'', JNum (real (se_repetition e))), (''mode'', JStr (mode_string (se_mode e))),
      (''seed'', JNum (real (se_seed e)))]"

lemma decode_trial_json [simp]: "decode_trial (trial_json e) = e"
proof -
  have "decode_mode (JStr (mode_string m)) = m" for m by (cases m) (simp_all add: decode_mode_def)
  then show ?thesis by (simp add: decode_trial_def trial_json_def json_get_def json_strs_def comp_def)
qed

subsection \<open>Validation\<close>

datatype evaluation_error =
    InvalidManifest
  | ManifestRegistry schedule_error
  | CorpusRegistryChanged
  | ManifestBenchmark benchmark_error
  | DiffersFromBenchmark
  | ManifestTasksMismatch
  | ManifestConfig config_error
  | ManifestHashMismatch
  | ManifestIdentities
  | CheckInvalid
  | CheckIncomplete
  | CheckRoleMissing model_role
  | ResolvedModelMismatch model_role
  | AuthenticationRequired string
  | ManifestTaskError task_error
  | BadMaximumCost
  | LimitUnavailable limit_reason
  | InsufficientBudget real
  | ProvenanceRequired
  | ExperimentExists
  | JobOutside nat
  | AttemptOutside nat
  | TaskAbsent string
  | BilledUsageUnknown
  | BudgetExhausted string real real
  | AttemptUnreadable artifact_error
  | AttemptLogMissing
  | AttemptIdentityMismatch string
  | RecoveryExhausted string
  | ResumeSourceChanged
  | ResumeProtocolChanged
  | ResumeEvidence evidence_kind
  | ResumeConfigurationChanged
  | ResumeTaskChanged string
  | AttemptFingerprintMismatch string
  | AttemptProvenanceMismatch string
  | ReportInvalid
  | ReportCounts
  | ReportModeCounts session_mode

definition task_identity_json :: "json \<Rightarrow> json" where
  "task_identity_json t = JObj
     [(''id'', json_get ''id'' t), (''taskHash'', json_get ''taskHash'' t),
      (''sourceHash'', json_get ''sourceHash'' t), (''validatorHash'', json_get ''validatorHash'' t)]"

definition benchmark_matches :: "json \<Rightarrow> json \<Rightarrow> bool" where
  "benchmark_matches m p \<longleftrightarrow>
     json_get ''suite'' m = json_get ''suite'' p \<and>
     json_get ''id'' (json_get ''corpus'' m) = json_get ''id'' (json_get ''corpus'' p) \<and>
     list_all (\<lambda>k. json_get k m = json_get k p)
       [''seed'', ''repetitions'', ''maxCostUsd'', ''sourceContentHash'', ''evidenceKind'', ''configuration''] \<and>
     json_get ''agent'' (json_get ''images'' m) = json_get ''agent'' (json_get ''images'' p) \<and>
     json_get ''evaluator'' (json_get ''images'' m) = json_get ''evaluator'' (json_get ''images'' p) \<and>
     JArr (map task_identity_json (json_items (json_get ''tasks'' m))) = json_get ''tasks'' p"

text \<open>The checks of version 2: the registered corpus and the frozen benchmark.\<close>

definition version2_checks :: "(schema \<Rightarrow> json \<Rightarrow> bool) \<Rightarrow> (json \<Rightarrow> string) \<Rightarrow> json \<Rightarrow> evaluation_error + unit" where
  "version2_checks ajv digest m =
     (if json_get ''schemaVersion'' m \<noteq> JNum 2 then Inr ()
      else
        bind_result (lift_error ManifestRegistry (corpus_definition (manifest_corpus m))) (\<lambda>corpus.
        if json_get ''corpus'' m \<noteq> corpus_json corpus \<or>
          json_get ''corpusHash'' m \<noteq> JStr (digest (json_get ''corpus'' m)) then Inl CorpusRegistryChanged
        else if json_get ''benchmark'' m = JNull then Inr ()
        else
          bind_result (lift_error ManifestBenchmark
              (validate_benchmark_protocol ajv digest (json_get ''benchmark'' m))) (\<lambda>protocol.
          if benchmark_matches m protocol then Inr () else Inl DiffersFromBenchmark)))"

definition identities_ok :: "smoke_manifest \<Rightarrow> string list \<Rightarrow> bool" where
  "identities_ok m expected \<longleftrightarrow>
     length (new_set (map mt_id (mf_tasks m))) = length expected \<and>
     length (new_set (map se_trial (mf_schedule m))) = length (mf_schedule m) \<and>
     length (mf_schedule m) = length expected * mf_repetitions m * length evaluation_modes \<and>
     list_all (\<lambda>(trial, index). se_order trial = index \<and> se_attempt trial = hd (se_attempts trial) \<and>
         length (new_set (se_attempts trial)) = max_attempts_per_trial)
       (zip (mf_schedule m) [0..<length (mf_schedule m)]) \<and>
     length (new_set (concat (map se_attempts (mf_schedule m)))) = length (concat (map se_attempts (mf_schedule m)))"

definition validate_smoke_manifest :: "(schema \<Rightarrow> json \<Rightarrow> bool) \<Rightarrow> (json \<Rightarrow> string) \<Rightarrow> json
    \<Rightarrow> evaluation_error + smoke_manifest" where
  "validate_smoke_manifest ajv digest value =
     (if \<not> ajv (if json_get ''schemaVersion'' value = JNum 2 then manifest_schema_v2 else manifest_schema_v1) value
      then Inl InvalidManifest
      else
        bind_result (version2_checks ajv digest value) (\<lambda>_.
        bind_result (lift_error ManifestRegistry
            (corpus_tasks (manifest_corpus value) (decode_suite (json_get ''suite'' value)))) (\<lambda>expected.
        if map (\<lambda>t. json_str (json_get ''id'' t)) (json_items (json_get ''tasks'' value)) \<noteq> expected
        then Inl ManifestTasksMismatch
        else
          bind_result (lift_error ManifestConfig (validate_config ajv (json_get ''configuration'' value))) (\<lambda>config.
          let j = json_set ''configuration'' (normalize_config_json (json_get ''configuration'' value)) value;
              m = decode_manifest j config
          in if json_get ''manifestHash'' j \<noteq> JStr (digest (json_without ''manifestHash'' j)) then Inl ManifestHashMismatch
             else if \<not> identities_ok m expected then Inl ManifestIdentities
             else
               bind_result (lift_error ManifestRegistry
                   (evaluation_schedule expected (mf_seed m) (Fin (real (mf_repetitions m))))) (\<lambda>schedule.
               if json_get ''schedule'' j \<noteq> JArr (map trial_json schedule) then Inl ManifestIdentities else Inr m)))))"

subsection \<open>The result of the configuration check\<close>

fun is_object_value :: "json \<Rightarrow> bool" where
  "is_object_value (JObj kvs) = True"
| "is_object_value (JArr xs) = True"
| "is_object_value _ = False"

definition check_role_ok :: "json \<Rightarrow> bool" where
  "check_role_ok entry \<longleftrightarrow> is_object_value entry \<and> has_type TString (json_get ''provider'' entry) \<and>
     has_type TString (json_get ''model'' entry) \<and> has_type TBool (json_get ''storedAuthAvailable'' entry)"

fun check_roles :: "json \<Rightarrow> model_role list \<Rightarrow> evaluation_error + unit" where
  "check_roles roles [] = Inr ()"
| "check_roles roles (role # rest) =
     (if check_role_ok (json_get (role_key role) roles) then check_roles roles rest else Inl (CheckRoleMissing role))"

definition config_check_summary :: "json \<Rightarrow> evaluation_error + json" where
  "config_check_summary value =
     (if \<not> is_object_value value then Inl CheckInvalid
      else if json_get ''status'' value \<noteq> JStr ''ok'' \<or> \<not> has_type TString (json_get ''authProfile'' value) \<or>
        \<not> is_object_value (json_get ''roles'' value) \<or> \<not> is_object_value (json_get ''policy'' value) \<or>
        \<not> is_object_value (json_get ''fingerprint'' value) then Inl CheckIncomplete
      else bind_result (check_roles (json_get ''roles'' value) model_roles) (\<lambda>_. Inr value))"

subsection \<open>Creation\<close>

record create_options =
  cr_config :: file_read
  cr_check :: json
  cr_experiment :: string
  cr_live :: bool
  cr_suite :: "evaluation_suite option"
  cr_corpus :: "string option"
  cr_source :: "string option"
  cr_benchmark :: "json option"
  cr_seed :: "nat option"
  cr_repetitions :: "jsnum option"
  cr_max_cost :: "jsnum option"
  cr_revision :: "string option"
  cr_dirty :: "bool option"
  cr_agent :: string
  cr_evaluator :: string
  cr_mock :: "string option"
  cr_pnpm :: string
  cr_cargo :: string
  cr_created :: string
  cr_roots :: evaluation_roots

fun suite_string :: "evaluation_suite \<Rightarrow> string" where
  "suite_string SuiteSmoke = ''smoke''"
| "suite_string SuiteDev = ''dev''"
| "suite_string SuiteHeldout = ''heldout''"
| "suite_string SuiteFull = ''full''"

definition or_null :: "('a \<Rightarrow> json) \<Rightarrow> 'a option \<Rightarrow> json" where
  "or_null f x = (case x of None \<Rightarrow> JNull | Some v \<Rightarrow> f v)"

fun jsnum_json :: "jsnum \<Rightarrow> json" where
  "jsnum_json (Fin r) = JNum r"
| "jsnum_json _ = JNull"

text \<open>The configuration file, validated, with its normalized JSON.\<close>

definition load_config_json :: "(schema \<Rightarrow> json \<Rightarrow> bool) \<Rightarrow> file_read \<Rightarrow> config_error + lab_config \<times> json" where
  "load_config_json ajv file = bind_result (load_config ajv file) (\<lambda>config.
     case file of Parsed j \<Rightarrow> Inr (config, normalize_config_json j) | _ \<Rightarrow> Inl ConfigUnreadable)"

fun check_resolved :: "lab_config \<Rightarrow> json \<Rightarrow> bool \<Rightarrow> model_role list \<Rightarrow> evaluation_error + unit" where
  "check_resolved config roles live [] = Inr ()"
| "check_resolved config roles live (role # rest) =
     (let actual = json_get (role_key role) roles; expected = models config role
      in if json_get ''provider'' actual \<noteq> JStr (lr_provider expected) \<or>
           json_get ''model'' actual \<noteq> JStr (lr_model expected) then Inl (ResolvedModelMismatch role)
         else if live \<and> json_get ''storedAuthAvailable'' actual = JBool False
         then Inl (AuthenticationRequired (json_str (json_get ''provider'' actual)))
         else check_resolved config roles live rest)"

definition manifest_task_json :: "string \<Rightarrow> loaded_task \<Rightarrow> json" where
  "manifest_task_json task t = JObj
     [(''id'', JStr task), (''taskHash'', JStr (lt_hash t)),
      (''sourceHash'', JStr (td_fixture_hash (lt_definition t))),
      (''validatorHash'', JStr (td_validator_hash (lt_definition t))),
      (''publicPrompt'', JStr (td_prompt (lt_definition t)))]"

definition load_manifest_task :: "(schema \<Rightarrow> json \<Rightarrow> bool) \<Rightarrow> (string \<Rightarrow> string) \<Rightarrow> evaluation_roots \<Rightarrow> string
    \<Rightarrow> evaluation_error + json" where
  "load_manifest_task ajv sha roots task =
     bind_result (lift_error ManifestTaskError (load_task_definition ajv sha task roots))
       (\<lambda>t. Inr (manifest_task_json task t))"

text \<open>The monetary checks before the first trial; \<open>Math.max\<close> over the modes.\<close>

definition check_max_cost :: "lab_config \<Rightarrow> jsnum option \<Rightarrow> evaluation_error + unit" where
  "check_max_cost config max_cost =
     (case max_cost of
        None \<Rightarrow> Inr ()
      | Some cost \<Rightarrow>
          if \<not> is_finite cost \<or> js_less cost 0 \<or> cost = Fin 0 then Inl BadMaximumCost
          else case monetary_limit_reason config of
            Some reason \<Rightarrow> Inl (LimitUnavailable reason)
          | None \<Rightarrow>
              bind_result (lift_error LimitUnavailable
                  (map_result (conservative_trial_cost_bound config) evaluation_modes)) (\<lambda>bounds.
              let first_bound = fold max (tl bounds) (hd bounds)
              in if js_less cost first_bound then Inl (InsufficientBudget first_bound) else Inr ()))"

definition benchmark_execution_of :: "create_options \<Rightarrow> json \<Rightarrow> benchmark_execution" where
  "benchmark_execution_of options stored =
     \<lparr>be_corpus = (case cr_corpus options of None \<Rightarrow> ''core'' | Some c \<Rightarrow> c),
      be_suite = suite_string (case cr_suite options of None \<Rightarrow> SuiteSmoke | Some x \<Rightarrow> x),
      be_repetitions = (case cr_repetitions options of Some (Fin r) \<Rightarrow> r | _ \<Rightarrow> 1),
      be_max_cost = (case cr_max_cost options of Some (Fin r) \<Rightarrow> Some r | _ \<Rightarrow> None),
      be_seed = real (case cr_seed options of None \<Rightarrow> 20260905 | Some n \<Rightarrow> n),
      be_evidence = (if cr_live options then ''live'' else ''mock''),
      be_source = (case cr_source options of None \<Rightarrow> [] | Some h \<Rightarrow> h),
      be_agent = cr_agent options, be_evaluator = cr_evaluator options,
      be_configuration = stored, be_roots = cr_roots options\<rparr>"

text \<open>The manifest without its hash, in the order the code writes its members.\<close>

definition manifest_members :: "(string \<Rightarrow> string) \<Rightarrow> (json \<Rightarrow> string) \<Rightarrow> create_options \<Rightarrow> json
    \<Rightarrow> json \<Rightarrow> corpus_def \<Rightarrow> json list \<Rightarrow> scheduled_trial list \<Rightarrow> (string \<times> json) list" where
  "manifest_members sha digest options stored checked corpus tasks schedule =
     [(''schemaVersion'', JNum (if cr_source options = None then 1 else 2))]
     @ (case cr_source options of
          None \<Rightarrow> []
        | Some source \<Rightarrow>
            [(''corpus'', corpus_json corpus), (''corpusHash'', JStr (corpus_hash digest corpus)),
             (''sourceContentHash'', JStr source), (''benchmark'', or_null (\<lambda>p. p) (cr_benchmark options))])
     @ [(''experimentId'', JStr (cr_experiment options)), (''createdAt'', JStr (cr_created options)),
        (''evidenceKind'', JStr (if cr_live options then ''live'' else ''mock'')),
        (''suite'', JStr (suite_string (case cr_suite options of None \<Rightarrow> SuiteSmoke | Some x \<Rightarrow> x))),
        (''seed'', JNum (real (case cr_seed options of None \<Rightarrow> 20260905 | Some n \<Rightarrow> n))),
        (''repetitions'', jsnum_json (case cr_repetitions options of None \<Rightarrow> Fin 1 | Some n \<Rightarrow> n)),
        (''maxCostUsd'', or_null jsnum_json (cr_max_cost options)),
        (''authProfile'', json_get ''authProfile'' checked),
        (''threshold'', json_get ''weakThreshold'' (json_get ''routing'' stored)),
        (''fingerprints'', json_get ''fingerprint'' checked),
        (''roles'', json_get ''models'' stored), (''limits'', json_get ''execution'' stored),
        (''source'', JObj [(''revision'', or_null JStr (cr_revision options)), (''dirty'', or_null JBool (cr_dirty options))]),
        (''images'', JObj [(''agent'', JStr (cr_agent options)), (''evaluator'', JStr (cr_evaluator options)),
           (''mock'', or_null JStr (cr_mock options))]),
        (''upstream'', JObj [(''piVersion'', JStr pi_version), (''switchyardRevision'', JStr switchyard_revision),
           (''pnpmLockHash'', JStr (sha (cr_pnpm options))), (''cargoLockHash'', JStr (sha (cr_cargo options)))]),
        (''configuration'', stored), (''tasks'', JArr tasks), (''schedule'', JArr (map trial_json schedule))]"

text \<open>\<open>exists\<close> says whether the directory of the experiment is already there; \<open>mkdir\<close> then fails.\<close>

definition create_smoke_manifest :: "(schema \<Rightarrow> json \<Rightarrow> bool) \<Rightarrow> (string \<Rightarrow> string) \<Rightarrow> (json \<Rightarrow> string)
    \<Rightarrow> create_options \<Rightarrow> bool \<Rightarrow> evaluation_error + smoke_manifest" where
  "create_smoke_manifest ajv sha digest options exists =
     (let corpus_name = (case cr_corpus options of None \<Rightarrow> ''core'' | Some c \<Rightarrow> c);
          suite = (case cr_suite options of None \<Rightarrow> SuiteSmoke | Some x \<Rightarrow> x);
          seed = (case cr_seed options of None \<Rightarrow> 20260905 | Some n \<Rightarrow> n);
          repetitions = (case cr_repetitions options of None \<Rightarrow> Fin 1 | Some n \<Rightarrow> n)
      in bind_result (lift_error ManifestConfig (load_config_json ajv (cr_config options))) (\<lambda>(config, stored).
         bind_result (config_check_summary (cr_check options)) (\<lambda>checked.
         bind_result (check_resolved config (json_get ''roles'' checked) (cr_live options) model_roles) (\<lambda>_.
         bind_result (lift_error ManifestRegistry (corpus_tasks corpus_name suite)) (\<lambda>ids.
         bind_result (map_result (load_manifest_task ajv sha (cr_roots options)) ids) (\<lambda>tasks.
         bind_result (check_max_cost config (cr_max_cost options)) (\<lambda>_.
         if cr_source options = None \<and> cr_corpus options \<notin> {None, Some [], Some ''core''} then Inl ProvenanceRequired
         else
           bind_result (case cr_benchmark options of
               None \<Rightarrow> Inr ()
             | Some p \<Rightarrow> lift_error ManifestBenchmark (verify_benchmark_execution ajv sha digest p
                 (benchmark_execution_of options stored))) (\<lambda>_.
           bind_result (lift_error ManifestRegistry (corpus_definition corpus_name)) (\<lambda>corpus.
           bind_result (lift_error ManifestRegistry (evaluation_schedule ids seed repetitions)) (\<lambda>schedule.
           let members = manifest_members sha digest options stored checked corpus tasks schedule
           in bind_result (validate_smoke_manifest ajv digest
                (JObj (members @ [(''manifestHash'', JStr (digest (JObj members)))]))) (\<lambda>m.
              if exists then Inl ExperimentExists else Inr m)))))))))))"

text \<open>Reading a manifest that was written.\<close>

definition read_smoke_manifest :: "(schema \<Rightarrow> json \<Rightarrow> bool) \<Rightarrow> (json \<Rightarrow> string) \<Rightarrow> json
    \<Rightarrow> evaluation_error + smoke_manifest" where
  "read_smoke_manifest ajv digest file = validate_smoke_manifest ajv digest file"

subsection \<open>Jobs\<close>

record smoke_job =
  jb_trial :: scheduled_trial
  jb_task :: manifest_task
  jb_attempt :: string
  jb_index :: nat
  jb_previous :: "string option"

definition job_at :: "smoke_manifest \<Rightarrow> nat \<Rightarrow> nat \<Rightarrow> evaluation_error + smoke_job" where
  "job_at m index attempt_index =
     (if length (mf_schedule m) \<le> index then Inl (JobOutside index)
      else
        let trial = mf_schedule m ! index
        in if length (se_attempts trial) \<le> attempt_index \<or> se_attempts trial ! attempt_index = []
           then Inl (AttemptOutside attempt_index)
           else case find (\<lambda>t. mt_id t = se_task trial) (mf_tasks m) of
             None \<Rightarrow> Inl (TaskAbsent (se_task trial))
           | Some task \<Rightarrow>
               Inr \<lparr>jb_trial = trial, jb_task = task, jb_attempt = se_attempts trial ! attempt_index,
                 jb_index = attempt_index,
                 jb_previous = (if attempt_index = 0 then None else Some (se_attempts trial ! (attempt_index - 1)))\<rparr>)"

subsection \<open>Setting members\<close>

lemma field_set_other: "k \<noteq> k' \<Longrightarrow> json_field k' (json_set k v j) = json_field k' j"
proof (cases j)
  case (JObj kvs)
  assume "k \<noteq> k'"
  then have "map_of (map (\<lambda>kv. if fst kv = k then (k, v) else kv) kvs) k' = map_of kvs k'"
    by (induction kvs) auto
  with \<open>k \<noteq> k'\<close> JObj show ?thesis by (auto simp: map_add_def split: option.splits)
qed auto

lemma get_set_other: "k \<noteq> k' \<Longrightarrow> json_get k' (json_set k v j) = json_get k' j"
  by (simp add: json_get_def field_set_other)

lemma field_set_same: "json_field k j \<noteq> None \<Longrightarrow> json_field k (json_set k v j) = Some v"
proof (cases j)
  case (JObj kvs)
  assume "json_field k j \<noteq> None"
  with JObj have "k \<in> set (map fst kvs)" by (auto simp: map_of_eq_None_iff)
  moreover from this have "map_of (map (\<lambda>kv. if fst kv = k then (k, v) else kv) kvs) k = Some v"
    by (induction kvs) auto
  ultimately show ?thesis using JObj by simp
qed auto

lemma get_set_same: "json_field k j \<noteq> None \<Longrightarrow> json_get k (json_set k v j) = v"
  by (simp add: json_get_def field_set_same)

lemma set_set_same: "json_set k v (json_set k w j) = json_set k v j"
proof (cases j)
  case (JObj kvs)
  have map2: "map (\<lambda>kv. if fst kv = k then (k, v) else kv) (map (\<lambda>kv. if fst kv = k then (k, w) else kv) kvs) =
      map (\<lambda>kv. if fst kv = k then (k, v) else kv) kvs"
    by (induction kvs) auto
  have keys: "map fst (map (\<lambda>kv. if fst kv = k then (k, w) else kv) kvs) = map fst kvs"
    by (induction kvs) auto
  have same: "k \<notin> set (map fst kvs) \<Longrightarrow> map (\<lambda>kv. if fst kv = k then (k, v) else kv) kvs = kvs"
    by (induction kvs) auto
  show ?thesis
  proof (cases "k \<in> set (map fst kvs)")
    case True
    with keys map2 show ?thesis by (simp add: JObj del: map_map)
  next
    case False
    with same show ?thesis by (simp add: JObj)
  qed
qed auto

lemma set_set_commute:
  assumes "k \<noteq> k'" "json_field k j \<noteq> None" "json_field k' j \<noteq> None"
  shows "json_set k v (json_set k' w j) = json_set k' w (json_set k v j)"
proof (cases j)
  case (JObj kvs)
  have "k \<in> set (map fst kvs)" "k' \<in> set (map fst kvs)"
    using assms(2,3) JObj by (auto simp: map_of_eq_None_iff)
  moreover have "map fst (map (\<lambda>kv. if fst kv = c then (c, u) else kv) kvs) = map fst kvs" for c and u :: json
    by (induction kvs) auto
  moreover have "map (\<lambda>kv. if fst kv = k then (k, v) else kv) (map (\<lambda>kv. if fst kv = k' then (k', w) else kv) kvs) =
      map (\<lambda>kv. if fst kv = k' then (k', w) else kv) (map (\<lambda>kv. if fst kv = k then (k, v) else kv) kvs)"
    using assms(1) by (induction kvs) auto
  ultimately show ?thesis by (simp add: JObj del: map_map)
qed (use assms in auto)

subsection \<open>Normalizing twice\<close>

lemma normalize_role_idem: "normalize_role_json (normalize_role_json j) = normalize_role_json j"
  by (cases "json_field ''billing'' j"; cases "json_field ''pricing'' j")
    (simp_all add: normalize_role_json_def json_get_def)

lemma role_key_inj: "role_key r = role_key r' \<longleftrightarrow> r = r'"
  by (cases r; cases r') simp_all

lemma normalize_config_idem:
  assumes "json_field ''models'' j \<noteq> None" "\<And>r. json_field (role_key r) (json_get ''models'' j) \<noteq> None"
  shows "normalize_config_json (normalize_config_json j) = normalize_config_json j"
proof -
  define M where "M = json_get ''models'' j"
  define N where "N = (\<lambda>r. normalize_role_json (json_get (role_key r) M))"
  have keys: "json_field (role_key r) M \<noteq> None" for r using assms(2) by (simp add: M_def)
  have ne: "role_key Classifier \<noteq> role_key Weak" "role_key Classifier \<noteq> role_key Strong" "role_key Weak \<noteq> role_key Strong"
    "role_key Weak \<noteq> role_key Classifier" "role_key Strong \<noteq> role_key Classifier" "role_key Strong \<noteq> role_key Weak"
    by simp_all
  have has: "json_field (role_key r) (json_set (role_key r') v X) \<noteq> None"
    if "json_field (role_key r) X \<noteq> None" for r r' v X
    using that field_set_same [of "role_key r" X v] field_set_other [of "role_key r'" "role_key r" v X]
    by (cases "r = r'") (simp_all add: role_key_inj)
  define M1 where "M1 = json_set (role_key Classifier) (N Classifier) M"
  define M2 where "M2 = json_set (role_key Weak) (N Weak) M1"
  define M3 where "M3 = json_set (role_key Strong) (N Strong) M2"
  have k1: "json_field (role_key r) M1 \<noteq> None" and k2: "json_field (role_key r) M2 \<noteq> None" for r
    unfolding M1_def M2_def by (intro has keys)+
  have g3: "json_get (role_key r) M3 = N r" for r
    unfolding M3_def M2_def M1_def
    by (cases r) (simp_all add: get_set_other [OF ne(1)] get_set_other [OF ne(2)] get_set_other [OF ne(3)]
        get_set_other [OF ne(4)] get_set_other [OF ne(5)] get_set_other [OF ne(6)] get_set_same has keys del: role_key.simps)
  have N: "normalize_role_json (N r) = N r" for r by (simp add: N_def normalize_role_idem)
  have fold: "foldl (\<lambda>models role. json_set (role_key role) (normalize_role_json (json_get (role_key role) models)) models) M model_roles = M3"
    by (simp add: model_roles_def M3_def M2_def M1_def N_def get_set_other [OF ne(1)] get_set_other [OF ne(2)]
        get_set_other [OF ne(3)] del: role_key.simps)
  have c3: "json_set (role_key Classifier) (N Classifier) M3 = M3"
    unfolding M3_def M2_def M1_def
    by (simp add: set_set_commute [OF ne(1)] set_set_commute [OF ne(2)] set_set_same has keys del: role_key.simps)
  have w3: "json_set (role_key Weak) (N Weak) M3 = M3"
    unfolding M3_def using k1 set_set_commute [OF ne(3) k2 k2] by (simp add: M2_def set_set_same del: role_key.simps)
  have s3: "json_set (role_key Strong) (N Strong) M3 = M3"
    unfolding M3_def by (rule set_set_same)
  have fold3: "foldl (\<lambda>models role. json_set (role_key role) (normalize_role_json (json_get (role_key role) models)) models) M3 model_roles = M3"
    by (simp add: model_roles_def g3 N c3 w3 s3 del: role_key.simps)
  have j1: "normalize_config_json j = json_set ''models'' M3 j"
    unfolding normalize_config_json_def M_def [symmetric] fold ..
  have g: "json_get ''models'' (json_set ''models'' M3 j) = M3" using assms(1) by (rule get_set_same)
  have "normalize_config_json (json_set ''models'' M3 j) = json_set ''models'' M3 j"
    unfolding normalize_config_json_def g fold3 by (rule set_set_same)
  then show ?thesis unfolding j1 .
qed

subsection \<open>An accepted manifest\<close>

lemma corpus_set_configuration [simp]: "manifest_corpus (json_set ''configuration'' v m) = manifest_corpus m"
  by (simp add: manifest_corpus_def field_set_other)

lemma manifest_Inr:
  assumes "validate_smoke_manifest ajv digest value = Inr m"
  obtains expected config where
    "corpus_tasks (mf_corpus m) (mf_suite m) = Inr expected"
    "map mt_id (mf_tasks m) = expected"
    "validate_config ajv (json_get ''configuration'' value) = Inr config" "mf_config m = config"
    "mf_json m = json_set ''configuration'' (normalize_config_json (json_get ''configuration'' value)) value"
    "m = decode_manifest (mf_json m) config"
    "json_get ''manifestHash'' (mf_json m) = JStr (digest (json_without ''manifestHash'' (mf_json m)))"
    "identities_ok m expected"
    "evaluation_schedule expected (mf_seed m) (Fin (real (mf_repetitions m))) = Inr (mf_schedule m)"
    "json_get ''schedule'' (mf_json m) = JArr (map trial_json (mf_schedule m))"
proof -
  let ?j = "json_set ''configuration'' (normalize_config_json (json_get ''configuration'' value)) value"
  obtain expected config schedule where e: "corpus_tasks (manifest_corpus value) (decode_suite (json_get ''suite'' value)) = Inr expected"
    and ids: "map (\<lambda>t. json_str (json_get ''id'' t)) (json_items (json_get ''tasks'' value)) = expected"
    and c: "validate_config ajv (json_get ''configuration'' value) = Inr config"
    and h: "json_get ''manifestHash'' ?j = JStr (digest (json_without ''manifestHash'' ?j))"
    and ok: "identities_ok (decode_manifest ?j config) expected"
    and s: "evaluation_schedule expected (mf_seed (decode_manifest ?j config))
      (Fin (real (mf_repetitions (decode_manifest ?j config)))) = Inr schedule"
    and js: "json_get ''schedule'' ?j = JArr (map trial_json schedule)"
    and m: "m = decode_manifest ?j config"
    using assms unfolding validate_smoke_manifest_def Let_def guard_Inr bind_result_Inr lift_error_Inr
    by (metis (no_types, lifting) Inr_inject)
  have json: "mf_json m = ?j" by (simp add: m decode_manifest_def)
  have sched: "mf_schedule m = schedule" by (simp add: m decode_manifest_def js comp_def)
  have tasks: "map mt_id (mf_tasks m) = expected"
    using ids by (simp add: m decode_manifest_def decode_manifest_task_def comp_def get_set_other)
  have corpus: "mf_corpus m = manifest_corpus value" "mf_suite m = decode_suite (json_get ''suite'' value)"
    by (simp_all add: m decode_manifest_def get_set_other)
  show thesis
    by (rule that [of expected config])
      (use e c h ok s js json sched tasks corpus m in \<open>simp_all add: decode_manifest_def [of _ config]\<close>)
qed

end
