(* ===== verification/Manifest_Identity.thy ===== *)
theory Manifest_Identity
  imports Evaluation_Manifest
begin

section \<open>What a manifest fixes (src/evaluation/smoke.ts)\<close>

text \<open>
  The properties of \<open>createSmokeManifest\<close>, \<open>validateSmokeManifest\<close> and \<open>readSmokeManifest\<close>: a created
  manifest reads back as itself, and the hash of an accepted manifest pins everything it says.
\<close>

subsection \<open>The configuration of a manifest\<close>

lemma decode_normalized_role:
  "normalize_role (decode_role (normalize_role_json j)) = normalize_role (decode_role j)"
  by (cases "json_field ''billing'' j"; cases "json_field ''pricing'' j")
    (simp_all add: normalize_role_json_def decode_role_def normalize_role_def json_get_def decode_billing_def)

lemma config_schema_keys:
  assumes "schema_valid lab_config_schema j"
  shows "json_field ''models'' j \<noteq> None" "json_field (role_key r) (json_get ''models'' j) \<noteq> None"
proof -
  have m: "json_field ''models'' j = Some (json_get ''models'' j) \<and> schema_valid models_schema (json_get ''models'' j)"
    by (rule closed_required [OF assms [unfolded lab_config_schema_def], of "''models''" models_schema]) simp_all
  from conjunct1 [OF this] show "json_field ''models'' j \<noteq> None" by (metis option.distinct(1))
  have k: "role_key r \<in> set [''classifier'', ''weak'', ''strong'']"
    "(role_key r, model_role_schema) \<in>
       set [(''classifier'', model_role_schema), (''weak'', model_role_schema), (''strong'', model_role_schema)]"
    by (cases r, simp_all)+
  from closed_required [OF conjunct2 [OF m, unfolded models_schema_def] k]
  show "json_field (role_key r) (json_get ''models'' j) \<noteq> None" by (metis option.distinct(1))
qed

lemma normalized_models:
  assumes "json_field ''models'' j \<noteq> None" "\<And>r. json_field (role_key r) (json_get ''models'' j) \<noteq> None"
  shows "json_get (role_key r) (json_get ''models'' (normalize_config_json j)) =
    normalize_role_json (json_get (role_key r) (json_get ''models'' j))"
proof -
  have has: "json_field k (json_set k' v X) \<noteq> None" if "json_field k X \<noteq> None" for k k' v X
    using that field_set_same [of k X v] field_set_other [of k' k v X] by (cases "k = k'") simp_all
  show ?thesis
    unfolding normalize_config_json_def get_set_same [OF assms(1)]
    using assms(2) [of Classifier] assms(2) [of Weak] assms(2) [of Strong]
    by (cases r) (simp_all add: model_roles_def get_set_other get_set_same has)
qed

lemma decode_normalized:
  assumes "schema_valid lab_config_schema j"
  shows "decode_config (normalize_config_json j) = decode_config j"
  unfolding decode_config_def normalized_models [OF config_schema_keys [OF assms]] decode_normalized_role
  by (simp add: normalize_config_json_def get_set_other)

lemma manifest_config:
  assumes "json_validator ajv" "validate_smoke_manifest ajv digest value = Inr m"
  shows "mf_config m = decode_config (json_get ''configuration'' (mf_json m))" "config_wf (mf_config m)"
proof -
  obtain config where c: "validate_config ajv (json_get ''configuration'' value) = Inr config" "mf_config m = config"
    and j: "mf_json m = json_set ''configuration'' (normalize_config_json (json_get ''configuration'' value)) value"
    by (rule manifest_Inr [OF assms(2)])
  note v = c(1) [unfolded validate_config_iff [OF assms(1)]]
  then show "config_wf (mf_config m)" unfolding c(2) by blast
  have "json_field ''configuration'' value \<noteq> None"
  proof
    assume "json_field ''configuration'' value = None"
    with v have "schema_valid lab_config_schema JNull" by (simp add: json_get_def)
    then show False by (simp add: lab_config_schema_def)
  qed
  then show "mf_config m = decode_config (json_get ''configuration'' (mf_json m))"
    using v c(2) by (simp add: j get_set_same decode_normalized)
qed

subsection \<open>A created manifest\<close>

lemma stored_configuration:
  assumes "json_validator ajv" "load_config_json ajv source = Inr (config, stored)"
  shows "load_config ajv source = Inr config" "normalize_config_json stored = stored" "decode_config stored = config"
proof -
  obtain j where j: "source = Parsed j" "validate_config ajv j = Inr config" "stored = normalize_config_json j"
    using assms(2) by (cases source) (auto simp: load_config_json_def)
  then have v: "schema_valid lab_config_schema j" "config = decode_config j"
    by (simp_all add: validate_config_iff [OF assms(1)])
  show "load_config ajv source = Inr config" by (simp add: j(1,2))
  show "normalize_config_json stored = stored"
    unfolding j(3) by (rule normalize_config_idem [OF config_schema_keys [OF v(1)]])
  show "decode_config stored = config" by (simp add: j(3) v decode_normalized)
qed

lemma members_get:
  fixes h
  defines "j \<equiv> \<lambda>sha digest options stored checked corpus tasks sched.
    JObj (manifest_members sha digest options stored checked corpus tasks sched @ [(''manifestHash'', h)])"
  shows "json_set ''configuration'' stored (j sha digest options stored checked corpus tasks sched) =
      j sha digest options stored checked corpus tasks sched"
    "json_get ''configuration'' (j sha digest options stored checked corpus tasks sched) = stored"
    "json_get ''tasks'' (j sha digest options stored checked corpus tasks sched) = JArr tasks"
    "json_get ''maxCostUsd'' (j sha digest options stored checked corpus tasks sched) = or_null jsnum_json (cr_max_cost options)"
  by (cases "cr_source options"; simp add: manifest_members_def j_def)+

lemma create_manifest_Inr:
  assumes "create_smoke_manifest ajv sha digest options exists = Inr m"
  obtains config stored checked ids tasks corpus sched where
    "load_config_json ajv (cr_config options) = Inr (config, stored)"
    "map_result (load_manifest_task ajv sha (cr_roots options)) ids = Inr tasks"
    "check_max_cost config (cr_max_cost options) = Inr ()" "\<not> exists"
    "validate_smoke_manifest ajv digest
       (JObj (manifest_members sha digest options stored checked corpus tasks sched @
          [(''manifestHash'', JStr (digest (JObj (manifest_members sha digest options stored checked corpus tasks sched))))]))
     = Inr m"
  using assms unfolding create_smoke_manifest_def Let_def bind_result_Inr guard_Inr lift_error_Inr split_paired_Ex prod.case
  by (elim exE conjE) (rule that, assumption+, simp, assumption, blast)

lemma loaded_manifest_task:
  assumes "load_manifest_task ajv sha roots task = Inr j"
  shows "\<exists>lt. load_task_definition ajv sha (mt_id (decode_manifest_task j)) roots = Inr lt \<and>
    mt_hash (decode_manifest_task j) = lt_hash lt \<and>
    mt_source (decode_manifest_task j) = td_fixture_hash (lt_definition lt) \<and>
    mt_validator (decode_manifest_task j) = td_validator_hash (lt_definition lt)"
  using assms by (auto simp: load_manifest_task_def manifest_task_json_def decode_manifest_task_def json_get_def)

lemma fold_max_ge: "b \<le> fold max bs (b :: real)" "x \<in> set bs \<Longrightarrow> x \<le> fold max bs (b :: real)"
proof (induction bs arbitrary: b)
  case (Cons c bs)
  { case 1 show ?case using Cons.IH(1) [of "max c b"] by simp }
  { case 2 then show ?case using Cons.IH(1) [of "max c b"] Cons.IH(2) [of "max c b"] by auto }
qed simp_all

lemma related_elements:
  assumes "list_all2 P xs ys"
  shows "x \<in> set xs \<Longrightarrow> \<exists>y \<in> set ys. P x y" "y \<in> set ys \<Longrightarrow> \<exists>x \<in> set xs. P x y"
  using assms by (induction rule: list_all2_induct) auto

lemma bounds_covered:
  assumes "check_max_cost config cost = Inr ()" "or_null jsnum_json cost = JNum c"
  shows "\<exists>b. conservative_trial_cost_bound config mode = Inr b \<and> b \<le> c"
proof -
  obtain bounds where cost: "cost = Some (Fin c)"
    and b: "map_result (conservative_trial_cost_bound config) evaluation_modes = Inr bounds"
    and c: "\<not> js_less (Fin c) (fold max (tl bounds) (hd bounds))"
    using assms by (cases cost; cases "the cost") (auto simp: check_max_cost_def or_null_def Let_def split: option.splits if_splits)
  have all: "list_all2 (\<lambda>m b. conservative_trial_cost_bound config m = Inr b) evaluation_modes bounds"
    using b by (simp only: map_result_Inr)
  have "mode \<in> set evaluation_modes" by (cases mode) (simp_all add: evaluation_modes_def)
  then obtain b where m: "conservative_trial_cost_bound config mode = Inr b" "b \<in> set bounds"
    using related_elements(1) [OF all] by blast
  moreover have "b \<le> fold max (tl bounds) (hd bounds)"
    using m(2) fold_max_ge by (cases bounds) auto
  ultimately show ?thesis using c by auto
qed

subsection \<open>The schedule of a manifest\<close>

definition slug_char :: "char \<Rightarrow> bool" where
  "slug_char c \<longleftrightarrow> is_lower c \<or> is_digit c \<or> c = CHR ''-''"

lemma attempt_slug_append: "is_attempt_slug s \<Longrightarrow> list_all slug_char t \<Longrightarrow> is_attempt_slug (s @ t)"
  by (cases s) (auto simp: is_attempt_slug_def is_slug_def slug_char_def list_all_iff)

lemma nat_string_slug: "list_all slug_char (nat_string n)"
  using nat_string_digits [of n] by (auto simp: list_all_iff slug_char_def)

lemma task_ids_slug: "list_all is_attempt_slug all_task_ids"
  by code_simp

lemma trial_id_slug: "task \<in> set all_task_ids \<Longrightarrow> is_attempt_slug (trial_id task r mode)"
proof -
  assume "task \<in> set all_task_ids"
  then have "is_attempt_slug task" using task_ids_slug by (simp add: list_all_iff)
  moreover have "list_all slug_char (''-r'' @ nat_string (r + 1) @ ''-'' @ mode_string mode)"
    using nat_string_slug [of "r + 1"] by (cases mode) (simp_all add: slug_char_def is_lower_def)
  ultimately show ?thesis unfolding trial_id_def by (rule attempt_slug_append)
qed

lemma attempt_ids_slug: "is_attempt_slug t \<Longrightarrow> list_all is_attempt_slug (attempt_ids t)"
proof -
  assume t: "is_attempt_slug t"
  have "is_attempt_slug (t @ ''-a'' @ nat_string (i + 1))" for i
    using t nat_string_slug [of "i + 1"] by (intro attempt_slug_append) (simp_all add: slug_char_def is_lower_def)
  then show ?thesis by (simp add: attempt_ids_def list_all_iff)
qed

lemma schedule_member:
  assumes "evaluation_schedule tasks seed (Fin (real n)) = Inr sched" "e \<in> set sched"
  shows "e = schedule_entry seed (se_order e) (se_task e) (se_repetition e) (se_mode e)"
    "se_task e \<in> set tasks" "se_repetition e < n" "n \<le> 100" "se_order e < length sched"
proof -
  show "e = schedule_entry seed (se_order e) (se_task e) (se_repetition e) (se_mode e)"
    using schedule_entries(2) [OF assms] by (simp only: entry_wf_def)
  have "trial_key e \<in> set (map trial_key sched)" using assms(2) by simp
  then have "trial_key e \<in> set (List.product (List.product tasks [0..<js_nat (Fin (real n))]) evaluation_modes)"
    using mset_eq_setD [OF schedule_keys [OF assms(1)]] by simp
  then show "se_task e \<in> set tasks" "se_repetition e < n" by (auto simp: trial_key_def)
  show "n \<le> 100" using schedule_entries(3) [OF assms(1)] by (simp add: repetitions_ok_def)
  have "se_order e \<in> set (map se_order sched)" using assms(2) by simp
  then show "se_order e < length sched" unfolding schedule_entries(1) [OF assms(1)] by simp
qed

lemma schedule_trial_valid:
  assumes "evaluation_schedule tasks seed (Fin (real n)) = Inr sched" "e \<in> set sched"
    and "set tasks \<subseteq> set all_task_ids" "seed \<le> 4294967295"
  shows "schema_valid manifest_trial_schema (trial_json e)"
proof -
  note e = schedule_member [OF assms(1,2)]
  have task: "se_task e \<in> set all_task_ids" using e(2) assms(3) by blast
  have trial: "se_trial e = trial_id (se_task e) (se_repetition e) (se_mode e)"
    and attempts: "se_attempts e = attempt_ids (se_trial e)" and first: "se_attempt e = hd (se_attempts e)"
    and seed: "se_seed e = seed"
    using e(1) by (metis schedule_entry_fields)+
  have slug: "is_attempt_slug (se_trial e)" unfolding trial by (rule trial_id_slug [OF task])
  have slugs: "list_all is_attempt_slug (se_attempts e)" unfolding attempts by (rule attempt_ids_slug [OF slug])
  have len: "length (se_attempts e) = max_attempts_per_trial" by (simp add: attempts)
  have "is_attempt_slug (se_attempt e)"
    using slugs len unfolding first by (cases "se_attempts e") (simp_all add: max_attempts_per_trial_def)
  moreover have "distinct (map JStr (se_attempts e))"
    using attempt_ids_distinct [of "se_trial e"] by (simp add: attempts distinct_map inj_on_def)
  moreover have "se_mode e = WeakOnly \<or> se_mode e = StrongOnly \<or> se_mode e = Routed" by (cases "se_mode e") simp_all
  ultimately show ?thesis
    using e(3,4) assms(4) task slug slugs len seed
    by (auto simp: manifest_trial_schema_def trial_json_def slug_schema_def task_id_schema_def mode_schema_def
        seed_schema_def list.pred_map comp_def)
qed

lemma new_set_same: "distinct xs \<Longrightarrow> length (new_set xs) = length xs"
  by (metis distinct_card new_set_distinct new_set_set)

text \<open>The duplicate checks of a manifest can only fail together with the comparison of the schedule.\<close>

lemma schedule_identities:
  assumes "evaluation_schedule tasks (mf_seed m) (Fin (real (mf_repetitions m))) = Inr (mf_schedule m)"
    and "distinct tasks" "map mt_id (mf_tasks m) = tasks"
  shows "identities_ok m tasks"
proof -
  let ?s = "mf_schedule m"
  have order: "se_order (?s ! i) = i" if "i < length ?s" for i
    using arg_cong [OF schedule_entries(1) [OF assms(1)], of "\<lambda>xs. xs ! i"] that by simp
  have member: "se_attempt e = hd (se_attempts e) \<and> length (new_set (se_attempts e)) = max_attempts_per_trial"
    if "e \<in> set ?s" for e
    using schedule_member(1) [OF assms(1) that] new_set_same [OF attempt_ids_distinct]
    by (metis attempt_ids_length schedule_entry_fields(6,7))
  have "list_all (\<lambda>(trial, index). se_order trial = index \<and> se_attempt trial = hd (se_attempts trial) \<and>
      length (new_set (se_attempts trial)) = max_attempts_per_trial) (zip ?s [0..<length ?s])"
    unfolding list_all_length using order member [OF nth_mem] by simp
  moreover have "distinct (concat (map se_attempts ?s))"
    using distinct_attempts [OF schedule_trials_distinct [OF assms(1,2)]] by (simp only: schedule_attempts [OF assms(1)])
  ultimately show ?thesis
    using assms(2,3) schedule_length [OF assms(1)] schedule_trials_distinct [OF assms(1,2)]
    by (simp add: identities_ok_def new_set_same evaluation_modes_def)
qed

subsection \<open>An example\<close>

definition example_check :: json where
  "example_check = JObj
     [(''status'', JStr ''ok''), (''authProfile'', JStr ''default''),
      (''roles'', JObj (map (\<lambda>role. (role_key role, JObj
         [(''provider'', JStr ''acme''), (''model'', JStr ''m1''), (''storedAuthAvailable'', JBool True)])) model_roles)),
      (''policy'', JObj []),
      (''fingerprint'', JObj
         [(''value'', JStr example_hash), (''configHash'', JStr example_hash), (''capabilityCardHash'', JStr example_hash),
          (''modelMetadataHash'', JStr example_hash), (''providerConfigHash'', JStr example_hash)])]"

definition example_create :: create_options where
  "example_create =
     \<lparr>cr_config = Parsed (config_json bounded_config), cr_check = example_check, cr_experiment = ''e1'',
      cr_live = False, cr_suite = None, cr_corpus = None, cr_source = None, cr_benchmark = None,
      cr_seed = Some 7, cr_repetitions = None, cr_max_cost = Some (Fin 1), cr_revision = None, cr_dirty = None,
      cr_agent = ''agent'', cr_evaluator = ''evaluator'', cr_mock = None, cr_pnpm = ''p'', cr_cargo = ''c'',
      cr_created = ''2026-01-31T00'', cr_roots = example_roots\<rparr>"

definition smoke_ids :: "string list" where
  "smoke_ids = [''01-null-summary'', ''02-create-validation'', ''03-stable-filter'']"

lemma smoke_ids: "corpus_tasks ''core'' SuiteSmoke = Inr smoke_ids" "list_all is_task_id smoke_ids"
  "distinct smoke_ids" "set smoke_ids \<subseteq> set all_task_ids"
  by code_simp+

definition smoke_sched :: "scheduled_trial list" where
  "smoke_sched = (case evaluation_schedule smoke_ids 7 (Fin 1) of Inr s \<Rightarrow> s | _ \<Rightarrow> [])"

lemma smoke_sched: "evaluation_schedule smoke_ids 7 (Fin 1) = Inr smoke_sched" "length smoke_sched = 9"
proof -
  show s: "evaluation_schedule smoke_ids 7 (Fin 1) = Inr smoke_sched"
    by (simp add: smoke_sched_def evaluation_schedule_def repetitions_ok_def split_def Let_def)
  show "length smoke_sched = 9" using schedule_length [OF s] by (simp add: smoke_ids_def)
qed

definition example_tasks_json :: "json list" where
  "example_tasks_json = map (\<lambda>t. manifest_task_json t (example_loaded t)) smoke_ids"

abbreviation const_digest :: "json \<Rightarrow> string" where
  "const_digest \<equiv> (\<lambda>_. example_hash)"

lemma config_json_normal: "normalize_config_json (config_json c) = config_json c"
proof -
  have billing: "(case json_field ''billing'' (role_json r) of None \<Rightarrow> JStr ''unknown'' | Some b \<Rightarrow> b) = billing_json (lr_billing r)"
    for r by (simp add: role_json_def)
  have "normalize_role_json (role_json r) = role_json r" for r
    by (cases "lr_pricing r") (simp_all add: normalize_role_json_def role_json_def json_get_def opt_member_def)
  then show ?thesis by (simp add: normalize_config_json_def config_json_def model_roles_def json_get_def)
qed

lemma bounded_limit: "monetary_limit_reason bounded_config = None"
  by (rule bound_Inr [OF bounded_bound])

lemma bounded_bounds:
  "conservative_trial_cost_bound bounded_config mode =
     Inr (if mode = Routed then 400 / 1000000 else 200 / 1000000)"
  using bounded_limit
  by (cases mode) (simp_all add: conservative_trial_cost_bound_def request_bound_def bounded_config_def bounded_role_def
      price_or_zero_def Let_def)

definition example_members :: "(string \<times> json) list" where
  "example_members =
     [(''schemaVersion'', JNum 1), (''experimentId'', JStr ''e1''), (''createdAt'', JStr ''2026-01-31T00''),
      (''evidenceKind'', JStr ''mock''), (''suite'', JStr ''smoke''), (''seed'', JNum 7), (''repetitions'', JNum 1),
      (''maxCostUsd'', JNum 1), (''authProfile'', JStr ''default''), (''threshold'', JNum (3 / 5)),
      (''fingerprints'', json_get ''fingerprint'' example_check),
      (''roles'', json_get ''models'' (config_json bounded_config)),
      (''limits'', json_get ''execution'' (config_json bounded_config)),
      (''source'', JObj [(''revision'', JNull), (''dirty'', JNull)]),
      (''images'', JObj [(''agent'', JStr ''agent''), (''evaluator'', JStr ''evaluator''), (''mock'', JNull)]),
      (''upstream'', JObj [(''piVersion'', JStr pi_version), (''switchyardRevision'', JStr switchyard_revision),
         (''pnpmLockHash'', JStr (example_sha ''p'')), (''cargoLockHash'', JStr (example_sha ''c''))]),
      (''configuration'', config_json bounded_config), (''tasks'', JArr example_tasks_json),
      (''schedule'', JArr (map trial_json smoke_sched))]"

definition example_value :: json where
  "example_value = JObj (example_members @ [(''manifestHash'', JStr example_hash)])"

lemma example_members:
  "manifest_members example_sha const_digest example_create (config_json bounded_config)
     example_check corpus example_tasks_json smoke_sched = example_members"
  by (simp add: manifest_members_def example_members_def example_create_def or_null_def example_check_def
      config_json_def routing_json_def json_get_def bounded_config_def example_config_def)

lemma example_sha_hash: "is_hash (example_sha s)"
  by (simp add: example_sha_def is_hash_def list_all_iff is_lower_hex_def del: replicate.simps)

lemma example_value_get:
  "json_get ''schemaVersion'' example_value = JNum 1" "manifest_corpus example_value = ''core''"
  "json_get ''suite'' example_value = JStr ''smoke''" "json_get ''seed'' example_value = JNum 7"
  "json_get ''repetitions'' example_value = JNum 1" "json_get ''tasks'' example_value = JArr example_tasks_json"
  "json_get ''schedule'' example_value = JArr (map trial_json smoke_sched)"
  "json_get ''configuration'' example_value = config_json bounded_config"
  "json_get ''manifestHash'' example_value = JStr example_hash"
  "json_set ''configuration'' (config_json bounded_config) example_value = example_value"
  by (simp_all add: example_value_def example_members_def json_get_def manifest_corpus_def)

lemma example_tasks_valid: "list_all (schema_valid (Schema
    [KType [TObject], KRequired [''id'', ''taskHash'', ''sourceHash'', ''validatorHash'', ''publicPrompt''],
     KClosed
       [(''id'', task_id_schema), (''taskHash'', task_hash_string), (''sourceHash'', task_hash_string),
        (''validatorHash'', task_hash_string), (''publicPrompt'', task_text)]])) example_tasks_json"
  using smoke_ids(4)
  by (auto simp: example_tasks_json_def list_all_iff manifest_task_json_def example_loaded_def example_task_def
      task_id_schema_def task_hash_string_def task_text_def example_sha_hash example_strings simp del: replicate.simps)

lemma example_schedule_valid: "list_all (schema_valid manifest_trial_schema) (map trial_json smoke_sched)"
  using schedule_trial_valid [of smoke_ids 7 1 smoke_sched] smoke_sched(1) smoke_ids(4)
  by (simp add: list_all_iff)

lemma example_parts_valid:
  "schema_valid fingerprints_schema (json_get ''fingerprint'' example_check)"
  "schema_valid manifest_roles_schema (json_get ''models'' (config_json bounded_config))"
  "schema_valid any_object (json_get ''execution'' (config_json bounded_config))"
  "schema_valid any_object (config_json bounded_config)"
  "schema_valid source_schema (JObj [(''revision'', JNull), (''dirty'', JNull)])"
  "schema_valid images_schema (JObj [(''agent'', JStr ''agent''), (''evaluator'', JStr ''evaluator''), (''mock'', JNull)])"
  "schema_valid upstream_schema (JObj [(''piVersion'', JStr pi_version), (''switchyardRevision'', JStr switchyard_revision),
     (''pnpmLockHash'', JStr (example_sha ''p'')), (''cargoLockHash'', JStr (example_sha ''c''))])"
proof -
  show "schema_valid manifest_roles_schema (json_get ''models'' (config_json bounded_config))"
    by (simp add: manifest_roles_schema_def manifest_role_schema_def task_text_def config_json_def json_get_def
        bounded_config_def example_config_def bounded_role_def role_json_def opt_member_def)
qed (simp_all add: fingerprints_schema_def example_check_def json_get_def task_hash_string_def any_object_def
    config_json_def execution_json_def source_schema_def images_schema_def task_text_def upstream_schema_def
    example_sha_hash)

lemma example_value_valid: "schema_valid manifest_schema_v1 example_value"
proof -
  have strings: "is_run_id ''e1''" "is_timestamp ''2026-01-31T00''" "is_profile ''default''" by code_simp+
  have tasks: "schema_valid manifest_tasks_schema (JArr example_tasks_json)"
    using example_tasks_valid arg_cong [OF example_tasks_json_def, of length]
    by (simp add: manifest_tasks_schema_def smoke_ids_def)
  show ?thesis
    unfolding manifest_schema_v1_def manifest_properties_def
    by (simp add: example_value_def example_members_def manifest_required_def strings example_parts_valid tasks
        example_schedule_valid smoke_sched(2) seed_schema_def task_hash_string_def)
qed

lemma example_accepted:
  "validate_smoke_manifest schema_valid const_digest example_value = Inr (decode_manifest example_value bounded_config)"
proof -
  let ?m = "decode_manifest example_value bounded_config"
  have config: "validate_config schema_valid (config_json bounded_config) = Inr bounded_config"
    by (simp add: validate_config_iff standard.json_validator_axioms bounded_config_wf config_accepted)
  have tasks: "map (\<lambda>t. json_str (json_get ''id'' t)) example_tasks_json = smoke_ids"
    by (simp add: example_tasks_json_def manifest_task_json_def json_get_def comp_def)
  have fields: "mf_seed ?m = 7" "mf_repetitions ?m = 1" "mf_schedule ?m = smoke_sched" "map mt_id (mf_tasks ?m) = smoke_ids"
    using tasks by (simp_all add: decode_manifest_def example_value_get comp_def decode_manifest_task_def)
  have "identities_ok ?m smoke_ids"
    by (rule schedule_identities) (simp_all add: fields smoke_sched smoke_ids)
  then show ?thesis
    by (simp add: validate_smoke_manifest_def example_value_get example_value_valid version2_checks_def decode_suite_def
        smoke_ids tasks config config_json_normal fields smoke_sched)
qed

lemma example_created: "create_smoke_manifest schema_valid example_sha const_digest example_create False =
    Inr (decode_manifest example_value bounded_config)"
proof -
  have load: "load_config_json schema_valid (Parsed (config_json bounded_config)) =
      Inr (bounded_config, config_json bounded_config)"
    using config_roundtrip [of bounded_config]
    by (simp add: load_config_json_def validate_config_iff standard.json_validator_axioms bounded_config_wf
        config_accepted config_json_normal)
  have check: "config_check_summary example_check = Inr example_check"
    by (simp add: config_check_summary_def example_check_def model_roles_def check_role_ok_def json_get_def)
  have resolved: "check_resolved bounded_config (json_get ''roles'' example_check) False model_roles = Inr ()"
    by (simp add: example_check_def model_roles_def json_get_def bounded_config_def example_config_def bounded_role_def)
  have tasks: "map_result (load_manifest_task schema_valid example_sha example_roots) smoke_ids = Inr example_tasks_json"
    using smoke_ids(2)
    by (auto simp: map_result_Inr example_tasks_json_def list_all2_conv_all_nth load_manifest_task_def example_load list_all_length)
  have cost: "check_max_cost bounded_config (Some (Fin 1)) = Inr ()"
    using bounded_limit by (simp add: check_max_cost_def evaluation_modes_def bounded_bounds)
  obtain corpus where corpus: "corpus_definition ''core'' = Inr corpus"
    by (simp add: corpus_definition_def)
  have written: "JObj (example_members @ [(''manifestHash'', JStr example_hash)]) = example_value"
    by (simp add: example_value_def)
  have options: "cr_config example_create = Parsed (config_json bounded_config)" "cr_check example_create = example_check"
    "cr_live example_create = False" "cr_suite example_create = None" "cr_corpus example_create = None"
    "cr_source example_create = None" "cr_benchmark example_create = None" "cr_seed example_create = Some 7"
    "cr_repetitions example_create = None" "cr_max_cost example_create = Some (Fin 1)" "cr_roots example_create = example_roots"
    by (simp_all add: example_create_def)
  show ?thesis
    by (simp add: create_smoke_manifest_def options load check resolved tasks corpus smoke_ids(1) cost
        smoke_sched(1) example_members written example_accepted)
qed

subsection \<open>Properties\<close>

text \<open>C18: The hash of a manifest pins it: two accepted manifests with the same hash agree in every member,
  and so in everything the evaluation reads (tasks with their hashes, configuration, seed, monetary
  cap, schedule), unless SHA-256 collided; and the schedule of a manifest is the one its seed gives
  for the tasks of its suite, over a well-formed configuration.\<close>

theorem manifest_pins:
  assumes "json_validator ajv"
    and "validate_smoke_manifest ajv digest v = Inr m" and "validate_smoke_manifest ajv digest w = Inr n"
    and "json_get ''manifestHash'' (mf_json m) = json_get ''manifestHash'' (mf_json n)"
    and "digest (json_without ''manifestHash'' (mf_json m)) = digest (json_without ''manifestHash'' (mf_json n)) \<Longrightarrow>
      json_without ''manifestHash'' (mf_json m) = json_without ''manifestHash'' (mf_json n)"
  shows "n = m\<lparr>mf_json := mf_json n\<rparr> \<and> (\<forall>k. json_get k (mf_json m) = json_get k (mf_json n)) \<and>
    config_wf (mf_config m) \<and>
    corpus_tasks (mf_corpus m) (mf_suite m) = Inr (map mt_id (mf_tasks m)) \<and>
    evaluation_schedule (map mt_id (mf_tasks m)) (mf_seed m) (Fin (real (mf_repetitions m))) = Inr (mf_schedule m)"
proof -
  obtain expected where m: "corpus_tasks (mf_corpus m) (mf_suite m) = Inr expected" "map mt_id (mf_tasks m) = expected"
      "m = decode_manifest (mf_json m) (mf_config m)"
      "json_get ''manifestHash'' (mf_json m) = JStr (digest (json_without ''manifestHash'' (mf_json m)))"
      "evaluation_schedule expected (mf_seed m) (Fin (real (mf_repetitions m))) = Inr (mf_schedule m)"
    by (rule manifest_Inr [OF assms(2)]) blast
  obtain n: "n = decode_manifest (mf_json n) (mf_config n)"
      "json_get ''manifestHash'' (mf_json n) = JStr (digest (json_without ''manifestHash'' (mf_json n)))"
    by (rule manifest_Inr [OF assms(3)]) blast
  have eq: "json_without ''manifestHash'' (mf_json m) = json_without ''manifestHash'' (mf_json n)"
    using m(4) n(2) assms(4) by (intro assms(5)) simp
  have field: "json_field k (mf_json m) = json_field k (mf_json n)" if "k \<noteq> ''manifestHash''" for k
    using field_without [OF that, of "mf_json m"] field_without [OF that, of "mf_json n"] eq by simp
  have get: "json_get k (mf_json m) = json_get k (mf_json n)" for k
    using field [of k] assms(4) by (cases "k = ''manifestHash''") (simp_all add: json_get_def)
  have "mf_config m = mf_config n"
    using manifest_config(1) [OF assms(1)] assms(2,3) get by simp
  then have "n = m\<lparr>mf_json := mf_json n\<rparr>"
    using field [of "''corpus''"] by (subst n(1), subst m(3)) (simp add: decode_manifest_def manifest_corpus_def get)
  then show ?thesis using get m(1,2,5) manifest_config(2) [OF assms(1,2)] by simp
qed

theorem manifest_pins_witness:
  "config_wf (mf_config (decode_manifest example_value bounded_config)) \<and>
    (\<exists>m. validate_smoke_manifest schema_valid const_digest example_value = Inr m \<and>
      corpus_tasks (mf_corpus m) (mf_suite m) = Inr (map mt_id (mf_tasks m)))"
  using manifest_pins [OF standard.json_validator_axioms example_accepted example_accepted refl] example_accepted
  by blast

text \<open>A created manifest reads back as itself, its configuration is the one that was loaded, each of
  its tasks carries the hashes of the task loaded from the roots, and a monetary cap covers the
  conservative bound of a trial of every mode; an existing experiment is never overwritten.\<close>

theorem manifest_reads_back:
  assumes "json_validator ajv" and "create_smoke_manifest ajv sha digest options exists = Inr m"
  shows "read_smoke_manifest ajv digest (mf_json m) = Inr m \<and> \<not> exists \<and>
    load_config ajv (cr_config options) = Inr (mf_config m) \<and>
    (\<forall>t \<in> set (mf_tasks m). \<exists>lt. load_task_definition ajv sha (mt_id t) (cr_roots options) = Inr lt \<and>
      mt_hash t = lt_hash lt \<and> mt_source t = td_fixture_hash (lt_definition lt) \<and>
      mt_validator t = td_validator_hash (lt_definition lt)) \<and>
    (\<forall>c mode. mf_max_cost m = Some c \<longrightarrow>
      (\<exists>b. conservative_trial_cost_bound (mf_config m) mode = Inr b \<and> b \<le> c))"
proof -
  obtain config stored checked ids tasks corpus sched where
    config: "load_config_json ajv (cr_config options) = Inr (config, stored)"
    and tasks: "map_result (load_manifest_task ajv sha (cr_roots options)) ids = Inr tasks"
    and cost: "check_max_cost config (cr_max_cost options) = Inr ()" "\<not> exists"
    and v: "validate_smoke_manifest ajv digest
       (JObj (manifest_members sha digest options stored checked corpus tasks sched @
          [(''manifestHash'', JStr (digest (JObj (manifest_members sha digest options stored checked corpus tasks sched))))]))
     = Inr m" (is "validate_smoke_manifest ajv digest ?value = _")
    by (rule create_manifest_Inr [OF assms(2)])
  note stored = stored_configuration [OF assms(1) config]
  have json: "mf_json m = ?value"
    by (rule manifest_Inr [OF v]) (simp only: members_get stored(2))
  have m: "m = decode_manifest ?value (mf_config m)"
    by (rule manifest_Inr [OF v]) (simp only: json)
  have mc: "mf_config m = config"
    using manifest_config(1) [OF assms(1) v] by (simp only: json members_get stored(3))
  have mt: "mf_tasks m = map decode_manifest_task tasks"
    by (subst m) (simp only: decode_manifest_def members_get json_items.simps smoke_manifest.simps)
  have "\<exists>lt. load_task_definition ajv sha (mt_id t) (cr_roots options) = Inr lt \<and>
      mt_hash t = lt_hash lt \<and> mt_source t = td_fixture_hash (lt_definition lt) \<and>
      mt_validator t = td_validator_hash (lt_definition lt)" if t: "t \<in> set (mf_tasks m)" for t
  proof -
    obtain j where j: "j \<in> set tasks" "t = decode_manifest_task j" using t by (auto simp: mt)
    then obtain task where "load_manifest_task ajv sha (cr_roots options) task = Inr j"
      using related_elements(2) [OF tasks [unfolded map_result_Inr]] by blast
    then show ?thesis unfolding j(2) by (rule loaded_manifest_task)
  qed
  moreover have "\<exists>b. conservative_trial_cost_bound (mf_config m) mode = Inr b \<and> b \<le> c" if "mf_max_cost m = Some c" for c mode
  proof -
    have "or_null jsnum_json (cr_max_cost options) = JNum c"
      using that by (subst (asm) m) (simp only: decode_manifest_def members_get smoke_manifest.simps, simp split: json.splits)
    with cost(1) show ?thesis unfolding mc by (rule bounds_covered)
  qed
  moreover have "read_smoke_manifest ajv digest (mf_json m) = Inr m"
    unfolding json read_smoke_manifest_def by (rule v)
  ultimately show ?thesis using stored(1) cost(2) mc by simp
qed

theorem manifest_reads_back_witness:
  "\<exists>m. create_smoke_manifest schema_valid example_sha const_digest example_create False = Inr m \<and>
    read_smoke_manifest schema_valid const_digest (mf_json m) = Inr m \<and>
    load_config schema_valid (cr_config example_create) = Inr (mf_config m)"
  using manifest_reads_back [OF standard.json_validator_axioms example_created] example_created by blast

end
