(* ===== verification/Evaluation_Run.thy ===== *)
theory Evaluation_Run
  imports Manifest_Identity
begin

section \<open>Running an experiment (src/evaluation/smoke.ts)\<close>

text \<open>
  The directory of an experiment and what to do next with it: the money its attempts have cost,
  the next action, and the checks before a run is resumed. The directory is the state: the manifest
  file, the copy of the protocol and, for every attempt directory there is, whether it holds a log
  already, its files and whether a submission was exported. Costs are exact reals.
\<close>

subsection \<open>The experiment directory\<close>

record attempt_entry =
  ae_log :: bool
  ae_files :: attempt_files
  ae_submission :: bool

record experiment_directory =
  ed_manifest :: json
  ed_protocol :: json
  ed_attempts :: "string \<Rightarrow> attempt_entry option"

text \<open>\<open>readAttempt\<close> first reads the log: \<open>AttemptLogMissing\<close> is its \<open>ENOENT\<close>.\<close>

definition read_entry :: "(schema \<Rightarrow> json \<Rightarrow> bool) \<Rightarrow> (string \<Rightarrow> bool) \<Rightarrow> attempt_entry
    \<Rightarrow> evaluation_error + attempt_read" where
  "read_entry ajv date_ok entry =
     (if ae_log entry then lift_error AttemptUnreadable (read_attempt ajv date_ok (ae_files entry))
      else Inl AttemptLogMissing)"

subsection \<open>What was spent\<close>

text \<open>The pair is \<open>known\<close> and \<open>total\<close>; the list of attempts stops at the first that was not started.\<close>

fun attempt_spend :: "(schema \<Rightarrow> json \<Rightarrow> bool) \<Rightarrow> (string \<Rightarrow> bool) \<Rightarrow> (string \<Rightarrow> attempt_entry option)
    \<Rightarrow> real \<Rightarrow> string list \<Rightarrow> evaluation_error + bool \<times> real" where
  "attempt_spend ajv date_ok attempts acc [] = Inr (True, acc)"
| "attempt_spend ajv date_ok attempts acc (attempt_id # rest) =
     (case attempts attempt_id of
        None \<Rightarrow> Inr (True, acc)
      | Some entry \<Rightarrow>
          bind_result (read_entry ajv date_ok entry) (\<lambda>attempt.
            case ar_result attempt of
              None \<Rightarrow> Inr (False, acc)
            | Some result \<Rightarrow>
                (case co_total_estimated (rs_costs result) of
                   None \<Rightarrow>
                     if us_observed (sum_total (rs_usage result)) > 0 then Inr (False, acc)
                     else attempt_spend ajv date_ok attempts acc rest
                 | Some cost \<Rightarrow> attempt_spend ajv date_ok attempts (acc + cost) rest)))"

fun trials_spend :: "(schema \<Rightarrow> json \<Rightarrow> bool) \<Rightarrow> (string \<Rightarrow> bool) \<Rightarrow> (string \<Rightarrow> attempt_entry option)
    \<Rightarrow> real \<Rightarrow> scheduled_trial list \<Rightarrow> evaluation_error + bool \<times> real" where
  "trials_spend ajv date_ok attempts acc [] = Inr (True, acc)"
| "trials_spend ajv date_ok attempts acc (trial # rest) =
     bind_result (attempt_spend ajv date_ok attempts acc (se_attempts trial)) (\<lambda>(known, t).
       if known then trials_spend ajv date_ok attempts t rest else Inr (False, t))"

definition experiment_spend :: "(schema \<Rightarrow> json \<Rightarrow> bool) \<Rightarrow> (string \<Rightarrow> bool) \<Rightarrow> experiment_directory
    \<Rightarrow> smoke_manifest \<Rightarrow> evaluation_error + bool \<times> real" where
  "experiment_spend ajv date_ok d m = trials_spend ajv date_ok (ed_attempts d) 0 (mf_schedule m)"

subsection \<open>The next action\<close>

datatype next_action = ActRun smoke_job | ActValidate smoke_job | ActDone

definition attempt_identity_ok :: "smoke_manifest \<Rightarrow> smoke_job \<Rightarrow> run_result \<Rightarrow> bool" where
  "attempt_identity_ok m job r \<longleftrightarrow>
     ai_attempt (rs_identity r) = jb_attempt job \<and>
     ai_experiment (rs_identity r) = Some (mf_experiment m) \<and>
     ai_task (rs_identity r) = Some (se_task (jb_trial job)) \<and>
     ai_repetition (rs_identity r) = Some (se_repetition (jb_trial job)) \<and>
     rs_mode r = se_mode (jb_trial job)"

definition reserve_check :: "smoke_manifest \<Rightarrow> scheduled_trial \<Rightarrow> real \<Rightarrow> evaluation_error + unit" where
  "reserve_check m trial spent =
     (case mf_max_cost m of
        None \<Rightarrow> Inr ()
      | Some cap \<Rightarrow>
          bind_result (lift_error LimitUnavailable (conservative_trial_cost_bound (mf_config m) (se_mode trial))) (\<lambda>bound.
            if cap < spent + bound then Inl (BudgetExhausted (se_trial trial) spent bound) else Inr ()))"

text \<open>
  The attempts of one trial from index \<open>k\<close> on, \<open>fuel\<close> of them; the result \<open>None\<close> says that the
  trial is terminal.
\<close>

fun trial_action :: "(schema \<Rightarrow> json \<Rightarrow> bool) \<Rightarrow> (string \<Rightarrow> bool) \<Rightarrow> experiment_directory \<Rightarrow> smoke_manifest
    \<Rightarrow> real \<Rightarrow> nat \<Rightarrow> scheduled_trial \<Rightarrow> nat \<Rightarrow> nat \<Rightarrow> evaluation_error + next_action option" where
  "trial_action ajv date_ok d m spent index trial k 0 = Inl (RecoveryExhausted (se_trial trial))"
| "trial_action ajv date_ok d m spent index trial k (Suc fuel) =
     bind_result (job_at m index k) (\<lambda>job.
       case ed_attempts d (jb_attempt job) of
         None \<Rightarrow> bind_result (reserve_check m trial spent) (\<lambda>_. Inr (Some (ActRun job)))
       | Some entry \<Rightarrow>
           bind_result (read_entry ajv date_ok entry) (\<lambda>attempt.
             case ar_result attempt of
               None \<Rightarrow> trial_action ajv date_ok d m spent index trial (Suc k) fuel
             | Some result \<Rightarrow>
                 if \<not> attempt_identity_ok m job result then Inl (AttemptIdentityMismatch (jb_attempt job))
                 else if classify_trial_outcome result \<in> {OutPass, OutFail} then Inr None
                 else if rs_status result = StCompleted \<and> rs_validation result = VNotRun \<and> ae_submission entry
                 then Inr (Some (ActValidate job))
                 else trial_action ajv date_ok d m spent index trial (Suc k) fuel))"

fun schedule_action :: "(schema \<Rightarrow> json \<Rightarrow> bool) \<Rightarrow> (string \<Rightarrow> bool) \<Rightarrow> experiment_directory \<Rightarrow> smoke_manifest
    \<Rightarrow> real \<Rightarrow> nat \<Rightarrow> scheduled_trial list \<Rightarrow> evaluation_error + next_action" where
  "schedule_action ajv date_ok d m spent index [] = Inr ActDone"
| "schedule_action ajv date_ok d m spent index (trial # rest) =
     bind_result (trial_action ajv date_ok d m spent index trial 0 (length (se_attempts trial))) (\<lambda>action.
       case action of
         None \<Rightarrow> schedule_action ajv date_ok d m spent (Suc index) rest
       | Some a \<Rightarrow> Inr a)"

definition next_evaluation_action :: "(schema \<Rightarrow> json \<Rightarrow> bool) \<Rightarrow> (json \<Rightarrow> string) \<Rightarrow> (string \<Rightarrow> bool)
    \<Rightarrow> experiment_directory \<Rightarrow> evaluation_error + next_action" where
  "next_evaluation_action ajv digest date_ok d =
     bind_result (read_smoke_manifest ajv digest (ed_manifest d)) (\<lambda>m.
     bind_result (experiment_spend ajv date_ok d m) (\<lambda>(known, spent).
       if mf_max_cost m \<noteq> None \<and> \<not> known then Inl BilledUsageUnknown
       else schedule_action ajv date_ok d m spent 0 (mf_schedule m)))"

subsection \<open>Resuming\<close>

record resume_options =
  ro_source :: "string option"
  ro_roots :: evaluation_roots
  ro_config :: file_read
  ro_check :: json
  ro_evidence :: evidence_kind
  ro_images :: json
  ro_pnpm :: string
  ro_cargo :: string

definition resume_task :: "(schema \<Rightarrow> json \<Rightarrow> bool) \<Rightarrow> (string \<Rightarrow> string) \<Rightarrow> evaluation_roots \<Rightarrow> manifest_task
    \<Rightarrow> evaluation_error + unit" where
  "resume_task ajv sha roots t =
     bind_result (lift_error ManifestTaskError (load_task_definition ajv sha (mt_id t) roots)) (\<lambda>loaded.
       if lt_hash loaded \<noteq> mt_hash t \<or> td_fixture_hash (lt_definition loaded) \<noteq> mt_source t \<or>
          td_validator_hash (lt_definition loaded) \<noteq> mt_validator t
       then Inl (ResumeTaskChanged (mt_id t)) else Inr ())"

definition resume_unchanged :: "(string \<Rightarrow> string) \<Rightarrow> resume_options \<Rightarrow> json \<Rightarrow> json \<Rightarrow> json \<Rightarrow> bool" where
  "resume_unchanged sha options stored checked m \<longleftrightarrow>
     stored = json_get ''configuration'' m \<and>
     json_get ''fingerprint'' checked = json_get ''fingerprints'' m \<and>
     json_get ''authProfile'' checked = json_get ''authProfile'' m \<and>
     ro_images options = json_get ''images'' m \<and>
     JStr (sha (ro_pnpm options)) = json_get ''pnpmLockHash'' (json_get ''upstream'' m) \<and>
     JStr (sha (ro_cargo options)) = json_get ''cargoLockHash'' (json_get ''upstream'' m)"

definition verify_resume_compatibility :: "(schema \<Rightarrow> json \<Rightarrow> bool) \<Rightarrow> (string \<Rightarrow> string) \<Rightarrow> (json \<Rightarrow> string)
    \<Rightarrow> resume_options \<Rightarrow> experiment_directory \<Rightarrow> evaluation_error + smoke_manifest" where
  "verify_resume_compatibility ajv sha digest options d =
     bind_result (read_smoke_manifest ajv digest (ed_manifest d)) (\<lambda>m.
       if mf_version2 m \<and> ro_source options \<noteq> Some (json_str (json_get ''sourceContentHash'' (mf_json m)))
       then Inl ResumeSourceChanged
       else if json_get ''benchmark'' (mf_json m) \<noteq> JNull \<and> ed_protocol d \<noteq> json_get ''benchmark'' (mf_json m)
       then Inl ResumeProtocolChanged
       else if mf_evidence m \<noteq> ro_evidence options then Inl (ResumeEvidence (mf_evidence m))
       else
         bind_result (lift_error ManifestConfig (load_config_json ajv (ro_config options))) (\<lambda>(config, stored).
         bind_result (config_check_summary (ro_check options)) (\<lambda>checked.
         if \<not> resume_unchanged sha options stored checked (mf_json m) then Inl ResumeConfigurationChanged
         else bind_result (map_result (resume_task ajv sha (ro_roots options)) (mf_tasks m)) (\<lambda>_. Inr m))))"

subsection \<open>What an experiment has cost\<close>

definition entry_result :: "(schema \<Rightarrow> json \<Rightarrow> bool) \<Rightarrow> (string \<Rightarrow> bool) \<Rightarrow> attempt_entry \<Rightarrow> run_result option" where
  "entry_result ajv date_ok entry = (case read_entry ajv date_ok entry of
     Inl e \<Rightarrow> None | Inr attempt \<Rightarrow> ar_result attempt)"

text \<open>
  What the attempts of an experiment really cost is given by a bill, a function the program does not have.
  A bill agrees with the records when a cost that was recorded is the cost that was billed, and an attempt
  that recorded no cost and observed no usage was not billed. Nothing is said of the bill of an attempt that
  was interrupted or whose cost is unknown although calls were observed.
\<close>

definition bill_agrees :: "(string \<Rightarrow> real) \<Rightarrow> string \<Rightarrow> run_result option \<Rightarrow> bool" where
  "bill_agrees bill x result \<longleftrightarrow> (case result of
     None \<Rightarrow> True
   | Some r \<Rightarrow> (case co_total_estimated (rs_costs r) of
       Some cost \<Rightarrow> bill x = cost
     | None \<Rightarrow> us_observed (sum_total (rs_usage r)) = 0 \<longrightarrow> bill x = 0))"

text \<open>Every attempt that was started is billed at most what was reserved for its trial.\<close>

definition within_reserve :: "smoke_manifest \<Rightarrow> (string \<Rightarrow> real) \<Rightarrow> experiment_directory \<Rightarrow> bool" where
  "within_reserve m bill d \<longleftrightarrow> (\<forall>e \<in> set (mf_schedule m). \<forall>x \<in> set (se_attempts e). \<forall>bound.
     ed_attempts d x \<noteq> None \<and> conservative_trial_cost_bound (mf_config m) (se_mode e) = Inr bound \<longrightarrow> bill x \<le> bound)"

definition billed_as_recorded :: "(schema \<Rightarrow> json \<Rightarrow> bool) \<Rightarrow> (string \<Rightarrow> bool) \<Rightarrow> (string \<Rightarrow> real)
    \<Rightarrow> experiment_directory \<Rightarrow> bool" where
  "billed_as_recorded ajv date_ok bill d \<longleftrightarrow>
     (\<forall>x entry. ed_attempts d x = Some entry \<longrightarrow> bill_agrees bill x (entry_result ajv date_ok entry))"

definition started_bill :: "(string \<Rightarrow> real) \<Rightarrow> (string \<Rightarrow> attempt_entry option) \<Rightarrow> string \<Rightarrow> real" where
  "started_bill bill attempts x = (if attempts x = None then 0 else bill x)"

definition manifest_attempts :: "smoke_manifest \<Rightarrow> string list" where
  "manifest_attempts m = concat (map se_attempts (mf_schedule m))"

text \<open>The bill of all attempts that were started, interrupted or not.\<close>

definition total_bill :: "(string \<Rightarrow> real) \<Rightarrow> experiment_directory \<Rightarrow> smoke_manifest \<Rightarrow> real" where
  "total_bill bill d m = sum_list (map (started_bill bill (ed_attempts d)) (manifest_attempts m))"

text \<open>The attempts of a trial are started one after the other.\<close>

fun started_prefix :: "(string \<Rightarrow> attempt_entry option) \<Rightarrow> string list \<Rightarrow> bool" where
  "started_prefix attempts [] = True"
| "started_prefix attempts (x # xs) =
     (if attempts x = None then list_all (\<lambda>y. attempts y = None) xs else started_prefix attempts xs)"

lemma unstarted_bill: "list_all (\<lambda>y. attempts y = None) xs \<Longrightarrow> sum_list (map (started_bill bill attempts) xs) = 0"
  by (induction xs) (simp_all add: started_bill_def)

text \<open>What is known to be spent is the bill: an attempt without a result, or with unknown usage, is not known.\<close>

lemma attempt_spend_known:
  assumes "attempt_spend ajv date_ok attempts acc xs = Inr (True, t)" "started_prefix attempts xs"
    and "\<And>x entry. attempts x = Some entry \<Longrightarrow> bill_agrees bill x (entry_result ajv date_ok entry)"
  shows "t = acc + sum_list (map (started_bill bill attempts) xs)"
  using assms(1,2)
proof (induction xs arbitrary: acc)
  case (Cons x xs)
  show ?case
  proof (cases "attempts x")
    case None
    then have "started_bill bill attempts x = 0" by (simp add: started_bill_def)
    with None Cons.prems unstarted_bill [of attempts xs bill] show ?thesis by simp
  next
    case (Some entry)
    obtain attempt result where a: "read_entry ajv date_ok entry = Inr attempt" "ar_result attempt = Some result"
      using Cons.prems(1) Some by (auto split: option.splits)
    have "bill_agrees bill x (Some result)" using assms(3) [OF Some] a by (simp add: entry_result_def)
    then have "attempt_spend ajv date_ok attempts (acc + bill x) xs = Inr (True, t)"
      using Cons.prems(1) Some a by (auto simp: bill_agrees_def split: option.splits if_splits)
    from Cons.IH [OF this] show ?thesis using Cons.prems(2) Some by (simp add: started_bill_def)
  qed
qed simp

lemma trials_spend_known:
  assumes "trials_spend ajv date_ok attempts acc trials = Inr (True, t)"
    and "list_all (\<lambda>e. started_prefix attempts (se_attempts e)) trials"
    and "\<And>x entry. attempts x = Some entry \<Longrightarrow> bill_agrees bill x (entry_result ajv date_ok entry)"
  shows "t = acc + sum_list (map (started_bill bill attempts) (concat (map se_attempts trials)))"
  using assms(1,2)
proof (induction trials arbitrary: acc)
  case (Cons e trials)
  obtain t' where e: "attempt_spend ajv date_ok attempts acc (se_attempts e) = Inr (True, t')"
    and rest: "trials_spend ajv date_ok attempts t' trials = Inr (True, t)"
    using Cons.prems(1) by (auto split: if_splits)
  show ?case
    using attempt_spend_known [OF e _ assms(3)] Cons.IH [OF rest] Cons.prems(2) by simp
qed simp

text \<open>An attempt all of whose calls are missing their usage counts as known and free, whatever it was billed.\<close>

lemma missing_usage_counts_as_free:
  assumes "attempts x = Some entry" "entry_result ajv date_ok entry = Some r"
    and "co_total_estimated (rs_costs r) = None" "us_observed (sum_total (rs_usage r)) = 0"
  shows "attempt_spend ajv date_ok attempts acc (x # rest) = attempt_spend ajv date_ok attempts acc rest"
  using assms by (auto simp: entry_result_def split: sum.splits)

subsection \<open>What the next action is\<close>

lemma job_at_Inr:
  assumes "job_at m index k = Inr job"
  shows "index < length (mf_schedule m)" "jb_trial job = mf_schedule m ! index"
    "k < length (se_attempts (mf_schedule m ! index))" "jb_attempt job = se_attempts (mf_schedule m ! index) ! k"
  using assms by (auto simp: job_at_def Let_def split: if_splits option.splits)

text \<open>
  An attempt decides its trial when its result passed or failed; it is passed over when it was read
  and did not.
\<close>

definition decided :: "(schema \<Rightarrow> json \<Rightarrow> bool) \<Rightarrow> (string \<Rightarrow> bool) \<Rightarrow> experiment_directory \<Rightarrow> string \<Rightarrow> bool" where
  "decided ajv date_ok d x \<longleftrightarrow> (\<exists>entry result. ed_attempts d x = Some entry \<and>
     entry_result ajv date_ok entry = Some result \<and> classify_trial_outcome result \<in> {OutPass, OutFail})"

definition passed_over :: "(schema \<Rightarrow> json \<Rightarrow> bool) \<Rightarrow> (string \<Rightarrow> bool) \<Rightarrow> experiment_directory \<Rightarrow> string \<Rightarrow> bool" where
  "passed_over ajv date_ok d x \<longleftrightarrow> (\<exists>entry attempt. ed_attempts d x = Some entry \<and>
     read_entry ajv date_ok entry = Inr attempt) \<and> \<not> decided ajv date_ok d x"

text \<open>A terminal trial: attempts that were passed over, then one that decides it.\<close>

definition terminal :: "(schema \<Rightarrow> json \<Rightarrow> bool) \<Rightarrow> (string \<Rightarrow> bool) \<Rightarrow> experiment_directory \<Rightarrow> string list \<Rightarrow> bool" where
  "terminal ajv date_ok d xs \<longleftrightarrow> (\<exists>i < length xs. decided ajv date_ok d (xs ! i) \<and>
     (\<forall>j < i. passed_over ajv date_ok d (xs ! j)))"

text \<open>A run targets the first attempt of its trial that was not started, within the reserve.\<close>

definition run_target :: "(schema \<Rightarrow> json \<Rightarrow> bool) \<Rightarrow> (string \<Rightarrow> bool) \<Rightarrow> experiment_directory
    \<Rightarrow> smoke_manifest \<Rightarrow> real \<Rightarrow> smoke_job \<Rightarrow> bool" where
  "run_target ajv date_ok d m spent job \<longleftrightarrow>
     jb_trial job \<in> set (mf_schedule m) \<and>
     (\<forall>cap. mf_max_cost m = Some cap \<longrightarrow> (\<exists>bound.
        conservative_trial_cost_bound (mf_config m) (se_mode (jb_trial job)) = Inr bound \<and> spent + bound \<le> cap)) \<and>
     (\<exists>xs ys. se_attempts (jb_trial job) = xs @ jb_attempt job # ys \<and>
        list_all (passed_over ajv date_ok d) xs \<and> ed_attempts d (jb_attempt job) = None)"

definition validate_target :: "(schema \<Rightarrow> json \<Rightarrow> bool) \<Rightarrow> (string \<Rightarrow> bool) \<Rightarrow> experiment_directory
    \<Rightarrow> smoke_manifest \<Rightarrow> smoke_job \<Rightarrow> bool" where
  "validate_target ajv date_ok d m job \<longleftrightarrow>
     jb_trial job \<in> set (mf_schedule m) \<and> jb_attempt job \<in> set (se_attempts (jb_trial job)) \<and>
     (\<exists>entry result. ed_attempts d (jb_attempt job) = Some entry \<and> ae_submission entry \<and>
        entry_result ajv date_ok entry = Some result \<and> attempt_identity_ok m job result \<and>
        rs_status result = StCompleted \<and> rs_validation result = VNotRun)"

lemma reserved:
  "reserve_check m trial spent = Inr u \<Longrightarrow> mf_max_cost m = Some cap \<Longrightarrow>
     \<exists>bound. conservative_trial_cost_bound (mf_config m) (se_mode trial) = Inr bound \<and> spent + bound \<le> cap"
  by (auto simp: reserve_check_def split: if_splits)

lemma trial_action_cases:
  assumes "trial_action ajv date_ok d m spent index trial k fuel = Inr action"
    and "trial = mf_schedule m ! index" "k + fuel \<le> length (se_attempts trial)"
    and "\<And>i. i < k \<Longrightarrow> passed_over ajv date_ok d (se_attempts trial ! i)"
  shows "case action of
      Some (ActRun job) \<Rightarrow> run_target ajv date_ok d m spent job
    | Some (ActValidate job) \<Rightarrow> validate_target ajv date_ok d m job
    | Some ActDone \<Rightarrow> False
    | None \<Rightarrow> terminal ajv date_ok d (se_attempts trial)"
  using assms
proof (induction fuel arbitrary: k)
  case (Suc fuel)
  obtain job where job: "job_at m index k = Inr job" using Suc.prems(1) by auto
  note at = job_at_Inr [OF job, folded Suc.prems(2)]
  show ?case
  proof (cases "ed_attempts d (jb_attempt job)")
    case None
    have run: "action = Some (ActRun job)" "reserve_check m trial spent = Inr ()"
      using Suc.prems(1) job None by auto
    have "se_attempts trial = take k (se_attempts trial) @ jb_attempt job # drop (Suc k) (se_attempts trial)"
      using at(3,4) by (simp add: id_take_nth_drop)
    moreover have "list_all (passed_over ajv date_ok d) (take k (se_attempts trial))"
      using Suc.prems(4) at(3) by (auto simp: list_all_length)
    moreover have "trial \<in> set (mf_schedule m)" using at(1) Suc.prems(2) by simp
    ultimately show ?thesis using run None at(2) by (auto simp: run_target_def dest: reserved)
  next
    case (Some entry)
    obtain attempt where a: "read_entry ajv date_ok entry = Inr attempt"
      using Suc.prems(1) job Some by auto
    have res: "entry_result ajv date_ok entry = ar_result attempt" by (simp add: entry_result_def a)
    have next_ok: "passed_over ajv date_ok d (se_attempts trial ! i)"
      if "i < Suc k" "\<not> decided ajv date_ok d (jb_attempt job)" for i
      using that Suc.prems(4) [of i] Some at(4) a by (cases "i = k") (auto simp: passed_over_def)
    show ?thesis
    proof (cases "ar_result attempt")
      case None
      have "\<not> decided ajv date_ok d (jb_attempt job)" using Some res None by (simp add: decided_def)
      then show ?thesis
        using Suc.IH [of "Suc k"] Suc.prems job Some a None next_ok by simp
    next
      case (Some result)
      note result = this
      have ok: "attempt_identity_ok m job result"
        using Suc.prems(1) job \<open>ed_attempts d (jb_attempt job) = Some entry\<close> a result by (auto split: if_splits)
      show ?thesis
      proof (cases "classify_trial_outcome result \<in> {OutPass, OutFail}")
        case True
        then have "action = None" "decided ajv date_ok d (se_attempts trial ! k)"
          using Suc.prems(1) job \<open>ed_attempts d (jb_attempt job) = Some entry\<close> a result ok res at(4)
          by (auto simp: decided_def)
        then show ?thesis using at(3) Suc.prems(4) by (auto simp: terminal_def intro!: exI [of _ k])
      next
        case False
        note undecided = this
        have nd: "\<not> decided ajv date_ok d (jb_attempt job)"
          using \<open>ed_attempts d (jb_attempt job) = Some entry\<close> res result undecided by (simp add: decided_def)
        show ?thesis
        proof (cases "rs_status result = StCompleted \<and> rs_validation result = VNotRun \<and> ae_submission entry")
          case True
          then have "action = Some (ActValidate job)"
            using Suc.prems(1) job \<open>ed_attempts d (jb_attempt job) = Some entry\<close> a result ok undecided by simp
          moreover have "validate_target ajv date_ok d m job"
            unfolding validate_target_def
            using True \<open>ed_attempts d (jb_attempt job) = Some entry\<close> res result ok at Suc.prems(2) by auto
          ultimately show ?thesis by simp
        next
          case False
          then have "trial_action ajv date_ok d m spent index trial (Suc k) fuel = Inr action"
            using Suc.prems(1) job \<open>ed_attempts d (jb_attempt job) = Some entry\<close> a result ok undecided by (auto split: if_splits)
          then show ?thesis using Suc.IH [of "Suc k"] Suc.prems(2,3) next_ok nd by simp
        qed
      qed
    qed
  qed
qed simp

lemma schedule_action_cases:
  assumes "schedule_action ajv date_ok d m spent index trials = Inr action"
    and "trials = drop index (mf_schedule m)"
  shows "case action of
      ActRun job \<Rightarrow> run_target ajv date_ok d m spent job
    | ActValidate job \<Rightarrow> validate_target ajv date_ok d m job
    | ActDone \<Rightarrow> \<forall>trial \<in> set trials. terminal ajv date_ok d (se_attempts trial)"
  using assms
proof (induction trials arbitrary: index)
  case (Cons trial trials)
  have trial: "trial = mf_schedule m ! index" "trials = drop (Suc index) (mf_schedule m)"
    using Cons.prems(2) by (metis nth_via_drop, metis drop_Suc list.sel(3) tl_drop)
  obtain a where a: "trial_action ajv date_ok d m spent index trial 0 (length (se_attempts trial)) = Inr a"
    using Cons.prems(1) by auto
  note cases = trial_action_cases [OF a trial(1)]
  show ?case
  proof (cases a)
    case None
    then have "schedule_action ajv date_ok d m spent (Suc index) trials = Inr action"
      using Cons.prems(1) a by simp
    from Cons.IH [OF this trial(2)] cases None show ?thesis by (cases action) auto
  next
    case (Some b)
    then have "action = b" using Cons.prems(1) a by simp
    with cases Some show ?thesis by (cases b) auto
  qed
qed simp

lemma next_action_Inr:
  assumes "next_evaluation_action ajv digest date_ok d = Inr action"
    and "read_smoke_manifest ajv digest (ed_manifest d) = Inr m"
  obtains known spent where "experiment_spend ajv date_ok d m = Inr (known, spent)"
    "mf_max_cost m = None \<or> known"
    "schedule_action ajv date_ok d m spent 0 (mf_schedule m) = Inr action"
  using assms by (auto simp: next_evaluation_action_def split: if_splits)

subsection \<open>The evolution of an experiment\<close>

text \<open>
  One round of the controller: the next action is determined from the directory and carried out. A
  run leaves any new attempt behind, complete or not; a validation is attached to the attempt it was
  asked for.
\<close>

definition put_attempt :: "string \<Rightarrow> attempt_entry \<Rightarrow> experiment_directory \<Rightarrow> experiment_directory" where
  "put_attempt x entry d = d\<lparr>ed_attempts := (ed_attempts d)(x \<mapsto> entry)\<rparr>"

inductive experiment_step :: "(schema \<Rightarrow> json \<Rightarrow> bool) \<Rightarrow> (json \<Rightarrow> string) \<Rightarrow> (string \<Rightarrow> bool)
    \<Rightarrow> smoke_manifest \<Rightarrow> experiment_directory \<Rightarrow> experiment_directory \<Rightarrow> bool"
  for ajv digest date_ok m where
  StepRun: "next_evaluation_action ajv digest date_ok d = Inr (ActRun job) \<Longrightarrow>
     experiment_step ajv digest date_ok m d (put_attempt (jb_attempt job) entry d)"
| StepValidate: "next_evaluation_action ajv digest date_ok d = Inr (ActValidate job) \<Longrightarrow>
     ed_attempts d (jb_attempt job) = Some entry \<Longrightarrow> ae_log entry \<Longrightarrow> iv_status v \<noteq> VNotRun \<Longrightarrow>
     attach_validation_result ajv date_ok v (ae_files entry) = Inr (files, result) \<Longrightarrow>
     experiment_step ajv digest date_ok m d (put_attempt (jb_attempt job) (entry\<lparr>ae_files := files\<rparr>) d)"

definition experiment_inv :: "(schema \<Rightarrow> json \<Rightarrow> bool) \<Rightarrow> (json \<Rightarrow> string)
    \<Rightarrow> smoke_manifest \<Rightarrow> (string \<Rightarrow> real) \<Rightarrow> experiment_directory \<Rightarrow> bool" where
  "experiment_inv ajv digest m bill d \<longleftrightarrow>
     read_smoke_manifest ajv digest (ed_manifest d) = Inr m \<and>
     list_all (\<lambda>e. started_prefix (ed_attempts d) (se_attempts e)) (mf_schedule m) \<and>
     (case mf_max_cost m of None \<Rightarrow> True | Some cap \<Rightarrow> total_bill bill d m \<le> cap)"

lemma put_attempt_fields [simp]:
  "ed_manifest (put_attempt x entry d) = ed_manifest d"
  "ed_attempts (put_attempt x entry d) = (ed_attempts d)(x \<mapsto> entry)"
  by (simp_all add: put_attempt_def)

lemma manifest_attempts_distinct:
  assumes "read_smoke_manifest ajv digest file = Inr m"
  shows "distinct (manifest_attempts m)"
proof -
  obtain tasks where "evaluation_schedule tasks (mf_seed m) (Fin (real (mf_repetitions m))) = Inr (mf_schedule m)"
    and "identities_ok m tasks"
    by (rule manifest_Inr [OF assms [unfolded read_smoke_manifest_def]]) blast
  then have "length (new_set (manifest_attempts m)) = length (manifest_attempts m)"
    by (simp add: identities_ok_def manifest_attempts_def)
  then show ?thesis by (metis card_distinct distinct_card new_set_distinct new_set_set)
qed

lemma total_bill_started:
  assumes "ed_attempts d x \<noteq> None"
  shows "total_bill bill (put_attempt x entry d) m = total_bill bill d m"
proof -
  have "started_bill bill (ed_attempts (put_attempt x entry d)) = started_bill bill (ed_attempts d)"
    by (rule ext) (use assms in \<open>auto simp: started_bill_def\<close>)
  then show ?thesis by (simp add: total_bill_def)
qed

lemma sum_fresh:
  assumes "distinct xs" "x \<in> set xs" "f x = 0"
  shows "sum_list (map (\<lambda>y. if y = x then c else f y) xs) = sum_list (map f xs) + (c :: real)"
  using assms
proof (induction xs)
  case (Cons z xs)
  show ?case
  proof (cases "z = x")
    case True
    with Cons.prems have same: "map (\<lambda>y. if y = x then c else f y) xs = map f xs" by (intro map_cong) auto
    with True Cons.prems(3) show ?thesis by (simp only: list.map sum_list.Cons same) simp
  next
    case False
    with Cons show ?thesis by simp
  qed
qed simp

lemma total_bill_fresh:
  assumes "distinct (manifest_attempts m)" "x \<in> set (manifest_attempts m)" "ed_attempts d x = None"
  shows "total_bill bill (put_attempt x entry d) m = total_bill bill d m + bill x"
proof -
  have "started_bill bill (ed_attempts (put_attempt x entry d)) =
      (\<lambda>y. if y = x then bill x else started_bill bill (ed_attempts d) y)"
    by (auto simp: started_bill_def)
  moreover have "started_bill bill (ed_attempts d) x = 0" using assms(3) by (simp add: started_bill_def)
  ultimately show ?thesis by (simp only: total_bill_def sum_fresh [OF assms(1,2)])
qed

lemma prefix_put_other: "x \<notin> set xs \<Longrightarrow> started_prefix (att(x \<mapsto> entry)) xs = started_prefix att xs"
proof (induction xs)
  case (Cons y xs)
  then have "list_all (\<lambda>z. (att(x \<mapsto> entry)) z = None) xs = list_all (\<lambda>z. att z = None) xs"
    by (auto simp: list_all_iff)
  with Cons show ?case by (cases "att y") auto
qed simp

lemma prefix_unstarted: "list_all (\<lambda>y. att y = None) ys \<Longrightarrow> started_prefix att ys"
  by (cases ys) auto

lemma prefix_put_first:
  assumes "started_prefix att (xs @ x # ys)" "list_all (\<lambda>y. att y \<noteq> None) xs" "att x = None" "distinct (xs @ x # ys)"
  shows "started_prefix (att(x \<mapsto> entry)) (xs @ x # ys)"
  using assms
proof (induction xs)
  case Nil
  then have "list_all (\<lambda>z. (att(x \<mapsto> entry)) z = None) ys" by (auto simp: list_all_iff)
  then show ?case by (simp add: prefix_unstarted)
qed auto

lemma prefix_put_started:
  assumes "att x \<noteq> None"
  shows "started_prefix (att(x \<mapsto> entry)) xs = started_prefix att xs"
proof (induction xs)
  case (Cons y xs)
  have "list_all (\<lambda>z. (att(x \<mapsto> entry)) z = None) xs = list_all (\<lambda>z. att z = None) xs"
    using assms by (auto simp: list_all_iff)
  with Cons assms show ?case by (cases "att y") auto
qed simp

subsection \<open>The invariant\<close>

lemma attach_keeps_cost:
  assumes "attach_validation_result ajv date_ok v (ae_files entry) = Inr (files, result)" "ae_log entry"
  shows "bill_agrees bill x (entry_result ajv date_ok (entry\<lparr>ae_files := files\<rparr>)) =
      bill_agrees bill x (entry_result ajv date_ok entry)"
    "entry_result ajv date_ok (entry\<lparr>ae_files := files\<rparr>) = Some result" "rs_validation result = iv_status v"
proof -
  obtain attempt r0 where old: "read_attempt ajv date_ok (ae_files entry) = Inr attempt" "ar_result attempt = Some r0"
    and r: "rs_costs result = rs_costs r0" "rs_usage result = rs_usage r0" "rs_validation result = iv_status v"
    and valid: "validate_run_result date_ok result = Inr result" "files = (ae_files entry)\<lparr>af_result := ResultStored result\<rparr>"
    by (rule attach_Inr [OF assms(1)]) simp
  have "entry_result ajv date_ok (entry\<lparr>ae_files := files\<rparr>) = Some result"
    using old valid assms(2) by (auto simp: entry_result_def read_entry_def read_attempt_def split: sum.splits)
  moreover have "entry_result ajv date_ok entry = Some r0" using old assms(2) by (simp add: entry_result_def read_entry_def)
  ultimately show "bill_agrees bill x (entry_result ajv date_ok (entry\<lparr>ae_files := files\<rparr>)) =
      bill_agrees bill x (entry_result ajv date_ok entry)"
    "entry_result ajv date_ok (entry\<lparr>ae_files := files\<rparr>) = Some result" "rs_validation result = iv_status v"
    using r by (simp_all add: bill_agrees_def cong: option.case_cong)
qed

lemma known_spend:
  assumes "experiment_inv ajv digest m bill d" "experiment_spend ajv date_ok d m = Inr (True, spent)"
    "billed_as_recorded ajv date_ok bill d"
  shows "spent = total_bill bill d m"
proof -
  have "bill_agrees bill x (entry_result ajv date_ok entry)" if "ed_attempts d x = Some entry" for x entry
    using assms(3) that by (simp add: billed_as_recorded_def)
  from trials_spend_known [OF assms(2) [unfolded experiment_spend_def] _ this] assms(1) show ?thesis
    by (simp add: experiment_inv_def total_bill_def manifest_attempts_def)
qed

text \<open>What is assumed of the bill at the end holds all along: attempts stay, and so do their costs.\<close>

lemma bill_before_step:
  assumes "experiment_step ajv digest date_ok m d d'" "read_smoke_manifest ajv digest (ed_manifest d) = Inr m"
    and "billed_as_recorded ajv date_ok bill d'" "within_reserve m bill d'"
  shows "billed_as_recorded ajv date_ok bill d" "within_reserve m bill d"
proof -
  have kept: "ed_attempts d x \<noteq> None \<Longrightarrow> ed_attempts d' x \<noteq> None" for x
    using assms(1) by (auto elim!: experiment_step.cases)
  then show "within_reserve m bill d" using assms(4) unfolding within_reserve_def by blast
  show "billed_as_recorded ajv date_ok bill d" unfolding billed_as_recorded_def
  proof (intro allI impI)
    fix x old assume old: "ed_attempts d x = Some old"
    from assms(1) show "bill_agrees bill x (entry_result ajv date_ok old)"
    proof (cases rule: experiment_step.cases)
      case (StepRun job entry)
      obtain known spent where sched: "schedule_action ajv date_ok d m spent 0 (mf_schedule m) = Inr (ActRun job)"
        by (rule next_action_Inr [OF StepRun(2) assms(2)])
      then have "ed_attempts d (jb_attempt job) = None" using schedule_action_cases [OF sched] by (auto simp: run_target_def)
      then have "ed_attempts d' x = Some old" using old by (auto simp: StepRun(1))
      then show ?thesis using assms(3) by (simp add: billed_as_recorded_def)
    next
      case (StepValidate job entry v files result)
      show ?thesis
      proof (cases "x = jb_attempt job")
        case True
        then have "ed_attempts d' x = Some (entry\<lparr>ae_files := files\<rparr>)" by (simp add: StepValidate(1))
        then have "bill_agrees bill x (entry_result ajv date_ok (entry\<lparr>ae_files := files\<rparr>))"
          using assms(3) by (simp add: billed_as_recorded_def)
        then show ?thesis using attach_keeps_cost(1) [OF StepValidate(6,4)] True old StepValidate(3) by simp
      next
        case False
        then have "ed_attempts d' x = Some old" using old by (simp add: StepValidate(1))
        then show ?thesis using assms(3) by (simp add: billed_as_recorded_def)
      qed
    qed
  qed
qed

lemma manifest_attempt_unique:
  assumes "distinct (concat (map se_attempts trials))" "e \<in> set trials" "e' \<in> set trials"
    "x \<in> set (se_attempts e)" "x \<in> set (se_attempts e')"
  shows "se_attempts e = se_attempts e'"
  using assms by (induction trials) auto

lemma experiment_inv_step:
  assumes "experiment_step ajv digest date_ok m d d'" "experiment_inv ajv digest m bill d"
    and "billed_as_recorded ajv date_ok bill d'" "within_reserve m bill d'"
  shows "experiment_inv ajv digest m bill d'"
  using assms(1)
proof (cases rule: experiment_step.cases)
  case (StepRun job entry)
  note read = assms(2) [unfolded experiment_inv_def, THEN conjunct1]
  note dist = manifest_attempts_distinct [OF read]
  obtain known spent where spend: "experiment_spend ajv date_ok d m = Inr (known, spent)" "mf_max_cost m = None \<or> known"
    and sched: "schedule_action ajv date_ok d m spent 0 (mf_schedule m) = Inr (ActRun job)"
    by (rule next_action_Inr [OF StepRun(2) read])
  have target: "run_target ajv date_ok d m spent job"
    using schedule_action_cases [OF sched] by simp
  then obtain xs ys where trial: "jb_trial job \<in> set (mf_schedule m)"
    and split: "se_attempts (jb_trial job) = xs @ jb_attempt job # ys" "list_all (passed_over ajv date_ok d) xs"
    and fresh: "ed_attempts d (jb_attempt job) = None"
    by (auto simp: run_target_def)
  have started: "list_all (\<lambda>x. ed_attempts d x \<noteq> None) xs"
    using split(2) by (auto simp: list_all_iff passed_over_def)
  have x: "jb_attempt job \<in> set (manifest_attempts m)" using trial split(1) by (auto simp: manifest_attempts_def intro!: bexI [of _ "jb_trial job"])
  have "started_prefix (ed_attempts d') (se_attempts e)" if e: "e \<in> set (mf_schedule m)" for e
  proof (cases "jb_attempt job \<in> set (se_attempts e)")
    case True
    then have same: "se_attempts e = xs @ jb_attempt job # ys"
      using manifest_attempt_unique [OF dist [unfolded manifest_attempts_def] e trial, of "jb_attempt job"] split(1) by simp
    have "distinct (se_attempts e)"
      using dist e by (auto simp: manifest_attempts_def distinct_concat_iff dest: split_list)
    then show ?thesis
      using assms(2) e prefix_put_first [OF _ started fresh, of ys entry]
      by (auto simp: StepRun(1) same [symmetric] experiment_inv_def list_all_iff)
  next
    case False
    then show ?thesis using assms(2) e by (simp add: StepRun(1) prefix_put_other experiment_inv_def list_all_iff)
  qed
  moreover have "total_bill bill d' m \<le> cap" if cap: "mf_max_cost m = Some cap" for cap
  proof -
    have spent: "spent = total_bill bill d m"
      using spend cap bill_before_step(1) [OF assms(1) read assms(3,4)] by (intro known_spend [OF assms(2)]) simp_all
    obtain bound where bound: "conservative_trial_cost_bound (mf_config m) (se_mode (jb_trial job)) = Inr bound" "spent + bound \<le> cap"
      using target cap by (auto simp: run_target_def)
    have "jb_attempt job \<in> set (se_attempts (jb_trial job))" "ed_attempts d' (jb_attempt job) \<noteq> None"
      using split(1) by (simp_all add: StepRun(1))
    then have "bill (jb_attempt job) \<le> bound" using assms(4) trial bound(1) unfolding within_reserve_def by blast
    then show ?thesis using spent bound(2) by (simp add: StepRun(1) total_bill_fresh [OF dist x fresh])
  qed
  ultimately show ?thesis
    using read by (auto simp: experiment_inv_def StepRun(1) list_all_iff split: option.split)
next
  case (StepValidate job entry v files result)
  note read = assms(2) [unfolded experiment_inv_def, THEN conjunct1]
  note dist = manifest_attempts_distinct [OF read]
  have "total_bill bill d' m = total_bill bill d m"
    using StepValidate(3) by (simp add: StepValidate(1) total_bill_started)
  moreover have "started_prefix (ed_attempts d') xs = started_prefix (ed_attempts d) xs" for xs
    using StepValidate(3) by (simp add: StepValidate(1) prefix_put_started)
  ultimately show ?thesis
    using assms(2) read by (auto simp: experiment_inv_def StepValidate(1) split: option.splits)
qed

lemma experiment_inv_reach:
  assumes "(experiment_step ajv digest date_ok m)\<^sup>*\<^sup>* d d'" "experiment_inv ajv digest m bill d"
    and "billed_as_recorded ajv date_ok bill d'" "within_reserve m bill d'"
  shows "experiment_inv ajv digest m bill d'"
proof -
  have "read_smoke_manifest ajv digest (ed_manifest d) = Inr m" using assms(2) by (simp add: experiment_inv_def)
  moreover have "ed_manifest d' = ed_manifest d \<and> (billed_as_recorded ajv date_ok bill d' \<longrightarrow> within_reserve m bill d' \<longrightarrow>
      experiment_inv ajv digest m bill d')" using assms(1)
  proof (induction rule: rtranclp_induct)
    case base
    then show ?case using assms(2) by blast
  next
    case (step d1 d2)
    have m: "ed_manifest d2 = ed_manifest d1" using step.hyps(2) by (auto elim: experiment_step.cases)
    have read: "read_smoke_manifest ajv digest (ed_manifest d1) = Inr m" using step.IH calculation by simp
    from bill_before_step [OF step.hyps(2) read] experiment_inv_step [OF step.hyps(2)] step.IH m show ?case by metis
  qed
  ultimately show ?thesis using assms(3,4) by blast
qed

lemma accepted_cap:
  assumes "json_validator ajv" "read_smoke_manifest ajv digest file = Inr m" "mf_max_cost m = Some cap"
  shows "0 < cap"
proof -
  have v: "validate_smoke_manifest ajv digest file = Inr m" using assms(2) by (simp add: read_smoke_manifest_def)
  obtain j: "mf_json m = json_set ''configuration'' (normalize_config_json (json_get ''configuration'' file)) file"
    "m = decode_manifest (mf_json m) (mf_config m)"
    by (rule manifest_Inr [OF v]) blast
  have schema: "schema_valid (Schema [KType [TNumber, TNull], KExclusiveMinimum 0]) (json_get ''maxCostUsd'' file)"
    if "schema_valid (Schema [KType [TObject], KRequired (manifest_required @ r), KClosed (manifest_properties n @ q)]) file" for r n q
    by (rule closed_required [OF that, THEN conjunct2]) (simp_all add: manifest_required_def manifest_properties_def)
  have "schema_valid (Schema [KType [TNumber, TNull], KExclusiveMinimum 0]) (json_get ''maxCostUsd'' file)"
    using v schema [of Nil 1 Nil] schema [of _ 2]
    by (auto simp: validate_smoke_manifest_def json_validator.ajv_standard [OF assms(1)] manifest_schema_v1_def
        manifest_schema_v2_def simp del: schema_valid.simps split: if_splits)
  moreover have "json_get ''maxCostUsd'' file = JNum cap"
    using assms(3) by (subst (asm) j(2)) (auto simp: decode_manifest_def j(1) get_set_other split: json.splits)
  ultimately show ?thesis by simp
qed

lemma initial_inv:
  assumes "json_validator ajv" "read_smoke_manifest ajv digest (ed_manifest d) = Inr m" "ed_attempts d = Map.empty"
  shows "experiment_inv ajv digest m bill d"
proof -
  have "total_bill bill d m = 0"
    using unstarted_bill [of "ed_attempts d" "manifest_attempts m" bill] assms(3) by (simp add: total_bill_def list_all_iff)
  moreover have "started_prefix (ed_attempts d) xs" for xs using assms(3) by (intro prefix_unstarted) (simp add: list_all_iff)
  ultimately show ?thesis
    using assms(2) accepted_cap [OF assms(1,2)] by (auto simp: experiment_inv_def list_all_iff intro: less_imp_le split: option.split)
qed

subsection \<open>The end of an experiment\<close>

text \<open>What is left to do for an attempt: to run it, then to validate it.\<close>

definition attempt_weight :: "(schema \<Rightarrow> json \<Rightarrow> bool) \<Rightarrow> (string \<Rightarrow> bool) \<Rightarrow> (string \<Rightarrow> attempt_entry option)
    \<Rightarrow> string \<Rightarrow> nat" where
  "attempt_weight ajv date_ok attempts x = (case attempts x of
     None \<Rightarrow> 2
   | Some entry \<Rightarrow> (case entry_result ajv date_ok entry of
       None \<Rightarrow> 0 | Some result \<Rightarrow> if rs_validation result = VNotRun then 1 else 0))"

definition total_weight :: "(schema \<Rightarrow> json \<Rightarrow> bool) \<Rightarrow> (string \<Rightarrow> bool) \<Rightarrow> smoke_manifest \<Rightarrow> experiment_directory
    \<Rightarrow> nat" where
  "total_weight ajv date_ok m d = sum_list (map (attempt_weight ajv date_ok (ed_attempts d)) (manifest_attempts m))"

lemma sum_list_less:
  assumes "x \<in> set xs" "g x < f x" "\<And>y. g y \<le> f y"
  shows "sum_list (map g xs) < sum_list (map f xs :: nat list)"
  using assms(1)
proof (induction xs)
  case (Cons y xs)
  have "sum_list (map g xs) \<le> sum_list (map f xs)" by (intro sum_list_mono assms(3))
  with Cons assms(2) assms(3) [of y] show ?case by (cases "x = y") (auto intro: add_less_le_mono add_le_less_mono)
qed simp

lemma weight_decreases:
  assumes "experiment_step ajv digest date_ok m d d'" "read_smoke_manifest ajv digest (ed_manifest d) = Inr m"
  shows "total_weight ajv date_ok m d' < total_weight ajv date_ok m d"
  using assms(1)
proof (cases rule: experiment_step.cases)
  case (StepRun job entry)
  obtain known spent where sched: "schedule_action ajv date_ok d m spent 0 (mf_schedule m) = Inr (ActRun job)"
    by (rule next_action_Inr [OF StepRun(2) assms(2)])
  then have target: "run_target ajv date_ok d m spent job" using schedule_action_cases [OF sched] by simp
  then have "jb_attempt job \<in> set (manifest_attempts m)"
    by (auto simp: run_target_def manifest_attempts_def intro!: bexI [of _ "jb_trial job"])
  moreover have "ed_attempts d (jb_attempt job) = None" using target by (auto simp: run_target_def)
  ultimately show ?thesis
    unfolding total_weight_def StepRun(1)
    by (intro sum_list_less) (auto simp: attempt_weight_def split: option.split)
next
  case (StepValidate job entry v files result)
  obtain known spent where sched: "schedule_action ajv date_ok d m spent 0 (mf_schedule m) = Inr (ActValidate job)"
    by (rule next_action_Inr [OF StepValidate(2) assms(2)])
  then have target: "validate_target ajv date_ok d m job" using schedule_action_cases [OF sched] by simp
  then have "jb_attempt job \<in> set (manifest_attempts m)"
    by (auto simp: validate_target_def manifest_attempts_def)
  moreover have "attempt_weight ajv date_ok (ed_attempts d) (jb_attempt job) = 1"
    using target by (auto simp: validate_target_def attempt_weight_def)
  moreover have "attempt_weight ajv date_ok (ed_attempts d') (jb_attempt job) = 0"
    using attach_keeps_cost(2,3) [OF StepValidate(6,4)] StepValidate(5) by (simp add: attempt_weight_def StepValidate(1))
  moreover have "attempt_weight ajv date_ok (ed_attempts d') y = attempt_weight ajv date_ok (ed_attempts d) y"
    if "y \<noteq> jb_attempt job" for y
    using that by (simp add: attempt_weight_def StepValidate(1))
  moreover from calculation have "attempt_weight ajv date_ok (ed_attempts d') y \<le> attempt_weight ajv date_ok (ed_attempts d) y" for y
    by (cases "y = jb_attempt job") simp_all
  ultimately show ?thesis
    unfolding total_weight_def by (intro sum_list_less [where x = "jb_attempt job"]) simp_all
qed

lemma step_manifest: "experiment_step ajv digest date_ok m d d' \<Longrightarrow> ed_manifest d' = ed_manifest d"
  by (auto elim: experiment_step.cases)

lemma steps_weight:
  assumes "(experiment_step ajv digest date_ok m ^^ n) d d'" "read_smoke_manifest ajv digest (ed_manifest d) = Inr m"
  shows "n + total_weight ajv date_ok m d' \<le> total_weight ajv date_ok m d \<and> ed_manifest d' = ed_manifest d"
  using assms(1)
proof (induction n arbitrary: d')
  case (Suc n)
  then obtain d1 where d1: "(experiment_step ajv digest date_ok m ^^ n) d d1" "experiment_step ajv digest date_ok m d1 d'"
    by auto
  with Suc.IH [OF d1(1)] assms(2) weight_decreases [OF d1(2)] step_manifest [OF d1(2)] show ?case by simp
qed simp

lemma manifest_attempts_length:
  assumes "read_smoke_manifest ajv digest file = Inr m"
  shows "length (manifest_attempts m) = 16 * length (mf_schedule m)"
proof -
  obtain tasks where s: "evaluation_schedule tasks (mf_seed m) (Fin (real (mf_repetitions m))) = Inr (mf_schedule m)"
    by (rule manifest_Inr [OF assms [unfolded read_smoke_manifest_def]])
  have "length (se_attempts e) = 16" if "e \<in> set (mf_schedule m)" for e
    using arg_cong [OF schedule_attempts [OF s], of "map length"] that
    by (simp add: comp_def max_attempts_per_trial_def)
  then have "\<forall>e \<in> set (mf_schedule m). length (se_attempts e) = 16" by blast
  moreover have "\<forall>e \<in> set es. length (se_attempts e) = 16 \<Longrightarrow> length (concat (map se_attempts es)) = 16 * length es"
    for es by (induction es) simp_all
  ultimately show ?thesis unfolding manifest_attempts_def by blast
qed

subsection \<open>A first round\<close>

definition example_directory :: experiment_directory where
  "example_directory = \<lparr>ed_manifest = example_value, ed_protocol = JNull, ed_attempts = Map.empty\<rparr>"

abbreviation example_smoke :: smoke_manifest where
  "example_smoke \<equiv> decode_manifest example_value bounded_config"

text \<open>An attempt that was interrupted: a log and no result.\<close>

definition example_entry :: attempt_entry where
  "example_entry = \<lparr>ae_log = True, ae_files = as_files example_new, ae_submission = False\<rparr>"

lemma example_smoke_read: "read_smoke_manifest schema_valid const_digest (ed_manifest example_directory) = Inr example_smoke"
  by (simp add: example_directory_def read_smoke_manifest_def example_accepted)

lemma example_smoke_fields:
  "mf_schedule example_smoke = smoke_sched" "map mt_id (mf_tasks example_smoke) = smoke_ids"
  "mf_max_cost example_smoke = Some 1" "mf_config example_smoke = bounded_config"
proof -
  have "map (\<lambda>t. json_str (json_get ''id'' t)) example_tasks_json = smoke_ids"
    by (simp add: example_tasks_json_def manifest_task_json_def json_get_def comp_def)
  then show "map mt_id (mf_tasks example_smoke) = smoke_ids"
    by (simp add: decode_manifest_def example_value_get comp_def decode_manifest_task_def)
  have "json_get ''maxCostUsd'' example_value = JNum 1"
    by (simp add: example_value_def example_members_def json_get_def)
  then show "mf_max_cost example_smoke = Some 1" by (simp add: decode_manifest_def)
qed (simp_all add: decode_manifest_def example_value_get comp_def)

lemma smoke_member:
  assumes "e \<in> set smoke_sched"
  shows "se_attempts e = attempt_ids (se_trial e)" "se_task e \<in> set smoke_ids" "\<forall>x \<in> set (se_attempts e). x \<noteq> []"
    "length (se_attempts e) = 16" "se_trial e \<noteq> []"
proof -
  have one: "evaluation_schedule smoke_ids 7 (Fin (real 1)) = Inr smoke_sched" using smoke_sched(1) by simp
  show a: "se_attempts e = attempt_ids (se_trial e)"
    using schedule_member(1) [OF one assms] by (metis schedule_entry_fields(5,6))
  show "se_task e \<in> set smoke_ids" by (rule schedule_member(2) [OF one assms])
  show "\<forall>x \<in> set (se_attempts e). x \<noteq> []" "length (se_attempts e) = 16"
    unfolding a by (auto simp: attempt_ids_def max_attempts_per_trial_def)
  have "se_trial e = trial_id (se_task e) (se_repetition e) (se_mode e)"
    using schedule_member(1) [OF one assms] by (metis schedule_entry_fields(5))
  then show "se_trial e \<noteq> []" by (simp add: trial_id_def)
qed

lemma smoke_task:
  assumes "e \<in> set smoke_sched"
  obtains task where "find (\<lambda>t. mt_id t = se_task e) (mf_tasks example_smoke) = Some task"
proof -
  have "se_task e \<in> set (map mt_id (mf_tasks example_smoke))"
    using smoke_member(2) [OF assms] by (simp only: example_smoke_fields(2))
  then have "find (\<lambda>t. mt_id t = se_task e) (mf_tasks example_smoke) \<noteq> None"
    by (auto simp: find_None_iff simp del: set_map) auto
  then show thesis using that by blast
qed

lemma example_job:
  assumes "i < length smoke_sched"
  obtains job where "job_at example_smoke i 0 = Inr job"
proof -
  have e: "smoke_sched ! i \<in> set smoke_sched" using assms by simp
  obtain task where task: "find (\<lambda>t. mt_id t = se_task (smoke_sched ! i)) (mf_tasks example_smoke) = Some task"
    by (rule smoke_task [OF e])
  obtain a as where "se_attempts (smoke_sched ! i) = a # as" "a \<noteq> []"
    using smoke_member(3,4) [OF e] by (cases "se_attempts (smoke_sched ! i)") auto
  then show thesis using that task assms by (auto simp: job_at_def example_smoke_fields Let_def)
qed

lemma example_first_job:
  obtains job where "next_evaluation_action schema_valid const_digest date_ok example_directory = Inr (ActRun job)"
proof -
  obtain e es where sched: "smoke_sched = e # es" using smoke_sched(2) by (cases smoke_sched) auto
  obtain fuel where fuel: "length (se_attempts e) = Suc fuel"
    using smoke_member(4) [of e] by (cases "length (se_attempts e)") (simp_all add: sched)
  obtain job where job: "job_at example_smoke 0 0 = Inr job" by (rule example_job [of 0]) (simp_all add: sched)
  have reserve: "reserve_check example_smoke e 0 = Inr ()"
    by (simp add: reserve_check_def example_smoke_fields bounded_bounds)
  have spend: "experiment_spend schema_valid date_ok example_directory example_smoke = Inr (True, 0)"
  proof -
    have "attempt_spend schema_valid date_ok Map.empty 0 xs = Inr (True, 0)" for xs by (cases xs) simp_all
    then have "trials_spend schema_valid date_ok Map.empty 0 trials = Inr (True, 0)" for trials
      by (induction trials) simp_all
    then show ?thesis by (simp add: experiment_spend_def example_directory_def)
  qed
  have "next_evaluation_action schema_valid const_digest date_ok example_directory = Inr (ActRun job)"
    by (simp add: next_evaluation_action_def example_smoke_read spend example_smoke_fields sched fuel job)
      (simp add: example_directory_def reserve)
  then show thesis by (rule that)
qed

lemma example_step:
  obtains job where "next_evaluation_action schema_valid const_digest (\<lambda>_. True) example_directory = Inr (ActRun job)"
    "experiment_step schema_valid const_digest (\<lambda>_. True) example_smoke example_directory
       (put_attempt (jb_attempt job) example_entry example_directory)"
proof -
  obtain job where job: "next_evaluation_action schema_valid const_digest (\<lambda>_. True) example_directory = Inr (ActRun job)"
    by (rule example_first_job)
  from that [OF job StepRun [OF job]] show thesis .
qed

subsection \<open>Properties\<close>



text \<open>C14: The controller terminates: from any state of the directory it takes at most 32 rounds for every
  trial of the schedule, since a round either starts an attempt that was not started or validates
  one that was not validated; no sequence of incomplete or failing attempts makes it run on.\<close>

theorem evaluation_terminates:
  assumes "read_smoke_manifest ajv digest (ed_manifest d) = Inr m"
    and "(experiment_step ajv digest date_ok m ^^ rounds) d d'"
  shows "rounds \<le> 32 * length (mf_schedule m)"
proof -
  have "attempt_weight ajv date_ok (ed_attempts d) x \<le> 2" for x
    by (auto simp: attempt_weight_def split: option.split)
  then have "sum_list (map (attempt_weight ajv date_ok (ed_attempts d)) xs) \<le> sum_list (map (\<lambda>_. 2) xs)" for xs
    by (intro sum_list_mono)
  from this [of "manifest_attempts m"] have "total_weight ajv date_ok m d \<le> 2 * length (manifest_attempts m)"
    by (simp add: total_weight_def sum_list_triv)
  then show ?thesis
    using conjunct1 [OF steps_weight [OF assms(2,1)]] manifest_attempts_length [OF assms(1)] by simp
qed

theorem evaluation_terminates_witness:
  "\<exists>d'. (experiment_step schema_valid const_digest (\<lambda>_. True) example_smoke ^^ 1) example_directory d' \<and>
    (1 :: nat) \<le> 32 * length (mf_schedule example_smoke)"
proof -
  obtain d' where "(experiment_step schema_valid const_digest (\<lambda>_. True) example_smoke ^^ 1) example_directory d'"
    using example_step by (metis relpowp_1)
  with evaluation_terminates [OF example_smoke_read this] show ?thesis by blast
qed

text \<open>C27: What the controller does next is exact: it runs an attempt only when all earlier attempts of
  that trial were started and this one was not, and, under a cap, only when what was spent is known and the
  amount \<open>experimentSpend\<close> computed, plus what is reserved for the trial, is within the cap; it validates
  only a completed, unvalidated attempt of that trial with a submission; and it is done only when every
  trial has an attempt that passed or failed, the first such attempt after started ones that did not
  decide.\<close>

theorem next_action_exact:
  assumes "next_evaluation_action ajv digest date_ok d = Inr action"
    and "read_smoke_manifest ajv digest (ed_manifest d) = Inr m"
  shows "\<exists>known spent. experiment_spend ajv date_ok d m = Inr (known, spent) \<and> (mf_max_cost m = None \<or> known) \<and>
    (case action of
      ActRun job \<Rightarrow> run_target ajv date_ok d m spent job
    | ActValidate job \<Rightarrow> validate_target ajv date_ok d m job
    | ActDone \<Rightarrow> \<forall>trial \<in> set (mf_schedule m). terminal ajv date_ok d (se_attempts trial))"
proof -
  obtain known spent where spend: "experiment_spend ajv date_ok d m = Inr (known, spent)" "mf_max_cost m = None \<or> known"
    and action: "schedule_action ajv date_ok d m spent 0 (mf_schedule m) = Inr action"
    by (rule next_action_Inr [OF assms])
  from schedule_action_cases [OF action] have "case action of
      ActRun job \<Rightarrow> run_target ajv date_ok d m spent job
    | ActValidate job \<Rightarrow> validate_target ajv date_ok d m job
    | ActDone \<Rightarrow> \<forall>trial \<in> set (mf_schedule m). terminal ajv date_ok d (se_attempts trial)" by simp
  with spend show ?thesis by blast
qed

theorem next_action_exact_witness:
  "\<exists>job spent. next_evaluation_action schema_valid const_digest (\<lambda>_. True) example_directory = Inr (ActRun job) \<and>
    experiment_spend schema_valid (\<lambda>_. True) example_directory example_smoke = Inr (True, spent) \<and>
    run_target schema_valid (\<lambda>_. True) example_directory example_smoke spent job"
proof -
  obtain job where job: "next_evaluation_action schema_valid const_digest (\<lambda>_. True) example_directory = Inr (ActRun job)"
    by (rule example_first_job)
  with next_action_exact [OF job example_smoke_read] show ?thesis by (auto simp: example_smoke_fields)
qed

end
