(* ===== verification/Evaluation_Report.thy ===== *)
theory Evaluation_Report
  imports Evaluation_Run "HOL-Library.Sublist"
begin

section \<open>The report of an experiment (src/evaluation/smoke.ts)\<close>

text \<open>
  What \<open>generateSmokeReport\<close> computes from the directory of an experiment, the validation of a
  report and the exit code. The report is a record; its schema is stated on the record, except for
  the roles, which stay JSON. Writing \<open>experiment.json\<close> and rendering \<open>experiment.md\<close> is output.
  Token sums round as doubles, costs are exact reals.
\<close>

subsection \<open>The report\<close>

record count_ratio =
  ra_numerator :: nat
  ra_denominator :: nat
  ra_value :: "real option"

record mode_result =
  mr_planned :: nat
  mr_pass :: nat
  mr_fail :: nat
  mr_unavailable :: nat
  mr_incomplete :: nat
  mr_success :: count_ratio
  mr_completion :: count_ratio

record report_trial =
  rt_trial :: string
  rt_attempt :: string
  rt_task :: string
  rt_mode :: session_mode
  rt_outcome :: trial_outcome
  rt_tier :: "tier option"
  rt_fallback :: bool
  rt_validation :: validation_status
  rt_provider :: "string option"
  rt_model :: "string option"
  rt_tokens :: "nat option"
  rt_cost :: "real option"

record routed_decisions =
  rr_weak :: nat
  rr_strong :: nat
  rr_fallback :: nat
  rr_total :: nat

record smoke_report =
  sr_experiment :: string
  sr_manifest_hash :: string
  sr_evidence :: evidence_kind
  sr_suite :: evaluation_suite
  sr_threshold :: real
  sr_roles :: json
  sr_planned :: nat
  sr_evaluated :: nat
  sr_missing :: nat
  sr_modes :: "session_mode \<Rightarrow> mode_result"
  sr_routed :: routed_decisions
  sr_strong_share :: count_ratio
  sr_tokens :: "nat option"
  sr_cost :: "real option"
  sr_trials :: "report_trial list"

definition count_value :: "nat \<Rightarrow> nat \<Rightarrow> real option" where
  "count_value n d = (if d = 0 then None else Some (real n / real d))"

subsection \<open>Reading the attempts\<close>

text \<open>\<open>physicalUsage\<close>, \<open>physicalCosts\<close> and \<open>physicalAttemptIncomplete\<close>.\<close>

record physical =
  ph_usage :: "nat option list"
  ph_costs :: "real option list"
  ph_incomplete :: bool

definition record_physical :: "run_result option \<Rightarrow> physical \<Rightarrow> physical" where
  "record_physical result ph = (case result of
     None \<Rightarrow> ph\<lparr>ph_incomplete := True\<rparr>
   | Some r \<Rightarrow> ph\<lparr>ph_usage := ph_usage ph @ [us_total (sum_total (rs_usage r))],
       ph_costs := ph_costs ph @ [co_total_estimated (rs_costs r)]\<rparr>)"

definition is_decisive :: "run_result option \<Rightarrow> bool" where
  "is_decisive result = (case result of None \<Rightarrow> False
     | Some r \<Rightarrow> classify_trial_outcome r \<in> {OutPass, OutFail})"

text \<open>
  The attempts of one trial: what was pushed stays pushed when reading a later attempt throws. The
  selection is the identity of the last attempt that was read, with its result.
\<close>

fun scan_attempts :: "(schema \<Rightarrow> json \<Rightarrow> bool) \<Rightarrow> (string \<Rightarrow> bool) \<Rightarrow> (string \<Rightarrow> attempt_entry option)
    \<Rightarrow> physical \<Rightarrow> (string \<times> run_result option) option \<Rightarrow> string list
    \<Rightarrow> physical \<times> (evaluation_error + (string \<times> run_result option) option)" where
  "scan_attempts ajv date_ok attempts ph selected [] = (ph, Inr selected)"
| "scan_attempts ajv date_ok attempts ph selected (x # xs) =
     (case attempts x of
        None \<Rightarrow> (ph, Inr selected)
      | Some entry \<Rightarrow>
          (case read_entry ajv date_ok entry of
             Inl e \<Rightarrow> (ph, Inl e)
           | Inr attempt \<Rightarrow>
               let ph' = record_physical (ar_result attempt) ph; selected' = Some (x, ar_result attempt)
               in if is_decisive (ar_result attempt) then (ph', Inr selected')
                  else scan_attempts ajv date_ok attempts ph' selected' xs))"

definition report_identity_ok :: "smoke_manifest \<Rightarrow> scheduled_trial \<Rightarrow> string \<Rightarrow> run_result \<Rightarrow> bool" where
  "report_identity_ok m trial x r \<longleftrightarrow>
     ai_experiment (rs_identity r) = Some (mf_experiment m) \<and>
     ai_task (rs_identity r) = Some (se_task trial) \<and>
     ai_attempt (rs_identity r) = x \<and> ai_attempt (rs_identity r) \<in> set (se_attempts trial) \<and>
     rs_mode r = se_mode trial"

definition report_fingerprint_ok :: "smoke_manifest \<Rightarrow> run_result \<Rightarrow> bool" where
  "report_fingerprint_ok m r \<longleftrightarrow>
     pv_config_hash (rs_provenance r) = fp_config (mf_fingerprint m) \<and>
     pv_capability_hash (rs_provenance r) = fp_capability (mf_fingerprint m) \<and>
     pv_metadata_hash (rs_provenance r) = fp_models (mf_fingerprint m) \<and>
     pv_provider_hash (rs_provenance r) = fp_providers (mf_fingerprint m) \<and>
     pv_auth_profile (rs_provenance r) = mf_auth_profile m"

definition report_task_ok :: "manifest_task \<Rightarrow> run_result \<Rightarrow> bool" where
  "report_task_ok task r \<longleftrightarrow>
     pv_task_hash (rs_provenance r) = Some (mt_hash task) \<and>
     pv_source_hash (rs_provenance r) = Some (mt_source task) \<and>
     pv_validator_hash (rs_provenance r) = Some (mt_validator task)"

definition report_entry :: "smoke_manifest \<Rightarrow> scheduled_trial \<Rightarrow> string \<Rightarrow> run_result
    \<Rightarrow> evaluation_error + report_trial" where
  "report_entry m trial x r =
     (if \<not> report_identity_ok m trial x r then Inl (AttemptIdentityMismatch x)
      else if \<not> report_fingerprint_ok m r then Inl (AttemptFingerprintMismatch x)
      else
        case find (\<lambda>t. mt_id t = se_task trial) (mf_tasks m) of
          None \<Rightarrow> Inl (TaskAbsent (se_task trial))
        | Some task \<Rightarrow>
            if \<not> report_task_ok task r then Inl (AttemptProvenanceMismatch x)
            else Inr \<lparr>rt_trial = se_trial trial, rt_attempt = x, rt_task = se_task trial, rt_mode = se_mode trial,
              rt_outcome = classify_trial_outcome r,
              rt_tier = (case rs_decision r of
                  Some d \<Rightarrow> Some (rd_tier d)
                | None \<Rightarrow> if se_mode trial = StrongOnly then Some TierStrong
                    else if se_mode trial = WeakOnly then Some TierWeak else None),
              rt_fallback = (case rs_decision r of Some d \<Rightarrow> rd_source d = FromFallback | None \<Rightarrow> False),
              rt_validation = rs_validation r,
              rt_provider = map_option mi_provider (rs_served r), rt_model = map_option mi_model (rs_served r),
              rt_tokens = us_total (sum_total (rs_usage r)),
              rt_cost = co_total_estimated (rs_costs r)\<rparr>)"

text \<open>The loop over the schedule; an \<open>ENOENT\<close> of a trial is caught and the trial passed over.\<close>

fun scan_trials :: "(schema \<Rightarrow> json \<Rightarrow> bool) \<Rightarrow> (string \<Rightarrow> bool) \<Rightarrow> (string \<Rightarrow> attempt_entry option)
    \<Rightarrow> smoke_manifest \<Rightarrow> physical \<Rightarrow> scheduled_trial list \<Rightarrow> evaluation_error + physical \<times> report_trial list" where
  "scan_trials ajv date_ok attempts m ph [] = Inr (ph, [])"
| "scan_trials ajv date_ok attempts m ph (trial # rest) =
     (case scan_attempts ajv date_ok attempts ph None (se_attempts trial) of
        (ph', Inl e) \<Rightarrow> if e = AttemptLogMissing then scan_trials ajv date_ok attempts m ph' rest else Inl e
      | (ph', Inr (Some (x, Some r))) \<Rightarrow>
          bind_result (report_entry m trial x r) (\<lambda>t.
          bind_result (scan_trials ajv date_ok attempts m ph' rest) (\<lambda>(ph'', ts). Inr (ph'', t # ts)))
      | (ph', Inr _) \<Rightarrow> scan_trials ajv date_ok attempts m ph' rest)"

subsection \<open>Counting\<close>

definition count_trials :: "(report_trial \<Rightarrow> bool) \<Rightarrow> report_trial list \<Rightarrow> nat" where
  "count_trials p ts = length (filter p ts)"

definition mode_result_of :: "smoke_manifest \<Rightarrow> report_trial list \<Rightarrow> session_mode \<Rightarrow> mode_result" where
  "mode_result_of m trials mode =
     (let selected = filter (\<lambda>t. rt_mode t = mode) trials;
          pass = count_trials (\<lambda>t. rt_outcome t = OutPass) selected;
          fail = count_trials (\<lambda>t. rt_outcome t = OutFail) selected;
          planned = length (mf_tasks m) * mf_repetitions m
      in \<lparr>mr_planned = planned, mr_pass = pass, mr_fail = fail,
          mr_unavailable = count_trials (\<lambda>t. rt_outcome t = OutUnavailable) selected,
          mr_incomplete = count_trials (\<lambda>t. rt_outcome t = OutIncomplete) selected,
          mr_success = \<lparr>ra_numerator = pass, ra_denominator = pass + fail, ra_value = count_value pass (pass + fail)\<rparr>,
          mr_completion = \<lparr>ra_numerator = pass + fail, ra_denominator = planned,
            ra_value = Some (real (pass + fail) / real planned)\<rparr>\<rparr>)"

definition routed_of :: "report_trial list \<Rightarrow> routed_decisions" where
  "routed_of trials =
     (let routed = filter (\<lambda>t. rt_mode t = Routed) trials
      in \<lparr>rr_weak = count_trials (\<lambda>t. rt_tier t = Some TierWeak) routed,
          rr_strong = count_trials (\<lambda>t. rt_tier t = Some TierStrong) routed,
          rr_fallback = count_trials rt_fallback routed,
          rr_total = count_trials (\<lambda>t. rt_tier t \<noteq> None) routed\<rparr>)"

definition strong_share_of :: "report_trial list \<Rightarrow> count_ratio" where
  "strong_share_of trials =
     (let selected = filter (\<lambda>t. rt_tier t \<noteq> None) trials;
          strong = count_trials (\<lambda>t. rt_tier t = Some TierStrong) selected
      in \<lparr>ra_numerator = strong, ra_denominator = length selected, ra_value = count_value strong (length selected)\<rparr>)"

text \<open>A total is known when every attempt was finalized with a known amount.\<close>

definition known_total :: "('a list \<Rightarrow> 'a) \<Rightarrow> bool \<Rightarrow> 'a option list \<Rightarrow> 'a option" where
  "known_total sum_of incomplete xs =
     (if \<not> incomplete \<and> list_all (\<lambda>x. x \<noteq> None) xs then Some (sum_of (map the xs)) else None)"

subsection \<open>Validation, generation, exit code\<close>

definition report_schema_ok :: "(schema \<Rightarrow> json \<Rightarrow> bool) \<Rightarrow> smoke_report \<Rightarrow> bool" where
  "report_schema_ok ajv r \<longleftrightarrow>
     sr_experiment r \<noteq> [] \<and> is_hash (sr_manifest_hash r) \<and> sr_evidence r \<noteq> ReplayEvidence \<and>
     0 \<le> sr_threshold r \<and> sr_threshold r \<le> 1 \<and>
     ajv manifest_roles_schema (sr_roles r) \<and>
     (case sr_cost r of None \<Rightarrow> True | Some c \<Rightarrow> 0 \<le> c) \<and>
     list_all (\<lambda>t. rt_trial t \<noteq> [] \<and> rt_attempt t \<noteq> [] \<and> rt_task t \<in> set all_task_ids \<and>
       (case rt_cost t of None \<Rightarrow> True | Some c \<Rightarrow> 0 \<le> c)) (sr_trials r)"

definition mode_counts_ok :: "mode_result \<Rightarrow> bool" where
  "mode_counts_ok r \<longleftrightarrow> mr_pass r + mr_fail r + mr_unavailable r + mr_incomplete r \<le> mr_planned r"

definition validate_smoke_report :: "(schema \<Rightarrow> json \<Rightarrow> bool) \<Rightarrow> smoke_report \<Rightarrow> evaluation_error + smoke_report" where
  "validate_smoke_report ajv r =
     (if \<not> report_schema_ok ajv r then Inl ReportInvalid
      else if sr_planned r \<noteq> sr_evaluated r + sr_missing r then Inl ReportCounts
      else case find (\<lambda>mode. \<not> mode_counts_ok (sr_modes r mode)) evaluation_modes of
        Some mode \<Rightarrow> Inl (ReportModeCounts mode)
      | None \<Rightarrow> Inr r)"

definition evaluated_trials :: "report_trial list \<Rightarrow> nat" where
  "evaluated_trials trials = count_trials (\<lambda>t. rt_outcome t = OutPass \<or> rt_outcome t = OutFail) trials"

definition generate_smoke_report :: "(schema \<Rightarrow> json \<Rightarrow> bool) \<Rightarrow> (json \<Rightarrow> string) \<Rightarrow> (string \<Rightarrow> bool)
    \<Rightarrow> experiment_directory \<Rightarrow> evaluation_error + smoke_report" where
  "generate_smoke_report ajv digest date_ok d =
     bind_result (read_smoke_manifest ajv digest (ed_manifest d)) (\<lambda>m.
     bind_result (scan_trials ajv date_ok (ed_attempts d) m
         \<lparr>ph_usage = [], ph_costs = [], ph_incomplete = False\<rparr> (mf_schedule m)) (\<lambda>(ph, trials).
       validate_smoke_report ajv
         \<lparr>sr_experiment = mf_experiment m, sr_manifest_hash = mf_hash m, sr_evidence = mf_evidence m,
          sr_suite = mf_suite m, sr_threshold = mf_threshold m, sr_roles = json_get ''roles'' (mf_json m),
          sr_planned = length (mf_schedule m), sr_evaluated = evaluated_trials trials,
          sr_missing = length (mf_schedule m) - evaluated_trials trials,
          sr_modes = mode_result_of m trials, sr_routed = routed_of trials,
          sr_strong_share = strong_share_of trials,
          sr_tokens = known_total js_sum (ph_incomplete ph) (ph_usage ph),
          sr_cost = known_total sum_list (ph_incomplete ph) (ph_costs ph),
          sr_trials = trials\<rparr>))"

definition smoke_exit_code :: "smoke_report \<Rightarrow> nat" where
  "smoke_exit_code r =
     (if 0 < sr_missing r \<or>
         list_ex (\<lambda>mode. 0 < mr_unavailable (sr_modes r mode) + mr_incomplete (sr_modes r mode)) evaluation_modes
      then 3
      else if list_ex (\<lambda>mode. 0 < mr_fail (sr_modes r mode)) evaluation_modes then 1 else 0)"

subsection \<open>What a report says of its trials\<close>

text \<open>A trial of the report stands for a trial of the schedule and one of its attempts.\<close>

definition reports :: "(schema \<Rightarrow> json \<Rightarrow> bool) \<Rightarrow> (string \<Rightarrow> bool) \<Rightarrow> (string \<Rightarrow> attempt_entry option)
    \<Rightarrow> smoke_manifest \<Rightarrow> scheduled_trial \<Rightarrow> report_trial \<Rightarrow> bool" where
  "reports ajv date_ok attempts m trial t \<longleftrightarrow> (\<exists>entry r.
     rt_attempt t \<in> set (se_attempts trial) \<and> attempts (rt_attempt t) = Some entry \<and>
     entry_result ajv date_ok entry = Some r \<and> report_entry m trial (rt_attempt t) r = Inr t)"

lemma report_entry_fields:
  assumes "report_entry m trial x r = Inr t"
  shows "rt_trial t = se_trial trial" "rt_attempt t = x" "rt_task t = se_task trial" "rt_mode t = se_mode trial"
    "rt_outcome t = classify_trial_outcome r" "rt_cost t = co_total_estimated (rs_costs r)"
    "report_identity_ok m trial x r" "report_fingerprint_ok m r"
  using assms by (auto simp: report_entry_def split: if_splits option.splits)

lemma reports_fields:
  assumes "reports ajv date_ok attempts m e t"
  shows "rt_trial t = se_trial e" "rt_mode t = se_mode e" "rt_task t = se_task e"
  using assms unfolding reports_def by (auto dest: report_entry_fields(1,3,4))

lemma scan_attempts_selects:
  assumes "scan_attempts ajv date_ok attempts ph selected xs = (ph', Inr (Some (x, result)))"
    and "selected \<noteq> Some (x, result)"
  shows "\<exists>entry. x \<in> set xs \<and> attempts x = Some entry \<and> entry_result ajv date_ok entry = result"
  using assms
proof (induction xs arbitrary: ph selected)
  case (Cons y ys)
  show ?case
  proof (cases "attempts y")
    case None
    with Cons.prems show ?thesis by simp
  next
    case (Some entry)
    obtain attempt where a: "read_entry ajv date_ok entry = Inr attempt"
      using Cons.prems(1) Some by (auto split: sum.splits)
    have y: "entry_result ajv date_ok entry = ar_result attempt" by (simp add: entry_result_def a)
    show ?thesis
    proof (cases "is_decisive (ar_result attempt) \<or> (x, result) = (y, ar_result attempt)")
      case True
      with Cons.prems(1) Some a y show ?thesis by (auto simp: Let_def)
    next
      case False
      with Cons.prems(1) Some a Cons.IH [of "record_physical (ar_result attempt) ph" "Some (y, ar_result attempt)"]
      show ?thesis by (auto simp: Let_def)
    qed
  qed
qed simp

lemma scan_trials_reports:
  assumes "scan_trials ajv date_ok attempts m ph trials = Inr (ph', ts)"
  shows "\<exists>es. subseq es trials \<and> list_all2 (reports ajv date_ok attempts m) es ts"
  using assms
proof (induction trials arbitrary: ph ts)
  case (Cons e trials)
  obtain ph1 res where scan: "scan_attempts ajv date_ok attempts ph None (se_attempts e) = (ph1, res)" by fastforce
  show ?case
  proof (cases "\<exists>x r. res = Inr (Some (x, Some r))")
    case True
    then obtain x r where res: "res = Inr (Some (x, Some r))" by blast
    obtain t ts' where t: "report_entry m e x r = Inr t" "ts = t # ts'"
      and rest: "scan_trials ajv date_ok attempts m ph1 trials = Inr (ph', ts')"
      using Cons.prems scan res by auto
    have "reports ajv date_ok attempts m e t"
      using scan_attempts_selects [OF scan [unfolded res]] t(1) report_entry_fields(2) [OF t(1)]
      by (auto simp: reports_def)
    moreover obtain es where "subseq es trials" "list_all2 (reports ajv date_ok attempts m) es ts'"
      using Cons.IH [OF rest] by blast
    ultimately have "subseq (e # es) (e # trials) \<and> list_all2 (reports ajv date_ok attempts m) (e # es) ts"
      using t(2) by simp
    then show ?thesis by blast
  next
    case False
    then have "scan_trials ajv date_ok attempts m ph1 trials = Inr (ph', ts)"
      using Cons.prems scan by (auto split: sum.splits option.splits if_splits)
    from Cons.IH [OF this] show ?thesis by (auto intro: subseq_Cons')
  qed
qed simp

lemma reported_filter:
  assumes "list_all2 (reports ajv date_ok attempts m) es ts" "\<And>e t. reports ajv date_ok attempts m e t \<Longrightarrow> p t = q e"
  shows "length (filter p ts) = length (filter q es)"
  using assms(1) by (induction rule: list_all2_induct) (auto simp: assms(2))

lemma reported_trials:
  assumes "list_all2 (reports ajv date_ok attempts m) es ts"
  shows "map rt_trial ts = map se_trial es"
  using assms by (induction rule: list_all2_induct) (auto dest: reports_fields)

lemma schedule_mode_count:
  assumes "evaluation_schedule tasks seed reps = Inr sched"
  shows "length (filter (\<lambda>e. se_mode e = mode) sched) = length tasks * js_nat reps"
proof -
  have pairs: "length (filter (\<lambda>k. snd k = mode) (List.product xs evaluation_modes)) = length xs"
    for xs :: "(string \<times> nat) list"
    by (induction xs) (cases mode; simp add: evaluation_modes_def)+
  have "length (filter (\<lambda>e. se_mode e = mode) sched) = length (filter (\<lambda>k. snd k = mode) (map trial_key sched))"
    by (simp add: filter_map comp_def trial_key_def)
  also have "\<dots> = size (filter_mset (\<lambda>k. snd k = mode) (mset (map trial_key sched)))"
    by (simp only: mset_filter [symmetric] size_mset)
  also have "\<dots> = length (filter (\<lambda>k. snd k = mode) (List.product (List.product tasks [0..<js_nat reps]) evaluation_modes))"
    by (simp only: schedule_keys [OF assms] mset_filter [symmetric] size_mset)
  also have "\<dots> = length tasks * js_nat reps" by (simp only: pairs length_product length_upt minus_nat.diff_0)
  finally show ?thesis .
qed

lemma filter_subseq_length: "subseq xs ys \<Longrightarrow> length (filter p xs) \<le> length (filter p ys)"
  by (rule list_emb_length [OF subseq_filter])

lemma subseq_distinct: "subseq xs ys \<Longrightarrow> distinct ys \<Longrightarrow> distinct xs"
  by (induction rule: list_emb.induct) (auto dest: list_emb_set)

lemma manifest_schedule:
  assumes "read_smoke_manifest ajv digest file = Inr m"
  obtains tasks where "evaluation_schedule tasks (mf_seed m) (Fin (real (mf_repetitions m))) = Inr (mf_schedule m)"
    "length tasks = length (mf_tasks m)" "distinct tasks"
proof -
  obtain tasks where t: "evaluation_schedule tasks (mf_seed m) (Fin (real (mf_repetitions m))) = Inr (mf_schedule m)"
    "map mt_id (mf_tasks m) = tasks" "identities_ok m tasks"
    by (rule manifest_Inr [OF assms [unfolded read_smoke_manifest_def]]) blast
  have "distinct tasks"
    using t(2,3) by (simp add: identities_ok_def) (metis card_distinct distinct_card new_set_distinct new_set_set length_map)
  with that t show thesis by auto
qed

lemma mode_counts_sum:
  "sum_list (map (\<lambda>mode. mr_pass (mode_result_of m ts mode) + mr_fail (mode_result_of m ts mode)) evaluation_modes) =
    evaluated_trials ts"
proof (induction ts)
  case (Cons t ts)
  then show ?case
    by (cases "rt_mode t"; cases "rt_outcome t")
      (simp_all add: mode_result_of_def Let_def count_trials_def evaluated_trials_def evaluation_modes_def)
qed (simp add: mode_result_of_def Let_def count_trials_def evaluated_trials_def evaluation_modes_def)

lemma outcomes_sum:
  "count_trials (\<lambda>t. rt_outcome t = OutPass) ts + count_trials (\<lambda>t. rt_outcome t = OutFail) ts +
    count_trials (\<lambda>t. rt_outcome t = OutUnavailable) ts + count_trials (\<lambda>t. rt_outcome t = OutIncomplete) ts = length ts"
proof (induction ts)
  case (Cons t ts)
  then show ?case by (cases "rt_outcome t") (simp_all add: count_trials_def)
qed (simp add: count_trials_def)

lemma scan_counts:
  assumes "read_smoke_manifest ajv digest file = Inr m" "scan_trials ajv date_ok attempts m ph (mf_schedule m) = Inr (ph', trials)"
  shows "length trials \<le> length (mf_schedule m)" "mode_counts_ok (mode_result_of m trials mode)"
    "3 * mr_planned (mode_result_of m trials mode) = length (mf_schedule m)" "distinct (map rt_trial trials)"
    "t \<in> set trials \<Longrightarrow> \<exists>e \<in> set (mf_schedule m). reports ajv date_ok attempts m e t"
proof -
  obtain es where es: "subseq es (mf_schedule m)" "list_all2 (reports ajv date_ok attempts m) es trials"
    using scan_trials_reports [OF assms(2)] by blast
  obtain tasks where sched: "evaluation_schedule tasks (mf_seed m) (Fin (real (mf_repetitions m))) = Inr (mf_schedule m)"
    and tasks: "length tasks = length (mf_tasks m)" "distinct tasks"
    by (rule manifest_schedule [OF assms(1)])
  show "length trials \<le> length (mf_schedule m)"
    using es list_all2_lengthD list_emb_length by metis
  have "length (filter (\<lambda>t. rt_mode t = mode) trials) \<le> length tasks * mf_repetitions m"
    using reported_filter [OF es(2), of "\<lambda>t. rt_mode t = mode" "\<lambda>e. se_mode e = mode"] reports_fields(2)
      filter_subseq_length [OF es(1), of "\<lambda>e. se_mode e = mode"] schedule_mode_count [OF sched, of mode] by fastforce
  then show "mode_counts_ok (mode_result_of m trials mode)"
    using tasks(1) outcomes_sum [of "filter (\<lambda>t. rt_mode t = mode) trials"]
    by (simp add: mode_counts_ok_def mode_result_of_def Let_def)
  show "3 * mr_planned (mode_result_of m trials mode) = length (mf_schedule m)"
    using schedule_length [OF sched] tasks(1) by (simp add: mode_result_of_def Let_def)
  have "distinct (map se_trial es)"
    using schedule_trials_distinct [OF sched tasks(2)] subseq_map [OF es(1), of se_trial] subseq_distinct by blast
  then show "distinct (map rt_trial trials)" by (simp only: reported_trials [OF es(2)])
  show "t \<in> set trials \<Longrightarrow> \<exists>e \<in> set (mf_schedule m). reports ajv date_ok attempts m e t"
    using related_elements(2) [OF es(2)] list_emb_set [OF es(1)] by blast
qed

lemma report_Inr:
  assumes "generate_smoke_report ajv digest date_ok d = Inr report"
  obtains m ph trials where "read_smoke_manifest ajv digest (ed_manifest d) = Inr m"
    "scan_trials ajv date_ok (ed_attempts d) m \<lparr>ph_usage = [], ph_costs = [], ph_incomplete = False\<rparr> (mf_schedule m) =
      Inr (ph, trials)"
    "sr_trials report = trials" "sr_planned report = length (mf_schedule m)"
    "sr_evaluated report = evaluated_trials trials"
    "sr_missing report = length (mf_schedule m) - evaluated_trials trials"
    "sr_modes report = mode_result_of m trials"
    "sr_cost report = known_total sum_list (ph_incomplete ph) (ph_costs ph)"
proof -
  obtain m ph trials where m: "read_smoke_manifest ajv digest (ed_manifest d) = Inr m"
    "scan_trials ajv date_ok (ed_attempts d) m \<lparr>ph_usage = [], ph_costs = [], ph_incomplete = False\<rparr> (mf_schedule m) =
      Inr (ph, trials)"
    and v: "validate_smoke_report ajv
         \<lparr>sr_experiment = mf_experiment m, sr_manifest_hash = mf_hash m, sr_evidence = mf_evidence m,
          sr_suite = mf_suite m, sr_threshold = mf_threshold m, sr_roles = json_get ''roles'' (mf_json m),
          sr_planned = length (mf_schedule m), sr_evaluated = evaluated_trials trials,
          sr_missing = length (mf_schedule m) - evaluated_trials trials,
          sr_modes = mode_result_of m trials, sr_routed = routed_of trials,
          sr_strong_share = strong_share_of trials,
          sr_tokens = known_total js_sum (ph_incomplete ph) (ph_usage ph),
          sr_cost = known_total sum_list (ph_incomplete ph) (ph_costs ph),
          sr_trials = trials\<rparr> = Inr report"
    using assms by (auto simp: generate_smoke_report_def)
  have same: "validate_smoke_report ajv r = Inr r' \<Longrightarrow> r' = r" for r r'
    by (auto simp: validate_smoke_report_def split: if_splits option.splits)
  show thesis by (rule that [OF m]) (simp_all add: same [OF v])
qed

subsection \<open>Reports of finished experiments\<close>

lemma scan_terminal:
  assumes "decided ajv date_ok d x" "list_all (passed_over ajv date_ok d) xs"
  shows "\<exists>ph' r. scan_attempts ajv date_ok (ed_attempts d) ph selected (xs @ x # ys) = (ph', Inr (Some (x, Some r))) \<and>
    is_decisive (Some r)"
  using assms(2)
proof (induction xs arbitrary: ph selected)
  case Nil
  obtain entry r where e: "ed_attempts d x = Some entry" "entry_result ajv date_ok entry = Some r"
    "classify_trial_outcome r \<in> {OutPass, OutFail}"
    using assms(1) by (auto simp: decided_def)
  then obtain attempt where "read_entry ajv date_ok entry = Inr attempt" "ar_result attempt = Some r"
    by (auto simp: entry_result_def split: sum.splits)
  with e show ?case by (simp add: is_decisive_def Let_def)
next
  case (Cons y xs)
  obtain entry attempt where e: "ed_attempts d y = Some entry" "read_entry ajv date_ok entry = Inr attempt"
    "\<not> decided ajv date_ok d y"
    using Cons.prems by (auto simp: passed_over_def)
  have "\<not> is_decisive (ar_result attempt)"
    using e by (auto simp: decided_def entry_result_def is_decisive_def split: option.splits)
  with e Cons show ?case by (simp add: Let_def)
qed

lemma terminal_split:
  assumes "terminal ajv date_ok d xs"
  obtains ys x zs where "xs = ys @ x # zs" "decided ajv date_ok d x" "list_all (passed_over ajv date_ok d) ys"
proof -
  obtain i where i: "i < length xs" "decided ajv date_ok d (xs ! i)" "\<forall>j < i. passed_over ajv date_ok d (xs ! j)"
    using assms by (auto simp: terminal_def)
  show thesis
    by (rule that [of "take i xs" "xs ! i" "drop (Suc i) xs"])
      (use i in \<open>auto simp: id_take_nth_drop [symmetric] list_all_length\<close>)
qed

lemma scan_terminal_trials:
  assumes "scan_trials ajv date_ok (ed_attempts d) m ph trials = Inr (ph', ts)"
    and "\<forall>e \<in> set trials. terminal ajv date_ok d (se_attempts e)"
  shows "length ts = length trials \<and> (\<forall>t \<in> set ts. rt_outcome t = OutPass \<or> rt_outcome t = OutFail)"
  using assms
proof (induction trials arbitrary: ph ts)
  case (Cons e trials)
  obtain ys x zs where "se_attempts e = ys @ x # zs" "decided ajv date_ok d x" "list_all (passed_over ajv date_ok d) ys"
    using Cons.prems(2) by (meson list.set_intros(1) terminal_split)
  then obtain ph1 r where scan: "scan_attempts ajv date_ok (ed_attempts d) ph None (se_attempts e) = (ph1, Inr (Some (x, Some r)))"
    and r: "is_decisive (Some r)"
    using scan_terminal by metis
  obtain t ts' where t: "report_entry m e x r = Inr t" "ts = t # ts'"
    and rest: "scan_trials ajv date_ok (ed_attempts d) m ph1 trials = Inr (ph', ts')"
    using Cons.prems(1) scan by auto
  have "rt_outcome t = OutPass \<or> rt_outcome t = OutFail"
    using r report_entry_fields(5) [OF t(1)] by (simp add: is_decisive_def)
  with Cons.IH [OF rest] Cons.prems(2) t(2) show ?case by simp
qed simp

lemma all_evaluated:
  assumes "\<forall>t \<in> set ts. rt_outcome t = OutPass \<or> rt_outcome t = OutFail"
  shows "evaluated_trials ts = length ts"
    "mr_unavailable (mode_result_of m ts mode) + mr_incomplete (mode_result_of m ts mode) = 0"
proof -
  show "evaluated_trials ts = length ts"
    using assms by (simp add: evaluated_trials_def count_trials_def)
  have "rt_outcome t \<noteq> OutUnavailable \<and> rt_outcome t \<noteq> OutIncomplete" if "t \<in> set ts" for t
    using assms that by (metis trial_outcome.distinct)
  then show "mr_unavailable (mode_result_of m ts mode) + mr_incomplete (mode_result_of m ts mode) = 0"
    by (simp add: mode_result_of_def Let_def count_trials_def filter_empty_conv)
qed

lemma no_failures:
  "(\<forall>mode. mr_fail (mode_result_of m ts mode) = 0) \<longleftrightarrow> (\<forall>t \<in> set ts. rt_outcome t \<noteq> OutFail)"
  by (auto simp: mode_result_of_def Let_def count_trials_def filter_empty_conv)

lemma evaluation_modes_all: "set evaluation_modes = UNIV"
  using session_mode.exhaust by (auto simp: evaluation_modes_def)

lemma scan_attempts_cong:
  "(\<And>y. y \<in> set xs \<Longrightarrow> att y = att' y) \<Longrightarrow> scan_attempts ajv date_ok att ph selected xs = scan_attempts ajv date_ok att' ph selected xs"
proof (induction xs arbitrary: ph selected)
  case (Cons x xs)
  then have "att x = att' x" by simp
  with Cons show ?case by (simp add: Let_def split: option.split sum.split)
qed simp

lemma scan_trials_unlogged:
  assumes "\<not> ae_log entry" "att x = None"
    and "\<And>e. e \<in> set trials \<Longrightarrow> x \<in> set (se_attempts e) \<Longrightarrow> \<exists>xs. se_attempts e = x # xs"
  shows "scan_trials ajv date_ok (att(x \<mapsto> entry)) m ph trials = scan_trials ajv date_ok att m ph trials"
  using assms(3)
proof (induction trials arbitrary: ph)
  case (Cons e trials)
  have rest: "scan_trials ajv date_ok (att(x \<mapsto> entry)) m p trials = scan_trials ajv date_ok att m p trials" for p
    by (rule Cons.IH) (auto intro: Cons.prems)
  show ?case
  proof (cases "x \<in> set (se_attempts e)")
    case True
    then obtain xs where "se_attempts e = x # xs" using Cons.prems by auto
    then show ?thesis using assms(1,2) unfolding scan_trials.simps rest by (simp add: read_entry_def)
  next
    case False
    then have "scan_attempts ajv date_ok (att(x \<mapsto> entry)) ph None (se_attempts e) =
        scan_attempts ajv date_ok att ph None (se_attempts e)"
      by (intro scan_attempts_cong) auto
    then show ?thesis
      unfolding scan_trials.simps rest by simp
  qed
qed simp

lemma example_report:
  obtains report where "generate_smoke_report schema_valid const_digest date_ok example_directory = Inr report"
    "sr_cost report = Some 0"
proof -
  have scan: "scan_trials schema_valid date_ok (ed_attempts example_directory) m ph trials = Inr (ph, [])" for m ph trials
  proof (induction trials)
    case (Cons e trials)
    then show ?case by (cases "se_attempts e") (simp_all add: example_directory_def)
  qed simp
  have fields: "mf_experiment example_smoke = ''e1''" "mf_hash example_smoke = example_hash"
    "mf_evidence example_smoke = MockEvidence" "mf_threshold example_smoke = 3 / 5"
    "json_get ''roles'' (mf_json example_smoke) = json_get ''models'' (config_json bounded_config)"
    by (simp_all add: decode_manifest_def example_value_def example_members_def json_get_def)
  have modes: "find (\<lambda>mode. \<not> mode_counts_ok (mode_result_of m [] mode)) evaluation_modes = None" for m
    by (simp add: find_None_iff mode_counts_ok_def mode_result_of_def Let_def count_trials_def)
  show thesis
    by (rule that, simp add: generate_smoke_report_def example_smoke_read scan validate_smoke_report_def
        report_schema_ok_def fields example_parts_valid modes evaluated_trials_def count_trials_def known_total_def
        del: schema_valid.simps, simp)
qed

subsection \<open>A finished experiment\<close>

definition timeout_result :: "scheduled_trial \<Rightarrow> string \<Rightarrow> run_result" where
  "timeout_result e x = example_result
     \<lparr>rs_identity := example_identity\<lparr>ai_attempt := x, ai_experiment := Some ''e1'', ai_task := Some (se_task e),
        ai_repetition := Some (se_repetition e)\<rparr>,
      rs_mode := se_mode e, rs_status := StTimeout,
      rs_provenance := example_provenance\<lparr>pv_task_hash := Some (example_sha ''y''),
        pv_source_hash := Some (replicate 64 (CHR ''b'')), pv_validator_hash := Some (replicate 64 (CHR ''b''))\<rparr>\<rparr>"

definition timeout_entry :: "scheduled_trial \<Rightarrow> string \<Rightarrow> attempt_entry" where
  "timeout_entry e x = \<lparr>ae_log = True,
     ae_files = \<lparr>af_lines = [], af_truncated = False, af_patch = [], af_result = ResultStored (timeout_result e x)\<rparr>,
     ae_submission = False\<rparr>"

definition finished_directory :: experiment_directory where
  "finished_directory = example_directory\<lparr>ed_attempts := (\<lambda>x.
     map_option (\<lambda>e. timeout_entry e x) (find (\<lambda>e. x \<in> set (se_attempts e)) smoke_sched))\<rparr>"

lemma timeout_valid:
  assumes "x \<noteq> []" "se_task e \<noteq> []"
  shows "validate_run_result (\<lambda>_. True) (timeout_result e x) = Inr (timeout_result e x)"
  using example_result_valid example_provenance_ok assms example_sha_hash [of "''y''"] example_strings(10)
  by (auto simp: validate_run_result_def timeout_result_def run_result_schema_def identity_wf_def provenance_schema_def
      example_identity_def optional_def example_provenance_def simp del: replicate.simps split: if_splits)

lemma timeout_read:
  assumes "e \<in> set smoke_sched" "x \<in> set (se_attempts e)"
  shows "ed_attempts finished_directory x = Some (timeout_entry e x)"
    "read_entry schema_valid (\<lambda>_. True) (timeout_entry e x) =
       Inr \<lparr>ar_result = Some (timeout_result e x), ar_events = [], ar_truncated = False\<rparr>"
    "classify_trial_outcome (timeout_result e x) = OutFail"
proof -
  obtain e' where e': "find (\<lambda>e. x \<in> set (se_attempts e)) smoke_sched = Some e'"
    using assms by (cases "find (\<lambda>e. x \<in> set (se_attempts e)) smoke_sched") (auto simp: find_None_iff)
  then have in': "e' \<in> set smoke_sched" "x \<in> set (se_attempts e')" by (auto simp: find_Some_iff)
  have "se_trial e = se_trial e'"
    by (rule attempt_ids_disjoint) (use assms in' smoke_member(1) in auto)
  moreover have "distinct (map se_trial smoke_sched)"
    using schedule_trials_distinct [OF smoke_sched(1) smoke_ids(3)] .
  ultimately have "e' = e" using assms(1) in'(1) by (auto simp: distinct_map inj_on_def)
  with e' show "ed_attempts finished_directory x = Some (timeout_entry e x)"
    by (simp add: finished_directory_def)
  have "x \<noteq> []" using smoke_member(3) [OF assms(1)] assms(2) by blast
  moreover have "se_task e \<noteq> []" using smoke_member(2) [OF assms(1)] unfolding smoke_ids_def by auto
  ultimately have "validate_run_result (\<lambda>_. True) (timeout_result e x) = Inr (timeout_result e x)"
    by (rule timeout_valid)
  then show "read_entry schema_valid (\<lambda>_. True) (timeout_entry e x) =
       Inr \<lparr>ar_result = Some (timeout_result e x), ar_events = [], ar_truncated = False\<rparr>"
    by (simp add: read_entry_def timeout_entry_def read_attempt_def)
  show "classify_trial_outcome (timeout_result e x) = OutFail"
    by (simp add: classify_trial_outcome_def timeout_result_def)
qed

lemma timeout_usage [simp]:
  "co_total_estimated (rs_costs (timeout_result e x)) = None"
  "us_observed (sum_total (rs_usage (timeout_result e x))) = 0"
  by (simp_all add: timeout_result_def example_result_def build_result_def example_finalize_def ledger_summaries_def
      summarize_def)

lemma finished_spend:
  "experiment_spend schema_valid (\<lambda>_. True) finished_directory example_smoke = Inr (True, 0)"
proof -
  have one: "attempt_spend schema_valid (\<lambda>_. True) (ed_attempts finished_directory) 0 xs = Inr (True, 0)"
    if "e \<in> set smoke_sched" "set xs \<subseteq> set (se_attempts e)" for e xs
    using that(2)
  proof (induction xs)
    case (Cons x xs)
    then show ?case using timeout_read(1,2) [OF that(1), of x] by simp
  qed simp
  have "trials_spend schema_valid (\<lambda>_. True) (ed_attempts finished_directory) 0 es = Inr (True, 0)"
    if "set es \<subseteq> set smoke_sched" for es
    using that
  proof (induction es)
    case (Cons e es)
    then have "attempt_spend schema_valid (\<lambda>_. True) (ed_attempts finished_directory) 0 (se_attempts e) = Inr (True, 0)"
      by (intro one [of e]) simp_all
    with Cons show ?case by simp
  qed simp
  then show ?thesis by (simp add: experiment_spend_def example_smoke_fields)
qed

lemma finished_action:
  "next_evaluation_action schema_valid const_digest (\<lambda>_. True) finished_directory = Inr ActDone"
proof -
  have sched: "schedule_action schema_valid (\<lambda>_. True) finished_directory example_smoke 0 i (drop i smoke_sched) = Inr ActDone"
    if "i \<le> length smoke_sched" for i
    using that
  proof (induction rule: inc_induct)
    case (step i)
    have e: "smoke_sched ! i \<in> set smoke_sched" using step.hyps by simp
    obtain job where job: "job_at example_smoke i 0 = Inr job" by (rule example_job [OF step.hyps(2)])
    note at = job_at_Inr [OF job, unfolded example_smoke_fields]
    have x: "jb_attempt job \<in> set (se_attempts (smoke_sched ! i))" using at(3,4) by simp
    have "attempt_identity_ok example_smoke job (timeout_result (smoke_sched ! i) (jb_attempt job))"
      by (simp add: attempt_identity_ok_def timeout_result_def at(2) decode_manifest_def)
        (simp add: example_value_def example_members_def json_get_def)
    moreover obtain fuel where fuel: "length (se_attempts (smoke_sched ! i)) = Suc fuel"
      using smoke_member(4) [OF e] by (cases "length (se_attempts (smoke_sched ! i))") simp_all
    ultimately have "trial_action schema_valid (\<lambda>_. True) finished_directory example_smoke 0 i (smoke_sched ! i) 0 (Suc fuel) = Inr None"
      using timeout_read [OF e x] job by simp
    then show ?case
      using step fuel by (simp add: Cons_nth_drop_Suc [symmetric] del: trial_action.simps)
  qed simp
  have "read_smoke_manifest schema_valid const_digest (ed_manifest finished_directory) = Inr example_smoke"
    using example_smoke_read by (simp add: finished_directory_def)
  then show ?thesis
    using finished_spend sched [of 0] by (simp add: next_evaluation_action_def example_smoke_fields)
qed

lemma finished_report:
  obtains report where "generate_smoke_report schema_valid const_digest (\<lambda>_. True) finished_directory = Inr report"
proof -
  have read: "read_smoke_manifest schema_valid const_digest (ed_manifest finished_directory) = Inr example_smoke"
    using example_smoke_read by (simp add: finished_directory_def)
  have entry: "\<exists>t. report_entry example_smoke e x (timeout_result e x) = Inr t"
    if e: "e \<in> set smoke_sched" "x \<in> set (se_attempts e)" for e x
  proof -
    obtain task where task: "find (\<lambda>t. mt_id t = se_task e) (mf_tasks example_smoke) = Some task" by (rule smoke_task [OF e(1)])
    have "mf_tasks example_smoke = map decode_manifest_task example_tasks_json"
      by (simp add: decode_manifest_def example_value_get)
    moreover have "task \<in> set (mf_tasks example_smoke)" using task by (auto simp: find_Some_iff)
    ultimately obtain t where "task = decode_manifest_task (manifest_task_json t (example_loaded t))"
      by (auto simp: example_tasks_json_def)
    then have hashes: "mt_hash task = example_sha ''y''" "mt_source task = replicate 64 (CHR ''b'')"
      "mt_validator task = replicate 64 (CHR ''b'')"
      by (simp_all add: decode_manifest_task_def manifest_task_json_def json_get_def example_loaded_def example_task_def
          del: replicate.simps)
    have "mf_experiment example_smoke = ''e1''" "mf_fingerprint example_smoke = example_fingerprint"
      "mf_auth_profile example_smoke = ''default''"
      by (simp_all add: decode_manifest_def example_value_def example_members_def json_get_def decode_fingerprint_def
          example_check_def example_fingerprint_def)
    then show ?thesis
      using e(2) hashes task
      by (simp add: report_entry_def report_identity_ok_def report_fingerprint_ok_def report_task_ok_def timeout_result_def
          example_identity_def example_provenance_def example_fingerprint_def del: replicate.simps)
  qed
  have scan: "\<exists>ph' ts. scan_trials schema_valid (\<lambda>_. True) (ed_attempts finished_directory) example_smoke ph es = Inr (ph', ts) \<and>
      (\<forall>t \<in> set ts. rt_cost t = None) \<and> (es \<noteq> [] \<or> None \<in> set (ph_costs ph) \<longrightarrow> None \<in> set (ph_costs ph'))"
    if "set es \<subseteq> set smoke_sched" for es ph
    using that
  proof (induction es arbitrary: ph)
    case (Cons e es)
    then have e: "e \<in> set smoke_sched" by simp
    obtain x xs where x: "se_attempts e = x # xs" using smoke_member(4) [OF e] by (cases "se_attempts e") auto
    have x': "x \<in> set (se_attempts e)" by (simp add: x)
    obtain t where t: "report_entry example_smoke e x (timeout_result e x) = Inr t" using entry [OF e x'] by blast
    have cost: "rt_cost t = None" using report_entry_fields(6) [OF t] by simp
    obtain ph1 where scan: "scan_attempts schema_valid (\<lambda>_. True) (ed_attempts finished_directory) ph None (se_attempts e) =
        (ph1, Inr (Some (x, Some (timeout_result e x))))" "None \<in> set (ph_costs ph1)"
      using timeout_read [OF e x'] by (simp add: x is_decisive_def record_physical_def Let_def)
    obtain ph' ts where "scan_trials schema_valid (\<lambda>_. True) (ed_attempts finished_directory) example_smoke ph1 es = Inr (ph', ts)"
      "\<forall>t \<in> set ts. rt_cost t = None" "None \<in> set (ph_costs ph')"
      using Cons.IH [of ph1] Cons.prems scan(2) by auto
    then show ?case using scan(1) t cost by simp
  qed simp
  obtain ph trials where st: "scan_trials schema_valid (\<lambda>_. True) (ed_attempts finished_directory) example_smoke
      \<lparr>ph_usage = [], ph_costs = [], ph_incomplete = False\<rparr> smoke_sched = Inr (ph, trials)"
    and cost: "\<forall>t \<in> set trials. rt_cost t = None" "None \<in> set (ph_costs ph)"
    using scan [OF order_refl] smoke_sched(2) by (metis (no_types, lifting) list.size(3) zero_neq_numeral)
  note counts = scan_counts [OF read, unfolded example_smoke_fields, OF st]
  have fields: "mf_experiment example_smoke = ''e1''" "mf_hash example_smoke = example_hash"
    "mf_evidence example_smoke = MockEvidence" "mf_threshold example_smoke = 3 / 5"
    "json_get ''roles'' (mf_json example_smoke) = json_get ''models'' (config_json bounded_config)"
    by (simp_all add: decode_manifest_def example_value_def example_members_def json_get_def)
  have trials: "list_all (\<lambda>t. rt_trial t \<noteq> [] \<and> rt_attempt t \<noteq> [] \<and> rt_task t \<in> set all_task_ids \<and>
      (case rt_cost t of None \<Rightarrow> True | Some c \<Rightarrow> 0 \<le> c)) trials"
  proof -
    have "rt_trial t \<noteq> [] \<and> rt_attempt t \<noteq> [] \<and> rt_task t \<in> set all_task_ids" if t: "t \<in> set trials" for t
    proof -
      obtain e where e: "e \<in> set smoke_sched"
        "reports schema_valid (\<lambda>_. True) (ed_attempts finished_directory) example_smoke e t"
        using counts(5) [OF t] by blast
      then have "rt_attempt t \<in> set (se_attempts e)" by (auto simp: reports_def)
      then show ?thesis
        using reports_fields [OF e(2)] smoke_member [OF e(1)] smoke_ids(4) by auto
    qed
    then show ?thesis using cost(1) by (simp add: list_all_iff)
  qed
  have modes: "find (\<lambda>mode. \<not> mode_counts_ok (mode_result_of example_smoke trials mode)) evaluation_modes = None"
    using counts(2) by (simp add: find_None_iff)
  have known: "known_total sum_list (ph_incomplete ph) (ph_costs ph) = None"
    using cost(2) by (auto simp: known_total_def list_all_iff)
  have eval: "evaluated_trials trials \<le> length smoke_sched"
    using counts(1) length_filter_le [of _ trials] unfolding evaluated_trials_def count_trials_def by (meson le_trans)
  show thesis
    by (rule that, simp add: generate_smoke_report_def read st example_smoke_fields validate_smoke_report_def
        report_schema_ok_def fields example_parts_valid modes trials known eval del: schema_valid.simps)
qed

subsection \<open>Properties\<close>

text \<open>C12: A report accounts for every trial of the schedule: its trials are trials of the schedule, each at
  most once, each with the outcome, identity and fingerprints of an attempt that was read back; what
  is evaluated and what is missing add up to what was planned; the passes and failures of the modes
  add up to what is evaluated; and the counts of a mode never exceed its share of the plan.\<close>

theorem report_counts_exact:
  assumes "generate_smoke_report ajv digest date_ok d = Inr report"
  shows "\<exists>m. read_smoke_manifest ajv digest (ed_manifest d) = Inr m \<and>
    sr_planned report = length (mf_schedule m) \<and> sr_evaluated report + sr_missing report = sr_planned report \<and>
    sum_list (map (\<lambda>mode. mr_pass (sr_modes report mode) + mr_fail (sr_modes report mode)) evaluation_modes) =
      sr_evaluated report \<and>
    (\<forall>mode. mode_counts_ok (sr_modes report mode) \<and> 3 * mr_planned (sr_modes report mode) = sr_planned report) \<and>
    distinct (map rt_trial (sr_trials report)) \<and>
    (\<forall>t \<in> set (sr_trials report). \<exists>e \<in> set (mf_schedule m). reports ajv date_ok (ed_attempts d) m e t)"
proof -
  obtain m ph trials where m: "read_smoke_manifest ajv digest (ed_manifest d) = Inr m"
    and scan: "scan_trials ajv date_ok (ed_attempts d) m \<lparr>ph_usage = [], ph_costs = [], ph_incomplete = False\<rparr>
      (mf_schedule m) = Inr (ph, trials)"
    and r: "sr_trials report = trials" "sr_planned report = length (mf_schedule m)"
      "sr_evaluated report = evaluated_trials trials"
      "sr_missing report = length (mf_schedule m) - evaluated_trials trials" "sr_modes report = mode_result_of m trials"
    by (rule report_Inr [OF assms])
  have "evaluated_trials trials \<le> length trials" by (simp add: evaluated_trials_def count_trials_def)
  then show ?thesis
    using m r scan_counts [OF m scan] mode_counts_sum [of m trials] by auto
qed

theorem report_counts_exact_witness:
  "\<exists>report. generate_smoke_report schema_valid const_digest (\<lambda>_. True) example_directory = Inr report \<and>
    sr_evaluated report + sr_missing report = sr_planned report"
proof -
  obtain report where "generate_smoke_report schema_valid const_digest (\<lambda>_. True) example_directory = Inr report"
    by (rule example_report)
  with report_counts_exact [OF this] show ?thesis by blast
qed

text \<open>C13: When the controller is done, the report says so: nothing is missing, unavailable or incomplete,
  every trial of the schedule is reported with a pass or a failure, and the exit code is 0 exactly
  when no trial failed and 1 otherwise, never 3.\<close>

theorem done_is_reported:
  assumes "next_evaluation_action ajv digest date_ok d = Inr ActDone"
    and "generate_smoke_report ajv digest date_ok d = Inr report"
  shows "sr_missing report = 0 \<and> length (sr_trials report) = sr_planned report \<and>
    (\<forall>t \<in> set (sr_trials report). rt_outcome t = OutPass \<or> rt_outcome t = OutFail) \<and>
    smoke_exit_code report = (if \<forall>t \<in> set (sr_trials report). rt_outcome t = OutPass then 0 else 1)"
proof -
  obtain m ph trials where m: "read_smoke_manifest ajv digest (ed_manifest d) = Inr m"
    and scan: "scan_trials ajv date_ok (ed_attempts d) m \<lparr>ph_usage = [], ph_costs = [], ph_incomplete = False\<rparr>
      (mf_schedule m) = Inr (ph, trials)"
    and r: "sr_trials report = trials" "sr_planned report = length (mf_schedule m)"
      "sr_missing report = length (mf_schedule m) - evaluated_trials trials" "sr_modes report = mode_result_of m trials"
    by (rule report_Inr [OF assms(2)])
  obtain known spent where "schedule_action ajv date_ok d m spent 0 (mf_schedule m) = Inr ActDone"
    by (rule next_action_Inr [OF assms(1) m])
  from schedule_action_cases [OF this] have "\<forall>e \<in> set (mf_schedule m). terminal ajv date_ok d (se_attempts e)" by simp
  from scan_terminal_trials [OF scan this] have len: "length trials = length (mf_schedule m)"
    and all: "\<forall>t \<in> set trials. rt_outcome t = OutPass \<or> rt_outcome t = OutFail" by blast+
  have missing: "sr_missing report = 0" using r len all_evaluated(1) [OF all] by simp
  have "smoke_exit_code report = (if \<exists>mode. 0 < mr_fail (sr_modes report mode) then 1 else 0)"
    using missing all_evaluated(2) [OF all] by (simp add: smoke_exit_code_def r list_ex_iff evaluation_modes_all)
  also have "(\<exists>mode. 0 < mr_fail (sr_modes report mode)) \<longleftrightarrow> \<not> (\<forall>t \<in> set trials. rt_outcome t \<noteq> OutFail)"
    unfolding no_failures [of m trials, symmetric] r by simp
  also have "(\<forall>t \<in> set trials. rt_outcome t \<noteq> OutFail) \<longleftrightarrow> (\<forall>t \<in> set trials. rt_outcome t = OutPass)"
    using all by (metis trial_outcome.distinct(1))
  finally show ?thesis using missing len all r by auto
qed

theorem done_is_reported_witness:
  "\<exists>report. next_evaluation_action schema_valid const_digest (\<lambda>_. True) finished_directory = Inr ActDone \<and>
    generate_smoke_report schema_valid const_digest (\<lambda>_. True) finished_directory = Inr report \<and>
    sr_missing report = 0 \<and> length (sr_trials report) = sr_planned report"
proof -
  obtain report where report: "generate_smoke_report schema_valid const_digest (\<lambda>_. True) finished_directory = Inr report"
    by (rule finished_report)
  from done_is_reported [OF finished_action report] report finished_action show ?thesis by blast
qed

text \<open>C39: A directory without a log is not counted: when the first attempt of a trial was created but its
  log was not written, the report is the one that would be generated if the attempt had never been
  started; nothing marks it as incomplete, so the usage and cost totals are still given as known.\<close>

theorem unlogged_attempt_unreported:
  assumes "read_smoke_manifest ajv digest (ed_manifest d) = Inr m" and "e \<in> set (mf_schedule m)"
    and "se_attempts e = x # xs" and "ed_attempts d x = None" and "\<not> ae_log entry"
  shows "generate_smoke_report ajv digest date_ok (put_attempt x entry d) = generate_smoke_report ajv digest date_ok d"
proof -
  have "\<exists>ys. se_attempts e' = x # ys" if "e' \<in> set (mf_schedule m)" "x \<in> set (se_attempts e')" for e'
    using manifest_attempt_unique [OF manifest_attempts_distinct [OF assms(1), unfolded manifest_attempts_def] that(1) assms(2) that(2)]
      assms(3) by simp
  then have "scan_trials ajv date_ok ((ed_attempts d)(x \<mapsto> entry)) m ph (mf_schedule m) =
      scan_trials ajv date_ok (ed_attempts d) m ph (mf_schedule m)" for ph
    by (intro scan_trials_unlogged [where att = "ed_attempts d"]) (use assms(4,5) in auto)
  then show ?thesis using assms(1) by (simp add: generate_smoke_report_def)
qed

theorem unlogged_attempt_unreported_witness:
  "\<exists>e x report. x = hd (se_attempts e) \<and> e \<in> set (mf_schedule example_smoke) \<and>
    generate_smoke_report schema_valid const_digest (\<lambda>_. True)
      (put_attempt x (example_entry\<lparr>ae_log := False\<rparr>) example_directory) = Inr report \<and>
    sr_cost report = Some 0"
proof -
  obtain report where report: "generate_smoke_report schema_valid const_digest (\<lambda>_. True) example_directory = Inr report"
    "sr_cost report = Some 0"
    by (rule example_report)
  obtain e es where e: "smoke_sched = e # es" using smoke_sched(2) by (cases smoke_sched) auto
  obtain x xs where x: "se_attempts e = x # xs" using smoke_member(4) [of e] by (cases "se_attempts e") (auto simp: e)
  have "e \<in> set (mf_schedule example_smoke)" "ed_attempts example_directory x = None" "\<not> ae_log (example_entry\<lparr>ae_log := False\<rparr>)"
    by (simp_all add: example_smoke_fields e example_directory_def)
  from unlogged_attempt_unreported [OF example_smoke_read this(1) x this(2,3), of "\<lambda>_. True"] this(1) report x
  show ?thesis by (metis list.sel(1))
qed

end
