(* ===== verification/Trial_Records.thy ===== *)
theory Trial_Records
  imports Evaluation_Report
begin

section \<open>The records of an experiment (src/evaluation/analysis.ts)\<close>

text \<open>
  The trials of an experiment as the analysis reads them: every physical attempt with its result, the
  attempts that did not finish, and the outcome of the last result. Reading checks each result against
  the manifest, so what is analysed belongs to the experiment.
\<close>

record resolved_trial =
  tr_trial :: string
  tr_task :: string
  tr_repetition :: nat
  tr_mode :: session_mode
  tr_outcome :: trial_outcome
  tr_result :: "run_result option"
  tr_physical :: "run_result list"
  tr_incomplete :: nat

datatype analysis_error =
    RecordsError evaluation_error
  | MixedEvidenceKind string
  | RoutedSourceInvalid string
  | MixedEvidence
  | RoutedSource
  | DuplicateLogicalTrial string
  | ReportShape
  | ReportInconsistent
  | DevelopmentOnly

definition is_evaluated :: "trial_outcome \<Rightarrow> bool" where
  "is_evaluated outcome \<longleftrightarrow> outcome = OutPass \<or> outcome = OutFail"

definition routed_source_ok :: "session_mode \<Rightarrow> run_result \<Rightarrow> bool" where
  "routed_source_ok mode r \<longleftrightarrow> mode \<noteq> Routed \<or>
     (case rs_decision r of None \<Rightarrow> True | Some d \<Rightarrow> rd_source d \<in> {FromClassifier, FromFallback})"

text \<open>What a finalized attempt has to agree with.\<close>

definition check_record :: "smoke_manifest \<Rightarrow> scheduled_trial \<Rightarrow> string \<Rightarrow> run_result \<Rightarrow> analysis_error + unit" where
  "check_record m trial x r =
     (if ai_experiment (rs_identity r) \<noteq> Some (mf_experiment m) \<or>
         ai_task (rs_identity r) \<noteq> Some (se_task trial) \<or>
         ai_repetition (rs_identity r) \<noteq> Some (se_repetition trial) \<or>
         ai_attempt (rs_identity r) \<noteq> x \<or> rs_mode r \<noteq> se_mode trial
      then Inl (RecordsError (AttemptIdentityMismatch x))
      else if rs_evidence r \<noteq> mf_evidence m then Inl (MixedEvidenceKind x)
      else if \<not> routed_source_ok (se_mode trial) r then Inl (RoutedSourceInvalid x)
      else if \<not> report_fingerprint_ok m r then Inl (RecordsError (AttemptFingerprintMismatch x))
      else case find (\<lambda>t. mt_id t = se_task trial) (mf_tasks m) of
          None \<Rightarrow> Inl (RecordsError (TaskAbsent (se_task trial)))
        | Some task \<Rightarrow>
            if \<not> report_task_ok task r then Inl (RecordsError (AttemptProvenanceMismatch x)) else Inr ())"

text \<open>The finished attempts, how many did not finish, and the last result; an evaluated result ends the loop.\<close>

fun load_attempts :: "(schema \<Rightarrow> json \<Rightarrow> bool) \<Rightarrow> (string \<Rightarrow> bool) \<Rightarrow> (string \<Rightarrow> attempt_entry option)
    \<Rightarrow> smoke_manifest \<Rightarrow> scheduled_trial \<Rightarrow> run_result list \<Rightarrow> nat \<Rightarrow> run_result option \<Rightarrow> string list
    \<Rightarrow> analysis_error + run_result list \<times> nat \<times> run_result option" where
  "load_attempts ajv date_ok attempts m trial finished incomplete selected [] = Inr (finished, incomplete, selected)"
| "load_attempts ajv date_ok attempts m trial finished incomplete selected (x # xs) =
     (case attempts x of
        None \<Rightarrow> Inr (finished, incomplete, selected)
      | Some entry \<Rightarrow>
          bind_result (lift_error RecordsError (read_entry ajv date_ok entry)) (\<lambda>attempt.
            case ar_result attempt of
              None \<Rightarrow> load_attempts ajv date_ok attempts m trial finished (Suc incomplete) selected xs
            | Some r \<Rightarrow>
                bind_result (check_record m trial x r) (\<lambda>_.
                  if is_evaluated (classify_trial_outcome r) then Inr (finished @ [r], incomplete, Some r)
                  else load_attempts ajv date_ok attempts m trial (finished @ [r]) incomplete (Some r) xs)))"

definition load_trial :: "(schema \<Rightarrow> json \<Rightarrow> bool) \<Rightarrow> (string \<Rightarrow> bool) \<Rightarrow> (string \<Rightarrow> attempt_entry option)
    \<Rightarrow> smoke_manifest \<Rightarrow> scheduled_trial \<Rightarrow> analysis_error + resolved_trial" where
  "load_trial ajv date_ok attempts m trial =
     bind_result (load_attempts ajv date_ok attempts m trial [] 0 None (se_attempts trial)) (\<lambda>(finished, incomplete, selected).
       Inr \<lparr>tr_trial = se_trial trial, tr_task = se_task trial, tr_repetition = se_repetition trial,
         tr_mode = se_mode trial,
         tr_outcome = (case selected of None \<Rightarrow> OutIncomplete | Some r \<Rightarrow> classify_trial_outcome r),
         tr_result = selected, tr_physical = finished, tr_incomplete = incomplete\<rparr>)"

definition load_experiment_records :: "(schema \<Rightarrow> json \<Rightarrow> bool) \<Rightarrow> (json \<Rightarrow> string) \<Rightarrow> (string \<Rightarrow> bool)
    \<Rightarrow> experiment_directory \<Rightarrow> analysis_error + smoke_manifest \<times> resolved_trial list" where
  "load_experiment_records ajv digest date_ok d =
     bind_result (lift_error RecordsError (read_smoke_manifest ajv digest (ed_manifest d))) (\<lambda>m.
     bind_result (map_result (load_trial ajv date_ok (ed_attempts d) m) (mf_schedule m)) (\<lambda>trials.
       Inr (m, trials)))"

subsection \<open>What loading establishes\<close>

text \<open>A trial as the analysis may rely on it.\<close>

definition trial_wf :: "smoke_manifest \<Rightarrow> resolved_trial \<Rightarrow> bool" where
  "trial_wf m t \<longleftrightarrow>
     (\<forall>r \<in> set (tr_physical t). rs_evidence r = mf_evidence m \<and> routed_source_ok (tr_mode t) r \<and> rs_mode r = tr_mode t) \<and>
     (case tr_result t of None \<Rightarrow> tr_physical t = [] \<and> tr_outcome t = OutIncomplete
      | Some r \<Rightarrow> tr_physical t \<noteq> [] \<and> last (tr_physical t) = r \<and> tr_outcome t = classify_trial_outcome r)"

lemma check_record_ok:
  assumes "check_record m trial x r = Inr u"
  shows "rs_evidence r = mf_evidence m \<and> routed_source_ok (se_mode trial) r \<and> rs_mode r = se_mode trial"
  using assms by (auto simp: check_record_def split: if_splits)

lemma load_attempts_wf:
  assumes "load_attempts ajv date_ok attempts m trial finished incomplete selected xs = Inr (finished', incomplete', selected')"
    and "\<forall>r \<in> set finished. rs_evidence r = mf_evidence m \<and> routed_source_ok (se_mode trial) r \<and> rs_mode r = se_mode trial"
    and "case selected of None \<Rightarrow> finished = [] | Some r \<Rightarrow> finished \<noteq> [] \<and> last finished = r"
  shows "(\<forall>r \<in> set finished'. rs_evidence r = mf_evidence m \<and> routed_source_ok (se_mode trial) r \<and> rs_mode r = se_mode trial) \<and>
    (case selected' of None \<Rightarrow> finished' = [] | Some r \<Rightarrow> finished' \<noteq> [] \<and> last finished' = r)"
  using assms
proof (induction xs arbitrary: finished incomplete selected)
  case (Cons x xs)
  show ?case
  proof (cases "attempts x")
    case None
    then show ?thesis using Cons.prems by (auto split: option.splits)
  next
    case (Some entry)
    then obtain attempt where read: "read_entry ajv date_ok entry = Inr attempt"
      using Cons.prems(1) by (cases "read_entry ajv date_ok entry") simp_all
    show ?thesis
    proof (cases "ar_result attempt")
      case None
      then show ?thesis using Cons.IH [of finished "Suc incomplete" selected] Cons.prems Some read by simp
    next
      case r: (Some r)
      obtain u where "check_record m trial x r = Inr u"
        using Cons.prems(1) Some read r by (cases "check_record m trial x r") simp_all
      note ok = check_record_ok [OF this] and step = this
      show ?thesis
      proof (cases "is_evaluated (classify_trial_outcome r)")
        case True
        then have "finished' = finished @ [r]" "selected' = Some r" using Cons.prems(1) Some read r step by auto
        then show ?thesis using Cons.prems(2) ok by auto
      next
        case False
        then have "load_attempts ajv date_ok attempts m trial (finished @ [r]) incomplete (Some r) xs = Inr (finished', incomplete', selected')"
          using Cons.prems(1) Some read r step by simp
        from Cons.IH [OF this] show ?thesis using Cons.prems(2) ok by auto
      qed
    qed
  qed
qed simp

lemma load_trial_wf:
  assumes "load_trial ajv date_ok attempts m trial = Inr t"
  shows "trial_wf m t \<and> tr_trial t = se_trial trial \<and> ((tr_task t, tr_repetition t), tr_mode t) = trial_key trial"
proof -
  obtain finished incomplete selected where l: "load_attempts ajv date_ok attempts m trial [] 0 None (se_attempts trial) = Inr (finished, incomplete, selected)"
    and t: "t = \<lparr>tr_trial = se_trial trial, tr_task = se_task trial, tr_repetition = se_repetition trial,
         tr_mode = se_mode trial, tr_outcome = (case selected of None \<Rightarrow> OutIncomplete | Some r \<Rightarrow> classify_trial_outcome r),
         tr_result = selected, tr_physical = finished, tr_incomplete = incomplete\<rparr>"
    using assms by (auto simp: load_trial_def)
  from load_attempts_wf [OF l] show ?thesis by (auto simp: t trial_wf_def trial_key_def split: option.splits)
qed

lemma loaded_records:
  assumes "json_validator ajv" "load_experiment_records ajv digest date_ok d = Inr (m, trials)"
  shows "read_smoke_manifest ajv digest (ed_manifest d) = Inr m"
    "list_all2 (\<lambda>trial t. load_trial ajv date_ok (ed_attempts d) m trial = Inr t) (mf_schedule m) trials"
    "length trials = length (mf_schedule m)" "\<forall>t \<in> set trials. trial_wf m t"
    "map (\<lambda>t. ((tr_task t, tr_repetition t), tr_mode t)) trials = map trial_key (mf_schedule m)"
proof -
  show m: "read_smoke_manifest ajv digest (ed_manifest d) = Inr m"
    and l: "list_all2 (\<lambda>trial t. load_trial ajv date_ok (ed_attempts d) m trial = Inr t) (mf_schedule m) trials"
    using assms(2) by (auto simp: load_experiment_records_def map_result_Inr)
  show "length trials = length (mf_schedule m)" using l by (simp add: list_all2_lengthD)
  show "\<forall>t \<in> set trials. trial_wf m t"
    using l load_trial_wf by (fastforce simp: list_all2_conv_all_nth in_set_conv_nth)
  show "map (\<lambda>t. ((tr_task t, tr_repetition t), tr_mode t)) trials = map trial_key (mf_schedule m)"
    using l load_trial_wf by (auto simp: list_all2_conv_all_nth intro!: nth_equalityI)
qed

end
