(* ===== verification/Statistics.thy ===== *)
theory Statistics
  imports Schedule
begin

section \<open>Statistics of a report (src/evaluation/analysis.ts)\<close>

text \<open>
  Ratios, percentiles, the Wilson interval and the bootstrap over task clusters, on exact reals. The
  bootstrap draws from the seeded generator of the schedule.
\<close>

record ratio =
  qr_numerator :: nat
  qr_denominator :: nat
  qr_value :: "real option"
  qr_excluded :: nat

definition ratio :: "nat \<Rightarrow> nat \<Rightarrow> nat \<Rightarrow> ratio" where
  "ratio n d excluded = \<lparr>qr_numerator = n, qr_denominator = d,
     qr_value = (if d = 0 then None else Some (real n / real d)), qr_excluded = excluded\<rparr>"

definition percentile :: "real list \<Rightarrow> real \<Rightarrow> real option" where
  "percentile values fraction =
     (if values = [] then None
      else
        let sorted_values = sort values;
            index = min (int (length values) - 1) (\<lceil>real (length values) * fraction\<rceil> - 1)
        in if index < 0 then None else Some (sorted_values ! nat index))"

definition median :: "real list \<Rightarrow> real option" where
  "median values =
     (if values = [] then None
      else
        let sorted_values = sort values; middle = length values div 2
        in if even (length values) then Some ((sorted_values ! (middle - 1) + sorted_values ! middle) / 2)
           else Some (sorted_values ! middle))"

type_synonym interval = "real \<times> real"

definition wilson95 :: "nat \<Rightarrow> nat \<Rightarrow> interval option" where
  "wilson95 successes n =
     (if n = 0 then None
      else
        let z = 196 / 100; p = real successes / real n; z2 = z * z;
            denominator = 1 + z2 / real n;
            center = (p + z2 / (2 * real n)) / denominator;
            margin = z * sqrt ((p * (1 - p) + z2 / (4 * real n)) / real n) / denominator
        in Some (center - margin, center + margin))"

subsection \<open>Resampling clusters\<close>

record cluster_row =
  cr_task :: string
  cr_numerator :: real
  cr_denominator :: real

record bootstrap =
  bo_interval :: "interval option"
  bo_valid :: nat
  bo_undefined :: nat
  bo_tasks :: nat

fun resample :: "('s \<Rightarrow> real \<times> 's) \<Rightarrow> cluster_row list list \<Rightarrow> nat \<Rightarrow> real \<times> real \<Rightarrow> 's \<Rightarrow> (real \<times> real) \<times> 's" where
  "resample random groups 0 acc s = (acc, s)"
| "resample random groups (Suc k) (n, d) s =
     (let (r, s') = random s; rows = groups ! nat \<lfloor>r * real (length groups)\<rfloor>
      in resample random groups k
           (n + sum_list (map cr_numerator rows), d + sum_list (map cr_denominator rows)) s')"

fun resamples :: "('s \<Rightarrow> real \<times> 's) \<Rightarrow> cluster_row list list \<Rightarrow> nat \<Rightarrow> 's \<Rightarrow> (real \<times> real) list" where
  "resamples random groups 0 s = []"
| "resamples random groups (Suc k) s =
     (let (acc, s') = resample random groups (length groups) (0, 0) s
      in acc # resamples random groups k s')"

definition cluster_bootstrap :: "cluster_row list \<Rightarrow> nat \<Rightarrow> bootstrap" where
  "cluster_bootstrap rows seed =
     (let tasks = sort_strings (new_set (map cr_task rows))
      in if length tasks < 5
         then \<lparr>bo_interval = None, bo_valid = 0, bo_undefined = 0, bo_tasks = length tasks\<rparr>
         else
           let groups = map (\<lambda>task. filter (\<lambda>row. cr_task row = task) rows) tasks;
               draws = resamples mulberry32 groups 2000 (mulberry_seed seed);
               samples = sort (map (\<lambda>(n, d). n / d) (filter (\<lambda>(n, d). d \<noteq> 0) draws));
               n = length samples
           in \<lparr>bo_interval = (if n < 1000 then None
                 else Some (samples ! nat \<lfloor>real (n - 1) * (25 / 1000)\<rfloor>, samples ! nat \<lceil>real (n - 1) * (975 / 1000)\<rceil>)),
               bo_valid = n, bo_undefined = length (filter (\<lambda>(n, d). d = 0) draws), bo_tasks = length tasks\<rparr>)"

subsection \<open>Order statistics\<close>

lemma percentile_sorted:
  assumes "percentile values fraction = Some v" "0 < fraction" "fraction \<le> 1"
  obtains k where "k < length values" "v = sort values ! k" "real k < real (length values) * fraction"
    "real (length values) * fraction \<le> real (Suc k)"
proof -
  let ?n = "real (length values)"
  let ?i = "min (int (length values) - 1) (\<lceil>?n * fraction\<rceil> - 1)"
  have n: "values \<noteq> []" and i: "\<not> ?i < 0" and v: "v = sort values ! nat ?i"
    using assms(1) by (auto simp: percentile_def Let_def split: if_splits)
  have "?n * fraction \<le> ?n" using assms(3) by (simp add: mult_left_le)
  then have c: "\<lceil>?n * fraction\<rceil> \<le> int (length values)" by (simp add: ceiling_le_iff)
  then have i': "?i = \<lceil>?n * fraction\<rceil> - 1" by simp
  then have k: "int (nat ?i) = \<lceil>?n * fraction\<rceil> - 1" using i by simp
  have "nat ?i < length values" using k c by linarith
  moreover have "real (nat ?i) < ?n * fraction" "?n * fraction \<le> real (Suc (nat ?i))"
    using k by linarith+
  ultimately show thesis using that v by blast
qed

lemma count_sorted:
  assumes "sorted xs" "k < length xs"
  shows "Suc k \<le> length (filter (\<lambda>x. x \<le> xs ! k) xs)" "length (filter (\<lambda>x. x < xs ! k) xs) \<le> k"
proof -
  have split: "xs = take (Suc k) xs @ drop (Suc k) xs" by simp
  have low: "x \<le> xs ! k" if x: "x \<in> set (take (Suc k) xs)" for x
    using x assms by (auto simp: in_set_conv_nth sorted_iff_nth_mono)
  have "length (filter (\<lambda>x. x \<le> xs ! k) (take (Suc k) xs)) = Suc k"
    using low assms(2) by (subst filter_True) auto
  then show "Suc k \<le> length (filter (\<lambda>x. x \<le> xs ! k) xs)"
    using arg_cong [OF split, of "\<lambda>ys. length (filter (\<lambda>x. x \<le> xs ! k) ys)"] by (simp only: filter_append length_append)
  have high: "\<not> x < xs ! k" if x: "x \<in> set (drop k xs)" for x
  proof -
    obtain i where "x = xs ! (k + i)" "k + i < length xs" using x by (auto simp: in_set_conv_nth)
    then show ?thesis using sorted_nth_mono [OF assms(1), of k "k + i"] by simp
  qed
  have "filter (\<lambda>x. x < xs ! k) (drop k xs) = []" using high by (simp add: filter_empty_conv)
  then have "length (filter (\<lambda>x. x < xs ! k) xs) = length (filter (\<lambda>x. x < xs ! k) (take k xs))"
    by (metis append_Nil2 append_take_drop_id filter_append)
  also have "\<dots> \<le> k" using length_filter_le [of _ "take k xs"] assms(2) by simp
  finally show "length (filter (\<lambda>x. x < xs ! k) xs) \<le> k" .
qed

lemma filter_sort_length: "length (filter p (sort xs)) = length (filter p xs)" for xs :: "real list"
  by (metis mset_filter mset_sort size_mset)

subsection \<open>The Wilson interval\<close>

lemma wilson_facts:
  fixes p z n :: real
  assumes "0 \<le> p" "p \<le> 1" "0 < n" "0 < z"
  defines "z2 \<equiv> z * z"
  defines "den \<equiv> 1 + z2 / n"
  defines "center \<equiv> (p + z2 / (2 * n)) / den"
  defines "margin \<equiv> z * sqrt ((p * (1 - p) + z2 / (4 * n)) / n) / den"
  shows "0 \<le> center - margin" "center - margin \<le> p" "p \<le> center + margin" "center + margin \<le> 1"
proof -
  have z2: "0 < z2" and den: "0 < den" using assms(3,4) by (simp_all add: z2_def den_def add_pos_nonneg)
  let ?v = "(p * (1 - p) + z2 / (4 * n)) / n"
  have pq: "0 \<le> p * (1 - p)" using assms(1,2) by simp
  have "sqrt (z2 * ?v) = sqrt z2 * sqrt ?v" by (rule real_sqrt_mult)
  moreover have "sqrt z2 = z" using assms(4) by (simp add: z2_def)
  ultimately have root: "z * sqrt ?v = sqrt (z2 * ?v)" by (simp only:)
  have side: "sqrt (z2 * ?v) \<le> a + z2 / (2 * n)" if "a * (1 - a) = p * (1 - p)" "0 \<le> a" for a
  proof (rule real_le_lsqrt)
    show "0 \<le> a + z2 / (2 * n)" using that(2) z2 assms(3) by simp
    have "(a + z2 / (2 * n))\<^sup>2 - z2 * ?v = a\<^sup>2 + z2 / n * a - z2 / n * (a * (1 - a))"
      unfolding that(1) using assms(3) by (simp add: power2_eq_square field_simps)
    also have "\<dots> = a\<^sup>2 + z2 / n * a\<^sup>2" by (simp add: power2_eq_square algebra_simps)
    finally show "z2 * ?v \<le> (a + z2 / (2 * n))\<^sup>2" using z2 assms(3) by (smt (verit) divide_nonneg_pos mult_nonneg_nonneg zero_le_power2)
  qed
  have inner: "\<bar>z2 / n * (p - 1 / 2)\<bar> \<le> sqrt (z2 * ?v)"
  proof (rule real_le_rsqrt)
    have "z2 * ?v - (z2 / n * (p - 1 / 2))\<^sup>2 = z2 / n * (p * (1 - p)) + (z2 / n)\<^sup>2 * (p * (1 - p))"
      using assms(3) by (simp add: power2_eq_square field_simps)
    also have "0 \<le> \<dots>" using pq z2 assms(3) by simp
    finally show "\<bar>z2 / n * (p - 1 / 2)\<bar>\<^sup>2 \<le> z2 * ?v" unfolding power2_abs by linarith
  qed
  have c: "center * den = p + z2 / (2 * n)" and m: "margin * den = sqrt (z2 * ?v)"
    using den by (simp_all add: center_def margin_def root)
  have split: "p * den - center * den = z2 / n * (p - 1 / 2)"
    unfolding c using assms(3) by (simp add: den_def field_simps)
  have "0 \<le> (center - margin) * den" using side [of p] c m assms(1) by (simp add: left_diff_distrib)
  then show "0 \<le> center - margin" using den by (simp add: zero_le_mult_iff)
  have "(center + margin) * den \<le> 1 * den"
    using side [of "1 - p"] c m assms(2) by (simp add: distrib_right den_def field_simps)
  then show "center + margin \<le> 1" using den mult_le_cancel_right_pos by blast
  have "(center - margin) * den \<le> p * den" "p * den \<le> (center + margin) * den"
    using inner [folded split] unfolding left_diff_distrib distrib_right m by linarith+
  then show "center - margin \<le> p" "p \<le> center + margin" using den mult_le_cancel_right_pos by blast+
qed

subsection \<open>The bootstrap\<close>

text \<open>Sums whose quotient, if there is one, lies between two numbers.\<close>

definition between :: "real \<Rightarrow> real \<Rightarrow> real \<times> real \<Rightarrow> bool" where
  "between a b nd \<longleftrightarrow> 0 \<le> snd nd \<and> a * snd nd \<le> fst nd \<and> fst nd \<le> b * snd nd"

lemma between_add: "between a b (n, d) \<Longrightarrow> between a b (n', d') \<Longrightarrow> between a b (n + n', d + d')"
  by (auto simp: between_def algebra_simps)

lemma between_sum:
  assumes "\<forall>row \<in> set rows. between a b (cr_numerator row, cr_denominator row)"
  shows "between a b (sum_list (map cr_numerator rows), sum_list (map cr_denominator rows))"
  using assms by (induction rows) (auto intro: between_add simp: between_def [of _ _ "(0, 0)"])

lemma between_quotient: "between a b (n, d) \<Longrightarrow> d \<noteq> 0 \<Longrightarrow> a \<le> n / d \<and> n / d \<le> b"
  by (auto simp: between_def field_simps)

context random_source
begin

lemma resample_between:
  assumes "groups \<noteq> []" "\<forall>rows \<in> set groups. \<forall>row \<in> set rows. between a b (cr_numerator row, cr_denominator row)"
    and "between a b acc"
  shows "between a b (fst (resample random groups k acc s))"
  using assms(3)
proof (induction k arbitrary: acc s)
  case (Suc k)
  obtain n d where acc: "acc = (n, d)" by fastforce
  obtain r s' where draw: "random s = (r, s')" by fastforce
  obtain i where i: "length groups = Suc i" using assms(1) by (cases groups) auto
  let ?rows = "groups ! nat \<lfloor>r * real (length groups)\<rfloor>"
  have "nat \<lfloor>r * real (length groups)\<rfloor> < length groups" using draw_index [OF draw, of i] i by simp
  then have "between a b (sum_list (map cr_numerator ?rows), sum_list (map cr_denominator ?rows))"
    using assms(2) nth_mem by (blast intro: between_sum)
  then have "between a b (n + sum_list (map cr_numerator ?rows), d + sum_list (map cr_denominator ?rows))"
    using Suc.prems acc between_add by blast
  from Suc.IH [OF this] show ?case by (simp add: acc draw Let_def)
qed simp

lemma resamples_between:
  assumes "groups \<noteq> []" "\<forall>rows \<in> set groups. \<forall>row \<in> set rows. between a b (cr_numerator row, cr_denominator row)"
  shows "\<forall>nd \<in> set (resamples random groups k s). between a b nd"
proof (induction k arbitrary: s)
  case (Suc k)
  obtain acc s' where acc: "resample random groups (length groups) (0, 0) s = (acc, s')" by fastforce
  have "between a b acc" using resample_between [OF assms, of "(0, 0)" "length groups" s] acc by (simp add: between_def)
  then show ?case using Suc.IH [of s'] by (simp add: acc Let_def)
qed simp

end

lemma resamples_length [simp]: "length (resamples random groups k s) = k"
  by (induction k arbitrary: s) (simp_all add: split_def Let_def)

lemma bootstrap_facts:
  assumes "\<forall>row \<in> set rows. between a b (cr_numerator row, cr_denominator row)"
  shows "bo_tasks (cluster_bootstrap rows seed) = card (cr_task ` set rows)"
    "5 \<le> bo_tasks (cluster_bootstrap rows seed) \<Longrightarrow>
       bo_valid (cluster_bootstrap rows seed) + bo_undefined (cluster_bootstrap rows seed) = 2000"
    "bo_interval (cluster_bootstrap rows seed) = Some (l, u) \<Longrightarrow>
       5 \<le> bo_tasks (cluster_bootstrap rows seed) \<and> 1000 \<le> bo_valid (cluster_bootstrap rows seed) \<and> a \<le> l \<and> l \<le> u \<and> u \<le> b"
proof -
  define tasks where "tasks = sort_strings (new_set (map cr_task rows))"
  define groups where "groups = map (\<lambda>task. filter (\<lambda>row. cr_task row = task) rows) tasks"
  define draws where "draws = resamples mulberry32 groups 2000 (mulberry_seed seed)"
  define samples where "samples = sort (map (\<lambda>(n, d). n / d) (filter (\<lambda>(n, d). d \<noteq> 0) draws))"
  have "distinct tasks" unfolding tasks_def by (metis mset_eq_imp_distinct_iff mset_sort_strings new_set_distinct)
  then have count: "length tasks = card (cr_task ` set rows)"
    using distinct_card [of tasks] by (simp add: tasks_def)
  have b: "cluster_bootstrap rows seed =
      (if length tasks < 5 then \<lparr>bo_interval = None, bo_valid = 0, bo_undefined = 0, bo_tasks = length tasks\<rparr>
       else \<lparr>bo_interval = (if length samples < 1000 then None
           else Some (samples ! nat \<lfloor>real (length samples - 1) * (25 / 1000)\<rfloor>, samples ! nat \<lceil>real (length samples - 1) * (975 / 1000)\<rceil>)),
         bo_valid = length samples, bo_undefined = length (filter (\<lambda>(n, d). d = 0) draws), bo_tasks = length tasks\<rparr>)"
    unfolding cluster_bootstrap_def Let_def tasks_def [symmetric] groups_def [symmetric] draws_def [symmetric] samples_def [symmetric] ..
  show "bo_tasks (cluster_bootstrap rows seed) = card (cr_task ` set rows)" using b count by simp
  have "length (filter (\<lambda>(n, d). d \<noteq> 0) draws) + length (filter (\<lambda>(n, d). d = 0) draws) = length draws"
    using sum_length_filter_compl [of "\<lambda>(n, d). d \<noteq> 0" draws] by (simp add: split_def)
  then show "5 \<le> bo_tasks (cluster_bootstrap rows seed) \<Longrightarrow>
       bo_valid (cluster_bootstrap rows seed) + bo_undefined (cluster_bootstrap rows seed) = 2000"
    using b by (simp add: samples_def draws_def split: if_splits)
  assume some: "bo_interval (cluster_bootstrap rows seed) = Some (l, u)"
  then have n: "5 \<le> length tasks" "1000 \<le> length samples"
    and lu: "l = samples ! nat \<lfloor>real (length samples - 1) * (25 / 1000)\<rfloor>"
      "u = samples ! nat \<lceil>real (length samples - 1) * (975 / 1000)\<rceil>"
    using b by (auto split: if_splits)
  let ?i = "nat \<lfloor>real (length samples - 1) * (25 / 1000)\<rfloor>" and ?j = "nat \<lceil>real (length samples - 1) * (975 / 1000)\<rceil>"
  have "real (length samples - 1) * (25 / 1000) \<le> real (length samples - 1) * (975 / 1000)" by simp
  then have ij: "?i \<le> ?j" by linarith
  have "real (length samples - 1) * (975 / 1000) \<le> real (length samples - 1)" by simp
  then have "\<lceil>real (length samples - 1) * (975 / 1000)\<rceil> \<le> int (length samples - 1)" by (simp only: ceiling_le_iff of_int_of_nat_eq)
  then have j: "?j < length samples" using n(2) by linarith
  have "groups \<noteq> []" using n(1) by (auto simp: groups_def)
  moreover have "\<forall>rows' \<in> set groups. \<forall>row \<in> set rows'. between a b (cr_numerator row, cr_denominator row)"
    using assms by (auto simp: groups_def)
  ultimately have "\<forall>nd \<in> set draws. between a b nd"
    unfolding draws_def by (rule mulberry.resamples_between)
  then have all: "\<forall>x \<in> set samples. a \<le> x \<and> x \<le> b"
    using between_quotient by (fastforce simp: samples_def)
  have "l \<in> set samples" "u \<in> set samples" unfolding lu using ij j by (simp_all only: nth_mem le_less_trans)
  then have "a \<le> l" "u \<le> b" using all by blast+
  moreover have "l \<le> u" unfolding lu by (rule sorted_nth_mono [OF _ ij j]) (simp add: samples_def)
  ultimately show "5 \<le> bo_tasks (cluster_bootstrap rows seed) \<and> 1000 \<le> bo_valid (cluster_bootstrap rows seed) \<and> a \<le> l \<and> l \<le> u \<and> u \<le> b"
    using n b by simp
qed

subsection \<open>Properties\<close>

text \<open>The Wilson interval of a success rate is a proper confidence interval: for any number of successes
  out of a positive number of trials it lies between zero and one and contains the observed rate, also
  when every trial or none succeeded.\<close>

theorem wilson_bounds:
  assumes "successes \<le> n" "0 < n"
  shows "\<exists>l u. wilson95 successes n = Some (l, u) \<and> 0 \<le> l \<and> l \<le> real successes / real n \<and>
    real successes / real n \<le> u \<and> u \<le> 1"
proof -
  have "0 \<le> real successes / real n" "real successes / real n \<le> 1" "0 < real n" "(0 :: real) < 196 / 100"
    using assms by simp_all
  from wilson_facts [OF this] show ?thesis using assms(2) by (simp add: wilson95_def Let_def)
qed

theorem wilson_bounds_witness:
  "\<exists>l u. wilson95 3 3 = Some (l, u) \<and> 0 \<le> l \<and> u \<le> 1"
  using wilson_bounds [of 3 3] by auto

text \<open>A reported percentile is a value that was observed, at least the given fraction of the values are no
  larger, and fewer are smaller.\<close>

theorem percentile_rank:
  assumes "percentile values fraction = Some v" "0 < fraction" "fraction \<le> 1"
  shows "v \<in> set values \<and>
    real (length values) * fraction \<le> real (length (filter (\<lambda>x. x \<le> v) values)) \<and>
    real (length (filter (\<lambda>x. x < v) values)) < real (length values) * fraction"
proof -
  obtain k where k: "k < length values" "v = sort values ! k" "real k < real (length values) * fraction"
    "real (length values) * fraction \<le> real (Suc k)"
    using percentile_sorted [OF assms] by blast
  have "v \<in> set (sort values)" unfolding k(2) using k(1) by (intro nth_mem) simp
  then have "v \<in> set values" by simp
  moreover have "Suc k \<le> length (filter (\<lambda>x. x \<le> v) values)" "length (filter (\<lambda>x. x < v) values) \<le> k"
    using count_sorted [of "sort values" k] k(1) unfolding k(2) by (simp_all add: filter_sort_length)
  ultimately show ?thesis using k(3,4) by (smt (verit) of_nat_mono)
qed

theorem percentile_rank_witness: "percentile [5, 1, 3] (9 / 10) = Some 5 \<and> 5 \<in> set [5, 1, 3 :: real]"
proof -
  have "percentile [5, 1, 3] (9 / 10) = Some (5 :: real)" by (simp add: percentile_def)
  with percentile_rank [OF this] show ?thesis by simp
qed

end
