(* ===== verification/Analysis.thy ===== *)
theory Analysis
  imports Trial_Records Statistics
begin

section \<open>The analysis of an experiment (src/evaluation/analysis.ts)\<close>

text \<open>
  \<open>aggregateExperiment\<close>: the trials of an experiment are grouped by task and repetition, each group is
  put into one routing category, and counts, rates, paired differences, latencies, usage, spend and
  calibration are computed. The counters of the code's loops are the numbers of groups that satisfy
  their conditions. Sums of tokens round as doubles, everything else is exact; the edges of the
  calibration bins are the doubles the code computes.
\<close>

subsection \<open>Groups\<close>

type_synonym trial_group = "session_mode \<Rightarrow> resolved_trial option"

type_synonym trial_groups = "(string \<times> trial_group) list"

definition pair_key :: "resolved_trial \<Rightarrow> string" where
  "pair_key t = tr_task t @ [nul] @ nat_string (tr_repetition t)"

text \<open>\<open>Map.set\<close>: a new key goes to the end, an old one keeps its place.\<close>

fun put_group :: "string \<Rightarrow> trial_group \<Rightarrow> trial_groups \<Rightarrow> trial_groups" where
  "put_group k g [] = [(k, g)]"
| "put_group k g ((k', g') # rest) = (if k' = k then (k', g) # rest else (k', g') # put_group k g rest)"

definition group_of :: "string \<Rightarrow> trial_groups \<Rightarrow> trial_group" where
  "group_of k groups = (case map_of groups k of None \<Rightarrow> (\<lambda>_. None) | Some g \<Rightarrow> g)"

definition add_trial :: "resolved_trial \<Rightarrow> trial_groups \<Rightarrow> trial_groups" where
  "add_trial t groups =
     put_group (pair_key t) ((group_of (pair_key t) groups)(tr_mode t \<mapsto> t)) groups"

fun group_trials :: "resolved_trial list \<Rightarrow> trial_groups \<Rightarrow> analysis_error + trial_groups" where
  "group_trials [] groups = Inr groups"
| "group_trials (t # ts) groups =
     (if group_of (pair_key t) groups (tr_mode t) \<noteq> None then Inl (DuplicateLogicalTrial (tr_trial t))
      else group_trials ts (add_trial t groups))"

subsection \<open>Categories\<close>

datatype primary_category =
    IncompleteComparison | CorrectEfficiency | UnderRoute | UnresolvedWeakFailure
  | CorrectCapability | OverRoute | MissedWeakSuccess | UnresolvedStrongFailure

definition primary_categories :: "primary_category list" where
  "primary_categories = [IncompleteComparison, CorrectEfficiency, UnderRoute, UnresolvedWeakFailure,
     CorrectCapability, OverRoute, MissedWeakSuccess, UnresolvedStrongFailure]"

text \<open>The trial of a mode when it was evaluated, and the decision of a routed trial.\<close>

definition evaluated :: "resolved_trial option \<Rightarrow> trial_outcome option" where
  "evaluated t = (case t of None \<Rightarrow> None
     | Some t \<Rightarrow> if is_evaluated (tr_outcome t) then Some (tr_outcome t) else None)"

definition trial_decision :: "resolved_trial \<Rightarrow> routing_decision option" where
  "trial_decision t = Option.bind (tr_result t) rs_decision"

definition decision_of :: "resolved_trial option \<Rightarrow> routing_decision option" where
  "decision_of t = Option.bind t trial_decision"

definition primary_category :: "resolved_trial option \<Rightarrow> resolved_trial option \<Rightarrow> resolved_trial option \<Rightarrow> primary_category" where
  "primary_category weak strong routed =
     (case (evaluated routed, decision_of routed) of
        (Some outcome, Some d) \<Rightarrow>
          if rd_tier d = TierWeak then
            (if outcome = OutPass then CorrectEfficiency
             else case evaluated strong of
                 None \<Rightarrow> IncompleteComparison
               | Some s \<Rightarrow> if s = OutPass then UnderRoute else UnresolvedWeakFailure)
          else
            (case evaluated weak of
               None \<Rightarrow> IncompleteComparison
             | Some w \<Rightarrow>
                 if outcome = OutPass then (if w = OutFail then CorrectCapability else OverRoute)
                 else (if w = OutPass then MissedWeakSuccess else UnresolvedStrongFailure))
      | _ \<Rightarrow> IncompleteComparison)"

definition category_of :: "trial_group \<Rightarrow> primary_category" where
  "category_of g = primary_category (g WeakOnly) (g StrongOnly) (g Routed)"

definition count_groups :: "(trial_group \<Rightarrow> bool) \<Rightarrow> trial_groups \<Rightarrow> nat" where
  "count_groups p groups = length (filter (\<lambda>(k, g). p g) groups)"

definition complete_triplet :: "trial_group \<Rightarrow> bool" where
  "complete_triplet g \<longleftrightarrow> evaluated (g WeakOnly) \<noteq> None \<and> evaluated (g StrongOnly) \<noteq> None \<and>
     evaluated (g Routed) \<noteq> None \<and> decision_of (g Routed) \<noteq> None"

text \<open>The groups whose routed trial chose the tier and whose other baseline was evaluated.\<close>

definition comparable :: "tier \<Rightarrow> session_mode \<Rightarrow> trial_group \<Rightarrow> bool" where
  "comparable tier baseline g \<longleftrightarrow> evaluated (g Routed) \<noteq> None \<and>
     map_option rd_tier (decision_of (g Routed)) = Some tier \<and> evaluated (g baseline) \<noteq> None"

record category_counts =
  cg_counts :: "primary_category \<Rightarrow> nat"
  cg_complete :: nat
  cg_under :: ratio
  cg_under_complete :: ratio
  cg_over :: ratio
  cg_over_complete :: ratio

definition category_counts_of :: "trial_groups \<Rightarrow> category_counts" where
  "category_counts_of groups =
     (let counts = (\<lambda>c. count_groups (\<lambda>g. category_of g = c) groups);
          triplets = count_groups complete_triplet groups
      in \<lparr>cg_counts = counts, cg_complete = triplets,
          cg_under = ratio (counts UnderRoute) (count_groups (comparable TierWeak StrongOnly) groups) 0,
          cg_under_complete = ratio
            (count_groups (\<lambda>g. complete_triplet g \<and> category_of g = UnderRoute) groups) triplets 0,
          cg_over = ratio (counts OverRoute) (count_groups (comparable TierStrong WeakOnly) groups) 0,
          cg_over_complete = ratio
            (count_groups (\<lambda>g. complete_triplet g \<and> category_of g = OverRoute) groups) triplets 0\<rparr>)"

subsection \<open>Flags and the contingency of the baselines\<close>

record baseline_flags =
  fl_weak_pass :: nat
  fl_weak_fail :: nat
  fl_strong_pass :: nat
  fl_strong_fail :: nat
  fl_fallback :: nat
  fl_disagreement :: nat
  fl_both_failed :: nat

text \<open>The routed outcome differs from the evaluated outcome of the baseline of the selected model.\<close>

definition disagrees :: "trial_group \<Rightarrow> bool" where
  "disagrees g \<longleftrightarrow>
     (case (evaluated (g Routed), decision_of (g Routed)) of
        (Some outcome, Some d) \<Rightarrow>
          (case evaluated (g (if rd_tier d = TierWeak then WeakOnly else StrongOnly)) of
             None \<Rightarrow> False | Some baseline \<Rightarrow> baseline \<noteq> outcome)
      | _ \<Rightarrow> False)"

definition baselines :: "trial_group \<Rightarrow> (trial_outcome \<times> trial_outcome) option" where
  "baselines g = (case (evaluated (g WeakOnly), evaluated (g StrongOnly)) of
     (Some w, Some s) \<Rightarrow> Some (w, s) | _ \<Rightarrow> None)"

definition flags_of :: "trial_groups \<Rightarrow> baseline_flags" where
  "flags_of groups =
     \<lparr>fl_weak_pass = count_groups (\<lambda>g. evaluated (g WeakOnly) = Some OutPass) groups,
      fl_weak_fail = count_groups (\<lambda>g. evaluated (g WeakOnly) = Some OutFail) groups,
      fl_strong_pass = count_groups (\<lambda>g. evaluated (g StrongOnly) = Some OutPass) groups,
      fl_strong_fail = count_groups (\<lambda>g. evaluated (g StrongOnly) = Some OutFail) groups,
      fl_fallback = count_groups (\<lambda>g. map_option rd_source (decision_of (g Routed)) = Some FromFallback) groups,
      fl_disagreement = count_groups disagrees groups,
      fl_both_failed = count_groups (\<lambda>g. baselines g = Some (OutFail, OutFail)) groups\<rparr>"

record contingency =
  ct_pass_pass :: nat
  ct_pass_fail :: nat
  ct_fail_pass :: nat
  ct_fail_fail :: nat
  ct_incomplete :: nat

definition contingency_of :: "trial_groups \<Rightarrow> contingency" where
  "contingency_of groups =
     \<lparr>ct_pass_pass = count_groups (\<lambda>g. baselines g = Some (OutPass, OutPass)) groups,
      ct_pass_fail = count_groups (\<lambda>g. baselines g = Some (OutPass, OutFail)) groups,
      ct_fail_pass = count_groups (\<lambda>g. baselines g = Some (OutFail, OutPass)) groups,
      ct_fail_fail = count_groups (\<lambda>g. baselines g = Some (OutFail, OutFail)) groups,
      ct_incomplete = count_groups (\<lambda>g. baselines g = None) groups\<rparr>"

subsection \<open>Paired differences\<close>

definition outcome_value :: "trial_outcome \<Rightarrow> real" where
  "outcome_value outcome = (if outcome = OutPass then 1 else 0)"

definition sum_known :: "real option list \<Rightarrow> real option" where
  "sum_known values = (if list_all (\<lambda>v. v \<noteq> None) values then Some (sum_list (map the values)) else None)"

definition trial_cost :: "resolved_trial \<Rightarrow> real option" where
  "trial_cost t =
     (if 0 < tr_incomplete t \<or> tr_physical t = [] then None
      else sum_known (map (\<lambda>r. co_total_estimated (rs_costs r)) (tr_physical t)))"

definition classifier_cost :: "resolved_trial \<Rightarrow> real option" where
  "classifier_cost t =
     (if 0 < tr_incomplete t \<or> tr_physical t = [] then None
      else sum_known (map (\<lambda>r. rc_estimated (co_classifier (rs_costs r))) (tr_physical t)))"

text \<open>The evaluated routed trial of a group with the evaluated trial of the strong baseline.\<close>

definition paired :: "trial_group \<Rightarrow> (resolved_trial \<times> resolved_trial) option" where
  "paired g = (case (g Routed, g StrongOnly) of
     (Some routed, Some strong) \<Rightarrow>
       if is_evaluated (tr_outcome routed) \<and> is_evaluated (tr_outcome strong) then Some (routed, strong) else None
   | _ \<Rightarrow> None)"

definition pairs_of :: "trial_groups \<Rightarrow> (resolved_trial \<times> resolved_trial) list" where
  "pairs_of groups = List.map_filter (\<lambda>(k, g). paired g) groups"

definition quality_row :: "resolved_trial \<times> resolved_trial \<Rightarrow> cluster_row" where
  "quality_row = (\<lambda>(routed, strong). \<lparr>cr_task = tr_task routed,
     cr_numerator = outcome_value (tr_outcome routed) - outcome_value (tr_outcome strong), cr_denominator = 1\<rparr>)"

definition cost_row :: "resolved_trial \<times> resolved_trial \<Rightarrow> cluster_row option" where
  "cost_row = (\<lambda>(routed, strong).
     case (trial_cost routed, trial_cost strong) of
       (Some r, Some s) \<Rightarrow> Some \<lparr>cr_task = tr_task routed, cr_numerator = s - r, cr_denominator = s\<rparr>
     | _ \<Rightarrow> None)"

definition agent_duration :: "resolved_trial \<Rightarrow> real option" where
  "agent_duration t = map_option of_int (Option.bind (tr_result t) (\<lambda>r. du_agent (rs_durations r)))"

definition latency_difference :: "resolved_trial \<times> resolved_trial \<Rightarrow> real option" where
  "latency_difference = (\<lambda>(routed, strong).
     case (agent_duration routed, agent_duration strong) of (Some r, Some s) \<Rightarrow> Some (r - s) | _ \<Rightarrow> None)"

record quality =
  ql_pairs :: nat
  ql_points :: "real option"
  ql_interval :: "interval option"
  ql_valid :: nat
  ql_undefined :: nat
  ql_tasks :: nat

definition quality_of :: "trial_groups \<Rightarrow> nat \<Rightarrow> quality" where
  "quality_of groups seed =
     (let rows = map quality_row (pairs_of groups); b = cluster_bootstrap rows seed
      in \<lparr>ql_pairs = length rows,
          ql_points = (if rows = [] then None
            else Some (sum_list (map cr_numerator rows) / real (length rows) * 100)),
          ql_interval = map_option (\<lambda>(l, u). (l * 100, u * 100)) (bo_interval b),
          ql_valid = bo_valid b, ql_undefined = bo_undefined b, ql_tasks = bo_tasks b\<rparr>)"

record savings =
  sv_pairs :: nat
  sv_omitted :: nat
  sv_value :: "real option"
  sv_interval :: "interval option"
  sv_valid :: nat
  sv_undefined :: nat
  sv_tasks :: nat
  sv_reason :: "string option"

definition savings_of :: "trial_groups \<Rightarrow> nat \<Rightarrow> savings" where
  "savings_of groups seed =
     (let rows = List.map_filter cost_row (pairs_of groups);
          numerator = sum_list (map cr_numerator rows); denominator = sum_list (map cr_denominator rows);
          b = cluster_bootstrap rows seed
      in \<lparr>sv_pairs = length rows, sv_omitted = length (filter (\<lambda>p. cost_row p = None) (pairs_of groups)),
          sv_value = (if 0 < denominator then Some (numerator / denominator) else None),
          sv_interval = bo_interval b, sv_valid = bo_valid b, sv_undefined = bo_undefined b, sv_tasks = bo_tasks b,
          sv_reason = (if rows = [] then Some ''No matched pair has complete per-token cost evidence.''
            else if denominator = 0 then Some ''Matched strong-only cost denominator is zero.'' else None)\<rparr>)"

subsection \<open>Modes and routing\<close>

record mode_counts =
  mc_planned :: nat
  mc_pass :: nat
  mc_fail :: nat
  mc_unavailable :: nat
  mc_incomplete :: nat
  mc_success :: ratio
  mc_completion :: ratio
  mc_planned_success :: ratio
  mc_wilson :: "interval option"

definition count_outcome :: "trial_outcome \<Rightarrow> resolved_trial list \<Rightarrow> nat" where
  "count_outcome outcome ts = length (filter (\<lambda>t. tr_outcome t = outcome) ts)"

definition mode_counts_of :: "nat \<Rightarrow> resolved_trial list \<Rightarrow> session_mode \<Rightarrow> mode_counts" where
  "mode_counts_of planned trials mode =
     (let selected = filter (\<lambda>t. tr_mode t = mode) trials;
          pass = count_outcome OutPass selected; fail = count_outcome OutFail selected;
          unavailable = count_outcome OutUnavailable selected; incomplete = count_outcome OutIncomplete selected
      in \<lparr>mc_planned = planned, mc_pass = pass, mc_fail = fail, mc_unavailable = unavailable,
          mc_incomplete = incomplete, mc_success = ratio pass (pass + fail) (unavailable + incomplete),
          mc_completion = ratio (pass + fail) planned 0, mc_planned_success = ratio pass planned 0,
          mc_wilson = wilson95 pass (pass + fail)\<rparr>)"

text \<open>The tier of a physical attempt: its decision's, or that of its baseline mode.\<close>

definition attempt_tier :: "run_result \<Rightarrow> tier option" where
  "attempt_tier r = (case rs_decision r of
     Some d \<Rightarrow> Some (rd_tier d)
   | None \<Rightarrow> (case rs_mode r of StrongOnly \<Rightarrow> Some TierStrong | WeakOnly \<Rightarrow> Some TierWeak | Routed \<Rightarrow> None))"

definition physical_attempts :: "resolved_trial list \<Rightarrow> run_result list" where
  "physical_attempts trials = concat (map tr_physical trials)"

definition incomplete_attempts :: "resolved_trial list \<Rightarrow> nat" where
  "incomplete_attempts trials = sum_list (map tr_incomplete trials)"

record routing_counts =
  rg_decisions :: nat
  rg_weak :: nat
  rg_strong :: nat
  rg_normal :: nat
  rg_fallback :: nat
  rg_weak_share :: ratio
  rg_normal_share :: ratio
  rg_strong_share :: ratio

definition routed_decisions_of :: "resolved_trial list \<Rightarrow> routing_decision list" where
  "routed_decisions_of trials = List.map_filter trial_decision (filter (\<lambda>t. tr_mode t = Routed) trials)"

definition routing_counts_of :: "resolved_trial list \<Rightarrow> routing_counts" where
  "routing_counts_of trials =
     (let decisions = routed_decisions_of trials;
          weak = length (filter (\<lambda>d. rd_tier d = TierWeak) decisions);
          normal = filter (\<lambda>d. rd_source d = FromClassifier) decisions;
          tiers = List.map_filter attempt_tier (physical_attempts trials)
      in \<lparr>rg_decisions = length decisions, rg_weak = weak, rg_strong = length decisions - weak,
          rg_normal = length normal, rg_fallback = length decisions - length normal,
          rg_weak_share = ratio weak (length decisions) 0,
          rg_normal_share = ratio (length (filter (\<lambda>d. rd_tier d = TierWeak) normal)) (length normal) 0,
          rg_strong_share = ratio (length (filter (\<lambda>t. t = TierStrong) tiers)) (length tiers)
            (incomplete_attempts trials)\<rparr>)"

subsection \<open>Latency\<close>

record mode_latency =
  ml_samples :: nat
  ml_agent :: "real option"
  ml_agent90 :: "real option"
  ml_validation :: "real option"
  ml_setup :: "real option"

definition mode_latency_of :: "resolved_trial list \<Rightarrow> session_mode \<Rightarrow> mode_latency" where
  "mode_latency_of trials mode =
     (let durations = map rs_durations (List.map_filter tr_result (filter (\<lambda>t. tr_mode t = mode) trials));
          agent = map of_int (List.map_filter du_agent durations);
          validation = map of_int (List.map_filter du_validation durations);
          setup_times = map (\<lambda>d. of_int (du_setup d)) durations
      in \<lparr>ml_samples = length agent, ml_agent = median agent, ml_agent90 = percentile agent (9 / 10),
          ml_validation = median validation, ml_setup = median setup_times\<rparr>)"

record latency =
  ly_modes :: "session_mode \<Rightarrow> mode_latency"
  ly_pairs :: nat
  ly_median :: "real option"
  ly_p90 :: "real option"
  ly_classifier_samples :: nat
  ly_classifier_median :: "real option"
  ly_classifier_p90 :: "real option"

definition latency_of :: "resolved_trial list \<Rightarrow> trial_groups \<Rightarrow> latency" where
  "latency_of trials groups =
     (let differences = List.map_filter latency_difference (pairs_of groups);
          classifier = map (\<lambda>c. of_int (cm_duration c)) (List.map_filter rd_classifier (routed_decisions_of trials))
      in \<lparr>ly_modes = mode_latency_of trials, ly_pairs = length differences, ly_median = median differences,
          ly_p90 = percentile differences (9 / 10), ly_classifier_samples = length classifier,
          ly_classifier_median = median classifier, ly_classifier_p90 = percentile classifier (9 / 10)\<rparr>)"

subsection \<open>Usage and spend\<close>

record usage_entry =
  ue_provider :: string
  ue_model :: string
  ue_role :: usage_role
  ue_calls :: nat
  ue_tokens :: nat
  ue_missing :: nat

fun usage_role_string :: "usage_role \<Rightarrow> string" where
  "usage_role_string UClassifier = ''classifier''"
| "usage_role_string UCoding = ''coding''"
| "usage_role_string UCompaction = ''compaction''"

definition usage_key :: "string \<Rightarrow> string \<Rightarrow> usage_role \<Rightarrow> string" where
  "usage_key provider model role = provider @ [nul] @ model @ [nul] @ usage_role_string role"

text \<open>A map keyed by the joined provider, model and role; a new key goes to the end.\<close>

fun record_usage :: "string \<Rightarrow> string \<Rightarrow> usage_role \<Rightarrow> nat \<Rightarrow> nat option \<Rightarrow> usage_entry list \<Rightarrow> usage_entry list" where
  "record_usage provider model role calls usage_tokens [] =
     [\<lparr>ue_provider = provider, ue_model = model, ue_role = role, ue_calls = js_add 0 calls,
       ue_tokens = (case usage_tokens of None \<Rightarrow> 0 | Some n \<Rightarrow> js_add 0 n),
       ue_missing = (case usage_tokens of None \<Rightarrow> 1 | Some _ \<Rightarrow> 0)\<rparr>]"
| "record_usage provider model role calls usage_tokens (e # es) =
     (if usage_key (ue_provider e) (ue_model e) (ue_role e) = usage_key provider model role
      then e\<lparr>ue_calls := js_add (ue_calls e) calls,
             ue_tokens := (case usage_tokens of None \<Rightarrow> ue_tokens e | Some n \<Rightarrow> js_add (ue_tokens e) n),
             ue_missing := (case usage_tokens of None \<Rightarrow> Suc (ue_missing e) | Some _ \<Rightarrow> ue_missing e)\<rparr> # es
      else e # record_usage provider model role calls usage_tokens es)"

fun tier_role :: "tier \<Rightarrow> model_role" where
  "tier_role TierWeak = Weak"
| "tier_role TierStrong = Strong"

definition record_summary :: "role_provenance \<Rightarrow> usage_role \<Rightarrow> usage_summary \<Rightarrow> usage_entry list \<Rightarrow> usage_entry list" where
  "record_summary p role s = record_usage (rp_provider p) (rp_model p) role (us_observed s) (us_total s)"

definition record_attempt :: "run_result \<Rightarrow> usage_entry list \<Rightarrow> usage_entry list" where
  "record_attempt r es =
     (let models = pv_models (rs_provenance r); u = rs_usage r;
          es' = record_summary (models Classifier) UClassifier (sum_classifier u) es
      in case attempt_tier r of
           None \<Rightarrow> es'
         | Some tier \<Rightarrow>
             let p = models (tier_role tier)
             in record_summary p UCompaction (sum_compaction u) (record_summary p UCoding (sum_coding u) es'))"

record usage_report =
  ur_entries :: "(usage_entry \<times> nat option) list"
  ur_total :: "nat option"

definition usage_label :: "usage_entry \<Rightarrow> string" where
  "usage_label e = ue_provider e @ ''/'' @ ue_model e @ ''/'' @ usage_role_string (ue_role e)"

text \<open>An entry with a missing record has no total; \<open>le\<close> is the collation of \<open>localeCompare\<close>.\<close>

definition aggregate_usage :: "(string \<Rightarrow> string \<Rightarrow> bool) \<Rightarrow> resolved_trial list \<Rightarrow> usage_report" where
  "aggregate_usage le trials =
     (let physical = physical_attempts trials;
          entries = foldl (\<lambda>es r. record_attempt r es) [] physical;
          totals = map (\<lambda>r. us_total (sum_total (rs_usage r))) physical
      in \<lparr>ur_entries = map (\<lambda>(_, e). (e, if ue_missing e = 0 then Some (ue_tokens e) else None))
            (sort_entries le (map (\<lambda>e. (usage_label e, e)) entries)),
          ur_total = (if incomplete_attempts trials = 0 \<and> list_all (\<lambda>t. t \<noteq> None) totals
            then Some (js_sum (map the totals)) else None)\<rparr>)"

record spend =
  sp_known :: nat
  sp_attempts :: nat
  sp_estimated :: "real option"
  sp_reference :: "real option"

definition spend_of :: "resolved_trial list \<Rightarrow> spend" where
  "spend_of trials =
     (let physical = physical_attempts trials; incomplete = incomplete_attempts trials;
          estimated = map (\<lambda>r. co_total_estimated (rs_costs r)) physical;
          reference = map (\<lambda>r. co_total_reference (rs_costs r)) physical
      in \<lparr>sp_known = length (filter (\<lambda>c. c \<noteq> None) estimated), sp_attempts = length physical + incomplete,
          sp_estimated = (if incomplete = 0 then sum_known estimated else None),
          sp_reference = (if incomplete = 0 then sum_known reference else None)\<rparr>)"

subsection \<open>Calibration\<close>

datatype calibration_row = NoDecision | ExcludedFallback | ExcludedMissing | ExcludedUnavailable | Calibrated real real

definition calibrate :: "trial_group \<Rightarrow> calibration_row" where
  "calibrate g =
     (case decision_of (g Routed) of
        None \<Rightarrow> NoDecision
      | Some d \<Rightarrow>
          if rd_source d = FromFallback then ExcludedFallback
          else case rd_probability d of
              None \<Rightarrow> ExcludedMissing
            | Some p \<Rightarrow> (case evaluated (g WeakOnly) of
                  None \<Rightarrow> ExcludedUnavailable | Some outcome \<Rightarrow> Calibrated p (outcome_value outcome)))"

text \<open>\<open>index * 0.2\<close> as a double: the third edge is the double above the one written 0.6.\<close>

definition bin_edge :: "nat \<Rightarrow> real" where
  "bin_edge index =
     [0, 3602879701896397 / 2 ^ 54, 3602879701896397 / 2 ^ 53, 5404319552844596 / 2 ^ 53,
      3602879701896397 / 2 ^ 52, 1] ! index"

definition in_bin :: "nat \<Rightarrow> real \<Rightarrow> bool" where
  "in_bin index p \<longleftrightarrow> bin_edge index \<le> p \<and>
     (if index = 4 then p \<le> bin_edge (Suc index) else p < bin_edge (Suc index))"

record calibration_bin =
  bn_lower :: real
  bn_upper :: real
  bn_inclusive :: bool
  bn_count :: nat
  bn_probability :: "real option"
  bn_pass :: "real option"

definition mean_of :: "real list \<Rightarrow> real option" where
  "mean_of xs = (if xs = [] then None else Some (sum_list xs / real (length xs)))"

definition bin_of :: "(real \<times> real) list \<Rightarrow> nat \<Rightarrow> calibration_bin" where
  "bin_of rows index =
     (let selected = filter (\<lambda>(p, _). in_bin index p) rows
      in \<lparr>bn_lower = bin_edge index, bn_upper = bin_edge (Suc index), bn_inclusive = (index = 4),
          bn_count = length selected, bn_probability = mean_of (map fst selected), bn_pass = mean_of (map snd selected)\<rparr>)"

record calibration =
  cb_samples :: nat
  cb_brier :: "real option"
  cb_ece :: "real option"
  cb_fallback :: nat
  cb_missing :: nat
  cb_unavailable :: nat
  cb_bins :: "calibration_bin list"

definition calibration_rows :: "trial_groups \<Rightarrow> (real \<times> real) list" where
  "calibration_rows groups =
     List.map_filter (\<lambda>(k, g). case calibrate g of Calibrated p l \<Rightarrow> Some (p, l) | _ \<Rightarrow> None) groups"

definition bin_gap :: "nat \<Rightarrow> calibration_bin \<Rightarrow> real" where
  "bin_gap n b =
     (case (bn_probability b, bn_pass b) of
        (Some p, Some l) \<Rightarrow> real (bn_count b) / real n * \<bar>p - l\<bar> | _ \<Rightarrow> 0)"

definition calibration_of :: "trial_groups \<Rightarrow> calibration" where
  "calibration_of groups =
     (let rows = calibration_rows groups; bins = map (bin_of rows) [0..<5]; n = length rows
      in \<lparr>cb_samples = n, cb_brier = mean_of (map (\<lambda>(p, l). (p - l)\<^sup>2) rows),
          cb_ece = (if rows = [] then None else Some (sum_list (map (bin_gap n) bins))),
          cb_fallback = count_groups (\<lambda>g. calibrate g = ExcludedFallback) groups,
          cb_missing = count_groups (\<lambda>g. calibrate g = ExcludedMissing) groups,
          cb_unavailable = count_groups (\<lambda>g. calibrate g = ExcludedUnavailable) groups, cb_bins = bins\<rparr>)"

subsection \<open>Rows per task and trial\<close>

record task_mode =
  tm_pass :: nat
  tm_evaluated :: nat
  tm_unavailable :: nat
  tm_incomplete :: nat
  tm_fraction :: "real option"

record task_row =
  tw_task :: string
  tw_prompt :: string
  tw_modes :: "session_mode \<Rightarrow> task_mode"

definition task_mode_of :: "resolved_trial list \<Rightarrow> string \<Rightarrow> session_mode \<Rightarrow> task_mode" where
  "task_mode_of trials task mode =
     (let selected = filter (\<lambda>t. tr_task t = task \<and> tr_mode t = mode) trials;
          pass = count_outcome OutPass selected;
          finished = length (filter (\<lambda>t. is_evaluated (tr_outcome t)) selected)
      in \<lparr>tm_pass = pass, tm_evaluated = finished, tm_unavailable = count_outcome OutUnavailable selected,
          tm_incomplete = count_outcome OutIncomplete selected,
          tm_fraction = (if finished = 0 then None else Some (real pass / real finished))\<rparr>)"

definition task_row_of :: "resolved_trial list \<Rightarrow> manifest_task \<Rightarrow> task_row" where
  "task_row_of trials task = \<lparr>tw_task = mt_id task, tw_prompt = mt_prompt task, tw_modes = task_mode_of trials (mt_id task)\<rparr>"

record trial_row =
  tx_trial :: string
  tx_task :: string
  tx_repetition :: nat
  tx_mode :: session_mode
  tx_outcome :: trial_outcome
  tx_tier :: "tier option"
  tx_fallback :: bool
  tx_probability :: "real option"
  tx_attempts :: nat

definition selected_tier :: "resolved_trial \<Rightarrow> tier option" where
  "selected_tier t = (case tr_mode t of WeakOnly \<Rightarrow> Some TierWeak | StrongOnly \<Rightarrow> Some TierStrong
     | Routed \<Rightarrow> map_option rd_tier (trial_decision t))"

definition trial_row_of :: "resolved_trial \<Rightarrow> trial_row" where
  "trial_row_of t =
     \<lparr>tx_trial = tr_trial t, tx_task = tr_task t, tx_repetition = tr_repetition t, tx_mode = tr_mode t,
      tx_outcome = tr_outcome t, tx_tier = selected_tier t,
      tx_fallback = (map_option rd_source (trial_decision t) = Some FromFallback),
      tx_probability = Option.bind (trial_decision t) rd_probability,
      tx_attempts = length (tr_physical t) + tr_incomplete t\<rparr>"

subsection \<open>The report\<close>

record report_totals =
  xt_planned :: nat
  xt_evaluated :: nat
  xt_unavailable :: nat
  xt_incomplete :: int
  xt_attempts :: nat
  xt_incomplete_attempts :: nat

record experiment_report =
  ex_experiment :: string
  ex_manifest_hash :: string
  ex_evidence :: evidence_kind
  ex_suite :: evaluation_suite
  ex_split :: string
  ex_seed :: nat
  ex_threshold :: real
  ex_profile :: string
  ex_fingerprint :: fingerprint
  ex_roles :: json
  ex_task_count :: nat
  ex_totals :: report_totals
  ex_modes :: "session_mode \<Rightarrow> mode_counts"
  ex_routing :: routing_counts
  ex_categories :: category_counts
  ex_flags :: baseline_flags
  ex_contingency :: contingency
  ex_quality :: quality
  ex_savings :: savings
  ex_latency :: latency
  ex_usage :: usage_report
  ex_spend :: spend
  ex_calibration :: calibration
  ex_tasks :: "task_row list"
  ex_trials :: "trial_row list"
  ex_limitations :: "string list"

text \<open>The differences of counts the code computes may not be negative in a report.\<close>

definition report_totals_of :: "smoke_manifest \<Rightarrow> resolved_trial list \<Rightarrow> report_totals" where
  "report_totals_of m trials =
     \<lparr>xt_planned = length (mf_schedule m), xt_evaluated = length (filter (\<lambda>t. is_evaluated (tr_outcome t)) trials),
      xt_unavailable = count_outcome OutUnavailable trials,
      xt_incomplete = int (length (mf_schedule m)) - int (length (filter (\<lambda>t. tr_outcome t \<noteq> OutIncomplete) trials)),
      xt_attempts = length (physical_attempts trials), xt_incomplete_attempts = incomplete_attempts trials\<rparr>"

definition limitations_of :: "smoke_manifest \<Rightarrow> quality \<Rightarrow> savings \<Rightarrow> string list" where
  "limitations_of m q s =
     (if mf_evidence m = MockEvidence
      then [''Mock evidence validates integration only and does not measure live model capability.''] else []) @
     (if mf_suite m = SuiteSmoke then [''Smoke results are not statistically conclusive.''] else []) @
     (if ql_tasks q < 5
      then [''Quality bootstrap interval is unavailable with fewer than five eligible tasks.''] else []) @
     (if sv_tasks s < 5
      then [''Cost bootstrap interval is unavailable with fewer than five cost-complete tasks.''] else []) @
     [''Trials on the same task are correlated; Wilson intervals are descriptive.'',
      ''ECE is sample-size-sensitive and classifier probabilities are forecasts, not capability evidence.'',
      ''Subscription and unknown billing remain null; reference prices are not measured spend or savings.'']"

text \<open>What the schema of a report demands beyond the types of its fields.\<close>

definition report_shape_ok :: "experiment_report \<Rightarrow> bool" where
  "report_shape_ok r \<longleftrightarrow>
     ex_experiment r \<noteq> [] \<and> is_hash (ex_manifest_hash r) \<and> ex_evidence r \<noteq> ReplayEvidence \<and>
     ex_seed r \<le> 4294967295 \<and> 0 \<le> ex_threshold r \<and> ex_threshold r \<le> 1 \<and>
     0 \<le> xt_incomplete (ex_totals r) \<and> length (cb_bins (ex_calibration r)) = 5"

definition validate_experiment_report :: "experiment_report \<Rightarrow> analysis_error + experiment_report" where
  "validate_experiment_report r =
     (if \<not> report_shape_ok r then Inl ReportShape
      else if int (xt_evaluated (ex_totals r)) + int (xt_unavailable (ex_totals r)) + xt_incomplete (ex_totals r) \<noteq>
            int (xt_planned (ex_totals r)) \<or>
          rg_weak (ex_routing r) + rg_strong (ex_routing r) \<noteq> rg_decisions (ex_routing r) \<or>
          rg_normal (ex_routing r) + rg_fallback (ex_routing r) \<noteq> rg_decisions (ex_routing r)
      then Inl ReportInconsistent else Inr r)"

definition experiment_report_of :: "(string \<Rightarrow> string \<Rightarrow> bool) \<Rightarrow> smoke_manifest \<Rightarrow> resolved_trial list \<Rightarrow> trial_groups
    \<Rightarrow> experiment_report" where
  "experiment_report_of le m trials groups =
     (let q = quality_of groups (mf_seed m); s = savings_of groups (mf_seed m)
      in \<lparr>ex_experiment = mf_experiment m, ex_manifest_hash = mf_hash m, ex_evidence = mf_evidence m,
          ex_suite = mf_suite m,
          ex_split = (if mf_suite m = SuiteHeldout then ''heldout'' else if mf_suite m = SuiteFull then ''mixed'' else ''dev''),
          ex_seed = mf_seed m, ex_threshold = mf_threshold m, ex_profile = mf_auth_profile m,
          ex_fingerprint = mf_fingerprint m, ex_roles = json_get ''roles'' (mf_json m),
          ex_task_count = length (mf_tasks m), ex_totals = report_totals_of m trials,
          ex_modes = mode_counts_of (length (mf_tasks m) * mf_repetitions m) trials,
          ex_routing = routing_counts_of trials, ex_categories = category_counts_of groups, ex_flags = flags_of groups,
          ex_contingency = contingency_of groups, ex_quality = q, ex_savings = s,
          ex_latency = latency_of trials groups, ex_usage = aggregate_usage le trials, ex_spend = spend_of trials,
          ex_calibration = calibration_of groups, ex_tasks = map (task_row_of trials) (mf_tasks m),
          ex_trials = map trial_row_of trials, ex_limitations = limitations_of m q s\<rparr>)"

definition aggregate_experiment :: "(string \<Rightarrow> string \<Rightarrow> bool) \<Rightarrow> smoke_manifest \<Rightarrow> resolved_trial list
    \<Rightarrow> analysis_error + experiment_report" where
  "aggregate_experiment le m trials =
     (if list_ex (\<lambda>t. case tr_result t of None \<Rightarrow> False | Some r \<Rightarrow> rs_evidence r \<noteq> mf_evidence m) trials
      then Inl MixedEvidence
      else if list_ex (\<lambda>t. case tr_result t of None \<Rightarrow> False | Some r \<Rightarrow> \<not> routed_source_ok (tr_mode t) r) trials
      then Inl RoutedSource
      else
        bind_result (group_trials trials []) (\<lambda>groups.
          validate_experiment_report (experiment_report_of le m trials groups)))"

subsection \<open>Grouping\<close>

lemma keys_put_group: "map fst (put_group k g groups) = (if k \<in> fst ` set groups then map fst groups else map fst groups @ [k])"
  by (induction groups) force+

lemma map_of_put_group: "map_of (put_group k g groups) = (map_of groups)(k \<mapsto> g)"
  by (induction groups) (auto simp: fun_eq_iff)

lemma group_of_add:
  "group_of k (add_trial t groups) mode =
     (if k = pair_key t \<and> mode = tr_mode t then Some t else group_of k groups mode)"
  by (simp add: add_trial_def group_of_def map_of_put_group)

lemma keys_add_trial:
  "distinct (map fst groups) \<Longrightarrow> distinct (map fst (add_trial t groups))"
  "fst ` set (add_trial t groups) = insert (pair_key t) (fst ` set groups)"
proof -
  show "distinct (map fst groups) \<Longrightarrow> distinct (map fst (add_trial t groups))"
    by (auto simp: add_trial_def keys_put_group simp del: set_map simp add: set_map)
  show "fst ` set (add_trial t groups) = insert (pair_key t) (fst ` set groups)"
    using arg_cong [OF keys_put_group [of "pair_key t" "(group_of (pair_key t) groups)(tr_mode t \<mapsto> t)" groups], of set]
    by (auto simp: add_trial_def split: if_splits)
qed

lemma group_trials_keys:
  assumes "group_trials trials groups = Inr groups'" "distinct (map fst groups)"
  shows "distinct (map fst groups') \<and> fst ` set groups' = fst ` set groups \<union> pair_key ` set trials"
  using assms
proof (induction trials arbitrary: groups)
  case (Cons t ts)
  then have "group_trials ts (add_trial t groups) = Inr groups'" by (auto split: if_splits)
  from Cons.IH [OF this keys_add_trial(1) [OF Cons.prems(2)]] show ?case by (simp add: keys_add_trial(2))
qed simp

lemma groups_count:
  assumes "group_trials trials [] = Inr groups"
  shows "length groups = card (pair_key ` set trials)"
  using group_trials_keys [OF assms] distinct_card [of "map fst groups"] by simp

lemma group_trials_ok:
  assumes "distinct (map (\<lambda>t. (pair_key t, tr_mode t)) trials)"
    and "\<forall>t \<in> set trials. group_of (pair_key t) groups (tr_mode t) = None"
  shows "\<exists>groups'. group_trials trials groups = Inr groups'"
  using assms
proof (induction trials arbitrary: groups)
  case (Cons t ts)
  have "\<forall>s \<in> set ts. group_of (pair_key s) (add_trial t groups) (tr_mode s) = None"
    using Cons.prems by (auto simp: group_of_add image_iff)
  then show ?case using Cons by simp
qed simp

text \<open>The trials of a group are trials of the experiment with its key.\<close>

definition members :: "resolved_trial set \<Rightarrow> trial_groups \<Rightarrow> bool" where
  "members S groups \<longleftrightarrow>
     (\<forall>k mode t. group_of k groups mode = Some t \<longrightarrow> t \<in> S \<and> k = pair_key t \<and> mode = tr_mode t)"

lemma members_add: "members S groups \<Longrightarrow> members (insert t S) (add_trial t groups)"
  by (auto simp: members_def group_of_add)

lemma group_trials_members: "group_trials trials groups = Inr groups' \<Longrightarrow> members S groups \<Longrightarrow> members (S \<union> set trials) groups'"
proof (induction trials arbitrary: groups S)
  case (Cons t ts)
  have "group_trials ts (add_trial t groups) = Inr groups'" using Cons.prems(1) by (simp split: if_splits)
  from Cons.IH [OF this members_add [OF Cons.prems(2)]] show ?case by simp
qed simp

lemma grouped_members:
  assumes "group_trials trials [] = Inr groups" "(k, g) \<in> set groups" "g mode = Some t"
  shows "t \<in> set trials \<and> k = pair_key t \<and> mode = tr_mode t"
proof -
  have "members (set trials) groups" using group_trials_members [OF assms(1), of "{}"] by (simp add: members_def group_of_def)
  moreover have "group_of k groups mode = Some t"
    using assms(2,3) group_trials_keys [OF assms(1)] by (simp add: group_of_def map_of_is_SomeI)
  ultimately show ?thesis by (auto simp: members_def)
qed

lemma nul_not_digit: "nul \<notin> set (nat_string n)"
proof -
  have "\<not> is_digit nul" by code_simp
  then show ?thesis using nat_string_digits [of n] by (metis list_all_iff)
qed

lemma pair_key_inj: "pair_key s = pair_key t \<longleftrightarrow> tr_task s = tr_task t \<and> tr_repetition s = tr_repetition t"
proof
  assume eq: "pair_key s = pair_key t"
  have rep: "takeWhile (\<lambda>c. c \<noteq> nul) (rev (pair_key u)) = rev (nat_string (tr_repetition u))" for u
  proof -
    have "takeWhile (\<lambda>c. c \<noteq> nul) (rev (nat_string (tr_repetition u)) @ nul # rev (tr_task u)) = rev (nat_string (tr_repetition u))"
      using nul_not_digit [of "tr_repetition u"] by (subst takeWhile_append2) auto
    then show ?thesis by (simp add: pair_key_def)
  qed
  have "nat_string (tr_repetition s) = nat_string (tr_repetition t)"
    using rep [of s] rep [of t] eq by simp
  then have "tr_repetition s = tr_repetition t" by (simp only: nat_string_inj)
  then show "tr_task s = tr_task t \<and> tr_repetition s = tr_repetition t"
    using eq by (simp add: pair_key_def)
qed (simp add: pair_key_def)

subsection \<open>Counting groups\<close>

lemma partition_count:
  assumes "distinct cs" "\<forall>x \<in> set xs. \<exists>!c. c \<in> set cs \<and> P c x"
  shows "sum_list (map (\<lambda>c. length (filter (P c) xs)) cs) = length xs"
  using assms(2)
proof (induction xs)
  case Nil
  then show ?case by (induction cs) simp_all
next
  case (Cons x xs)
  from Cons.prems have "\<exists>!c. c \<in> set cs \<and> P c x" by (rule bspec) simp
  then obtain c where c: "c \<in> set cs \<and> P c x" "\<forall>c'. c' \<in> set cs \<and> P c' x \<longrightarrow> c' = c" by (rule ex1E)
  have IH: "sum_list (map (\<lambda>c. length (filter (P c) xs)) cs) = length xs"
    by (rule Cons.IH, rule ballI, rule Cons.prems [THEN bspec]) simp
  have "sum_list (map (\<lambda>c'. if P c' x then 1 else 0) cs) = (\<Sum>c' \<in> set cs. if P c' x then 1 else (0 :: nat))"
    by (rule sum_list_distinct_conv_sum_set [OF assms(1)])
  also have "\<dots> = (\<Sum>c' \<in> set cs. if c' = c then 1 else 0)" by (rule sum.cong) (use c in metis)+
  also have "\<dots> = 1" using c(1) by simp
  finally have one: "sum_list (map (\<lambda>c'. if P c' x then 1 else 0) cs) = (1 :: nat)" .
  have step: "length (filter (P c) (x # xs)) = (if P c x then 1 else 0) + length (filter (P c) xs)" for c by simp
  show ?case by (simp only: step sum_list_addf one IH) simp
qed

lemma count_groups_partition:
  assumes "distinct cs" "\<forall>(k, g) \<in> set groups. f g \<in> set cs"
  shows "sum_list (map (\<lambda>c. count_groups (\<lambda>g. f g = c) groups) cs) = length groups"
proof -
  have "\<forall>x \<in> set groups. \<exists>!c. c \<in> set cs \<and> f (snd x) = c" using assms(2) by force
  from partition_count [OF assms(1) this] show ?thesis by (simp add: count_groups_def case_prod_unfold)
qed

lemma count_groups_mono: "(\<And>g. p g \<Longrightarrow> q g) \<Longrightarrow> count_groups p groups \<le> count_groups q groups"
  by (induction groups) (auto simp: count_groups_def)

lemma primary_categories_all: "set primary_categories = UNIV" "distinct primary_categories"
  by (auto simp: primary_categories_def intro: primary_category.exhaust)

lemma under_comparable: "category_of g = UnderRoute \<Longrightarrow> comparable TierWeak StrongOnly g"
  by (auto simp: category_of_def primary_category_def comparable_def split: option.splits if_splits)

lemma over_comparable: "category_of g = OverRoute \<Longrightarrow> comparable TierStrong WeakOnly g"
proof -
  assume "category_of g = OverRoute"
  then obtain d where "decision_of (g Routed) = Some d" "rd_tier d \<noteq> TierWeak" "evaluated (g Routed) \<noteq> None"
    "evaluated (g WeakOnly) \<noteq> None"
    by (auto simp: category_of_def primary_category_def split: option.splits if_splits)
  then show ?thesis by (cases "rd_tier d") (auto simp: comparable_def)
qed

subsection \<open>Calibration rows and bins\<close>

lemma calibration_rows_simps:
  "calibration_rows [] = []"
  "calibration_rows ((k, g) # groups) =
     (case calibrate g of Calibrated p l \<Rightarrow> (p, l) # calibration_rows groups | _ \<Rightarrow> calibration_rows groups)"
  by (simp_all add: calibration_rows_def map_filter_simps split: calibration_row.splits)

lemma calibration_counts:
  "length (calibration_rows groups) + count_groups (\<lambda>g. calibrate g = ExcludedFallback) groups +
     count_groups (\<lambda>g. calibrate g = ExcludedMissing) groups + count_groups (\<lambda>g. calibrate g = ExcludedUnavailable) groups =
   count_groups (\<lambda>g. decision_of (g Routed) \<noteq> None) groups"
proof (induction groups)
  case (Cons kg groups)
  obtain k g where kg: "kg = (k, g)" by fastforce
  have "calibrate g = NoDecision \<longleftrightarrow> decision_of (g Routed) = None"
    by (auto simp: calibrate_def split: option.splits if_splits)
  then show ?case using Cons by (cases "calibrate g") (simp_all add: kg calibration_rows_simps count_groups_def)
qed (simp add: calibration_rows_simps count_groups_def)

lemma calibration_row_member:
  assumes "(p, l) \<in> set (calibration_rows groups)"
  shows "\<exists>k g d. (k, g) \<in> set groups \<and> decision_of (g Routed) = Some d \<and> rd_probability d = Some p"
proof -
  have "\<exists>k g. (k, g) \<in> set groups \<and> calibrate g = Calibrated p l"
    using assms
  proof (induction groups)
    case (Cons kg groups)
    obtain k g where kg: "kg = (k, g)" by fastforce
    show ?case
    proof (cases "calibrate g = Calibrated p l")
      case True
      then show ?thesis using kg by auto
    next
      case False
      then have "(p, l) \<in> set (calibration_rows groups)"
        using Cons.prems by (cases "calibrate g") (auto simp: kg calibration_rows_simps)
      then show ?thesis using Cons.IH kg by auto
    qed
  qed (simp add: calibration_rows_simps)
  then show ?thesis by (fastforce simp: calibrate_def split: option.splits if_splits)
qed

lemma calibration_label:
  assumes "(p, l) \<in> set (calibration_rows groups)"
  shows "l = 0 \<or> l = 1"
  using assms
proof (induction groups)
  case (Cons kg groups)
  obtain k g where kg: "kg = (k, g)" by fastforce
  have "l = 0 \<or> l = 1" if "calibrate g = Calibrated p l"
    using that by (auto simp: calibrate_def outcome_value_def split: option.splits if_splits)
  with Cons show ?case by (cases "calibrate g") (auto simp: kg calibration_rows_simps)
qed (simp add: calibration_rows_simps)

lemma bin_edges:
  "bin_edge 0 = 0" "bin_edge 5 = 1" "bin_edge 0 < bin_edge 1" "bin_edge 1 < bin_edge 2" "bin_edge 2 < bin_edge 3"
  "bin_edge 3 < bin_edge 4" "bin_edge 4 < bin_edge 5"
  by (simp_all add: bin_edge_def eval_nat_numeral)

lemma upt_five: "[0..<5] = [0, 1, 2, 3, 4 :: nat]"
  by (simp add: upt_rec)

lemma in_bin_cases:
  "in_bin 0 p \<longleftrightarrow> bin_edge 0 \<le> p \<and> p < bin_edge 1" "in_bin 1 p \<longleftrightarrow> bin_edge 1 \<le> p \<and> p < bin_edge 2"
  "in_bin 2 p \<longleftrightarrow> bin_edge 2 \<le> p \<and> p < bin_edge 3" "in_bin 3 p \<longleftrightarrow> bin_edge 3 \<le> p \<and> p < bin_edge 4"
  "in_bin 4 p \<longleftrightarrow> bin_edge 4 \<le> p \<and> p \<le> bin_edge 5"
  by (simp_all add: in_bin_def eval_nat_numeral)

lemma one_bin:
  assumes "0 \<le> p" "p \<le> 1"
  shows "\<exists>!i. i \<in> set [0..<5] \<and> in_bin i p"
proof -
  have five: "i \<in> set [0..<5] \<longleftrightarrow> i = 0 \<or> i = 1 \<or> i = 2 \<or> i = 3 \<or> i = 4" for i :: nat by auto
  consider "p < bin_edge 1" | "bin_edge 1 \<le> p" "p < bin_edge 2" | "bin_edge 2 \<le> p" "p < bin_edge 3"
    | "bin_edge 3 \<le> p" "p < bin_edge 4" | "bin_edge 4 \<le> p" by linarith
  then show ?thesis
  proof cases
    case 1
    show ?thesis unfolding five by (rule ex1I [of _ 0]) (use 1 assms bin_edges in \<open>auto simp: in_bin_cases simp del: One_nat_def\<close>)
  next
    case 2
    show ?thesis unfolding five by (rule ex1I [of _ 1]) (use 2 assms bin_edges in \<open>auto simp: in_bin_cases simp del: One_nat_def\<close>)
  next
    case 3
    show ?thesis unfolding five by (rule ex1I [of _ 2]) (use 3 assms bin_edges in \<open>auto simp: in_bin_cases simp del: One_nat_def\<close>)
  next
    case 4
    show ?thesis unfolding five by (rule ex1I [of _ 3]) (use 4 assms bin_edges in \<open>auto simp: in_bin_cases simp del: One_nat_def\<close>)
  next
    case 5
    show ?thesis unfolding five by (rule ex1I [of _ 4]) (use 5 assms bin_edges in \<open>auto simp: in_bin_cases simp del: One_nat_def\<close>)
  qed
qed

lemma bins_partition:
  assumes "\<forall>(p, l) \<in> set rows. 0 \<le> p \<and> p \<le> 1"
  shows "sum_list (map (\<lambda>i. bn_count (bin_of rows i)) [0..<5]) = length rows"
proof -
  have "sum_list (map (\<lambda>i. length (filter (\<lambda>(p, _). in_bin i p) rows)) [0..<5]) = length rows"
    by (rule partition_count) (use assms one_bin in \<open>fastforce simp del: set_upt\<close>)+
  then show ?thesis by (simp add: bin_of_def Let_def)
qed


subsection \<open>Parts of a report\<close>

text \<open>How many repetitions of tasks have trials.\<close>

definition comparisons :: "resolved_trial list \<Rightarrow> nat" where
  "comparisons trials = card ((\<lambda>t. (tr_task t, tr_repetition t)) ` set trials)"

lemma comparisons_keys: "card (pair_key ` set trials) = comparisons trials"
proof -
  have "pair_key ` set trials = (\<lambda>(task, n). task @ [nul] @ nat_string n) ` (\<lambda>t. (tr_task t, tr_repetition t)) ` set trials"
    by (simp add: image_image pair_key_def)
  moreover have "inj_on (\<lambda>(task, n). task @ [nul] @ nat_string n) ((\<lambda>t. (tr_task t, tr_repetition t)) ` set trials)"
    using pair_key_inj by (auto simp: inj_on_def pair_key_def)
  ultimately show ?thesis by (simp add: comparisons_def card_image)
qed

lemma aggregate_Inr:
  assumes "aggregate_experiment le m trials = Inr r"
  obtains groups where "group_trials trials [] = Inr groups" "r = experiment_report_of le m trials groups"
    "length groups = comparisons trials"
proof -
  obtain groups where g: "group_trials trials [] = Inr groups"
    and v: "validate_experiment_report (experiment_report_of le m trials groups) = Inr r"
    using assms unfolding aggregate_experiment_def by (cases "group_trials trials []") (simp_all split: if_splits)
  have "r = experiment_report_of le m trials groups"
    using v by (simp add: validate_experiment_report_def split: if_splits)
  with that g groups_count [OF g] comparisons_keys show thesis by simp
qed

lemma baselines_cases:
  "baselines g \<in> set [Some (OutPass, OutPass), Some (OutPass, OutFail), Some (OutFail, OutPass), Some (OutFail, OutFail), None]"
  by (auto simp: baselines_def evaluated_def is_evaluated_def split: option.splits if_splits)

lemma contingency_partition:
  "ct_pass_pass (contingency_of groups) + ct_pass_fail (contingency_of groups) + ct_fail_pass (contingency_of groups) +
     ct_fail_fail (contingency_of groups) + ct_incomplete (contingency_of groups) = length groups"
proof -
  have "\<forall>(k, g) \<in> set groups. baselines g \<in> set [Some (OutPass, OutPass), Some (OutPass, OutFail), Some (OutFail, OutPass), Some (OutFail, OutFail), None]"
    using baselines_cases by blast
  from count_groups_partition [OF _ this] show ?thesis by (simp add: contingency_of_def)
qed

lemma category_partition: "sum_list (map (cg_counts (category_counts_of groups)) primary_categories) = length groups"
  using count_groups_partition [OF primary_categories_all(2), of groups category_of]
  by (simp add: category_counts_of_def Let_def primary_categories_all(1))

lemma aggregate_parts:
  "ex_categories (experiment_report_of le m trials groups) = category_counts_of groups"
  "ex_contingency (experiment_report_of le m trials groups) = contingency_of groups"
  "ex_calibration (experiment_report_of le m trials groups) = calibration_of groups"
  "ex_quality (experiment_report_of le m trials groups) = quality_of groups (mf_seed m)"
  "ex_flags (experiment_report_of le m trials groups) = flags_of groups"
  "ex_routing (experiment_report_of le m trials groups) = routing_counts_of trials"
  "ex_totals (experiment_report_of le m trials groups) = report_totals_of m trials"
  by (simp_all add: experiment_report_of_def Let_def)

lemma category_ratios:
  "qr_numerator (cg_under (category_counts_of groups)) \<le> qr_denominator (cg_under (category_counts_of groups))"
  "qr_numerator (cg_over (category_counts_of groups)) \<le> qr_denominator (cg_over (category_counts_of groups))"
  "qr_numerator (cg_under_complete (category_counts_of groups)) \<le> cg_complete (category_counts_of groups)"
  "qr_numerator (cg_over_complete (category_counts_of groups)) \<le> cg_complete (category_counts_of groups)"
  by (auto simp: category_counts_of_def Let_def ratio_def intro!: count_groups_mono under_comparable over_comparable)

subsection \<open>Every loaded experiment is analysed\<close>

lemma manifest_field_valid:
  assumes "json_validator ajv" "read_smoke_manifest ajv digest file = Inr m"
    and "k \<in> set manifest_required" "\<And>n. (k, s) \<in> set (manifest_properties n)" "k \<noteq> ''configuration''"
  shows "schema_valid s (json_get k (mf_json m))"
proof -
  have v: "validate_smoke_manifest ajv digest file = Inr m" using assms(2) by (simp add: read_smoke_manifest_def)
  obtain j: "mf_json m = json_set ''configuration'' (normalize_config_json (json_get ''configuration'' file)) file"
    by (rule manifest_Inr [OF v]) blast
  have schema: "schema_valid s (json_get k file)"
    if "schema_valid (Schema [KType [TObject], KRequired (manifest_required @ r), KClosed (manifest_properties n @ q)]) file" for r n q
    by (rule closed_required [OF that, THEN conjunct2]) (use assms(3,4) in auto)
  have "schema_valid s (json_get k file)"
    using v schema [of Nil 1 Nil] schema [of _ 2]
    by (auto simp: validate_smoke_manifest_def json_validator.ajv_standard [OF assms(1)] manifest_schema_v1_def
        manifest_schema_v2_def simp del: schema_valid.simps split: if_splits)
  then show ?thesis using assms(5) by (simp add: j get_set_other)
qed

lemma manifest_decoded:
  assumes "read_smoke_manifest ajv digest file = Inr m"
  shows "m = decode_manifest (mf_json m) (mf_config m)"
  by (rule manifest_Inr [OF assms [unfolded read_smoke_manifest_def]]) blast

lemma manifest_report_fields:
  assumes "json_validator ajv" "read_smoke_manifest ajv digest file = Inr m"
  shows "mf_experiment m \<noteq> []" "is_hash (mf_hash m)" "mf_evidence m \<noteq> ReplayEvidence" "mf_seed m \<le> 4294967295"
    "0 \<le> mf_threshold m" "mf_threshold m \<le> 1"
proof -
  note field = manifest_field_valid [OF assms]
  have "schema_valid (Schema [KType [TString], KPattern is_run_id]) (json_get ''experimentId'' (mf_json m))"
    "schema_valid task_hash_string (json_get ''manifestHash'' (mf_json m))"
    "schema_valid seed_schema (json_get ''seed'' (mf_json m))"
    "schema_valid (Schema [KType [TNumber], KMinimum 0, KMaximum 1]) (json_get ''threshold'' (mf_json m))"
    by (rule field; simp add: manifest_required_def manifest_properties_def)+
  note valid = this
  have parts: "mf_experiment m = json_str (json_get ''experimentId'' (mf_json m))" "mf_hash m = json_str (json_get ''manifestHash'' (mf_json m))"
    "mf_seed m = json_nat (json_get ''seed'' (mf_json m))" "mf_threshold m = json_num (json_get ''threshold'' (mf_json m))"
    "mf_evidence m = (if json_get ''evidenceKind'' (mf_json m) = JStr ''mock'' then MockEvidence else LiveEvidence)"
    by (subst manifest_decoded [OF assms(2)], simp add: decode_manifest_def)+
  show "mf_experiment m \<noteq> []" using valid(1) by (cases "json_get ''experimentId'' (mf_json m)") (auto simp: parts(1) is_run_id_def)
  show "is_hash (mf_hash m)" using valid(2) by (cases "json_get ''manifestHash'' (mf_json m)") (auto simp: parts(2) task_hash_string_def)
  show "mf_evidence m \<noteq> ReplayEvidence" by (simp add: parts(5))
  show "mf_seed m \<le> 4294967295"
    using valid(3) by (cases "json_get ''seed'' (mf_json m)") (auto simp: parts(3) seed_schema_def le_nat_iff floor_le_iff)
  show "0 \<le> mf_threshold m" "mf_threshold m \<le> 1"
    using valid(4) by (cases "json_get ''threshold'' (mf_json m)"; simp add: parts(4))+
qed

text \<open>Trials that may be aggregated under a manifest.\<close>

definition trials_fit :: "smoke_manifest \<Rightarrow> resolved_trial list \<Rightarrow> bool" where
  "trials_fit m trials \<longleftrightarrow>
     distinct (map (\<lambda>t. ((tr_task t, tr_repetition t), tr_mode t)) trials) \<and> length trials \<le> length (mf_schedule m) \<and>
     (\<forall>t \<in> set trials. case tr_result t of None \<Rightarrow> True | Some r \<Rightarrow> rs_evidence r = mf_evidence m \<and> routed_source_ok (tr_mode t) r)"

lemma fit_grouped:
  assumes "trials_fit m trials"
  obtains groups where "group_trials trials [] = Inr groups"
proof -
  have d: "distinct (map (\<lambda>t. ((tr_task t, tr_repetition t), tr_mode t)) trials)" using assms by (simp add: trials_fit_def)
  have "distinct (map (\<lambda>t. (pair_key t, tr_mode t)) trials)"
    using d unfolding distinct_map by (auto simp: inj_on_def pair_key_inj)
  moreover have "\<forall>t \<in> set trials. group_of (pair_key t) [] (tr_mode t) = None" by (simp add: group_of_def)
  ultimately show thesis using group_trials_ok that by blast
qed

lemma fit_sources:
  assumes "trials_fit m trials"
  shows "\<not> list_ex (\<lambda>t. case tr_result t of None \<Rightarrow> False | Some r \<Rightarrow> rs_evidence r \<noteq> mf_evidence m) trials"
    "\<not> list_ex (\<lambda>t. case tr_result t of None \<Rightarrow> False | Some r \<Rightarrow> \<not> routed_source_ok (tr_mode t) r) trials"
  using assms by (auto simp: trials_fit_def list_ex_iff split: option.splits)

lemma outcome_counts:
  "length (filter (\<lambda>t. is_evaluated (tr_outcome t)) trials) + count_outcome OutUnavailable trials =
   length (filter (\<lambda>t. tr_outcome t \<noteq> OutIncomplete) trials)"
proof (induction trials)
  case (Cons t trials)
  then show ?case by (cases "tr_outcome t") (simp_all add: is_evaluated_def count_outcome_def)
qed (simp add: count_outcome_def)

lemma fit_totals:
  assumes "length trials \<le> length (mf_schedule m)"
  shows "0 \<le> xt_incomplete (report_totals_of m trials)"
    "int (xt_evaluated (report_totals_of m trials)) + int (xt_unavailable (report_totals_of m trials)) +
       xt_incomplete (report_totals_of m trials) = int (xt_planned (report_totals_of m trials))"
  using outcome_counts [of trials] le_trans [OF length_filter_le assms] by (simp_all add: report_totals_of_def)

lemma routing_totals:
  "rg_weak (routing_counts_of trials) + rg_strong (routing_counts_of trials) = rg_decisions (routing_counts_of trials)"
  "rg_normal (routing_counts_of trials) + rg_fallback (routing_counts_of trials) = rg_decisions (routing_counts_of trials)"
  by (simp_all add: routing_counts_of_def Let_def)

lemma fit_aggregates:
  assumes "trials_fit m trials" "mf_experiment m \<noteq> []" "is_hash (mf_hash m)" "mf_evidence m \<noteq> ReplayEvidence"
    "mf_seed m \<le> 4294967295" "0 \<le> mf_threshold m" "mf_threshold m \<le> 1"
  shows "\<exists>groups. group_trials trials [] = Inr groups \<and>
    aggregate_experiment le m trials = Inr (experiment_report_of le m trials groups)"
proof -
  obtain groups where g: "group_trials trials [] = Inr groups" by (rule fit_grouped [OF assms(1)])
  have len: "length trials \<le> length (mf_schedule m)" using assms(1) by (simp add: trials_fit_def)
  have "report_shape_ok (experiment_report_of le m trials groups)"
    using assms(2-) fit_totals(1) [OF len] by (simp add: report_shape_ok_def experiment_report_of_def Let_def calibration_of_def)
  then have "validate_experiment_report (experiment_report_of le m trials groups) = Inr (experiment_report_of le m trials groups)"
    using fit_totals(2) [OF len] routing_totals [of trials] by (simp add: validate_experiment_report_def aggregate_parts)
  then show ?thesis by (simp add: aggregate_experiment_def fit_sources [OF assms(1)] g)
qed

lemma loaded_fit:
  assumes "json_validator ajv" "load_experiment_records ajv digest date_ok d = Inr (m, trials)"
  shows "trials_fit m trials"
proof -
  note l = loaded_records [OF assms]
  obtain tasks where "evaluation_schedule tasks (mf_seed m) (Fin (real (mf_repetitions m))) = Inr (mf_schedule m)" "distinct tasks"
    by (rule manifest_schedule [OF l(1)]) blast
  then have "distinct (map trial_key (mf_schedule m))" by (rule schedule_keys_distinct)
  moreover have "\<forall>t \<in> set trials. case tr_result t of None \<Rightarrow> True | Some r \<Rightarrow> rs_evidence r = mf_evidence m \<and> routed_source_ok (tr_mode t) r"
  proof
    fix t
    assume "t \<in> set trials"
    with l(4) have wf: "trial_wf m t" by blast
    show "case tr_result t of None \<Rightarrow> True | Some r \<Rightarrow> rs_evidence r = mf_evidence m \<and> routed_source_ok (tr_mode t) r"
      using wf last_in_set [of "tr_physical t"] by (auto simp: trial_wf_def split: option.splits)
  qed
  ultimately show ?thesis using l(3,5) by (simp add: trials_fit_def)
qed

subsection \<open>Counting decisions and scoring them\<close>

lemma count_put_group:
  assumes "distinct (map fst groups)" "\<not> p (\<lambda>_. None)"
  shows "count_groups p (put_group k g groups) + (if p (group_of k groups) then 1 else 0) =
    count_groups p groups + (if p g then 1 else 0)"
  using assms(1)
proof (induction groups)
  case (Cons kg groups)
  obtain k' g' where kg: "kg = (k', g')" by fastforce
  show ?case
  proof (cases "k' = k")
    case True
    then show ?thesis by (simp add: kg count_groups_def group_of_def)
  next
    case False
    then show ?thesis using Cons by (simp add: kg count_groups_def group_of_def)
  qed
qed (simp add: count_groups_def group_of_def assms(2))

lemma decisions_grouped:
  assumes "group_trials trials groups = Inr groups'" "distinct (map fst groups)"
  shows "count_groups (\<lambda>g. pred_option p (decision_of (g Routed)) \<and> decision_of (g Routed) \<noteq> None) groups' =
    count_groups (\<lambda>g. pred_option p (decision_of (g Routed)) \<and> decision_of (g Routed) \<noteq> None) groups +
      length (filter p (routed_decisions_of trials))"
  using assms
proof (induction trials arbitrary: groups)
  case Nil
  then show ?case by (simp add: routed_decisions_of_def map_filter_simps)
next
  case (Cons t trials)
  let ?p = "\<lambda>g. pred_option p (decision_of (g Routed)) \<and> decision_of (g Routed) \<noteq> None"
  let ?n = "if tr_mode t = Routed \<and> pred_option p (trial_decision t) \<and> trial_decision t \<noteq> None then 1 else 0"
  have fresh: "group_of (pair_key t) groups (tr_mode t) = None" and rest: "group_trials trials (add_trial t groups) = Inr groups'"
    using Cons.prems(1) by (simp_all split: if_splits)
  have "count_groups ?p groups' = count_groups ?p (add_trial t groups) + length (filter p (routed_decisions_of trials))"
    using Cons.IH [OF rest keys_add_trial(1) [OF Cons.prems(2)]] .
  moreover have "count_groups ?p (add_trial t groups) = count_groups ?p groups + ?n"
    using count_put_group [of groups ?p "pair_key t" "(group_of (pair_key t) groups)(tr_mode t \<mapsto> t)"] Cons.prems(2) fresh
    by (cases "tr_mode t = Routed") (auto simp: add_trial_def decision_of_def)
  moreover have "length (filter p (routed_decisions_of (t # trials))) = ?n + length (filter p (routed_decisions_of trials))"
    by (cases "trial_decision t") (simp_all add: routed_decisions_of_def map_filter_simps)
  ultimately show ?case by simp
qed

lemma mean_bounds:
  assumes "\<forall>x \<in> set xs. a \<le> x \<and> x \<le> b" "mean_of xs = Some v"
  shows "a \<le> v \<and> v \<le> b"
proof -
  have xs: "xs \<noteq> []" and v: "v = sum_list xs / real (length xs)" using assms(2) by (auto simp: mean_of_def split: if_splits)
  have "a * real (length xs) \<le> sum_list xs \<and> sum_list xs \<le> b * real (length xs)"
    using assms(1) by (induction xs) (auto simp: algebra_simps)
  then show ?thesis using xs by (simp add: v pos_le_divide_eq pos_divide_le_eq)
qed

definition unit_rows :: "(real \<times> real) list \<Rightarrow> bool" where
  "unit_rows rows \<longleftrightarrow> (\<forall>(p, l) \<in> set rows. 0 \<le> p \<and> p \<le> 1 \<and> 0 \<le> l \<and> l \<le> 1)"

lemma bin_gap_bounds:
  assumes "unit_rows rows" "0 < n"
  shows "0 \<le> bin_gap n (bin_of rows i) \<and> bin_gap n (bin_of rows i) \<le> real (bn_count (bin_of rows i)) / real n"
proof (cases "bn_probability (bin_of rows i)"; cases "bn_pass (bin_of rows i)")
  fix p l
  assume pl: "bn_probability (bin_of rows i) = Some p" "bn_pass (bin_of rows i) = Some l"
  have "0 \<le> p \<and> p \<le> 1"
    by (rule mean_bounds [of "map fst (filter (\<lambda>(p, _). in_bin i p) rows)"])
      (use assms(1) pl(1) in \<open>auto simp: unit_rows_def bin_of_def Let_def\<close>)
  moreover have "0 \<le> l \<and> l \<le> 1"
    by (rule mean_bounds [of "map snd (filter (\<lambda>(p, _). in_bin i p) rows)"])
      (use assms(1) pl(2) in \<open>auto simp: unit_rows_def bin_of_def Let_def\<close>)
  ultimately have "\<bar>p - l\<bar> \<le> 1" by linarith
  then have "real (bn_count (bin_of rows i)) / real n * \<bar>p - l\<bar> \<le> real (bn_count (bin_of rows i)) / real n"
    by (rule mult_left_le) simp
  then show ?thesis using pl by (simp add: bin_gap_def)
qed (simp_all add: bin_gap_def)

lemma calibration_rows_unit:
  assumes "group_trials trials [] = Inr groups"
    and "\<forall>t \<in> set trials. \<forall>d. trial_decision t = Some d \<longrightarrow> (case rd_probability d of None \<Rightarrow> True | Some p \<Rightarrow> 0 \<le> p \<and> p \<le> 1)"
  shows "unit_rows (calibration_rows groups)"
  unfolding unit_rows_def
proof (clarify, intro conjI)
  fix p l
  assume row: "(p, l) \<in> set (calibration_rows groups)"
  obtain k g d where g: "(k, g) \<in> set groups" "decision_of (g Routed) = Some d" "rd_probability d = Some p"
    using calibration_row_member [OF row] by blast
  obtain t where t: "g Routed = Some t" "trial_decision t = Some d" using g(2) by (cases "g Routed") (auto simp: decision_of_def)
  then have "t \<in> set trials" using grouped_members [OF assms(1) g(1) t(1)] by blast
  then show "0 \<le> p" "p \<le> 1" using assms(2) t(2) g(3) by fastforce+
  show "0 \<le> l" "l \<le> 1" using calibration_label [OF row] by auto
qed

lemma calibration_scores:
  assumes "unit_rows (calibration_rows groups)"
  shows "sum_list (map bn_count (cb_bins (calibration_of groups))) = cb_samples (calibration_of groups)"
    "cb_brier (calibration_of groups) = Some v \<Longrightarrow> 0 \<le> v \<and> v \<le> 1"
    "cb_ece (calibration_of groups) = Some v \<Longrightarrow> 0 \<le> v \<and> v \<le> 1"
proof -
  define rows where "rows = calibration_rows groups"
  have "\<forall>(p, l) \<in> set rows. 0 \<le> p \<and> p \<le> 1" using assms by (auto simp: rows_def unit_rows_def)
  note counts = bins_partition [OF this]
  then show "sum_list (map bn_count (cb_bins (calibration_of groups))) = cb_samples (calibration_of groups)"
    by (simp add: calibration_of_def Let_def rows_def comp_def)
  show "cb_brier (calibration_of groups) = Some v \<Longrightarrow> 0 \<le> v \<and> v \<le> 1"
  proof (rule mean_bounds [of "map (\<lambda>(p, l). (p - l)\<^sup>2) rows"])
    show "\<forall>x \<in> set (map (\<lambda>(p, l). (p - l)\<^sup>2) rows). 0 \<le> x \<and> x \<le> 1"
      using assms by (auto simp: rows_def unit_rows_def abs_square_le_1 abs_le_iff)
  qed (simp add: calibration_of_def Let_def rows_def)
  assume ece: "cb_ece (calibration_of groups) = Some v"
  then have rows: "rows \<noteq> []" and v: "v = sum_list (map (\<lambda>i. bin_gap (length rows) (bin_of rows i)) [0..<5])"
    by (auto simp: calibration_of_def Let_def rows_def comp_def split: if_splits)
  have n: "0 < length rows" using rows by simp
  note gap = bin_gap_bounds [OF assms [folded rows_def] n]
  have "v \<le> sum_list (map (\<lambda>i. real (bn_count (bin_of rows i)) / real (length rows)) [0..<5])"
    unfolding v by (rule sum_list_mono) (use gap in blast)
  also have "\<dots> = real (sum_list (map (\<lambda>i. bn_count (bin_of rows i)) [0..<5])) / real (length rows)"
    by (simp add: upt_five add_divide_distrib)
  also have "\<dots> = 1" using n by (simp only: counts) simp
  finally have "v \<le> 1" .
  moreover have "0 \<le> v" unfolding v by (rule sum_list_nonneg) (use gap in auto)
  ultimately show "0 \<le> v \<and> v \<le> 1" by simp
qed

subsection \<open>Quality\<close>

lemma quality_rows:
  assumes "row \<in> set (map quality_row pairs)"
  shows "cr_denominator row = 1 \<and> -1 \<le> cr_numerator row \<and> cr_numerator row \<le> 1"
  using assms by (auto simp: quality_row_def outcome_value_def)

lemma pairs_length: "length (pairs_of groups) \<le> length groups"
  by (induction groups) (auto simp: pairs_of_def map_filter_simps split: option.splits)

lemma quality_facts:
  "ql_pairs (quality_of groups seed) \<le> length groups"
  "pred_option (\<lambda>v. -100 \<le> v \<and> v \<le> 100) (ql_points (quality_of groups seed))"
  "pred_option (\<lambda>(l, u). 5 \<le> ql_tasks (quality_of groups seed) \<and> 1000 \<le> ql_valid (quality_of groups seed) \<and>
      ql_valid (quality_of groups seed) + ql_undefined (quality_of groups seed) = 2000 \<and>
      -100 \<le> l \<and> l \<le> u \<and> u \<le> 100) (ql_interval (quality_of groups seed))"
proof -
  define rows where "rows = map quality_row (pairs_of groups)"
  define b where "b = cluster_bootstrap rows seed"
  have q: "quality_of groups seed = \<lparr>ql_pairs = length rows,
      ql_points = (if rows = [] then None else Some (sum_list (map cr_numerator rows) / real (length rows) * 100)),
      ql_interval = map_option (\<lambda>(l, u). (l * 100, u * 100)) (bo_interval b),
      ql_valid = bo_valid b, ql_undefined = bo_undefined b, ql_tasks = bo_tasks b\<rparr>"
    by (simp add: quality_of_def Let_def rows_def b_def)
  show "ql_pairs (quality_of groups seed) \<le> length groups" using pairs_length by (simp add: q rows_def)
  have unit: "\<forall>row \<in> set rows. cr_denominator row = 1 \<and> -1 \<le> cr_numerator row \<and> cr_numerator row \<le> 1"
    using quality_rows unfolding rows_def by blast
  have mean: "-1 \<le> v \<and> v \<le> 1" if "mean_of (map cr_numerator rows) = Some v" for v
    by (rule mean_bounds [OF _ that]) (use unit in auto)
  show "pred_option (\<lambda>v. -100 \<le> v \<and> v \<le> 100) (ql_points (quality_of groups seed))"
  proof (cases "rows = []")
    case False
    define v where "v = sum_list (map cr_numerator rows) / real (length rows)"
    have "-1 \<le> v \<and> v \<le> 1" by (rule mean) (use False in \<open>simp add: mean_of_def v_def\<close>)
    then show ?thesis using False by (simp add: q v_def [symmetric] del: times_divide_eq_left)
  qed (simp add: q)
  have "\<forall>row \<in> set rows. between (-1) 1 (cr_numerator row, cr_denominator row)"
    using unit by (auto simp: between_def)
  note facts = bootstrap_facts [OF this, of seed, folded b_def]
  show "pred_option (\<lambda>(l, u). 5 \<le> ql_tasks (quality_of groups seed) \<and> 1000 \<le> ql_valid (quality_of groups seed) \<and>
      ql_valid (quality_of groups seed) + ql_undefined (quality_of groups seed) = 2000 \<and>
      -100 \<le> l \<and> l \<le> u \<and> u \<le> 100) (ql_interval (quality_of groups seed))"
  proof (cases "bo_interval b")
    case (Some lu)
    obtain l u where lu: "lu = (l, u)" by fastforce
    from facts(3) Some have "5 \<le> bo_tasks b \<and> 1000 \<le> bo_valid b \<and> -1 \<le> l \<and> l \<le> u \<and> u \<le> 1" by (simp add: lu)
    with facts(2) show ?thesis by (simp add: q Some lu)
  qed (simp add: q)
qed

subsection \<open>Example\<close>

text \<open>One task of the experiment: the weak baseline failed, the strong one passed, the classifier chose the weak model.\<close>

definition example_decision_for :: "tier \<Rightarrow> real \<Rightarrow> routing_decision" where
  "example_decision_for tier p = example_routing\<lparr>rd_tier := tier, rd_source := FromClassifier, rd_probability := Some p\<rparr>"

definition example_trial :: "session_mode \<Rightarrow> trial_outcome \<Rightarrow> routing_decision option \<Rightarrow> resolved_trial" where
  "example_trial mode outcome d =
     (let r = (timeout_result (hd smoke_sched) ''a'')\<lparr>rs_mode := mode, rs_evidence := MockEvidence, rs_decision := d\<rparr>
      in \<lparr>tr_trial = mode_string mode, tr_task = ''t1'', tr_repetition = 0, tr_mode = mode, tr_outcome = outcome,
          tr_result = Some r, tr_physical = [r], tr_incomplete = 0\<rparr>)"

definition example_trials :: "resolved_trial list" where
  "example_trials =
     [example_trial WeakOnly OutFail None, example_trial StrongOnly OutPass None,
      example_trial Routed OutFail (Some (example_decision_for TierWeak (7 / 10)))]"

lemma example_fields:
  "mf_experiment example_smoke = ''e1''" "mf_hash example_smoke = example_hash" "mf_evidence example_smoke = MockEvidence"
  "mf_threshold example_smoke = 3 / 5"
  by (simp_all add: decode_manifest_def example_value_def example_members_def json_get_def)

lemma example_fit: "trials_fit example_smoke example_trials"
  using smoke_sched(2)
  by (simp add: trials_fit_def example_trials_def example_trial_def Let_def example_fields example_smoke_fields timeout_result_def
      example_result_def routed_source_ok_def example_decision_for_def)

lemma example_aggregates: "\<exists>r. aggregate_experiment le example_smoke example_trials = Inr r"
proof -
  note fields = manifest_report_fields [OF standard.json_validator_axioms example_smoke_read]
  from fit_aggregates [OF example_fit fields] show ?thesis by blast
qed

subsection \<open>Properties\<close>

text \<open>C31: Every repetition of a task that has trials is counted in exactly one routing category and in
  exactly one cell of the table of baseline outcomes, so both sum to the number of comparisons; and no
  rate of routing errors exceeds one, with the denominator of its own comparisons or of the complete
  triplets.\<close>

theorem aggregate_accounts:
  assumes "aggregate_experiment le m trials = Inr r"
  shows "sum_list (map (cg_counts (ex_categories r)) primary_categories) = comparisons trials \<and>
    ct_pass_pass (ex_contingency r) + ct_pass_fail (ex_contingency r) + ct_fail_pass (ex_contingency r) +
      ct_fail_fail (ex_contingency r) + ct_incomplete (ex_contingency r) = comparisons trials \<and>
    qr_numerator (cg_under (ex_categories r)) \<le> qr_denominator (cg_under (ex_categories r)) \<and>
    qr_numerator (cg_over (ex_categories r)) \<le> qr_denominator (cg_over (ex_categories r)) \<and>
    qr_numerator (cg_under_complete (ex_categories r)) \<le> cg_complete (ex_categories r) \<and>
    qr_numerator (cg_over_complete (ex_categories r)) \<le> cg_complete (ex_categories r)"
proof -
  obtain groups where g: "r = experiment_report_of le m trials groups" "length groups = comparisons trials"
    by (rule aggregate_Inr [OF assms])
  show ?thesis
    using contingency_partition [of groups] category_partition [of groups] category_ratios [of groups] g(2)
    by (simp add: g(1) aggregate_parts)
qed

theorem aggregate_accounts_witness:
  "\<exists>r. aggregate_experiment (\<lambda>_ _. True) example_smoke example_trials = Inr r \<and>
     sum_list (map (cg_counts (ex_categories r)) primary_categories) = 1 \<and>
     ct_fail_pass (ex_contingency r) = 1 \<and> cg_counts (ex_categories r) UnderRoute = 1"
proof -
  obtain r where r: "aggregate_experiment (\<lambda>_ _. True) example_smoke example_trials = Inr r" using example_aggregates by blast
  have "comparisons example_trials = 1" by (simp add: comparisons_def example_trials_def example_trial_def Let_def)
  moreover have "cg_counts (ex_categories r) UnderRoute = 1 \<and> ct_fail_pass (ex_contingency r) = 1"
    by (rule aggregate_Inr [OF r])
      (simp add: example_trials_def example_trial_def Let_def add_trial_def pair_key_def group_of_def aggregate_parts
        category_counts_of_def contingency_of_def count_groups_def category_of_def primary_category_def baselines_def
        evaluated_def is_evaluated_def decision_of_def trial_decision_def example_decision_for_def)
  ultimately show ?thesis using aggregate_accounts [OF r] r by auto
qed

text \<open>C32: The calibration of the classifier accounts for every decision of the experiment: each is a sample or
  excluded for one reason, every sample falls into exactly one of the five bins although their edges
  are rounded doubles, and the Brier score and the calibration error lie between zero and one when
  the recorded probabilities do.\<close>

theorem calibration_accounts:
  assumes "aggregate_experiment le m trials = Inr r"
    and "\<forall>t \<in> set trials. \<forall>d. trial_decision t = Some d \<longrightarrow> (case rd_probability d of None \<Rightarrow> True | Some p \<Rightarrow> 0 \<le> p \<and> p \<le> 1)"
  shows "cb_samples (ex_calibration r) + cb_fallback (ex_calibration r) + cb_missing (ex_calibration r) +
      cb_unavailable (ex_calibration r) = rg_decisions (ex_routing r) \<and>
    sum_list (map bn_count (cb_bins (ex_calibration r))) = cb_samples (ex_calibration r) \<and>
    pred_option (\<lambda>v. 0 \<le> v \<and> v \<le> 1) (cb_brier (ex_calibration r)) \<and>
    pred_option (\<lambda>v. 0 \<le> v \<and> v \<le> 1) (cb_ece (ex_calibration r))"
proof -
  obtain groups where g: "group_trials trials [] = Inr groups" "r = experiment_report_of le m trials groups"
    by (rule aggregate_Inr [OF assms(1)])
  have "cb_samples (calibration_of groups) + cb_fallback (calibration_of groups) + cb_missing (calibration_of groups) +
      cb_unavailable (calibration_of groups) = length (routed_decisions_of trials)"
    using calibration_counts [of groups] decisions_grouped [OF g(1), of "\<lambda>_. True"] by (simp add: option.pred_True calibration_of_def Let_def count_groups_def)
  then show ?thesis
    using calibration_scores [OF calibration_rows_unit [OF g(1) assms(2)]]
    by (simp add: g(2) aggregate_parts routing_counts_of_def Let_def pred_option_def)
qed

theorem calibration_accounts_witness:
  "\<exists>r. aggregate_experiment (\<lambda>_ _. True) example_smoke example_trials = Inr r \<and> rg_decisions (ex_routing r) = 1 \<and>
     cb_samples (ex_calibration r) + cb_fallback (ex_calibration r) + cb_missing (ex_calibration r) +
       cb_unavailable (ex_calibration r) = 1"
proof -
  obtain r where r: "aggregate_experiment (\<lambda>_ _. True) example_smoke example_trials = Inr r" using example_aggregates by blast
  have "rg_decisions (ex_routing r) = 1"
    by (rule aggregate_Inr [OF r])
      (simp add: aggregate_parts routing_counts_of_def Let_def routed_decisions_of_def example_trials_def example_trial_def
        trial_decision_def map_filter_simps)
  moreover have "\<forall>t \<in> set example_trials. \<forall>d. trial_decision t = Some d \<longrightarrow>
      (case rd_probability d of None \<Rightarrow> True | Some p \<Rightarrow> 0 \<le> p \<and> p \<le> 1)"
    by (auto simp: example_trials_def example_trial_def Let_def trial_decision_def example_decision_for_def)
  ultimately show ?thesis using calibration_accounts [OF r] r by metis
qed

text \<open>The paired quality difference lies between minus one hundred and plus one hundred points; its
  bootstrap is taken over the distinct tasks of the pairs, an interval is given only for at least five
  tasks and a thousand defined resamples, and then it is an ordered interval within the same bounds.\<close>

theorem quality_difference_bounded:
  assumes "aggregate_experiment le m trials = Inr r"
  shows "ql_pairs (ex_quality r) \<le> comparisons trials \<and>
    pred_option (\<lambda>v. -100 \<le> v \<and> v \<le> 100) (ql_points (ex_quality r)) \<and>
    pred_option (\<lambda>(l, u). 5 \<le> ql_tasks (ex_quality r) \<and> 1000 \<le> ql_valid (ex_quality r) \<and>
      ql_valid (ex_quality r) + ql_undefined (ex_quality r) = 2000 \<and>
      -100 \<le> l \<and> l \<le> u \<and> u \<le> 100) (ql_interval (ex_quality r))"
proof -
  obtain groups where g: "r = experiment_report_of le m trials groups" "length groups = comparisons trials"
    by (rule aggregate_Inr [OF assms])
  show ?thesis using quality_facts [of groups "mf_seed m"] g(2) by (simp add: g(1) aggregate_parts)
qed

theorem quality_difference_bounded_witness:
  "\<exists>r. aggregate_experiment (\<lambda>_ _. True) example_smoke example_trials = Inr r \<and> ql_points (ex_quality r) = Some (-100) \<and>
     ql_pairs (ex_quality r) \<le> comparisons example_trials"
proof -
  obtain r where r: "aggregate_experiment (\<lambda>_ _. True) example_smoke example_trials = Inr r" using example_aggregates by blast
  have "ql_points (ex_quality r) = Some (-100)"
    by (rule aggregate_Inr [OF r])
      (simp add: example_trials_def example_trial_def Let_def add_trial_def pair_key_def group_of_def aggregate_parts
        quality_of_def pairs_of_def paired_def map_filter_simps is_evaluated_def quality_row_def outcome_value_def comparisons_def)
  then show ?thesis using quality_difference_bounded [OF r] r by blast
qed

text \<open>C11: Whatever an accepted experiment directory holds, when its records can be read they can be
  analysed: no trial is read twice, no evidence is mixed, and the report accounts for every planned trial
  as evaluated, unavailable or incomplete.\<close>

theorem loaded_records_aggregate:
  assumes "json_validator ajv" "load_experiment_records ajv digest date_ok d = Inr (m, trials)"
  shows "\<exists>r. aggregate_experiment le m trials = Inr r \<and> xt_planned (ex_totals r) = length trials \<and>
    xt_evaluated (ex_totals r) = length (filter (\<lambda>t. is_evaluated (tr_outcome t)) trials) \<and>
    int (xt_evaluated (ex_totals r)) + int (xt_unavailable (ex_totals r)) + xt_incomplete (ex_totals r) =
      int (length trials) \<and>
    xt_incomplete (ex_totals r) = int (count_outcome OutIncomplete trials)"
proof -
  note l = loaded_records [OF assms]
  obtain groups where g: "aggregate_experiment le m trials = Inr (experiment_report_of le m trials groups)"
    using fit_aggregates [OF loaded_fit [OF assms] manifest_report_fields [OF assms(1) l(1)]] by blast
  have "length (filter (\<lambda>t. tr_outcome t \<noteq> OutIncomplete) trials) + count_outcome OutIncomplete trials = length trials"
    using sum_length_filter_compl [of "\<lambda>t. tr_outcome t = OutIncomplete" trials] by (simp add: count_outcome_def)
  then show ?thesis
    using g fit_totals(2) [of trials m] l(3) by (simp add: aggregate_parts report_totals_of_def)
qed

theorem loaded_records_aggregate_witness:
  "\<exists>m trials r. load_experiment_records schema_valid const_digest (\<lambda>_. True) example_directory = Inr (m, trials) \<and>
     aggregate_experiment (\<lambda>_ _. True) m trials = Inr r \<and> xt_planned (ex_totals r) = 9"
proof -
  have load: "\<exists>trials. map_result (load_trial schema_valid (\<lambda>_. True) (ed_attempts example_directory) m) es = Inr trials" for m es
  proof (induction es)
    case (Cons e es)
    then show ?case by (cases "se_attempts e") (auto simp: load_trial_def example_directory_def)
  qed simp
  obtain trials where t: "load_experiment_records schema_valid const_digest (\<lambda>_. True) example_directory = Inr (example_smoke, trials)"
    using load [of example_smoke "mf_schedule example_smoke"] by (auto simp: load_experiment_records_def example_smoke_read)
  then have "length trials = 9"
    using loaded_records(3) [OF standard.json_validator_axioms t] smoke_sched(2) by (simp add: example_smoke_fields)
  then show ?thesis using loaded_records_aggregate [OF standard.json_validator_axioms t] t by metis
qed

end
