(* ===== verification/Replay.thy ===== *)
theory Replay
  imports Analysis
begin

section \<open>Replay of a development experiment (src/evaluation/analysis.ts)\<close>

text \<open>
  Counterfactual analyses of recorded trials: the outcomes other thresholds would have had, from the
  baselines of each repetition, and a control that keeps the number of weak selections but draws them at
  random. Both are for development experiments only.
\<close>

subsection \<open>Thresholds\<close>

text \<open>The doubles the code writes as 0, 0.25, 0.5, 0.6, 0.7, 0.75, 0.8, 0.85, 0.9, 0.95 and 1.\<close>

definition replay_levels :: "real list" where
  "replay_levels =
     [0, 1 / 4, 1 / 2, 5404319552844595 / 2 ^ 53, 3152519739159347 / 2 ^ 52, 3 / 4, 3602879701896397 / 2 ^ 52,
      7656119366529843 / 2 ^ 53, 8106479329266893 / 2 ^ 53, 4278419646001971 / 2 ^ 52, 1]"

text \<open>Trials grouped by a key, a later trial of a mode replacing an earlier one.\<close>

definition replace_trial :: "(resolved_trial \<Rightarrow> string) \<Rightarrow> trial_groups \<Rightarrow> resolved_trial \<Rightarrow> trial_groups" where
  "replace_trial key groups t = put_group (key t) ((group_of (key t) groups)(tr_mode t \<mapsto> t)) groups"

definition group_all :: "(resolved_trial \<Rightarrow> string) \<Rightarrow> resolved_trial list \<Rightarrow> trial_groups" where
  "group_all key trials = foldl (replace_trial key) [] trials"

definition falls_back :: "routing_decision \<Rightarrow> bool" where
  "falls_back d \<longleftrightarrow> rd_source d = FromFallback \<or> rd_probability d = None"

definition replay_tier :: "real \<Rightarrow> routing_decision \<Rightarrow> tier" where
  "replay_tier threshold d =
     (if rd_source d = FromFallback then TierStrong
      else case rd_probability d of None \<Rightarrow> TierStrong | Some p \<Rightarrow> if threshold \<le> p then TierWeak else TierStrong)"

fun baseline_mode :: "tier \<Rightarrow> session_mode" where
  "baseline_mode TierWeak = WeakOnly"
| "baseline_mode TierStrong = StrongOnly"

definition selection_of :: "real \<Rightarrow> trial_group \<Rightarrow> tier option" where
  "selection_of threshold g = map_option (replay_tier threshold) (decision_of (g Routed))"

definition replayed_outcome :: "real \<Rightarrow> trial_group \<Rightarrow> trial_outcome option" where
  "replayed_outcome threshold g =
     (case selection_of threshold g of None \<Rightarrow> None | Some tier \<Rightarrow> evaluated (g (baseline_mode tier)))"

definition replayed_cost :: "real \<Rightarrow> trial_group \<Rightarrow> real option" where
  "replayed_cost threshold g =
     (case selection_of threshold g of
        None \<Rightarrow> None
      | Some tier \<Rightarrow>
          (case (Option.bind (g (baseline_mode tier)) trial_cost, Option.bind (g Routed) classifier_cost) of
             (Some baseline, Some overhead) \<Rightarrow> Some (baseline + overhead) | _ \<Rightarrow> None))"

record replay_row =
  rw_threshold :: real
  rw_planned :: nat
  rw_weak :: nat
  rw_strong :: nat
  rw_fallback :: nat
  rw_pass :: nat
  rw_fail :: nat
  rw_unavailable :: nat
  rw_success :: ratio
  rw_cost :: "real option"
  rw_cost_complete :: nat
  rw_cost_omitted :: nat

definition replay_row_of :: "trial_groups \<Rightarrow> real \<Rightarrow> replay_row" where
  "replay_row_of groups threshold =
     (let pass = count_groups (\<lambda>g. replayed_outcome threshold g = Some OutPass) groups;
          failed = count_groups (\<lambda>g. replayed_outcome threshold g = Some OutFail) groups;
          unavailable = count_groups (\<lambda>g. replayed_outcome threshold g = None) groups;
          costs = map (\<lambda>(k, g). replayed_cost threshold g) groups
      in \<lparr>rw_threshold = threshold, rw_planned = length groups,
          rw_weak = count_groups (\<lambda>g. selection_of threshold g = Some TierWeak) groups,
          rw_strong = count_groups (\<lambda>g. selection_of threshold g = Some TierStrong) groups,
          rw_fallback = count_groups (\<lambda>g. case decision_of (g Routed) of None \<Rightarrow> False | Some d \<Rightarrow> falls_back d) groups,
          rw_pass = pass, rw_fail = failed, rw_unavailable = unavailable,
          rw_success = ratio pass (pass + failed) unavailable, rw_cost = sum_known costs,
          rw_cost_complete = length (filter (\<lambda>c. c \<noteq> None) costs),
          rw_cost_omitted = length (filter (\<lambda>c. c = None) costs)\<rparr>)"

record threshold_replay =
  th_source :: evidence_kind
  th_experiment :: string
  th_manifest :: string
  th_generated :: string
  th_rows :: "replay_row list"
  th_limitations :: "string list"

definition replay_limitations :: "string list" where
  "replay_limitations =
     [''Replay selects recorded weak-only or strong-only outcomes; it is not a fresh routed coding run.'',
      ''Fallback classifier verdicts remain strong at every threshold.'',
      ''Replay costs include observed classifier overhead and all physical attempts of the selected baseline.'',
      ''Unknown, subscription, or incomplete cost evidence remains null rather than zero.'']"

text \<open>\<open>now\<close> is the time the code stamps the replay with.\<close>

definition replay_thresholds :: "string \<Rightarrow> smoke_manifest \<Rightarrow> resolved_trial list \<Rightarrow> analysis_error + threshold_replay" where
  "replay_thresholds now m trials =
     (if mf_suite m \<noteq> SuiteDev then Inl DevelopmentOnly
      else Inr \<lparr>th_source = mf_evidence m, th_experiment = mf_experiment m, th_manifest = mf_hash m,
        th_generated = now, th_rows = map (replay_row_of (group_all pair_key trials)) replay_levels,
        th_limitations = replay_limitations\<rparr>)"

subsection \<open>Random selection\<close>

definition random_key :: "resolved_trial \<Rightarrow> string" where
  "random_key t = tr_task t @ '':'' @ nat_string (tr_repetition t)"

definition sorted_rows :: "resolved_trial list \<Rightarrow> trial_group list" where
  "sorted_rows trials = map snd (sort_entries code_unit_le (group_all random_key trials))"

definition is_normal :: "trial_group \<Rightarrow> bool" where
  "is_normal g \<longleftrightarrow>
     (case decision_of (g Routed) of None \<Rightarrow> False | Some d \<Rightarrow> rd_source d = FromClassifier \<and> rd_probability d \<noteq> None)"

definition normal_rows :: "trial_group list \<Rightarrow> (trial_group \<times> nat) list" where
  "normal_rows rows = filter (\<lambda>(g, _). is_normal g) (zip rows [0..<length rows])"

definition weak_count :: "(trial_group \<times> nat) list \<Rightarrow> nat" where
  "weak_count normal =
     length (filter (\<lambda>(g, _). map_option rd_tier (decision_of (g Routed)) = Some TierWeak) normal)"

definition selected_weak :: "nat \<Rightarrow> (trial_group \<times> nat) list \<Rightarrow> nat set" where
  "selected_weak seed normal =
     set (map snd (take (weak_count normal) (fst (shuffle mulberry32 normal (mulberry_seed seed)))))"

record random_selection =
  sl_task :: "string option"
  sl_repetition :: "nat option"
  sl_tier :: "tier option"
  sl_outcome :: trial_outcome

definition row_task :: "trial_group \<Rightarrow> string option" where
  "row_task g = (case g Routed of Some t \<Rightarrow> Some (tr_task t)
     | None \<Rightarrow> (case g WeakOnly of Some t \<Rightarrow> Some (tr_task t) | None \<Rightarrow> map_option tr_task (g StrongOnly)))"

definition select_row :: "nat set \<Rightarrow> trial_group \<times> nat \<Rightarrow> random_selection" where
  "select_row chosen = (\<lambda>(g, i).
     case decision_of (g Routed) of
       None \<Rightarrow> \<lparr>sl_task = row_task g, sl_repetition = None, sl_tier = None, sl_outcome = OutUnavailable\<rparr>
     | Some d \<Rightarrow>
         let tier = (if i \<in> chosen then TierWeak else TierStrong)
         in \<lparr>sl_task = map_option tr_task (g Routed), sl_repetition = map_option tr_repetition (g Routed),
             sl_tier = Some tier,
             sl_outcome = (case g (baseline_mode tier) of None \<Rightarrow> OutUnavailable | Some t \<Rightarrow> tr_outcome t)\<rparr>)"

record random_replay =
  rr_source :: evidence_kind
  rr_manifest :: string
  rr_seed :: nat
  rr_weak :: nat
  rr_recorded :: nat
  rr_pass :: nat
  rr_fail :: nat
  rr_unavailable :: nat
  rr_selections :: "random_selection list"

definition count_selections :: "(random_selection \<Rightarrow> bool) \<Rightarrow> random_selection list \<Rightarrow> nat" where
  "count_selections p ss = length (filter p ss)"

definition random_selection_replay :: "smoke_manifest \<Rightarrow> resolved_trial list \<Rightarrow> analysis_error + random_replay" where
  "random_selection_replay m trials =
     (if mf_suite m \<noteq> SuiteDev then Inl DevelopmentOnly
      else
        let rows = sorted_rows trials; normal = normal_rows rows;
            selections = map (select_row (selected_weak (mf_seed m) normal)) (zip rows [0..<length rows])
        in Inr \<lparr>rr_source = mf_evidence m, rr_manifest = mf_hash m, rr_seed = mf_seed m, rr_weak = weak_count normal,
             rr_recorded = count_selections (\<lambda>s. sl_tier s \<noteq> None) selections,
             rr_pass = count_selections (\<lambda>s. sl_tier s \<noteq> None \<and> sl_outcome s = OutPass) selections,
             rr_fail = count_selections (\<lambda>s. sl_tier s \<noteq> None \<and> sl_outcome s = OutFail) selections,
             rr_unavailable = count_selections
               (\<lambda>s. sl_tier s = None \<or> sl_outcome s \<noteq> OutPass \<and> sl_outcome s \<noteq> OutFail) selections,
             rr_selections = selections\<rparr>)"


subsection \<open>Replayed groups\<close>

lemma group_all_snoc: "group_all key (trials @ [t]) = replace_trial key (group_all key trials) t"
  by (simp add: group_all_def)

lemma keys_group_all:
  "distinct (map fst (group_all key trials)) \<and> fst ` set (group_all key trials) = key ` set trials"
proof (induction trials rule: rev_induct)
  case (snoc t trials)
  then have "distinct (map fst (group_all key (trials @ [t])))"
    by (auto simp: group_all_snoc replace_trial_def keys_put_group simp del: set_map simp add: set_map)
  moreover have "fst ` set (group_all key (trials @ [t])) = insert (key t) (key ` set trials)"
    using arg_cong [OF keys_put_group [of "key t" "(group_of (key t) (group_all key trials))(tr_mode t \<mapsto> t)" "group_all key trials"], of set] snoc
    by (auto simp: group_all_snoc replace_trial_def split: if_splits)
  ultimately show ?case by auto
qed (simp add: group_all_def)

lemma group_all_length: "length (group_all key trials) = card (key ` set trials)"
  using keys_group_all [of key trials] distinct_card [of "map fst (group_all key trials)"] by simp

lemma grouped_all:
  assumes "group_trials trials groups = Inr groups'"
  shows "foldl (replace_trial pair_key) groups trials = groups'"
  using assms
proof (induction trials arbitrary: groups)
  case (Cons t trials)
  then have "group_trials trials (add_trial t groups) = Inr groups'" by (simp split: if_splits)
  from Cons.IH [OF this] show ?case by (simp add: replace_trial_def add_trial_def)
qed simp

lemma replay_groups: "group_trials trials [] = Inr groups \<Longrightarrow> group_all pair_key trials = groups"
  by (simp add: group_all_def grouped_all)

lemma replay_group_count: "length (group_all pair_key trials) = comparisons trials"
  by (simp add: group_all_length comparisons_keys)

lemma replay_rows_Inr:
  assumes "replay_thresholds now m trials = Inr replay"
  shows "th_rows replay = map (replay_row_of (group_all pair_key trials)) replay_levels"
  using assms by (auto simp: replay_thresholds_def split: if_splits)

lemma row_partition:
  "rw_pass (replay_row_of groups threshold) + rw_fail (replay_row_of groups threshold) +
     rw_unavailable (replay_row_of groups threshold) = length groups"
proof -
  have "\<forall>(k, g) \<in> set groups. replayed_outcome threshold g \<in> set [Some OutPass, Some OutFail, None]"
    by (auto simp: replayed_outcome_def evaluated_def is_evaluated_def split: option.splits if_splits)
  from count_groups_partition [OF _ this] show ?thesis by (simp add: replay_row_of_def Let_def)
qed

lemma row_selections:
  "rw_weak (replay_row_of groups threshold) + rw_strong (replay_row_of groups threshold) =
     count_groups (\<lambda>g. decision_of (g Routed) \<noteq> None) groups"
proof -
  have "count_groups (\<lambda>g. selection_of threshold g = Some TierWeak) groups +
      count_groups (\<lambda>g. selection_of threshold g = Some TierStrong) groups =
      count_groups (\<lambda>g. decision_of (g Routed) \<noteq> None) groups"
  proof (induction groups)
    case (Cons kg groups)
    obtain k g where "kg = (k, g)" by fastforce
    with Cons show ?case
      by (cases "decision_of (g Routed)"; cases "selection_of threshold g = Some TierWeak")
        (auto simp: count_groups_def selection_of_def split: option.splits intro: tier.exhaust)
  qed (simp add: count_groups_def)
  then show ?thesis by (simp add: replay_row_of_def Let_def)
qed

lemma row_fallback: "rw_fallback (replay_row_of groups threshold) \<le> rw_strong (replay_row_of groups threshold)"
  unfolding replay_row_of_def Let_def
  by (simp, rule count_groups_mono) (auto simp: selection_of_def replay_tier_def falls_back_def split: option.splits)

lemma row_costs:
  "rw_cost_complete (replay_row_of groups threshold) + rw_cost_omitted (replay_row_of groups threshold) = length groups"
  using sum_length_filter_compl [of "\<lambda>c. c \<noteq> None" "map (\<lambda>(k, g). replayed_cost threshold g) groups"]
  by (simp add: replay_row_of_def Let_def)

lemma selects_weak:
  "selection_of threshold g = Some TierWeak \<longleftrightarrow>
     (\<exists>d p. decision_of (g Routed) = Some d \<and> rd_source d \<noteq> FromFallback \<and> rd_probability d = Some p \<and> threshold \<le> p)"
  by (cases "decision_of (g Routed)") (auto simp: selection_of_def replay_tier_def split: option.splits)

lemma row_antitone:
  assumes "a \<le> b"
  shows "rw_weak (replay_row_of groups b) \<le> rw_weak (replay_row_of groups a)"
proof -
  have "count_groups (\<lambda>g. selection_of b g = Some TierWeak) groups \<le> count_groups (\<lambda>g. selection_of a g = Some TierWeak) groups"
    by (rule count_groups_mono) (use assms order_trans in \<open>auto simp: selects_weak\<close>)
  then show ?thesis by (simp add: replay_row_of_def Let_def)
qed

lemma row_threshold [simp]: "rw_threshold (replay_row_of groups threshold) = threshold"
  "rw_planned (replay_row_of groups threshold) = length groups"
  by (simp_all add: replay_row_of_def Let_def)

lemma replay_levels_sorted: "sorted_wrt (<) replay_levels"
  by (simp add: replay_levels_def)


text \<open>
  How a decision is made at a threshold: the classifier selects the weak model exactly when its probability
  reaches the threshold, and a fallback is strong. The relation of sources and probabilities is that of
  \<open>decision_sound\<close>; the comparison is that of the classifier, outside the source.
\<close>

definition decided_at :: "real \<Rightarrow> routing_decision \<Rightarrow> bool" where
  "decided_at c d \<longleftrightarrow> (case rd_source d of
     FromClassifier \<Rightarrow> (case rd_probability d of None \<Rightarrow> False | Some p \<Rightarrow> (rd_tier d = TierWeak) = (p \<ge> c))
   | FromFallback \<Rightarrow> rd_tier d = TierStrong
   | FixedBaseline \<Rightarrow> False)"

lemma decided_tier:
  "decided_at c d \<Longrightarrow> rd_tier d = TierWeak \<longleftrightarrow> (\<exists>p. rd_source d \<noteq> FromFallback \<and> rd_probability d = Some p \<and> c \<le> p)"
  by (auto simp: decided_at_def split: decision_source.splits option.splits)

lemma routed_decision:
  "t \<in> set trials \<Longrightarrow> tr_mode t = Routed \<Longrightarrow> trial_decision t = Some d \<Longrightarrow> d \<in> set (routed_decisions_of trials)"
  by (auto simp: routed_decisions_of_def map_filter_def image_iff intro!: bexI [of _ t])

subsection \<open>The random control\<close>

lemma random_key_inj: "random_key s = random_key t \<longleftrightarrow> tr_task s = tr_task t \<and> tr_repetition s = tr_repetition t"
proof
  assume eq: "random_key s = random_key t"
  have rep: "takeWhile (\<lambda>c. c \<noteq> CHR '':'') (rev (random_key u)) = rev (nat_string (tr_repetition u))" for u
  proof -
    have "\<not> is_digit (CHR '':'')" by code_simp
    then have "CHR '':'' \<notin> set (nat_string (tr_repetition u))" using nat_string_digits [of "tr_repetition u"] by (metis list_all_iff)
    then have "takeWhile (\<lambda>c. c \<noteq> CHR '':'') (rev (nat_string (tr_repetition u)) @ CHR '':'' # rev (tr_task u)) = rev (nat_string (tr_repetition u))"
      by (subst takeWhile_append2) auto
    then show ?thesis by (simp add: random_key_def)
  qed
  have "nat_string (tr_repetition s) = nat_string (tr_repetition t)" using rep [of s] rep [of t] eq by simp
  then have "tr_repetition s = tr_repetition t" by (simp only: nat_string_inj)
  then show "tr_task s = tr_task t \<and> tr_repetition s = tr_repetition t" using eq by (simp add: random_key_def)
qed (simp add: random_key_def)

lemma length_insert_entry [simp]: "length (insert_entry le x xs) = Suc (length xs)"
  by (induction xs) simp_all

lemma length_sort_entries [simp]: "length (sort_entries le xs) = length xs"
  by (induction xs) simp_all

lemma random_rows: "length (sorted_rows trials) = comparisons trials"
proof -
  have "random_key ` set trials = (\<lambda>(task, n). task @ '':'' @ nat_string n) ` (\<lambda>t. (tr_task t, tr_repetition t)) ` set trials"
    by (simp add: image_image random_key_def)
  moreover have "inj_on (\<lambda>(task, n). task @ '':'' @ nat_string n) ((\<lambda>t. (tr_task t, tr_repetition t)) ` set trials)"
    using random_key_inj by (auto simp: inj_on_def random_key_def)
  ultimately show ?thesis by (simp add: sorted_rows_def group_all_length comparisons_def card_image)
qed

text \<open>The decision of a repetition that the classifier made with a probability.\<close>

definition classified :: "resolved_trial \<Rightarrow> bool" where
  "classified t \<longleftrightarrow> tr_mode t = Routed \<and>
     (\<exists>d p. trial_decision t = Some d \<and> rd_source d = FromClassifier \<and> rd_probability d = Some p)"

definition classified_weak :: "resolved_trial \<Rightarrow> bool" where
  "classified_weak t \<longleftrightarrow> classified t \<and> map_option rd_tier (trial_decision t) = Some TierWeak"

definition routed_weak :: "trial_group \<Rightarrow> bool" where
  "routed_weak g \<longleftrightarrow> is_normal g \<and> map_option rd_tier (decision_of (g Routed)) = Some TierWeak"

lemma group_of_replace:
  "group_of k (replace_trial key groups t) mode =
     (if k = key t \<and> mode = tr_mode t then Some t else group_of k groups mode)"
  by (simp add: replace_trial_def group_of_def map_of_put_group)

lemma group_all_member: "group_of k (group_all key trials) mode = Some t \<Longrightarrow> t \<in> set trials \<and> k = key t \<and> mode = tr_mode t"
proof (induction trials arbitrary: t rule: rev_induct)
  case Nil
  then show ?case by (simp add: group_all_def group_of_def)
next
  case (snoc x xs)
  show ?case
  proof (cases "k = key x \<and> mode = tr_mode x")
    case True
    then have "t = x" using snoc.prems by (simp add: group_all_snoc group_of_replace)
    with True show ?thesis by simp
  next
    case False
    then have "group_of k (group_all key xs) mode = Some t" using snoc.prems by (simp only: group_all_snoc group_of_replace if_False)
    from snoc.IH [OF this] show ?thesis by simp
  qed
qed

lemma classified_group: "g Routed = Some t \<Longrightarrow> tr_mode t = Routed \<Longrightarrow>
    (is_normal g \<longleftrightarrow> classified t) \<and> (routed_weak g \<longleftrightarrow> classified_weak t)"
  by (auto simp: routed_weak_def is_normal_def classified_def classified_weak_def decision_of_def split: option.splits)

lemma unrouted_group: "g Routed = None \<Longrightarrow> \<not> is_normal g \<and> \<not> routed_weak g"
  by (simp add: routed_weak_def is_normal_def decision_of_def)

text \<open>When no repetition was recorded twice in a mode, the groups hold each decision of the classifier once.\<close>

lemma routed_weak_count:
  assumes "distinct (map (\<lambda>t. (key t, tr_mode t)) trials)"
  shows "count_groups routed_weak (group_all key trials) = length (filter classified_weak trials)"
  using assms
proof (induction trials rule: rev_induct)
  case Nil
  then show ?case by (simp add: group_all_def count_groups_def)
next
  case (snoc t trials)
  let ?groups = "group_all key trials"
  let ?old = "group_of (key t) ?groups"
  have fresh: "?old (tr_mode t) = None"
  proof (rule ccontr)
    assume "?old (tr_mode t) \<noteq> None"
    then obtain t' where "t' \<in> set trials" "key t' = key t" "tr_mode t' = tr_mode t" using group_all_member by (metis not_None_eq)
    then show False using snoc.prems by (simp add: image_iff) (metis (no_types))
  qed
  have none: "\<not> routed_weak (\<lambda>_. None)" by (simp add: unrouted_group)
  have put: "count_groups routed_weak (group_all key (trials @ [t])) + (if routed_weak ?old then 1 else 0) =
      count_groups routed_weak ?groups + (if routed_weak (?old(tr_mode t \<mapsto> t)) then 1 else 0)"
    using count_put_group [where p = routed_weak and k = "key t" and g = "?old(tr_mode t \<mapsto> t)", OF conjunct1 [OF keys_group_all [of key trials]] none]
    by (simp add: group_all_snoc replace_trial_def)
  have "(if routed_weak (?old(tr_mode t \<mapsto> t)) then 1 else 0) = (if routed_weak ?old then 1 else 0) + (if classified_weak t then 1 else (0::nat))"
  proof (cases "tr_mode t = Routed")
    case True
    then show ?thesis using fresh classified_group [of "?old(tr_mode t \<mapsto> t)" t] unrouted_group [of ?old] by simp
  next
    case False
    then have "routed_weak (?old(tr_mode t \<mapsto> t)) = routed_weak ?old" by (simp add: routed_weak_def is_normal_def)
    then show ?thesis using False by (simp add: classified_weak_def classified_def)
  qed
  with put snoc show ?case by simp
qed

lemma weak_count_groups: "weak_count (normal_rows (sorted_rows trials)) = count_groups routed_weak (group_all random_key trials)"
proof -
  have "weak_count (normal_rows rows) = length (filter routed_weak rows)" for rows
  proof -
    have "weak_count (normal_rows rows) = length (filter (\<lambda>(g, _). routed_weak g) (zip rows [0..<length rows]))"
      by (simp add: weak_count_def normal_rows_def routed_weak_def case_prod_unfold conj_commute)
    also have "\<dots> = length (filter routed_weak (map fst (zip rows [0..<length rows])))"
      by (simp add: filter_map comp_def case_prod_unfold del: map_fst_zip)
    finally show ?thesis by simp
  qed
  moreover have "length (filter routed_weak (map snd kvs)) = length (filter (\<lambda>(k, g). routed_weak g) kvs)" for kvs
    by (simp add: filter_map comp_def case_prod_unfold)
  moreover have "length (filter p (sort_entries code_unit_le kvs)) = length (filter p kvs)" for p and kvs :: trial_groups
    by (metis mset_filter size_mset mset_sort_entries)
  ultimately show ?thesis by (simp add: sorted_rows_def count_groups_def)
qed

lemma sorted_row_member:
  assumes "i < length (sorted_rows trials)" "(sorted_rows trials ! i) mode = Some t"
  shows "t \<in> set trials \<and> mode = tr_mode t"
proof -
  have "sorted_rows trials ! i \<in> set (sorted_rows trials)" using assms(1) by simp
  then obtain k where "(k, sorted_rows trials ! i) \<in> set (sort_entries code_unit_le (group_all random_key trials))"
    by (auto simp: sorted_rows_def)
  then have "(k, sorted_rows trials ! i) \<in> set (group_all random_key trials)"
    by (metis set_mset_mset mset_sort_entries)
  then have "group_of k (group_all random_key trials) mode = Some t"
    using keys_group_all [of random_key trials] assms(2) by (simp add: group_of_def map_of_is_SomeI)
  then show ?thesis using group_all_member by blast
qed

lemma normal_indices:
  assumes "(g, i) \<in> set (normal_rows rows)"
  shows "i < length rows \<and> g = rows ! i \<and> is_normal g"
  using assms by (auto simp: normal_rows_def in_set_zip)

lemma normal_distinct: "distinct (map snd (normal_rows rows))"
proof -
  have "distinct (map snd (zip rows [0..<length rows]))" by simp
  then show ?thesis by (simp add: normal_rows_def distinct_map_filter)
qed

lemma selected_facts:
  "i \<in> selected_weak seed (normal_rows rows) \<Longrightarrow> i < length rows \<and> is_normal (rows ! i)"
  "card (selected_weak seed (normal_rows rows)) = weak_count (normal_rows rows)"
proof -
  let ?normal = "normal_rows rows"
  let ?shuffled = "fst (shuffle mulberry32 ?normal (mulberry_seed seed))"
  show "i < length rows \<and> is_normal (rows ! i)" if sel: "i \<in> selected_weak seed ?normal"
  proof -
    obtain gi where gi: "i = snd gi" "gi \<in> set (take (weak_count ?normal) ?shuffled)"
      using sel unfolding selected_weak_def set_map by (rule imageE)
    then obtain g where "(g, i) \<in> set ?shuffled" by (cases gi) (auto dest: in_set_takeD)
    then have "(g, i) \<in> set ?normal" by (simp add: mulberry.shuffle_set)
    then show ?thesis using normal_indices by blast
  qed
  have "mset (map snd ?shuffled) = mset (map snd ?normal)" by (simp add: mulberry.shuffle_mset)
  then have "distinct (map snd ?shuffled)" using normal_distinct mset_eq_imp_distinct_iff by blast
  then have "distinct (map snd (take (weak_count ?normal) ?shuffled))" by (simp add: take_map [symmetric])
  moreover have "weak_count ?normal \<le> length ?shuffled" by (simp add: weak_count_def mulberry.shuffle_length)
  ultimately show "card (selected_weak seed ?normal) = weak_count ?normal"
    unfolding selected_weak_def by (subst distinct_card) (simp_all only: length_map length_take min_absorb2)
qed

lemma count_map: "count_selections p (map f xs) = length (filter (\<lambda>x. p (f x)) xs)"
  by (simp add: count_selections_def comp_def)

lemma filter_indices: "length (filter (\<lambda>(x, i). P i) (zip xs [0..<length xs])) = card {i. i < length xs \<and> P i}"
proof -
  have "length (filter (\<lambda>(x, i). P i) (zip xs [0..<length xs])) = length (filter P (map snd (zip xs [0..<length xs])))"
    by (simp add: filter_map comp_def case_prod_unfold del: map_snd_zip)
  also have "\<dots> = length (filter P [0..<length xs])" by simp
  also have "\<dots> = card {i. i < length xs \<and> P i}" by (subst length_filter_conv_card) (auto intro: arg_cong [where f = card])
  finally show ?thesis .
qed

lemma selected_count:
  "count_selections (\<lambda>s. sl_tier s = Some TierWeak)
     (map (select_row (selected_weak seed (normal_rows rows))) (zip rows [0..<length rows])) = weak_count (normal_rows rows)"
proof -
  let ?chosen = "selected_weak seed (normal_rows rows)"
  have "count_selections (\<lambda>s. sl_tier s = Some TierWeak) (map (select_row ?chosen) (zip rows [0..<length rows])) =
      length (filter (\<lambda>(g, i). i \<in> ?chosen) (zip rows [0..<length rows]))"
    unfolding count_map
  proof (rule arg_cong [where f = length], rule filter_cong [OF refl])
    fix x
    assume "x \<in> set (zip rows [0..<length rows])"
    then have x: "x = (rows ! snd x, snd x)" by (auto simp: in_set_zip prod_eq_iff)
    define i where "i = snd x"
    note x = x [folded i_def]
    have "decision_of ((rows ! i) Routed) \<noteq> None" if "i \<in> ?chosen"
      using selected_facts(1) [OF that] by (auto simp: is_normal_def split: option.splits)
    then show "sl_tier (select_row ?chosen x) = Some TierWeak \<longleftrightarrow> (case x of (g, i) \<Rightarrow> i \<in> ?chosen)"
      by (subst (1 2) x) (auto simp: select_row_def Let_def split: option.splits)
  qed
  also have "\<dots> = card {i. i < length rows \<and> i \<in> ?chosen}" by (rule filter_indices)
  also have "{i. i < length rows \<and> i \<in> ?chosen} = ?chosen" using selected_facts(1) by blast
  finally show ?thesis by (simp only: selected_facts(2))
qed

lemma selection_outcomes:
  "count_selections (\<lambda>s. sl_tier s \<noteq> None \<and> sl_outcome s = OutPass) ss +
   count_selections (\<lambda>s. sl_tier s \<noteq> None \<and> sl_outcome s = OutFail) ss +
   count_selections (\<lambda>s. sl_tier s = None \<or> sl_outcome s \<noteq> OutPass \<and> sl_outcome s \<noteq> OutFail) ss = length ss"
  by (induction ss) (auto simp: count_selections_def)


subsection \<open>Example\<close>

definition example_dev :: smoke_manifest where
  "example_dev = example_smoke\<lparr>mf_suite := SuiteDev\<rparr>"

lemma example_dev_fields [simp]: "mf_suite example_dev = SuiteDev"
  by (simp add: example_dev_def)

lemma example_dev_aggregates: "\<exists>r. aggregate_experiment le example_dev example_trials = Inr r"
proof -
  have "mf_evidence example_dev = mf_evidence example_smoke" "mf_schedule example_dev = mf_schedule example_smoke"
    by (simp_all add: example_dev_def)
  then have "trials_fit example_dev example_trials" using example_fit unfolding trials_fit_def by (simp cong: option.case_cong)
  moreover note manifest_report_fields [OF standard.json_validator_axioms example_smoke_read]
  ultimately show ?thesis using fit_aggregates [of example_dev example_trials le] by (auto simp: example_dev_def)
qed

lemma example_decisions:
  assumes "t \<in> set example_trials" "trial_decision t = Some d"
  shows "d = example_decision_for TierWeak (7 / 10)"
  using assms by (auto simp: example_trials_def example_trial_def Let_def trial_decision_def)

subsection \<open>Properties\<close>

text \<open>C29: At every threshold a replay accounts for each repetition of a task once as passed, failed or
  unavailable, and for each recorded decision once as weak or strong, with fallbacks among the strong
  ones; costs are complete or omitted for each; and a higher threshold never selects the weak model more
  often.\<close>

theorem replay_accounts:
  assumes "replay_thresholds now m trials = Inr replay"
  shows "list_all (\<lambda>row. rw_planned row = comparisons trials \<and>
      rw_pass row + rw_fail row + rw_unavailable row = comparisons trials \<and>
      rw_cost_complete row + rw_cost_omitted row = comparisons trials \<and>
      rw_weak row + rw_strong row = count_groups (\<lambda>g. decision_of (g Routed) \<noteq> None) (group_all pair_key trials) \<and>
      rw_fallback row \<le> rw_strong row) (th_rows replay) \<and>
    sorted_wrt (\<lambda>row row'. rw_threshold row < rw_threshold row' \<and> rw_weak row' \<le> rw_weak row) (th_rows replay)"
proof -
  have "sorted_wrt (\<lambda>a b. a < b \<and> rw_weak (replay_row_of (group_all pair_key trials) b)
      \<le> rw_weak (replay_row_of (group_all pair_key trials) a)) replay_levels"
    by (rule sorted_wrt_mono_rel [OF _ replay_levels_sorted]) (simp add: row_antitone)
  then show ?thesis
    using row_partition [of "group_all pair_key trials"] row_costs [of "group_all pair_key trials"]
      row_selections [of "group_all pair_key trials"] row_fallback [of "group_all pair_key trials"]
    by (simp add: replay_rows_Inr [OF assms] list_all_iff replay_group_count sorted_wrt_map)
qed

theorem replay_accounts_witness:
  "\<exists>replay. replay_thresholds ''t'' example_dev example_trials = Inr replay \<and> length (th_rows replay) = 11 \<and>
     list_all (\<lambda>row. rw_pass row + rw_fail row + rw_unavailable row = 1) (th_rows replay)"
proof -
  obtain replay where r: "replay_thresholds ''t'' example_dev example_trials = Inr replay"
    by (simp add: replay_thresholds_def)
  have "comparisons example_trials = 1" by (simp add: comparisons_def example_trials_def example_trial_def Let_def)
  moreover have "length (th_rows replay) = 11" by (simp add: replay_rows_Inr [OF r] replay_levels_def)
  ultimately show ?thesis using replay_accounts [OF r] r by (auto simp: list_all_iff)
qed

text \<open>C28: Replaying at the threshold the decisions were made with selects exactly what was routed: when every
  routed decision was made at the threshold of a row, weak exactly if the classifier's probability reaches it
  and strong for a fallback, that row and the routing section of the report of the same trials count the
  same weak and strong selections.\<close>

theorem replay_reproduces_routing:
  assumes "replay_thresholds now m trials = Inr replay" "aggregate_experiment le m trials = Inr r"
    and "row \<in> set (th_rows replay)"
    and "\<forall>d \<in> set (routed_decisions_of trials). decided_at (rw_threshold row) d"
  shows "rw_weak row = rg_weak (ex_routing r) \<and> rw_strong row = rg_strong (ex_routing r)"
proof -
  obtain groups where g: "group_trials trials [] = Inr groups" "r = experiment_report_of le m trials groups"
    by (rule aggregate_Inr [OF assms(2)])
  have row: "row = replay_row_of groups (rw_threshold row)"
    using assms(3) by (auto simp: replay_rows_Inr [OF assms(1)] replay_groups [OF g(1)])
  have "rw_weak row = count_groups (\<lambda>g. selection_of (rw_threshold row) g = Some TierWeak) groups"
    by (subst row) (simp add: replay_row_of_def Let_def)
  also have "\<dots> = count_groups (\<lambda>g. pred_option (\<lambda>d. rd_tier d = TierWeak) (decision_of (g Routed)) \<and>
      decision_of (g Routed) \<noteq> None) groups"
    unfolding count_groups_def
  proof (rule arg_cong [where f = length], rule filter_cong [OF refl], clarify)
    fix k g
    assume kg: "(k, g) \<in> set groups"
    have "rd_tier d = TierWeak \<longleftrightarrow> selection_of (rw_threshold row) g = Some TierWeak" if d: "decision_of (g Routed) = Some d" for d
    proof -
      obtain t where t: "g Routed = Some t" "trial_decision t = Some d" using d by (cases "g Routed") (auto simp: decision_of_def)
      then have "d \<in> set (routed_decisions_of trials)" using grouped_members [OF g(1) kg] by (auto intro!: routed_decision)
      then show ?thesis using decided_tier assms(4) d by (auto simp: selects_weak)
    qed
    then show "selection_of (rw_threshold row) g = Some TierWeak \<longleftrightarrow>
        pred_option (\<lambda>d. rd_tier d = TierWeak) (decision_of (g Routed)) \<and> decision_of (g Routed) \<noteq> None"
      by (cases "decision_of (g Routed)") (auto simp: selection_of_def)
  qed
  also have "\<dots> = length (filter (\<lambda>d. rd_tier d = TierWeak) (routed_decisions_of trials))"
    using decisions_grouped [OF g(1)] by (simp add: count_groups_def)
  finally have weak: "rw_weak row = length (filter (\<lambda>d. rd_tier d = TierWeak) (routed_decisions_of trials))" .
  have "rw_weak row + rw_strong row = length (routed_decisions_of trials)"
    using row_selections [of groups "rw_threshold row"] decisions_grouped [OF g(1), of "\<lambda>_. True"]
    by (subst (1 2) row) (simp add: option.pred_True count_groups_def)
  with weak show ?thesis by (simp add: g(2) aggregate_parts routing_counts_of_def Let_def)
qed

theorem replay_reproduces_routing_witness:
  "\<exists>replay r row. replay_thresholds ''t'' example_dev example_trials = Inr replay \<and>
     aggregate_experiment (\<lambda>_ _. True) example_dev example_trials = Inr r \<and>
     row \<in> set (th_rows replay) \<and> rw_threshold row = 1 / 2 \<and> rw_weak row = 1 \<and> rw_weak row = rg_weak (ex_routing r)"
proof -
  obtain replay where replay: "replay_thresholds ''t'' example_dev example_trials = Inr replay"
    by (simp add: replay_thresholds_def)
  obtain r where r: "aggregate_experiment (\<lambda>_ _. True) example_dev example_trials = Inr r" using example_dev_aggregates by blast
  define row where "row = replay_row_of (group_all pair_key example_trials) (1 / 2)"
  have row: "row \<in> set (th_rows replay)" "rw_threshold row = 1 / 2"
    by (simp_all add: row_def replay_rows_Inr [OF replay] replay_levels_def)
  have decisions: "routed_decisions_of example_trials = [example_decision_for TierWeak (7 / 10)]"
    by (simp add: routed_decisions_of_def example_trials_def example_trial_def Let_def trial_decision_def map_filter_simps)
  then have "\<forall>d \<in> set (routed_decisions_of example_trials). decided_at (rw_threshold row) d"
    by (simp add: row(2) decided_at_def example_decision_for_def)
  from replay_reproduces_routing [OF replay r row(1) this] have "rw_weak row = rg_weak (ex_routing r)" ..
  moreover obtain groups where "r = experiment_report_of (\<lambda>_ _. True) example_dev example_trials groups"
    by (rule aggregate_Inr [OF r])
  then have "rg_weak (ex_routing r) = 1"
    by (simp add: aggregate_parts routing_counts_of_def Let_def decisions example_decision_for_def)
  ultimately show ?thesis using replay r row by auto
qed

text \<open>C30: The random control is a fair one: when no repetition was recorded twice in a mode, it selects the weak
  model exactly as often as the classifier did, which is the number of routed trials whose decision came
  from the classifier with a probability and was weak, and reports this number; it selects it only for
  repetitions whose decision came from the classifier with a probability, never for a fallback; and each
  repetition is counted once as passed, failed or unavailable.\<close>

theorem random_control_fair:
  assumes "random_selection_replay m trials = Inr rr"
    and "distinct (map (\<lambda>t. (tr_task t, tr_repetition t, tr_mode t)) trials)"
  shows "count_selections (\<lambda>s. sl_tier s = Some TierWeak) (rr_selections rr) = length (filter classified_weak trials) \<and>
    rr_weak rr = length (filter classified_weak trials) \<and>
    (\<forall>s \<in> set (rr_selections rr). sl_tier s = Some TierWeak \<longrightarrow>
       (\<exists>t \<in> set trials. classified t \<and> sl_task s = Some (tr_task t) \<and> sl_repetition s = Some (tr_repetition t))) \<and>
    length (rr_selections rr) = comparisons trials \<and>
    rr_pass rr + rr_fail rr + rr_unavailable rr = comparisons trials"
proof -
  define rows where "rows = sorted_rows trials"
  define chosen where "chosen = selected_weak (mf_seed m) (normal_rows rows)"
  have s: "rr_selections rr = map (select_row chosen) (zip rows [0..<length rows])"
    and w: "rr_weak rr = weak_count (normal_rows rows)"
    and parts: "rr_pass rr = count_selections (\<lambda>s. sl_tier s \<noteq> None \<and> sl_outcome s = OutPass) (rr_selections rr)"
      "rr_fail rr = count_selections (\<lambda>s. sl_tier s \<noteq> None \<and> sl_outcome s = OutFail) (rr_selections rr)"
      "rr_unavailable rr = count_selections
        (\<lambda>s. sl_tier s = None \<or> sl_outcome s \<noteq> OutPass \<and> sl_outcome s \<noteq> OutFail) (rr_selections rr)"
    using assms(1) by (auto simp: random_selection_replay_def rows_def chosen_def Let_def split: if_splits)
  have len: "length (rr_selections rr) = comparisons trials" by (simp add: s rows_def random_rows)
  have "distinct (map (\<lambda>t. (random_key t, tr_mode t)) trials)"
    using assms(2) random_key_inj by (auto simp: distinct_map inj_on_def)
  then have weak: "weak_count (normal_rows rows) = length (filter classified_weak trials)"
    by (simp add: rows_def weak_count_groups routed_weak_count)
  have "\<exists>t \<in> set trials. classified t \<and> sl_task x = Some (tr_task t) \<and> sl_repetition x = Some (tr_repetition t)"
    if x: "x \<in> set (rr_selections rr)" "sl_tier x = Some TierWeak" for x
  proof -
    obtain i where i: "i < length rows" "x = select_row chosen (rows ! i, i)" using x(1) by (auto simp: s in_set_zip)
    then have "i \<in> chosen" using x(2) by (auto simp: select_row_def Let_def split: option.splits if_splits)
    then have normal: "is_normal (rows ! i)" using selected_facts(1) by (simp add: chosen_def)
    then obtain t where t: "(rows ! i) Routed = Some t" by (cases "(rows ! i) Routed") (simp_all add: unrouted_group)
    then have mem: "t \<in> set trials" "tr_mode t = Routed" using sorted_row_member [of i trials Routed t] i(1) by (simp_all add: rows_def)
    have "sl_task x = Some (tr_task t)" "sl_repetition x = Some (tr_repetition t)"
      using normal t by (auto simp: i(2) select_row_def Let_def is_normal_def split: option.splits)
    then show ?thesis using mem normal classified_group [where g = "rows ! i", OF t mem(2)] by blast
  qed
  then show ?thesis
    using len weak selected_count [of "mf_seed m" rows] selection_outcomes [of "rr_selections rr"] by (simp add: s w parts chosen_def)
qed

theorem random_control_fair_witness:
  "\<exists>rr. random_selection_replay example_dev example_trials = Inr rr \<and>
     count_selections (\<lambda>s. sl_tier s = Some TierWeak) (rr_selections rr) = 1 \<and> length (rr_selections rr) = 1"
proof -
  obtain rr where rr: "random_selection_replay example_dev example_trials = Inr rr"
    by (simp add: random_selection_replay_def Let_def)
  have "classified_weak (example_trial Routed OutFail (Some (example_decision_for TierWeak (7 / 10))))"
    unfolding classified_weak_def classified_def
    by (intro conjI exI [of _ "example_decision_for TierWeak (7 / 10)"] exI [of _ "7 / 10"])
      (simp_all add: example_trial_def Let_def trial_decision_def example_decision_for_def)
  then have weak: "length (filter classified_weak example_trials) = 1"
    by (simp add: example_trials_def) (simp add: classified_weak_def classified_def example_trial_def Let_def)
  have dist: "distinct (map (\<lambda>t. (tr_task t, tr_repetition t, tr_mode t)) example_trials)"
    by (simp add: example_trials_def example_trial_def Let_def)
  have "comparisons example_trials = 1" by (simp add: comparisons_def example_trials_def example_trial_def Let_def)
  then show ?thesis using random_control_fair [OF rr dist] rr weak by simp
qed

end
