(* ===== verification/Policy.thy ===== *)
theory Policy
  imports Trial_Records Manifest_Identity
begin

section \<open>Frozen policies (src/evaluation/analysis.ts)\<close>

text \<open>
  A development experiment is closed by freezing a policy: the threshold that was chosen, the digest of
  the records it was chosen from, and the configuration, roles and provider fingerprints it holds for. A
  policy file is written once. A held-out experiment is verified against it before it may start. Policies
  are JSON values, since they are hashed and compared as they are written. \<open>digest\<close> is the SHA-256 of
  \<open>JSON.stringify\<close>, \<open>date_parse\<close> says whether \<open>Date.parse\<close> reads a string, and \<open>result_json\<close> is the
  JSON a result was read from.
\<close>

datatype policy_error =
    PolicyRecords analysis_error
  | ThresholdRange
  | FreezeDevelopmentOnly
  | IncompleteDevelopment
  | UnevaluatedDevelopment
  | PolicyBenchmark benchmark_error
  | PolicyUnreadable
  | PolicyFields
  | PolicyInvalid
  | PolicyConfig config_error
  | PolicyDisagrees
  | PolicyHashMismatch
  | PolicyImmutable
  | HeldoutConfig config_error
  | HeldoutUnreadable
  | HeldoutChanged

subsection \<open>The configuration without its threshold\<close>

text \<open>The members \<open>{...value}\<close> copies; what is not an object has none a configuration could have.\<close>

fun object_members :: "json \<Rightarrow> (string \<times> json) list" where
  "object_members (JObj kvs) = kvs"
| "object_members _ = []"

definition config_without_threshold :: "json \<Rightarrow> json" where
  "config_without_threshold c = JObj
     (filter (\<lambda>kv. fst kv \<noteq> ''routing'') (object_members c) @
      [(''routing'', json_without ''weakThreshold'' (json_get ''routing'' c))])"

definition config_with_threshold :: "json \<Rightarrow> json \<Rightarrow> json" where
  "config_with_threshold threshold c =
     json_set ''routing'' (json_set ''weakThreshold'' threshold (JObj (object_members (json_get ''routing'' c))))
       (JObj (object_members c))"

subsection \<open>Validating a policy\<close>

definition policy_keys :: "json \<Rightarrow> string list" where
  "policy_keys p =
     [''schemaVersion'', ''policyId'', ''createdAt'', ''threshold'', ''development'', ''provenance''] @
     (if json_get ''schemaVersion'' p = JNum 2 then [''benchmark''] else [])"

definition development_keys :: "string list" where
  "development_keys = [''experimentId'', ''manifestHash'', ''sourceHash'', ''evidenceKind'', ''corpusRevision'']"

definition provenance_keys :: "string list" where
  "provenance_keys =
     [''authProfile'', ''capabilityCardHash'', ''modelMetadataHash'', ''providerConfigHash'', ''roles'',
      ''configurationWithoutThreshold'']"

fun is_threshold :: "json \<Rightarrow> bool" where
  "is_threshold (JNum r) \<longleftrightarrow> 0 \<le> r \<and> r \<le> 1"
| "is_threshold _ \<longleftrightarrow> False"

fun is_string_with :: "(string \<Rightarrow> bool) \<Rightarrow> json \<Rightarrow> bool" where
  "is_string_with p (JStr s) = p s"
| "is_string_with p _ = False"

definition policy_values_ok :: "(string \<Rightarrow> bool) \<Rightarrow> json \<Rightarrow> bool" where
  "policy_values_ok date_parse p \<longleftrightarrow>
     (let development = json_get ''development'' p; prov = json_get ''provenance'' p
      in json_get ''schemaVersion'' p \<in> {JNum 1, JNum 2} \<and>
         is_string_with is_hash (json_get ''policyId'' p) \<and>
         is_threshold (json_get ''threshold'' p) \<and>
         is_string_with (\<lambda>_. True) (json_get ''experimentId'' development) \<and>
         pattern_test is_hash (json_get ''manifestHash'' development) \<and>
         pattern_test is_hash (json_get ''sourceHash'' development) \<and>
         pattern_test is_hash (json_get ''corpusRevision'' development) \<and>
         json_get ''evidenceKind'' development \<in> {JStr ''mock'', JStr ''live''} \<and>
         is_string_with (\<lambda>_. True) (json_get ''authProfile'' prov) \<and>
         pattern_test is_hash (json_get ''capabilityCardHash'' prov) \<and>
         pattern_test is_hash (json_get ''modelMetadataHash'' prov) \<and>
         pattern_test is_hash (json_get ''providerConfigHash'' prov) \<and>
         is_string_with date_parse (json_get ''createdAt'' p))"

text \<open>Version 2 carries the benchmark protocol the held-out runs execute.\<close>

definition policy_benchmark_ok :: "(schema \<Rightarrow> json \<Rightarrow> bool) \<Rightarrow> (json \<Rightarrow> string) \<Rightarrow> json \<Rightarrow> policy_error + unit" where
  "policy_benchmark_ok ajv digest p =
     (if json_get ''schemaVersion'' p \<noteq> JNum 2 then Inr ()
      else
        bind_result (lift_error PolicyBenchmark (validate_benchmark_protocol ajv digest (json_get ''benchmark'' p)))
          (\<lambda>protocol.
            let configuration = json_get ''configuration'' protocol
            in if json_get ''evidenceKind'' protocol \<noteq> json_get ''evidenceKind'' (json_get ''development'' p) \<or>
                 json_get ''weakThreshold'' (json_get ''routing'' configuration) \<noteq> json_get ''threshold'' p \<or>
                 config_without_threshold configuration \<noteq>
                   json_get ''configurationWithoutThreshold'' (json_get ''provenance'' p)
               then Inl PolicyDisagrees else Inr ()))"

definition validate_frozen_policy :: "(schema \<Rightarrow> json \<Rightarrow> bool) \<Rightarrow> (json \<Rightarrow> string) \<Rightarrow> (string \<Rightarrow> bool) \<Rightarrow> json
    \<Rightarrow> policy_error + json" where
  "validate_frozen_policy ajv digest date_parse p =
     (if \<not> exact_keys p (policy_keys p) \<or> \<not> exact_keys (json_get ''development'' p) development_keys \<or>
         \<not> exact_keys (json_get ''provenance'' p) provenance_keys then Inl PolicyFields
      else if \<not> policy_values_ok date_parse p then Inl PolicyInvalid
      else
        bind_result (lift_error PolicyConfig (validate_config ajv (config_with_threshold (json_get ''threshold'' p)
          (json_get ''configurationWithoutThreshold'' (json_get ''provenance'' p))))) (\<lambda>_.
        bind_result (policy_benchmark_ok ajv digest p) (\<lambda>_.
        if json_get ''policyId'' p \<noteq> JStr (digest (json_without ''policyId'' p)) then Inl PolicyHashMismatch
        else Inr p)))"

subsection \<open>Freezing a policy\<close>

definition development_source_hash :: "(json \<Rightarrow> string) \<Rightarrow> (run_result \<Rightarrow> json) \<Rightarrow> smoke_manifest
    \<Rightarrow> resolved_trial list \<Rightarrow> string" where
  "development_source_hash digest result_json m trials = digest (JObj
     [(''manifestHash'', JStr (mf_hash m)),
      (''trials'', JArr (map (\<lambda>t. JObj
         [(''trialId'', JStr (tr_trial t)), (''attempts'', JArr (map result_json (tr_physical t))),
          (''incompletePhysicalAttempts'', JNum (real (tr_incomplete t)))]) trials))])"

definition development_json :: "(json \<Rightarrow> string) \<Rightarrow> (run_result \<Rightarrow> json) \<Rightarrow> smoke_manifest
    \<Rightarrow> resolved_trial list \<Rightarrow> json" where
  "development_json digest result_json m trials = JObj
     [(''experimentId'', json_get ''experimentId'' (mf_json m)),
      (''manifestHash'', json_get ''manifestHash'' (mf_json m)),
      (''sourceHash'', JStr (development_source_hash digest result_json m trials)),
      (''evidenceKind'', json_get ''evidenceKind'' (mf_json m)),
      (''corpusRevision'', JStr (digest (JArr (map task_identity_json (json_items (json_get ''tasks'' (mf_json m)))))))]"

definition policy_provenance_json :: "smoke_manifest \<Rightarrow> json" where
  "policy_provenance_json m =
     (let j = mf_json m; prints = json_get ''fingerprints'' j
      in JObj
        [(''authProfile'', json_get ''authProfile'' j),
         (''capabilityCardHash'', json_get ''capabilityCardHash'' prints),
         (''modelMetadataHash'', json_get ''modelMetadataHash'' prints),
         (''providerConfigHash'', json_get ''providerConfigHash'' prints),
         (''roles'', json_get ''roles'' j),
         (''configurationWithoutThreshold'', config_without_threshold (json_get ''configuration'' j))])"

definition new_policy :: "(json \<Rightarrow> string) \<Rightarrow> (run_result \<Rightarrow> json) \<Rightarrow> smoke_manifest \<Rightarrow> resolved_trial list
    \<Rightarrow> real \<Rightarrow> string \<Rightarrow> json option \<Rightarrow> json" where
  "new_policy digest result_json m trials threshold created benchmark =
     (let unnamed =
        [(''schemaVersion'', JNum (case benchmark of None \<Rightarrow> 1 | Some _ \<Rightarrow> 2))] @
        (case benchmark of None \<Rightarrow> [] | Some b \<Rightarrow> [(''benchmark'', b)]) @
        [(''createdAt'', JStr created), (''threshold'', JNum threshold),
         (''development'', development_json digest result_json m trials),
         (''provenance'', policy_provenance_json m)]
      in JObj (unnamed @ [(''policyId'', JStr (digest (JObj unnamed)))]))"

text \<open>The file \<open>policy.json\<close> of an experiment.\<close>

datatype policy_file = NoPolicy | UnparsablePolicy | StoredPolicy json

definition policy_comparable :: "json \<Rightarrow> json" where
  "policy_comparable p = json_without ''createdAt'' (json_without ''policyId'' p)"

record freeze_options =
  fo_threshold :: jsnum
  fo_created :: string
  fo_benchmark :: "(evaluation_roots \<times> string list) option"

definition freeze_benchmark :: "(schema \<Rightarrow> json \<Rightarrow> bool) \<Rightarrow> (string \<Rightarrow> string) \<Rightarrow> (json \<Rightarrow> string)
    \<Rightarrow> smoke_manifest \<Rightarrow> real \<Rightarrow> (evaluation_roots \<times> string list) option \<Rightarrow> policy_error + json option" where
  "freeze_benchmark ajv sha digest m threshold options =
     (case options of
        None \<Rightarrow> Inr None
      | Some (roots, prior) \<Rightarrow>
          bind_result (lift_error PolicyBenchmark (make_benchmark_protocol ajv sha digest (mf_json m) threshold roots prior))
            (\<lambda>protocol. Inr (Some protocol)))"

text \<open>The policy an experiment would be frozen with.\<close>

definition make_policy :: "(schema \<Rightarrow> json \<Rightarrow> bool) \<Rightarrow> (string \<Rightarrow> string) \<Rightarrow> (json \<Rightarrow> string) \<Rightarrow> (string \<Rightarrow> bool)
    \<Rightarrow> (run_result \<Rightarrow> json) \<Rightarrow> experiment_directory \<Rightarrow> freeze_options \<Rightarrow> policy_error + json" where
  "make_policy ajv sha digest date_ok result_json d options =
     (case fo_threshold options of
        Fin threshold \<Rightarrow>
          if threshold < 0 \<or> 1 < threshold then Inl ThresholdRange
          else
            bind_result (lift_error PolicyRecords (load_experiment_records ajv digest date_ok d)) (\<lambda>(m, trials).
            if mf_suite m \<noteq> SuiteDev then Inl FreezeDevelopmentOnly
            else if list_ex (\<lambda>t. tr_outcome t = OutIncomplete) trials then Inl IncompleteDevelopment
            else if fo_benchmark options \<noteq> None \<and> list_ex (\<lambda>t. \<not> is_evaluated (tr_outcome t)) trials
            then Inl UnevaluatedDevelopment
            else
              bind_result (freeze_benchmark ajv sha digest m threshold (fo_benchmark options)) (\<lambda>benchmark.
              Inr (new_policy digest result_json m trials threshold (fo_created options) benchmark)))
      | _ \<Rightarrow> Inl ThresholdRange)"

definition freeze_policy :: "(schema \<Rightarrow> json \<Rightarrow> bool) \<Rightarrow> (string \<Rightarrow> string) \<Rightarrow> (json \<Rightarrow> string) \<Rightarrow> (string \<Rightarrow> bool)
    \<Rightarrow> (string \<Rightarrow> bool) \<Rightarrow> (run_result \<Rightarrow> json) \<Rightarrow> experiment_directory \<Rightarrow> freeze_options \<Rightarrow> policy_file
    \<Rightarrow> policy_file \<times> (policy_error + json)" where
  "freeze_policy ajv sha digest date_ok date_parse result_json d options file =
     (case make_policy ajv sha digest date_ok result_json d options of
        Inl e \<Rightarrow> (file, Inl e)
      | Inr policy \<Rightarrow>
          (case file of
             NoPolicy \<Rightarrow> (StoredPolicy policy, Inr policy)
           | UnparsablePolicy \<Rightarrow> (file, Inl PolicyUnreadable)
           | StoredPolicy stored \<Rightarrow>
               (file, bind_result (validate_frozen_policy ajv digest date_parse stored) (\<lambda>existing.
                  if policy_comparable existing \<noteq> policy_comparable policy then Inl PolicyImmutable else Inr existing))))"

subsection \<open>Verifying a held-out experiment\<close>

definition heldout_matches :: "json \<Rightarrow> json \<Rightarrow> json \<Rightarrow> bool" where
  "heldout_matches policy config checked \<longleftrightarrow>
     (let prov = json_get ''provenance'' policy; prints = json_get ''fingerprint'' checked
      in json_get ''weakThreshold'' (json_get ''routing'' config) = json_get ''threshold'' policy \<and>
         config_without_threshold config = json_get ''configurationWithoutThreshold'' prov \<and>
         json_get ''authProfile'' config = json_get ''authProfile'' prov \<and>
         json_get ''models'' config = json_get ''roles'' prov \<and>
         json_get ''authProfile'' checked = json_get ''authProfile'' prov \<and>
         json_get ''capabilityCardHash'' prints = json_get ''capabilityCardHash'' prov \<and>
         json_get ''modelMetadataHash'' prints = json_get ''modelMetadataHash'' prov \<and>
         json_get ''providerConfigHash'' prints = json_get ''providerConfigHash'' prov)"

definition parsed :: "policy_error \<Rightarrow> file_read \<Rightarrow> policy_error + json" where
  "parsed e file = (case file of Parsed j \<Rightarrow> Inr j | _ \<Rightarrow> Inl e)"

definition verify_heldout_policy :: "(schema \<Rightarrow> json \<Rightarrow> bool) \<Rightarrow> (json \<Rightarrow> string) \<Rightarrow> (string \<Rightarrow> bool)
    \<Rightarrow> file_read \<Rightarrow> file_read \<Rightarrow> file_read \<Rightarrow> policy_error + json" where
  "verify_heldout_policy ajv digest date_parse policy_source config_source check_source =
     bind_result (parsed PolicyUnreadable policy_source) (\<lambda>p.
     bind_result (validate_frozen_policy ajv digest date_parse p) (\<lambda>policy.
     bind_result (parsed HeldoutUnreadable config_source) (\<lambda>j.
     bind_result (lift_error HeldoutConfig (validate_config ajv j)) (\<lambda>_.
     bind_result (parsed HeldoutUnreadable check_source) (\<lambda>checked.
     if heldout_matches policy (normalize_config_json j) checked then Inr policy else Inl HeldoutChanged)))))"

subsection \<open>Closed schemas speak of members only\<close>

lemma closed_iff:
  "schema_valid (Schema [KType [TObject], KRequired rs, KClosed ps]) j \<longleftrightarrow>
     (\<exists>kvs. j = JObj kvs) \<and> (\<forall>r \<in> set rs. json_field r j \<noteq> None) \<and>
     (\<forall>k v. json_field k j = Some v \<longrightarrow> k \<in> fst ` set ps \<and> (\<forall>s. (k, s) \<in> set ps \<longrightarrow> schema_valid s v))"
proof (cases j)
  case (JObj kvs)
  have "list_all (\<lambda>kv. fst kv \<in> set (map fst ps)) kvs \<longleftrightarrow> (\<forall>k v. map_of kvs k = Some v \<longrightarrow> k \<in> fst ` set ps)"
  proof
    assume "list_all (\<lambda>kv. fst kv \<in> set (map fst ps)) kvs"
    then have "fst kv \<in> fst ` set ps" if "kv \<in> set kvs" for kv using that by (simp add: list_all_iff)
    then show "\<forall>k v. map_of kvs k = Some v \<longrightarrow> k \<in> fst ` set ps" by (metis map_of_SomeD fst_conv)
  next
    assume "\<forall>k v. map_of kvs k = Some v \<longrightarrow> k \<in> fst ` set ps"
    moreover have "\<exists>v. map_of kvs (fst kv) = Some v" if "kv \<in> set kvs" for kv
      using that weak_map_of_SomeI [of "fst kv" "snd kv" kvs] by simp
    ultimately show "list_all (\<lambda>kv. fst kv \<in> set (map fst ps)) kvs" by (auto simp: list_all_iff)
  qed
  then show ?thesis by (auto simp: JObj properties_valid_iff list_all_iff)
qed simp_all

lemma field_set: "json_field k' (json_set k v (JObj kvs)) = (if k' = k then Some v else json_field k' (JObj kvs))"
proof (cases "k' = k")
  case True
  show ?thesis
  proof (cases "json_field k (JObj kvs)")
    case None
    then have "map_of kvs k = None" "k \<notin> set (map fst kvs)" by (simp_all add: map_of_eq_None_iff)
    then show ?thesis using True by (simp add: map_add_def)
  next
    case (Some w)
    then show ?thesis using True field_set_same [of k "JObj kvs" v] by (simp del: json_set.simps)
  qed
next
  case False
  then show ?thesis using field_set_other [of k k' v "JObj kvs"] by (simp del: json_set.simps)
qed

lemma set_object: "\<exists>kvs'. json_set k v (JObj kvs) = JObj kvs'"
  by simp

text \<open>A valid object stays valid when one member gets another valid value.\<close>

lemma closed_update:
  assumes "schema_valid (Schema [KType [TObject], KRequired rs, KClosed ps]) j"
    and "\<And>k'. json_field k' (JObj kvs) = (if k' = k then Some v else json_field k' j)"
    and "k \<in> fst ` set ps" "\<And>s. (k, s) \<in> set ps \<Longrightarrow> schema_valid s v"
  shows "schema_valid (Schema [KType [TObject], KRequired rs, KClosed ps]) (JObj kvs)"
  using assms(1,3,4) unfolding closed_iff assms(2) by auto

lemma closed_set:
  assumes "schema_valid (Schema [KType [TObject], KRequired rs, KClosed ps]) j"
    and "k \<in> fst ` set ps" "\<And>s. (k, s) \<in> set ps \<Longrightarrow> schema_valid s v"
  shows "schema_valid (Schema [KType [TObject], KRequired rs, KClosed ps]) (json_set k v j)"
proof -
  obtain kvs where j: "j = JObj kvs" using assms(1) unfolding closed_iff by blast
  obtain kvs' where set: "json_set k v (JObj kvs) = JObj kvs'" using set_object by blast
  show ?thesis
    unfolding j set by (rule closed_update [OF assms(1), of kvs' k v]) (use assms(2,3) field_set [of _ k v kvs] set j in auto)
qed

subsection \<open>Normalizing keeps a configuration valid\<close>

lemma normalized_role_valid:
  assumes "schema_valid model_role_schema r"
  shows "schema_valid model_role_schema (normalize_role_json r)"
proof -
  obtain kvs where r: "r = JObj kvs" using assms by (cases r) (auto simp: model_role_schema_def)
  show ?thesis
    using assms
    by (cases "map_of kvs ''billing''"; cases "map_of kvs ''pricing''")
      (auto simp: r model_role_schema_def normalize_role_json_def json_get_def split: option.splits)
qed

lemma normalized_models_valid:
  assumes "schema_valid models_schema ms"
  shows "schema_valid models_schema (foldl (\<lambda>ms role. json_set (role_key role)
    (normalize_role_json (json_get (role_key role) ms)) ms) ms roles)"
  using assms
proof (induction roles arbitrary: ms)
  case (Cons role roles)
  let ?ps = "[(''classifier'', model_role_schema), (''weak'', model_role_schema), (''strong'', model_role_schema)]"
  have k: "role_key role \<in> set [''classifier'', ''weak'', ''strong'']" "(role_key role, model_role_schema) \<in> set ?ps"
    by (cases role, simp_all)+
  have "schema_valid model_role_schema (json_get (role_key role) ms)"
    using closed_required [OF Cons.prems [unfolded models_schema_def] k] by blast
  then have "schema_valid models_schema (json_set (role_key role) (normalize_role_json (json_get (role_key role) ms)) ms)"
    unfolding models_schema_def
    by (intro closed_set Cons.prems [unfolded models_schema_def]) (use k(2) in \<open>auto intro: normalized_role_valid image_eqI\<close>)
  then show ?case using Cons.IH by simp
qed simp

lemma normalized_valid:
  assumes "schema_valid lab_config_schema j"
  shows "schema_valid lab_config_schema (normalize_config_json j)"
proof -
  have "schema_valid models_schema (json_get ''models'' j)"
    by (rule closed_required [OF assms [unfolded lab_config_schema_def], of "''models''", THEN conjunct2]) simp_all
  from normalized_models_valid [OF this, of model_roles] show ?thesis
    unfolding normalize_config_json_def lab_config_schema_def
    by (intro closed_set assms [unfolded lab_config_schema_def]) auto
qed

subsection \<open>Taking the threshold out and putting it back\<close>

lemma field_without_threshold:
  "json_field k (config_without_threshold c) =
     (if k = ''routing'' then Some (json_without ''weakThreshold'' (json_get ''routing'' c)) else json_field k c)"
proof -
  have "map_of (filter (\<lambda>kv. fst kv \<noteq> ''routing'') kvs @ [(''routing'', x)]) k =
      (if k = ''routing'' then Some x else map_of kvs k)" for kvs and x :: json
    by (induction kvs) (auto simp: map_add_def)
  then show ?thesis by (cases c) (simp_all add: config_without_threshold_def)
qed

lemma get_without_threshold:
  "k \<noteq> ''routing'' \<Longrightarrow> json_get k (config_without_threshold c) = json_get k c"
  "json_get ''routing'' (config_without_threshold c) = json_without ''weakThreshold'' (json_get ''routing'' c)"
  by (simp_all add: json_get_def [of _ "config_without_threshold c"] field_without_threshold) (simp add: json_get_def)

lemma field_with_threshold:
  "json_field k (config_with_threshold t (config_without_threshold c)) =
     (if k = ''routing''
      then Some (json_set ''weakThreshold'' t (JObj (object_members (json_without ''weakThreshold'' (json_get ''routing'' c)))))
      else json_field k c)"
proof -
  have "JObj (object_members (config_without_threshold c)) = config_without_threshold c"
    by (simp add: config_without_threshold_def)
  moreover obtain kvs where "config_without_threshold c = JObj kvs" by (simp add: config_without_threshold_def)
  ultimately show ?thesis
    using field_without_threshold [of k c] by (auto simp: config_with_threshold_def field_set get_without_threshold simp del: json_set.simps)
qed

lemma with_threshold_object: "\<exists>kvs. config_with_threshold t c = JObj kvs"
  unfolding config_with_threshold_def by (rule set_object)

lemma routing_with_threshold:
  assumes "schema_valid routing_schema r" "0 \<le> t" "t \<le> 1"
  shows "schema_valid routing_schema (json_set ''weakThreshold'' (JNum t) (JObj (object_members (json_without ''weakThreshold'' r))))"
proof -
  obtain kvs where r: "r = JObj kvs" using assms(1) unfolding routing_schema_def closed_iff by blast
  let ?kvs = "filter (\<lambda>kv. fst kv \<noteq> ''weakThreshold'') kvs"
  obtain kvs' where set: "json_set ''weakThreshold'' (JNum t) (JObj ?kvs) = JObj kvs'" using set_object by blast
  have f: "json_field k (JObj kvs') = (if k = ''weakThreshold'' then Some (JNum t) else json_field k r)" for k
    using field_set [of k "''weakThreshold''" "JNum t" ?kvs] field_without [of k "''weakThreshold''" r] set by (simp add: r)
  have m: "object_members (json_without ''weakThreshold'' r) = ?kvs" by (simp add: r)
  show ?thesis
    unfolding m set routing_schema_def
    by (rule closed_update [OF assms(1) [unfolded routing_schema_def] f]) (use assms(2,3) in auto)
qed

lemma rebuilt_config:
  assumes "json_validator ajv" "validate_config ajv c = Inr config" "0 \<le> t" "t \<le> 1"
  shows "\<exists>config'. validate_config ajv (config_with_threshold (JNum t) (config_without_threshold c)) = Inr config'"
proof -
  let ?c = "config_with_threshold (JNum t) (config_without_threshold c)"
  note ajv_standard = json_validator.ajv_standard [OF assms(1)]
  have c: "schema_valid lab_config_schema c" "\<not> request_timeout_seconds (execution (decode_config c)) > timeout_seconds (execution (decode_config c))"
    using assms(2) by (auto simp: validate_config_def ajv_standard Let_def split: if_splits)
  have "schema_valid routing_schema (json_get ''routing'' c)"
    by (rule closed_required [OF c(1) [unfolded lab_config_schema_def], of "''routing''", THEN conjunct2]) simp_all
  note r = routing_with_threshold [OF this assms(3,4)]
  obtain kvs where x: "?c = JObj kvs" using with_threshold_object by blast
  have "schema_valid lab_config_schema ?c"
    unfolding x lab_config_schema_def
    by (rule closed_update [OF c(1) [unfolded lab_config_schema_def], of kvs "''routing''", OF field_with_threshold [of _ "JNum t" c, unfolded x]])
      (use r in auto)
  moreover have "execution (decode_config ?c) = execution (decode_config c)"
    by (simp add: decode_config_def json_get_def field_with_threshold)
  ultimately show ?thesis using c(2) by (simp add: validate_config_def ajv_standard Let_def)
qed

subsection \<open>What a valid policy says\<close>

lemma policy_Inr:
  assumes "validate_frozen_policy ajv digest date_parse p = Inr q"
  shows "q = p" "json_get ''policyId'' p = JStr (digest (json_without ''policyId'' p))" "policy_values_ok date_parse p"
  using assms by (auto simp: validate_frozen_policy_def split: if_splits)

lemma same_policy:
  assumes "validate_frozen_policy ajv digest date_parse p = Inr q" "validate_frozen_policy ajv digest date_parse p' = Inr q'"
    and "json_get ''policyId'' p = json_get ''policyId'' p'"
    and "digest (json_without ''policyId'' p) = digest (json_without ''policyId'' p') \<Longrightarrow>
      json_without ''policyId'' p = json_without ''policyId'' p'"
  shows "json_get k p = json_get k p'"
proof (cases "k = ''policyId''")
  case False
  have "json_without ''policyId'' p = json_without ''policyId'' p'"
    using policy_Inr(2) [OF assms(1)] policy_Inr(2) [OF assms(2)] assms(3) by (intro assms(4)) simp
  with field_without [OF False, of p] field_without [OF False, of p'] show ?thesis by (simp add: json_get_def)
qed (simp add: assms(3))

text \<open>The threshold and the rest of a configuration are all of it.\<close>

lemma config_determined:
  assumes "config_without_threshold c = config_without_threshold c'"
    and "json_get ''weakThreshold'' (json_get ''routing'' c) = json_get ''weakThreshold'' (json_get ''routing'' c')"
  shows "decode_config c = decode_config c'"
proof -
  have g: "json_get k c = json_get k c'" if "k \<noteq> ''routing''" for k
    using get_without_threshold(1) [OF that, of c] get_without_threshold(1) [OF that, of c'] assms(1) by simp
  have w: "json_without ''weakThreshold'' (json_get ''routing'' c) = json_without ''weakThreshold'' (json_get ''routing'' c')"
    using get_without_threshold(2) [of c] get_without_threshold(2) [of c'] assms(1) by simp
  have "''weakCapabilityDescription'' \<noteq> ''weakThreshold''" by simp
  from field_without [OF this, of "json_get ''routing'' c"] field_without [OF this, of "json_get ''routing'' c'"] w
  have "json_get ''weakCapabilityDescription'' (json_get ''routing'' c) = json_get ''weakCapabilityDescription'' (json_get ''routing'' c')"
    by (simp add: json_get_def)
  with assms(2) show ?thesis by (simp add: decode_config_def decode_routing_def g)
qed

lemma heldout_Inr:
  assumes "json_validator ajv" "verify_heldout_policy ajv digest date_parse (Parsed p) (Parsed j) source = Inr q"
  obtains config checked where "q = p" "validate_frozen_policy ajv digest date_parse p = Inr p" "source = Parsed checked"
    "validate_config ajv j = Inr config" "config = decode_config (normalize_config_json j)"
    "heldout_matches p (normalize_config_json j) checked"
proof -
  obtain config checked where *: "validate_frozen_policy ajv digest date_parse p = Inr q" "source = Parsed checked"
    "validate_config ajv j = Inr config" "heldout_matches q (normalize_config_json j) checked"
    using assms(2) by (cases source) (auto simp: verify_heldout_policy_def parsed_def split: if_splits)
  have "q = p" by (rule policy_Inr(1) [OF *(1)])
  moreover have "config = decode_config (normalize_config_json j)"
    using *(3) by (simp add: validate_config_iff [OF assms(1)] decode_normalized)
  ultimately show thesis using that * by simp
qed

subsection \<open>What a new policy holds\<close>

lemma manifest_member:
  assumes "json_validator ajv" "validate_smoke_manifest ajv digest value = Inr m"
    and "k \<in> set manifest_required" "(k, s) \<in> set (manifest_properties 1)" "k \<notin> {''schemaVersion'', ''configuration''}"
  shows "schema_valid s (json_get k (mf_json m))"
proof -
  note ajv_standard = json_validator.ajv_standard [OF assms(1)]
  have j: "mf_json m = json_set ''configuration'' (normalize_config_json (json_get ''configuration'' value)) value"
    by (rule manifest_Inr [OF assms(2)])
  have s2: "(k, s) \<in> set (manifest_properties 2)" using assms(4,5) by (auto simp: manifest_properties_def)
  have "schema_valid (if json_get ''schemaVersion'' value = JNum 2 then manifest_schema_v2 else manifest_schema_v1) value"
    using assms(2) by (auto simp: validate_smoke_manifest_def ajv_standard split: if_splits)
  then have "schema_valid manifest_schema_v2 value \<or> schema_valid manifest_schema_v1 value" by (auto split: if_splits)
  then have "schema_valid s (json_get k value)"
  proof
    assume v: "schema_valid manifest_schema_v2 value"
    show ?thesis
      by (rule closed_required [OF v [unfolded manifest_schema_v2_def], THEN conjunct2]) (use assms(3) s2 in auto)
  next
    assume v: "schema_valid manifest_schema_v1 value"
    show ?thesis
      by (rule closed_required [OF v [unfolded manifest_schema_v1_def], THEN conjunct2]) (use assms(3,4) in auto)
  qed
  moreover have "''configuration'' \<noteq> k" using assms(5) by auto
  ultimately show ?thesis by (simp add: j get_set_other)
qed

lemma manifest_configuration:
  assumes "json_validator ajv" "validate_smoke_manifest ajv digest value = Inr m"
  shows "\<exists>config. validate_config ajv (json_get ''configuration'' (mf_json m)) = Inr config"
proof -
  obtain config where c: "validate_config ajv (json_get ''configuration'' value) = Inr config"
    and j: "mf_json m = json_set ''configuration'' (normalize_config_json (json_get ''configuration'' value)) value"
    by (rule manifest_Inr [OF assms(2)])
  note v = c [unfolded validate_config_iff [OF assms(1)]]
  have "json_field ''configuration'' value \<noteq> None"
  proof
    assume "json_field ''configuration'' value = None"
    with v have "schema_valid lab_config_schema JNull" by (simp add: json_get_def)
    then show False by (simp add: lab_config_schema_def)
  qed
  then have "json_get ''configuration'' (mf_json m) = normalize_config_json (json_get ''configuration'' value)"
    by (simp add: j get_set_same)
  then show ?thesis using v by (auto simp: validate_config_iff [OF assms(1)] normalized_valid decode_normalized)
qed

definition unnamed_policy :: "json option \<Rightarrow> json \<Rightarrow> json \<Rightarrow> json \<Rightarrow> json \<Rightarrow> (string \<times> json) list" where
  "unnamed_policy b created t development prov =
     [(''schemaVersion'', JNum (case b of None \<Rightarrow> 1 | Some _ \<Rightarrow> 2))] @ (case b of None \<Rightarrow> [] | Some v \<Rightarrow> [(''benchmark'', v)]) @
     [(''createdAt'', created), (''threshold'', t), (''development'', development), (''provenance'', prov)]"

lemma unnamed_policy_get:
  fixes b created t development prov h
  defines "p \<equiv> JObj (unnamed_policy b created t development prov @ [(''policyId'', h)])"
  shows "json_get ''schemaVersion'' p = JNum (case b of None \<Rightarrow> 1 | Some _ \<Rightarrow> 2)"
    "json_get ''benchmark'' p = (case b of None \<Rightarrow> JNull | Some v \<Rightarrow> v)" "json_get ''createdAt'' p = created"
    "json_get ''threshold'' p = t" "json_get ''development'' p = development" "json_get ''provenance'' p = prov"
    "json_get ''policyId'' p = h"
  unfolding p_def by (cases b; simp add: unnamed_policy_def json_get_def)+

lemma unnamed_policy_without:
  "json_without ''policyId'' (JObj (unnamed_policy b created t development prov @ [(''policyId'', h)])) =
     JObj (unnamed_policy b created t development prov)"
  by (cases b) (simp_all add: unnamed_policy_def)

lemma unnamed_policy_comparable:
  "json_without ''createdAt'' (JObj (unnamed_policy b created t development prov)) =
     json_without ''createdAt'' (JObj (unnamed_policy b created' t development prov))"
  by (cases b) (simp_all add: unnamed_policy_def)

lemma same_keys: "json_keys (JObj kvs) = ks \<Longrightarrow> distinct ks \<Longrightarrow> distinct keys \<Longrightarrow> set ks = set keys \<Longrightarrow> exact_keys (JObj kvs) keys"
  unfolding exact_keys_def using sort_strings_unique [of ks keys] by simp

lemma unnamed_policy_keys:
  "exact_keys (JObj (unnamed_policy b created t development prov @ [(''policyId'', h)]))
     (policy_keys (JObj (unnamed_policy b created t development prov @ [(''policyId'', h)])))"
proof -
  have keys: "policy_keys (JObj (unnamed_policy b created t development prov @ [(''policyId'', h)])) =
      [''schemaVersion'', ''policyId'', ''createdAt'', ''threshold'', ''development'', ''provenance''] @
      (case b of None \<Rightarrow> [] | Some _ \<Rightarrow> [''benchmark''])"
    unfolding policy_keys_def unnamed_policy_get by (cases b) simp_all
  show ?thesis
    unfolding keys by (rule same_keys [OF refl]; cases b; simp add: unnamed_policy_def) auto
qed

lemma new_policy_eq:
  "new_policy digest result_json m trials t created b =
     JObj (unnamed_policy b (JStr created) (JNum t) (development_json digest result_json m trials) (policy_provenance_json m) @
       [(''policyId'', JStr (digest (JObj (unnamed_policy b (JStr created) (JNum t)
          (development_json digest result_json m trials) (policy_provenance_json m)))))])"
  by (simp add: new_policy_def unnamed_policy_def Let_def)

lemma new_policy_id:
  "json_get ''policyId'' (new_policy digest result_json m trials t created b) =
     JStr (digest (json_without ''policyId'' (new_policy digest result_json m trials t created b)))"
  unfolding new_policy_eq unnamed_policy_get unnamed_policy_without ..

lemma new_policy_comparable:
  "policy_comparable (new_policy digest result_json m trials t created b) = policy_comparable (new_policy digest result_json m trials t created' b)"
  unfolding policy_comparable_def new_policy_eq unnamed_policy_without by (rule unnamed_policy_comparable)

lemma development_members:
  fixes digest result_json m trials
  defines "d \<equiv> development_json digest result_json m trials"
  shows "json_get ''experimentId'' d = json_get ''experimentId'' (mf_json m)"
    "json_get ''manifestHash'' d = json_get ''manifestHash'' (mf_json m)"
    "json_get ''sourceHash'' d = JStr (development_source_hash digest result_json m trials)"
    "json_get ''evidenceKind'' d = json_get ''evidenceKind'' (mf_json m)"
    "json_get ''corpusRevision'' d = JStr (digest (JArr (map task_identity_json (json_items (json_get ''tasks'' (mf_json m))))))"
    "exact_keys d development_keys"
  unfolding d_def by (simp_all add: development_json_def json_get_def exact_keys_def development_keys_def)

lemma provenance_members:
  fixes m defines "d \<equiv> policy_provenance_json m"
  shows "json_get ''authProfile'' d = json_get ''authProfile'' (mf_json m)"
    "json_get ''capabilityCardHash'' d = json_get ''capabilityCardHash'' (json_get ''fingerprints'' (mf_json m))"
    "json_get ''modelMetadataHash'' d = json_get ''modelMetadataHash'' (json_get ''fingerprints'' (mf_json m))"
    "json_get ''providerConfigHash'' d = json_get ''providerConfigHash'' (json_get ''fingerprints'' (mf_json m))"
    "json_get ''configurationWithoutThreshold'' d = config_without_threshold (json_get ''configuration'' (mf_json m))"
    "exact_keys d provenance_keys"
  unfolding d_def by (simp_all add: policy_provenance_json_def Let_def json_get_def exact_keys_def provenance_keys_def)

subsection \<open>The benchmark of a policy\<close>

lemma protocol_of_manifest:
  assumes "make_benchmark_protocol ajv sha digest j t roots prior = Inr b"
  shows "validate_benchmark_protocol ajv digest b = Inr b" "json_get ''evidenceKind'' b = json_get ''evidenceKind'' j"
    "json_get ''configuration'' b = json_set ''routing'' (json_set ''weakThreshold'' (JNum t)
       (json_get ''routing'' (json_get ''configuration'' j))) (json_get ''configuration'' j)"
proof -
  obtain kvs where v: "validate_benchmark_protocol ajv digest (JObj kvs) = Inr b"
    and e: "json_get ''evidenceKind'' (JObj kvs) = json_get ''evidenceKind'' j"
    and c: "json_get ''configuration'' (JObj kvs) = json_set ''routing'' (json_set ''weakThreshold'' (JNum t)
       (json_get ''routing'' (json_get ''configuration'' j))) (json_get ''configuration'' j)"
    using assms
    by (auto simp: make_benchmark_protocol_def Let_def json_get_def [of "''evidenceKind''" "JObj _"]
        json_get_def [of "''configuration''" "JObj _"] simp del: json_set.simps split: if_splits)
  have "b = JObj kvs" using protocol_Inr(1) [OF v] by blast
  with v e c show "validate_benchmark_protocol ajv digest b = Inr b" "json_get ''evidenceKind'' b = json_get ''evidenceKind'' j"
    "json_get ''configuration'' b = json_set ''routing'' (json_set ''weakThreshold'' (JNum t)
       (json_get ''routing'' (json_get ''configuration'' j))) (json_get ''configuration'' j)" by simp_all
qed

lemma without_set: "json_without k (json_set k v j) = json_without k j"
proof (cases j)
  case (JObj kvs)
  have "filter (\<lambda>kv. fst kv \<noteq> k) (map (\<lambda>kv. if fst kv = k then (k, v) else kv) kvs) = filter (\<lambda>kv. fst kv \<noteq> k) kvs"
    by (induction kvs) auto
  then show ?thesis by (simp add: JObj)
qed simp_all

lemma members_without_set: "filter (\<lambda>kv. fst kv \<noteq> k) (object_members (json_set k v j)) = filter (\<lambda>kv. fst kv \<noteq> k) (object_members j)"
proof (cases j)
  case (JObj kvs)
  then show ?thesis using without_set [of k v j] by simp
qed simp_all

text \<open>Setting the threshold of a configuration changes nothing else.\<close>

lemma threshold_set:
  assumes "json_field ''routing'' c = Some r" "json_field ''weakThreshold'' r \<noteq> None"
  shows "config_without_threshold (json_set ''routing'' (json_set ''weakThreshold'' t (json_get ''routing'' c)) c) = config_without_threshold c"
    "json_get ''weakThreshold'' (json_get ''routing'' (json_set ''routing'' (json_set ''weakThreshold'' t (json_get ''routing'' c)) c)) = t"
proof -
  have g: "json_get ''routing'' c = r" using assms(1) by (simp add: json_get_def)
  have "json_get ''routing'' (json_set ''routing'' (json_set ''weakThreshold'' t r) c) = json_set ''weakThreshold'' t r"
    by (rule get_set_same) (simp add: assms(1))
  then show "config_without_threshold (json_set ''routing'' (json_set ''weakThreshold'' t (json_get ''routing'' c)) c) = config_without_threshold c"
    "json_get ''weakThreshold'' (json_get ''routing'' (json_set ''routing'' (json_set ''weakThreshold'' t (json_get ''routing'' c)) c)) = t"
    using assms(2) by (simp_all add: g config_without_threshold_def members_without_set without_set get_set_same)
qed

lemma config_routing:
  assumes "json_validator ajv" "validate_config ajv c = Inr config"
  shows "\<exists>r. json_field ''routing'' c = Some r \<and> json_field ''weakThreshold'' r \<noteq> None"
proof -
  have v: "schema_valid lab_config_schema c" using assms(2) by (simp add: validate_config_iff [OF assms(1)])
  have r: "json_field ''routing'' c = Some (json_get ''routing'' c) \<and> schema_valid routing_schema (json_get ''routing'' c)"
    by (rule closed_required [OF v [unfolded lab_config_schema_def]]) simp_all
  have "json_field ''weakThreshold'' (json_get ''routing'' c) = Some (json_get ''weakThreshold'' (json_get ''routing'' c)) \<and>
      schema_valid (Schema [KType [TNumber], KMinimum 0, KMaximum 1]) (json_get ''weakThreshold'' (json_get ''routing'' c))"
    by (rule closed_required [OF conjunct2 [OF r, unfolded routing_schema_def]]) simp_all
  then have "json_field ''weakThreshold'' (json_get ''routing'' c) \<noteq> None" by (metis option.distinct(1))
  with conjunct1 [OF r] show ?thesis by blast
qed

lemma make_policy_Inr:
  assumes "make_policy ajv sha digest date_ok result_json d options = Inr p"
  obtains t m trials b where "fo_threshold options = Fin t" "0 \<le> t" "t \<le> 1"
    "load_experiment_records ajv digest date_ok d = Inr (m, trials)" "mf_suite m = SuiteDev"
    "\<forall>tr \<in> set trials. tr_outcome tr \<noteq> OutIncomplete" "freeze_benchmark ajv sha digest m t (fo_benchmark options) = Inr b"
    "p = new_policy digest result_json m trials t (fo_created options) b"
  using assms
  by (auto simp: make_policy_def list_ex_iff split: jsnum.splits if_splits)

lemma new_policy_get:
  "json_get ''schemaVersion'' (new_policy digest result_json m trials t created b) = JNum (case b of None \<Rightarrow> 1 | Some _ \<Rightarrow> 2)"
  "json_get ''benchmark'' (new_policy digest result_json m trials t created b) = (case b of None \<Rightarrow> JNull | Some v \<Rightarrow> v)"
  "json_get ''createdAt'' (new_policy digest result_json m trials t created b) = JStr created"
  "json_get ''threshold'' (new_policy digest result_json m trials t created b) = JNum t"
  "json_get ''development'' (new_policy digest result_json m trials t created b) = development_json digest result_json m trials"
  "json_get ''provenance'' (new_policy digest result_json m trials t created b) = policy_provenance_json m"
  unfolding new_policy_eq unnamed_policy_get by (rule refl)+

lemma hash_member: "schema_valid task_hash_string j \<Longrightarrow> pattern_test is_hash j"
  by (cases j) (simp_all add: task_hash_string_def)

lemma string_member: "schema_valid (Schema [KType [TString], KPattern q]) j \<Longrightarrow> is_string_with (\<lambda>_. True) j"
  by (cases j) simp_all

lemma new_policy_values:
  assumes "json_validator ajv" "\<And>x. is_hash (digest x)" "date_parse created" "0 \<le> t" "t \<le> 1"
    and "validate_smoke_manifest ajv digest value = Inr m"
  shows "policy_values_ok date_parse (new_policy digest result_json m trials t created b)"
proof -
  note member = manifest_member [OF assms(1,6)]
  have "schema_valid task_hash_string (json_get ''manifestHash'' (mf_json m))"
    by (rule member) (simp_all add: manifest_required_def manifest_properties_def)
  moreover have "is_string_with (\<lambda>_. True) (json_get ''experimentId'' (mf_json m))"
    by (rule string_member [of is_run_id], rule member) (simp_all add: manifest_required_def manifest_properties_def)
  moreover have "schema_valid (Schema [KEnum [JStr ''mock'', JStr ''live'']]) (json_get ''evidenceKind'' (mf_json m))"
    by (rule member) (simp_all add: manifest_required_def manifest_properties_def)
  moreover have "is_string_with (\<lambda>_. True) (json_get ''authProfile'' (mf_json m))"
    by (rule string_member [of is_profile], rule member) (simp_all add: manifest_required_def manifest_properties_def)
  moreover have prints: "schema_valid fingerprints_schema (json_get ''fingerprints'' (mf_json m))"
    by (rule member) (simp_all add: manifest_required_def manifest_properties_def)
  moreover have "schema_valid task_hash_string (json_get k (json_get ''fingerprints'' (mf_json m)))"
    if "k \<in> {''capabilityCardHash'', ''modelMetadataHash'', ''providerConfigHash''}" for k
    by (rule closed_required [OF prints [unfolded fingerprints_schema_def], THEN conjunct2]) (use that in auto)
  ultimately show ?thesis
    using assms(2-5)
    unfolding policy_values_ok_def Let_def new_policy_get new_policy_id development_members provenance_members
    by (cases b) (simp_all add: hash_member development_source_hash_def)
qed

lemma new_policy_valid:
  assumes "json_validator ajv" "\<And>x. is_hash (digest x)" "date_parse created" "0 \<le> t" "t \<le> 1"
    and "validate_smoke_manifest ajv digest manifest_file = Inr m" "freeze_benchmark ajv sha digest m t options = Inr b"
  shows "validate_frozen_policy ajv digest date_parse (new_policy digest result_json m trials t created b) =
    Inr (new_policy digest result_json m trials t created b)"
proof -
  let ?p = "new_policy digest result_json m trials t created b"
  obtain config where c: "validate_config ajv (json_get ''configuration'' (mf_json m)) = Inr config"
    using manifest_configuration [OF assms(1,6)] ..
  obtain config' where c': "validate_config ajv (config_with_threshold (JNum t)
      (config_without_threshold (json_get ''configuration'' (mf_json m)))) = Inr config'"
    using rebuilt_config [OF assms(1) c assms(4,5)] ..
  obtain r where r: "json_field ''routing'' (json_get ''configuration'' (mf_json m)) = Some r" "json_field ''weakThreshold'' r \<noteq> None"
    using config_routing [OF assms(1) c] by blast
  have "policy_benchmark_ok ajv digest ?p = Inr ()"
  proof (cases b)
    case (Some protocol)
    then obtain roots prior where "make_benchmark_protocol ajv sha digest (mf_json m) t roots prior = Inr protocol"
      using assms(7) by (auto simp: freeze_benchmark_def split: option.splits)
    note made = protocol_of_manifest [OF this]
    show ?thesis
      unfolding policy_benchmark_ok_def Let_def new_policy_get development_members provenance_members
      by (simp add: Some made threshold_set [OF r] lift_error_def)
  qed (simp add: policy_benchmark_ok_def new_policy_get)
  moreover have "exact_keys ?p (policy_keys ?p)" unfolding new_policy_eq by (rule unnamed_policy_keys)
  moreover have "policy_values_ok date_parse ?p" by (rule new_policy_values) (use assms(1-6) in auto)
  ultimately show ?thesis
    using c' by (simp add: validate_frozen_policy_def new_policy_get development_members provenance_members new_policy_id lift_error_def)
qed

subsection \<open>An example\<close>

definition dev_ids :: "string list" where
  "dev_ids = core_dev"

lemma dev_ids: "corpus_tasks ''core'' SuiteDev = Inr dev_ids" "list_all is_task_id dev_ids"
  "distinct dev_ids" "set dev_ids \<subseteq> set all_task_ids"
  by code_simp+

definition dev_sched :: "scheduled_trial list" where
  "dev_sched = (case evaluation_schedule dev_ids 7 (Fin 1) of Inr s \<Rightarrow> s | _ \<Rightarrow> [])"

lemma dev_sched: "evaluation_schedule dev_ids 7 (Fin 1) = Inr dev_sched" "length dev_sched = 18"
proof -
  show s: "evaluation_schedule dev_ids 7 (Fin 1) = Inr dev_sched"
    by (simp add: dev_sched_def evaluation_schedule_def repetitions_ok_def split_def Let_def)
  show "length dev_sched = 18" using schedule_length [OF s] by (simp add: dev_ids_def core_dev_def)
qed

definition dev_tasks_json :: "json list" where
  "dev_tasks_json = map (\<lambda>t. manifest_task_json t (example_loaded t)) dev_ids"

text \<open>The example of a manifest, for the development suite.\<close>

definition dev_value :: json where
  "dev_value = json_set ''suite'' (JStr ''dev'') (json_set ''tasks'' (JArr dev_tasks_json)
     (json_set ''schedule'' (JArr (map trial_json dev_sched)) example_value))"

abbreviation dev_manifest :: smoke_manifest where
  "dev_manifest \<equiv> decode_manifest dev_value bounded_config"

lemma dev_tasks_valid: "schema_valid manifest_tasks_schema (JArr dev_tasks_json)"
proof -
  have "list_all (schema_valid (Schema
    [KType [TObject], KRequired [''id'', ''taskHash'', ''sourceHash'', ''validatorHash'', ''publicPrompt''],
     KClosed
       [(''id'', task_id_schema), (''taskHash'', task_hash_string), (''sourceHash'', task_hash_string),
        (''validatorHash'', task_hash_string), (''publicPrompt'', task_text)]])) dev_tasks_json"
    using dev_ids(4)
    by (auto simp: dev_tasks_json_def list_all_iff manifest_task_json_def example_loaded_def example_task_def
        task_id_schema_def task_hash_string_def task_text_def example_sha_hash example_strings simp del: replicate.simps)
  moreover have "length dev_tasks_json = 6" by (simp add: dev_tasks_json_def dev_ids_def core_dev_def)
  ultimately show ?thesis by (simp add: manifest_tasks_schema_def)
qed

lemma dev_schedule_valid: "schema_valid (Schema [KType [TArray], KMinItems 9, KMaxItems 12600, KItems manifest_trial_schema])
    (JArr (map trial_json dev_sched))"
proof -
  have "list_all (schema_valid manifest_trial_schema) (map trial_json dev_sched)"
    using schedule_trial_valid [of dev_ids 7 1 dev_sched] dev_sched(1) dev_ids(4) by (simp add: list_all_iff)
  then show ?thesis by (simp add: dev_sched(2))
qed

lemma dev_value_valid: "schema_valid manifest_schema_v1 dev_value"
  unfolding dev_value_def manifest_schema_v1_def
  by (intro closed_set example_value_valid [unfolded manifest_schema_v1_def])
    (use dev_tasks_valid dev_schedule_valid in \<open>auto simp: manifest_properties_def\<close>)

lemma dev_value_get:
  "json_get ''schemaVersion'' dev_value = JNum 1" "manifest_corpus dev_value = ''core''"
  "json_get ''suite'' dev_value = JStr ''dev''" "json_get ''seed'' dev_value = JNum 7"
  "json_get ''repetitions'' dev_value = JNum 1" "json_get ''tasks'' dev_value = JArr dev_tasks_json"
  "json_get ''schedule'' dev_value = JArr (map trial_json dev_sched)"
  "json_get ''configuration'' dev_value = config_json bounded_config"
  "json_get ''manifestHash'' dev_value = JStr example_hash"
  "json_set ''configuration'' (config_json bounded_config) dev_value = dev_value"
  "json_get ''experimentId'' dev_value = JStr ''e1''" "json_get ''evidenceKind'' dev_value = JStr ''mock''"
  "json_get ''authProfile'' dev_value = JStr ''default''"
  "json_get ''fingerprints'' dev_value = json_get ''fingerprint'' example_check"
  "json_get ''roles'' dev_value = json_get ''models'' (config_json bounded_config)"
  by (simp_all add: dev_value_def example_value_def example_members_def json_get_def manifest_corpus_def)

lemma dev_task_names: "map (\<lambda>t. json_str (json_get ''id'' t)) dev_tasks_json = dev_ids"
  by (simp add: dev_tasks_json_def manifest_task_json_def json_get_def comp_def)

lemma dev_fields:
  "mf_seed dev_manifest = 7" "mf_repetitions dev_manifest = 1" "mf_schedule dev_manifest = dev_sched"
  "map mt_id (mf_tasks dev_manifest) = dev_ids" "mf_suite dev_manifest = SuiteDev" "mf_evidence dev_manifest = MockEvidence"
  "mf_experiment dev_manifest = ''e1''" "mf_auth_profile dev_manifest = ''default''" "mf_json dev_manifest = dev_value"
  "mf_fingerprint dev_manifest = decode_fingerprint (json_get ''fingerprint'' example_check)"
  "mf_tasks dev_manifest = map decode_manifest_task dev_tasks_json"
proof -
  have "mt_id (decode_manifest_task t) = json_str (json_get ''id'' t)" for t by (simp add: decode_manifest_task_def)
  then show "map mt_id (mf_tasks dev_manifest) = dev_ids"
    using dev_task_names by (simp add: decode_manifest_def dev_value_get comp_def)
qed (simp_all add: decode_manifest_def dev_value_get comp_def decode_suite_def)

lemma dev_accepted: "validate_smoke_manifest schema_valid const_digest dev_value = Inr dev_manifest"
proof -
  have config: "validate_config schema_valid (config_json bounded_config) = Inr bounded_config"
    by (simp add: validate_config_iff standard.json_validator_axioms bounded_config_wf config_accepted)
  have "identities_ok dev_manifest dev_ids"
    by (rule schedule_identities) (simp_all add: dev_fields(1-4) dev_sched dev_ids)
  then show ?thesis
    by (simp add: validate_smoke_manifest_def dev_value_get dev_value_valid version2_checks_def decode_suite_def
        dev_ids dev_task_names config config_json_normal dev_fields(1-4) dev_sched)
qed

text \<open>Every trial of the example ran into its time limit.\<close>

definition dev_result :: "scheduled_trial \<Rightarrow> run_result" where
  "dev_result e = example_result
     \<lparr>rs_identity := (rs_identity example_result)\<lparr>ai_experiment := Some ''e1'', ai_task := Some (se_task e),
        ai_repetition := Some (se_repetition e), ai_attempt := se_attempt e\<rparr>,
      rs_mode := se_mode e, rs_status := StTimeout,
      rs_provenance := example_provenance\<lparr>pv_task_hash := Some (example_sha ''y''),
        pv_source_hash := Some (replicate 64 (CHR ''b'')), pv_validator_hash := Some (replicate 64 (CHR ''b''))\<rparr>\<rparr>"

definition dev_directory :: experiment_directory where
  "dev_directory = \<lparr>ed_manifest = dev_value, ed_protocol = JNull,
     ed_attempts = map_of (map (\<lambda>e. (se_attempt e, \<lparr>ae_log = True,
       ae_files = \<lparr>af_lines = [], af_truncated = False, af_patch = [], af_result = ResultStored (dev_result e)\<rparr>,
       ae_submission = False\<rparr>)) dev_sched)\<rparr>"

lemma dev_result_valid:
  assumes "se_attempt e \<noteq> []" "se_task e \<noteq> []"
  shows "validate_run_result (\<lambda>_. True) (dev_result e) = Inr (dev_result e)"
proof -
  have "provenance_schema (rs_provenance (dev_result e))"
    using example_provenance_ok by (simp add: dev_result_def provenance_schema_def optional_def example_provenance_def example_strings example_sha_hash)
  then show ?thesis
    using assms example_result_valid
    by (simp add: validate_run_result_def dev_result_def example_result_def build_result_def example_finalize_def
        example_new_def example_options_def run_result_schema_def store_identity_def example_identity_def
        identity_wf_def optional_def durations_schema_def costs_schema_def role_cost_schema_def
        example_role_cost_def split: if_splits)
qed

lemma dev_member:
  assumes "e \<in> set dev_sched"
  shows "se_task e \<in> set dev_ids" "se_task e \<noteq> []" "se_attempt e \<noteq> []" "se_attempts e \<noteq> []"
    "se_attempts e = se_attempt e # tl (se_attempts e)"
    "ed_attempts dev_directory (se_attempt e) = Some \<lparr>ae_log = True,
       ae_files = \<lparr>af_lines = [], af_truncated = False, af_patch = [], af_result = ResultStored (dev_result e)\<rparr>,
       ae_submission = False\<rparr>"
proof -
  have d: "evaluation_schedule dev_ids 7 (Fin (real 1)) = Inr dev_sched" using dev_sched(1) by simp
  note e = schedule_member [OF d assms]
  show "se_task e \<in> set dev_ids" by (rule e(2))
  moreover have "[] \<notin> set dev_ids" by code_simp
  ultimately show "se_task e \<noteq> []" by metis
  have ids: "se_attempts e = attempt_ids (se_trial e)" "se_attempt e = hd (se_attempts e)" if "e \<in> set dev_sched" for e
    using schedule_member(1) [OF d that] by (metis schedule_entry_fields(5,6), metis schedule_entry_fields(6,7))
  have some: "attempt_ids t \<noteq> []" for t
  proof -
    have "length (attempt_ids t) \<noteq> length ([] :: string list)" by (simp add: max_attempts_per_trial_def)
    then show ?thesis by metis
  qed
  show ne: "se_attempts e \<noteq> []" using some ids(1) [OF assms] by simp
  then show "se_attempts e = se_attempt e # tl (se_attempts e)" using ids(2) [OF assms] by simp
  have "schema_valid manifest_trial_schema (trial_json e)"
    using schedule_trial_valid [OF d assms] dev_ids(4) by simp
  then have "schema_valid slug_schema (JStr (se_attempt e))"
    using closed_required [of _ _ _ "trial_json e" "''attemptId''" slug_schema]
    by (simp add: manifest_trial_schema_def trial_json_def)
  then show "se_attempt e \<noteq> []" by (auto simp: slug_schema_def is_attempt_slug_def is_slug_def)
  have "se_attempt x = se_attempt y \<Longrightarrow> x = y" if "x \<in> set dev_sched" "y \<in> set dev_sched" for x y
  proof -
    assume eq: "se_attempt x = se_attempt y"
    have "se_attempt z \<in> set (attempt_ids (se_trial z))" if "z \<in> set dev_sched" for z
      using ids [OF that] some [of "se_trial z"] by simp
    then have "se_trial x = se_trial y" using that eq attempt_ids_disjoint by metis
    then show "x = y" using schedule_trials_distinct [OF dev_sched(1) dev_ids(3)] that by (auto simp: distinct_map dest: inj_onD)
  qed
  moreover have "distinct dev_sched" using schedule_trials_distinct [OF dev_sched(1) dev_ids(3)] by (simp add: distinct_map)
  ultimately have "distinct (map se_attempt dev_sched)" by (auto simp: distinct_map inj_on_def)
  then show "ed_attempts dev_directory (se_attempt e) = Some \<lparr>ae_log = True,
       ae_files = \<lparr>af_lines = [], af_truncated = False, af_patch = [], af_result = ResultStored (dev_result e)\<rparr>,
       ae_submission = False\<rparr>"
    using assms by (auto simp: dev_directory_def comp_def intro!: map_of_is_SomeI)
qed

lemma dev_task: "task \<in> set dev_ids \<Longrightarrow> find (\<lambda>t. mt_id t = task) (mf_tasks dev_manifest) =
    Some (decode_manifest_task (manifest_task_json task (example_loaded task)))"
proof -
  have "task \<in> set ids \<Longrightarrow> find (\<lambda>t. mt_id t = task) (map (\<lambda>t. decode_manifest_task (manifest_task_json t (example_loaded t))) ids) =
      Some (decode_manifest_task (manifest_task_json task (example_loaded task)))" for ids
    by (induction ids) (auto simp: decode_manifest_task_def manifest_task_json_def json_get_def)
  then show "task \<in> set dev_ids \<Longrightarrow> ?thesis" by (simp add: dev_fields dev_tasks_json_def comp_def)
qed

lemma dev_checked:
  assumes "e \<in> set dev_sched"
  shows "check_record dev_manifest e (se_attempt e) (dev_result e) = Inr ()"
  using dev_member(1) [OF assms]
  by (simp add: check_record_def dev_task report_task_ok_def report_fingerprint_ok_def dev_fields(5-8,10) routed_source_ok_def)
    (simp add: dev_result_def example_result_def build_result_def example_finalize_def example_new_def example_options_def
      example_provenance_def decode_fingerprint_def example_check_def json_get_def decode_manifest_task_def
      manifest_task_json_def example_loaded_def example_task_def store_identity_def example_identity_def)

lemma dev_trial:
  assumes "e \<in> set dev_sched"
  shows "load_trial schema_valid (\<lambda>_. True) (ed_attempts dev_directory) dev_manifest e = Inr
    \<lparr>tr_trial = se_trial e, tr_task = se_task e, tr_repetition = se_repetition e, tr_mode = se_mode e, tr_outcome = OutFail,
     tr_result = Some (dev_result e), tr_physical = [dev_result e], tr_incomplete = 0\<rparr>"
proof -
  note e = dev_member [OF assms]
  have "classify_trial_outcome (dev_result e) = OutFail" by (simp add: classify_trial_outcome_def dev_result_def)
  moreover have "load_attempts schema_valid (\<lambda>_. True) (ed_attempts dev_directory) dev_manifest e [] 0 None
      (se_attempt e # tl (se_attempts e)) = Inr ([dev_result e], 0, Some (dev_result e))"
    by (simp add: e(6) read_entry_def read_attempt_def dev_result_valid e(2,3) dev_checked [OF assms] lift_error_def
        is_evaluated_def calculation)
  ultimately show ?thesis by (simp add: load_trial_def e(5) [symmetric])
qed

lemma dev_loaded:
  obtains trials where "load_experiment_records schema_valid const_digest (\<lambda>_. True) dev_directory = Inr (dev_manifest, trials)"
    "\<forall>t \<in> set trials. tr_outcome t = OutFail"
proof -
  have "\<exists>trials. map_result (load_trial schema_valid (\<lambda>_. True) (ed_attempts dev_directory) dev_manifest) es = Inr trials \<and>
      (\<forall>t \<in> set trials. tr_outcome t = OutFail)" if "set es \<subseteq> set dev_sched" for es
    using that by (induction es) (auto simp: dev_trial)
  from this [of dev_sched] obtain trials where
    "map_result (load_trial schema_valid (\<lambda>_. True) (ed_attempts dev_directory) dev_manifest) dev_sched = Inr trials"
    "\<forall>t \<in> set trials. tr_outcome t = OutFail" by blast
  with that show thesis
    by (simp add: load_experiment_records_def read_smoke_manifest_def dev_directory_def [THEN arg_cong, of ed_manifest]
        dev_accepted dev_fields lift_error_def)
qed

definition example_freeze :: freeze_options where
  "example_freeze = \<lparr>fo_threshold = Fin (1 / 2), fo_created = ''2026-02-01'', fo_benchmark = None\<rparr>"

lemma example_made:
  "\<exists>p. make_policy schema_valid example_sha const_digest (\<lambda>_. True) (\<lambda>_. JNull) dev_directory example_freeze = Inr p"
proof -
  obtain trials where "load_experiment_records schema_valid const_digest (\<lambda>_. True) dev_directory = Inr (dev_manifest, trials)"
    "\<forall>t \<in> set trials. tr_outcome t = OutFail" by (rule dev_loaded)
  then show ?thesis
    by (auto simp: make_policy_def example_freeze_def lift_error_def dev_fields list_ex_iff freeze_benchmark_def)
qed

subsection \<open>Properties\<close>

text \<open>C20: Freezing a development experiment that has no policy writes one that reads back: it is valid, it holds
  the threshold that was asked for, the experiment was a complete development experiment, and freezing it
  again with the same threshold, at whatever time, gives the same policy and writes nothing.\<close>

theorem frozen_policy_reads_back:
  assumes "json_validator ajv" and "\<And>x. is_hash (digest x)" and "date_parse (fo_created options)"
    and "freeze_policy ajv sha digest date_ok date_parse result_json d options NoPolicy = (file, Inr p)"
  shows "file = StoredPolicy p \<and> validate_frozen_policy ajv digest date_parse p = Inr p \<and>
    (\<exists>t m trials. fo_threshold options = Fin t \<and> json_get ''threshold'' p = JNum t \<and> 0 \<le> t \<and> t \<le> 1 \<and>
       load_experiment_records ajv digest date_ok d = Inr (m, trials) \<and> mf_suite m = SuiteDev \<and>
       (\<forall>tr \<in> set trials. tr_outcome tr \<noteq> OutIncomplete)) \<and>
    freeze_policy ajv sha digest date_ok date_parse result_json d (options\<lparr>fo_created := later\<rparr>) file = (file, Inr p)"
proof -
  have made: "make_policy ajv sha digest date_ok result_json d options = Inr p" and stored: "file = StoredPolicy p"
    using assms(4) by (auto simp: freeze_policy_def split: sum.splits)
  obtain t m trials b where m: "fo_threshold options = Fin t" "0 \<le> t" "t \<le> 1"
    "load_experiment_records ajv digest date_ok d = Inr (m, trials)" "mf_suite m = SuiteDev"
    "\<forall>tr \<in> set trials. tr_outcome tr \<noteq> OutIncomplete" "freeze_benchmark ajv sha digest m t (fo_benchmark options) = Inr b"
    "p = new_policy digest result_json m trials t (fo_created options) b"
    using make_policy_Inr [OF made] by blast
  have manifest: "validate_smoke_manifest ajv digest (ed_manifest d) = Inr m"
    using m(4) by (auto simp: load_experiment_records_def read_smoke_manifest_def)
  have valid: "validate_frozen_policy ajv digest date_parse p = Inr p"
    unfolding m(8) by (rule new_policy_valid [where manifest_file = "ed_manifest d" and sha = sha and options = "fo_benchmark options"])
      (use assms(1-3) m(2,3,7) manifest in auto)
  have "\<exists>p'. make_policy ajv sha digest date_ok result_json d (options\<lparr>fo_created := later\<rparr>) = Inr p' \<and> policy_comparable p = policy_comparable p'"
    using made m(1,8) new_policy_comparable [of digest result_json m trials t "fo_created options" b later]
    by (auto simp: make_policy_def m(4,7) split: if_splits)
  then show ?thesis
    using m(1-6) valid by (auto simp: stored freeze_policy_def m(8) new_policy_get)
qed

theorem frozen_policy_reads_back_witness:
  "\<exists>p. freeze_policy schema_valid example_sha const_digest (\<lambda>_. True) (\<lambda>_. True) (\<lambda>_. JNull) dev_directory example_freeze NoPolicy =
      (StoredPolicy p, Inr p) \<and>
    validate_frozen_policy schema_valid const_digest (\<lambda>_. True) p = Inr p \<and>
    freeze_policy schema_valid example_sha const_digest (\<lambda>_. True) (\<lambda>_. True) (\<lambda>_. JNull) dev_directory
      (example_freeze\<lparr>fo_created := ''2026-03-01''\<rparr>) (StoredPolicy p) = (StoredPolicy p, Inr p)"
proof -
  obtain p where f: "freeze_policy schema_valid example_sha const_digest (\<lambda>_. True) (\<lambda>_. True) (\<lambda>_. JNull) dev_directory
      example_freeze NoPolicy = (StoredPolicy p, Inr p)"
    using example_made by (auto simp: freeze_policy_def)
  have "is_hash example_hash" by code_simp
  then show ?thesis
    using frozen_policy_reads_back [OF standard.json_validator_axioms _ _ f, of "''2026-03-01''"] f by auto
qed

text \<open>Freezing again and again, from whatever records and with whatever thresholds.\<close>

fun freeze_runs :: "(schema \<Rightarrow> json \<Rightarrow> bool) \<Rightarrow> (string \<Rightarrow> string) \<Rightarrow> (json \<Rightarrow> string) \<Rightarrow> (string \<Rightarrow> bool)
    \<Rightarrow> (string \<Rightarrow> bool) \<Rightarrow> (run_result \<Rightarrow> json) \<Rightarrow> (experiment_directory \<times> freeze_options) list \<Rightarrow> policy_file
    \<Rightarrow> policy_file \<times> (policy_error + json) list" where
  "freeze_runs ajv sha digest date_ok date_parse result_json [] file = (file, [])"
| "freeze_runs ajv sha digest date_ok date_parse result_json ((d, options) # runs) file =
     (let (file1, r) = freeze_policy ajv sha digest date_ok date_parse result_json d options file;
          (file2, rs) = freeze_runs ajv sha digest date_ok date_parse result_json runs file1
      in (file2, r # rs))"

lemma freeze_stored:
  "freeze_policy ajv sha digest date_ok date_parse result_json d options (StoredPolicy p) = (file, r) \<Longrightarrow>
     file = StoredPolicy p \<and> (case r of Inl e \<Rightarrow> True | Inr q \<Rightarrow> q = p \<and>
       (\<exists>policy. make_policy ajv sha digest date_ok result_json d options = Inr policy \<and> policy_comparable policy = policy_comparable p))"
  by (auto simp: freeze_policy_def dest: policy_Inr(1) split: sum.splits if_splits) (metis policy_Inr(1))+

lemma freeze_success:
  assumes "freeze_policy ajv sha digest date_ok date_parse result_json d options file = (file1, Inr p)"
  shows "file1 = StoredPolicy p"
  using assms by (auto simp: freeze_policy_def dest: policy_Inr(1) split: sum.splits policy_file.splits if_splits)

text \<open>C21: A frozen policy is immutable: once freezing has succeeded, no sequence of later attempts to freeze,
  from whatever records and with whatever thresholds, changes the file, and each of them that succeeds
  gives the same policy and would itself have frozen exactly that policy, up to its time and name.\<close>

theorem frozen_policy_immutable:
  assumes "freeze_policy ajv sha digest date_ok date_parse result_json d options file = (file1, Inr p)"
    and "freeze_runs ajv sha digest date_ok date_parse result_json runs file1 = (file2, results)"
  shows "file2 = StoredPolicy p \<and> list_all2 (\<lambda>(d', options') r. case r of Inl e \<Rightarrow> True | Inr q \<Rightarrow> q = p \<and>
      (\<exists>policy. make_policy ajv sha digest date_ok result_json d' options' = Inr policy \<and> policy_comparable policy = policy_comparable p))
    runs results"
proof -
  have "file2 = StoredPolicy p \<and> list_all2 (\<lambda>(d', options') r. case r of Inl e \<Rightarrow> True | Inr q \<Rightarrow> q = p \<and>
      (\<exists>policy. make_policy ajv sha digest date_ok result_json d' options' = Inr policy \<and> policy_comparable policy = policy_comparable p))
    runs results" if "freeze_runs ajv sha digest date_ok date_parse result_json runs (StoredPolicy p) = (file2, results)"
    using that
  proof (induction runs arbitrary: results)
    case (Cons run runs)
    obtain d' options' where run: "run = (d', options')" by fastforce
    obtain f r where f: "freeze_policy ajv sha digest date_ok date_parse result_json d' options' (StoredPolicy p) = (f, r)" by fastforce
    note stored = freeze_stored [OF f]
    obtain rs where "freeze_runs ajv sha digest date_ok date_parse result_json runs (StoredPolicy p) = (file2, rs)" "results = r # rs"
      using Cons.prems f stored by (auto simp: run split: prod.splits)
    then show ?case using Cons.IH stored by (simp add: run)
  qed simp
  with assms(2) freeze_success [OF assms(1)] show ?thesis by simp
qed

theorem frozen_policy_immutable_witness:
  "\<exists>p results. freeze_policy schema_valid example_sha const_digest (\<lambda>_. True) (\<lambda>_. True) (\<lambda>_. JNull) dev_directory
      example_freeze NoPolicy = (StoredPolicy p, Inr p) \<and>
    freeze_runs schema_valid example_sha const_digest (\<lambda>_. True) (\<lambda>_. True) (\<lambda>_. JNull)
      [(dev_directory, example_freeze\<lparr>fo_threshold := Fin (3 / 4)\<rparr>), (dev_directory, example_freeze)] (StoredPolicy p) =
      (StoredPolicy p, results)"
proof -
  obtain p where f: "freeze_policy schema_valid example_sha const_digest (\<lambda>_. True) (\<lambda>_. True) (\<lambda>_. JNull) dev_directory
      example_freeze NoPolicy = (StoredPolicy p, Inr p)"
    using example_made by (auto simp: freeze_policy_def)
  obtain file2 results where r: "freeze_runs schema_valid example_sha const_digest (\<lambda>_. True) (\<lambda>_. True) (\<lambda>_. JNull)
      [(dev_directory, example_freeze\<lparr>fo_threshold := Fin (3 / 4)\<rparr>), (dev_directory, example_freeze)] (StoredPolicy p) = (file2, results)"
    by fastforce
  from frozen_policy_immutable [OF f r] f r show ?thesis by blast
qed

text \<open>C19: A policy pins the configuration of the held-out runs: when two held-out experiments are verified against
  policies of one identity, they run with the same configuration, which holds the policy's threshold, profile
  and model of every role, unless SHA-256 collided on the policies.\<close>

theorem heldout_configuration_pinned:
  assumes "json_validator ajv"
    and "verify_heldout_policy ajv digest date_parse (Parsed p) (Parsed j) source = Inr q"
    and "verify_heldout_policy ajv digest date_parse (Parsed p') (Parsed j') source' = Inr q'"
    and "json_get ''policyId'' p = json_get ''policyId'' p'"
    and "digest (json_without ''policyId'' p) = digest (json_without ''policyId'' p') \<Longrightarrow>
      json_without ''policyId'' p = json_without ''policyId'' p'"
  shows "\<exists>config. validate_config ajv j = Inr config \<and> validate_config ajv j' = Inr config \<and>
    json_get ''threshold'' p = JNum (weak_threshold (routing config)) \<and>
    json_get ''authProfile'' (json_get ''provenance'' p) = JStr (auth_profile config) \<and>
    (\<forall>role. models config role =
      normalize_role (decode_role (json_get (role_key role) (json_get ''roles'' (json_get ''provenance'' p)))))"
proof -
  obtain c x where a: "q = p" "validate_frozen_policy ajv digest date_parse p = Inr p" "validate_config ajv j = Inr c"
    "c = decode_config (normalize_config_json j)" "heldout_matches p (normalize_config_json j) x"
    by (rule heldout_Inr [OF assms(1,2)])
  obtain c' x' where b: "q' = p'" "validate_frozen_policy ajv digest date_parse p' = Inr p'" "validate_config ajv j' = Inr c'"
    "c' = decode_config (normalize_config_json j')" "heldout_matches p' (normalize_config_json j') x'"
    by (rule heldout_Inr [OF assms(1,3)])
  note same = same_policy [OF a(2) b(2) assms(4,5)]
  have "c = c'"
    unfolding a(4) b(4) using a(5) b(5) same by (intro config_determined) (simp_all add: heldout_matches_def Let_def)
  moreover have "json_get ''threshold'' p = JNum (weak_threshold (routing c))"
  proof -
    have "is_threshold (json_get ''threshold'' p)" using policy_Inr(3) [OF a(2)] by (simp add: policy_values_ok_def Let_def)
    then obtain t where "json_get ''threshold'' p = JNum t" by (cases "json_get ''threshold'' p") simp_all
    with a(5) show ?thesis by (simp add: a(4) heldout_matches_def Let_def decode_config_def decode_routing_def)
  qed
  moreover have "json_get ''authProfile'' (json_get ''provenance'' p) = JStr (auth_profile c)"
  proof -
    have "is_string_with (\<lambda>_. True) (json_get ''authProfile'' (json_get ''provenance'' p))"
      using policy_Inr(3) [OF a(2)] by (simp add: policy_values_ok_def Let_def)
    then obtain s where "json_get ''authProfile'' (json_get ''provenance'' p) = JStr s"
      by (cases "json_get ''authProfile'' (json_get ''provenance'' p)") simp_all
    with a(5) show ?thesis by (simp add: a(4) heldout_matches_def Let_def decode_config_def)
  qed
  moreover have "models c role =
      normalize_role (decode_role (json_get (role_key role) (json_get ''roles'' (json_get ''provenance'' p))))" for role
    using a(5) by (simp add: a(4) heldout_matches_def Let_def decode_config_def)
  ultimately show ?thesis using a(3) b(3) by blast
qed

definition heldout_config :: lab_config where
  "heldout_config = bounded_config\<lparr>routing := (routing bounded_config)\<lparr>weak_threshold := 1 / 2\<rparr>\<rparr>"

definition heldout_check :: json where
  "heldout_check = JObj
     [(''authProfile'', JStr ''default''),
      (''fingerprint'', JObj [(''capabilityCardHash'', JStr example_hash), (''modelMetadataHash'', JStr example_hash),
         (''providerConfigHash'', JStr example_hash)])]"

lemma example_heldout:
  "\<exists>p. verify_heldout_policy schema_valid const_digest (\<lambda>_. True) (Parsed p) (Parsed (config_json heldout_config))
    (Parsed heldout_check) = Inr p"
proof -
  have hash: "is_hash example_hash" by code_simp
  let ?p = "new_policy const_digest (\<lambda>_. JNull) dev_manifest [] (1 / 2) ''t'' None"
  have "validate_frozen_policy schema_valid const_digest (\<lambda>_. True) ?p = Inr ?p"
    by (rule new_policy_valid [OF standard.json_validator_axioms _ _ _ _ dev_accepted, where sha = example_sha and options = None])
      (simp_all add: hash freeze_benchmark_def)
  moreover have "validate_config schema_valid (config_json heldout_config) = Inr heldout_config"
  proof -
    have "config_wf heldout_config"
      using bounded_config_wf by (simp add: config_wf_def heldout_config_def routing_wf_def)
    then show ?thesis using config_roundtrip [of heldout_config]
      by (simp add: validate_config_iff [OF standard.json_validator_axioms] config_accepted)
  qed
  moreover have "heldout_matches ?p (config_json heldout_config) heldout_check"
  proof -
    have roles: "json_get ''roles'' (policy_provenance_json dev_manifest) = json_get ''models'' (config_json bounded_config)"
      by (simp add: policy_provenance_json_def Let_def dev_fields(9) dev_value_get(15) json_get_def [of _ "JObj _"])
    have config: "json_get ''weakThreshold'' (json_get ''routing'' (config_json heldout_config)) = JNum (1 / 2)"
      "config_without_threshold (config_json heldout_config) = config_without_threshold (config_json bounded_config)"
      "json_get ''authProfile'' (config_json heldout_config) = JStr ''default''"
      "json_get ''models'' (config_json heldout_config) = json_get ''models'' (config_json bounded_config)"
      by (simp_all add: heldout_config_def bounded_config_def example_config_def config_json_def routing_json_def
          json_get_def config_without_threshold_def)
    show ?thesis
      unfolding heldout_matches_def Let_def new_policy_get provenance_members roles config dev_fields(9) dev_value_get
      by (simp add: heldout_check_def example_check_def json_get_def)
  qed
  ultimately show ?thesis
    by (intro exI [of _ ?p]) (simp add: verify_heldout_policy_def parsed_def lift_error_def config_json_normal)
qed

theorem heldout_configuration_pinned_witness:
  "\<exists>p. verify_heldout_policy schema_valid const_digest (\<lambda>_. True) (Parsed p) (Parsed (config_json heldout_config))
      (Parsed heldout_check) = Inr p \<and>
    json_get ''threshold'' p = JNum (weak_threshold (routing heldout_config))"
proof -
  obtain p where v: "verify_heldout_policy schema_valid const_digest (\<lambda>_. True) (Parsed p) (Parsed (config_json heldout_config))
      (Parsed heldout_check) = Inr p"
    using example_heldout by blast
  obtain config where "validate_config schema_valid (config_json heldout_config) = Inr config"
    "json_get ''threshold'' p = JNum (weak_threshold (routing config))"
    using heldout_configuration_pinned [OF standard.json_validator_axioms v v refl refl] by blast
  moreover have "config = heldout_config" if "validate_config schema_valid (config_json heldout_config) = Inr config" for config
    using that config_roundtrip [of heldout_config] by (simp add: validate_config_iff [OF standard.json_validator_axioms])
  ultimately show ?thesis using v by blast
qed

end
