(* ===== verification/Spec2Isabelle.thy ===== *)
theory Spec2Isabelle
  imports Session_Guard Benchmark Validator Recorder Replay Policy
begin

text \<open>
  Downshift is a laboratory that lets a classifier decide, once per coding session, whether a cheap
  (weak) or an expensive (strong) model serves the session, and that measures what this costs and
  what it loses. This development models the core of its TypeScript (under src/src/) and proves what
  makes that core correct.

  The parts and how they interact. A configuration (config/lab-config.ts) fixes the models of the
  three roles, the routing threshold and the limits of an execution; a fingerprint pins it together
  with what the providers report. A session is run by the Pi coding agent. The routing controller
  (pi/session-routing.ts) asks the bridge (bridge/client.ts, bridge/protocol.ts) for a decision before
  the first request, stores it durably, and installs a guard in the session that lets a request
  through only under that decision, with its model and within the limits. The recorder
  (artifacts/runtime-recorder.ts) listens to the controller and to Pi and writes the artifacts of the
  attempt (artifacts/run-artifacts.ts, artifacts/usage.ts): an event log, the usage of every call, a
  patch and one final result. An experiment (evaluation/smoke.ts) runs every task of a suite
  (evaluation/corpus.ts, evaluation/task.ts) in three modes and a seeded order under a monetary cap;
  each attempt works on a copy of a fixture, what it changed is exported as a submission
  (evaluation/workspace.ts), and the submission is checked on a fresh copy (evaluation/validator.ts).
  The records are reported, aggregated, replayed at other thresholds (evaluation/analysis.ts), and
  frozen: a development experiment as a policy, a benchmark as a protocol (evaluation/benchmark.ts).

  Which theory models what; operations keep the names of the source in lower case with underscores.

  \<^item> Lab_Prelude: results that may be errors, JavaScript numbers (js_add rounds a sum of counts to
    the nearest double, ties to even), library calls on lists, the patterns that name identities.
  \<^item> Json_Schema: parsed JSON with members in insertion order and the JSON-Schema keywords the source
    writes. The locale json_validator states what is relied on of Ajv.
  \<^item> Lab_Config, Fingerprint: config/lab-config.ts. Records and their JSON, the schema, validateConfig,
    the common envelope of the models; canonical JSON, the filter of secrets and the fingerprint.
  \<^item> Keyed_Store, Usage_Ledger: artifacts/usage.ts over the locale once_store (an entry is recorded
    once under an identity): normalization, the ledger, its summaries, the cost of a role.
  \<^item> Bridge: bridge/protocol.ts and bridge/client.ts. Frames and the exchange that resolves a decision,
    as a function of the lines the bridge writes.
  \<^item> Routing_Decision, Session_Routing, Session_Guard: pi/session-routing.ts and
    pi/execution-failure.ts. The decision record and its store (locale durable_store), creating and
    restoring a decision, and the guard as a state machine with one step per handler of a Pi event.
  \<^item> Run_Events, Run_Artifacts: artifacts/run-artifacts.ts. The schemas of the events, the attempt
    store with its three files as state, reading, attaching a validation, the outcome of a trial.
  \<^item> Recorder: artifacts/runtime-recorder.ts. The recorder as a state machine over the events of the
    controller and of Pi; a handler that throws leaves what it has done, and the session goes on.
  \<^item> Schedule: evaluation/corpus.ts and the seeded part of evaluation/smoke.ts on 32-bit words (locale
    random_source).
  \<^item> Task_Definition, Benchmark: evaluation/task.ts, evaluation/benchmark.ts, evaluation/records.ts.
  \<^item> Evaluation_Budget, Evaluation_Manifest, Manifest_Identity, Evaluation_Run, Evaluation_Report: the
    rest of evaluation/smoke.ts: the plan and its bounds, the manifest, spending, the next action and
    resuming, the report and the exit code.
  \<^item> Submission: evaluation/workspace.ts on an explicit file system.
  \<^item> Validator: evaluation/validator.ts, a check as the events of its child process.
  \<^item> Statistics, Trial_Records, Analysis, Replay, Policy: evaluation/analysis.ts. Intervals and bootstrap,
    loading the trials, the aggregate report, the replay of thresholds and the random control, and the
    frozen policies that close a development experiment and admit a held-out one.

  What the lemmas show. Each theory proves an invariant of its state and that every operation keeps it
  (controller_wf and the lock of Session_Guard, attempt_inv of Run_Artifacts, rec_inv, ids_inv and
  store_step of Recorder, log_wf for the event log), what each operation returns on every branch, and
  the laws of the locales on the model's own operations. The properties, numbered C1 and so on in the
  text before each, are stated over these definitions: routing (one decision per session, no request
  under another model, no request beyond the turns), artifacts (what is written reads back unless an
  event was refused, every call that ended is counted once or was refused, and the outcome is
  exactly what the session noted), experiments (a fair seeded schedule, manifests and protocols that
  pin what they run, a monetary cap that bounds the real bill whenever each trial stays within its
  reserve, a controller that ends, a report that accounts for every trial), submissions and
  validation (a pass judges exactly the files the agent left), and analysis (every trial, decision
  and sample is counted once). Some properties say where the code does less than it means to:
  unattributed_error_rejected, rejected_event_breaks_log, compaction_exceeds_bound,
  unlogged_attempt_unreported and a part of recorded_attempt_reads_back; so do the lemmas
  open_requests_uncounted (Recorder), missing_usage_counts_as_free (Evaluation_Run) and
  tied_keys_reordered (Fingerprint).

  Parameters. What is not source of the repository is an argument: Ajv (ajv), the date formats
  (date_ok), SHA-256 of JSON and of bytes (digest, sha), the collation of localeCompare (le), the
  regular expressions that scrub secrets out of a text (scrub), how a frame is written
  (transport), the classifier, the setup command of a task and the processes of a check, JSON.parse on
  files, clocks, random identities, git diff and the texts of errors. Where a property needs something
  of them it is a hypothesis: Ajv follows the standard, two digests that are equal come from equal
  values, and localeCompare orders all keys, where different keys may tie (locale collation). What an
  attempt was really billed is a function the program does not see (bill in Evaluation_Run); the
  monetary cap is stated about it, with what is assumed of the recorded costs as a hypothesis.

  Numbers. Token counts are naturals below 2^53 whose sums round as doubles; counts a provider reports
  may be any number, NaN and the infinities included. Prices, costs, rates and statistics are exact
  reals, where the program rounds; the edges of the calibration bins and the replayed thresholds are
  the doubles the program computes, written as fractions. The generator works on 32-bit words.

  Bounds. A trial has at most 16 attempts and the controller needs at most 2 * 16 = 32 rounds per
  trial, so the fuel of its loop is 32 rounds for each trial of the schedule, and
  evaluation_terminates shows that it is enough. A check captures at most 1 MiB of output. A
  calibration has 5 bins, a replay 11 thresholds, a bootstrap 2000 resamples. All other loops are
  structural.

  Atomicity. The program is single-threaded and queues the writes of an attempt, so a handler is one
  step and a write is one step. A write the recorder does not await happens at once in the model; if its
  promise rejects, the failure is kept in rc_write_error and surfaces at the next flush. An event that is
  refused is no such failure: appendEvent checks it before it makes a promise, so the error is thrown
  out of the handler, which leaves what it has done (track_event). Failures of the file system itself
  are not modelled.

  Not modelled, and why. Processes and terminals: the child process of the bridge, its timeouts and
  cancellation frame, Docker and the launcher (launcher/), the sessions inside the container
  (container/), the command lines (evaluation/cli.ts, evaluation/smoke-cli.ts) and the readiness,
  probe and verification commands, whose content is starting other programs and printing. Pi itself,
  the construction of a Pi session and the scripted providers of the tests (pi/runtime.ts,
  pi/mock-provider.ts, mock/server.ts): they consist of calls of third-party packages. The reporter
  loaded into the test process (evaluation/validation-guard.ts, evaluation/validation-reporter.ts): its
  lines are the events a check reads. Rendering to markdown and durable file output. The Rust side of
  the bridge (rust/), a wrapper of an external classifier: what it writes is an argument of Bridge.
\<close>

end
